(* ===== verification/Prelude.thy ===== *)
theory Prelude
  imports Main "HOL-Library.Word" "HOL-Library.AList"
begin

text \<open>
  Shared vocabulary of the development: bytes and Go strings, the functions of Go's
  strings, encoding/binary, encoding/hex and strconv packages that the sources call, association
  lists for Go maps, 64-bit durations, and the hint collections used by the component theories.

  A Go string and a Go byte slice are both a list of 8-bit characters here. The string functions
  are exact on ASCII text; the extra Unicode white space and case pairs that Go's versions know
  are not modelled.
\<close>

named_theorems go_strings \<open>definitions of the string functions, for evaluation\<close>
named_theorems inv_intros \<open>one rule per operation: it keeps the component's invariant\<close>
named_theorems frame_simps \<open>fields an operation leaves alone\<close>

type_synonym bytes = string
type_synonym time = int   \<comment> \<open>nanoseconds on Go's internal time line\<close>
type_synonym duration = int   \<comment> \<open>nanoseconds\<close>

section \<open>Strings\<close>

definition HasPrefix :: "string \<Rightarrow> string \<Rightarrow> bool" where
  [go_strings]: "HasPrefix s p \<longleftrightarrow> take (length p) s = p"

definition CutPrefix :: "string \<Rightarrow> string \<Rightarrow> string option" where
  [go_strings]: "CutPrefix s p = (if HasPrefix s p then Some (drop (length p) s) else None)"

definition lower_char :: "char \<Rightarrow> char" where
  [go_strings]: "lower_char c = (let n = of_char c :: nat in if 65 \<le> n \<and> n \<le> 90 then char_of (n + 32) else c)"

definition ToLower :: "string \<Rightarrow> string" where
  [go_strings]: "ToLower s = map lower_char s"

definition EqualFold :: "string \<Rightarrow> string \<Rightarrow> bool" where
  [go_strings]: "EqualFold a b \<longleftrightarrow> ToLower a = ToLower b"

definition is_space :: "char \<Rightarrow> bool" where
  [go_strings]: "is_space c \<longleftrightarrow> of_char c \<in> {9, 10, 11, 12, 13, 32 :: nat}"

definition TrimLeftSpace :: "string \<Rightarrow> string" where
  [go_strings]: "TrimLeftSpace s = dropWhile is_space s"

definition TrimSpace :: "string \<Rightarrow> string" where
  [go_strings]: "TrimSpace s = rev (dropWhile is_space (rev (dropWhile is_space s)))"

definition TrimRight :: "string \<Rightarrow> char \<Rightarrow> string" where
  [go_strings]: "TrimRight s c = rev (dropWhile (\<lambda>x. x = c) (rev s))"

text \<open>strings.Split with a one-byte separator: never empty, one more part than separators.\<close>

fun Split :: "char \<Rightarrow> string \<Rightarrow> string list" where
  "Split c [] = [[]]"
| "Split c (x # xs) =
     (if x = c then [] # Split c xs
      else (case Split c xs of [] \<Rightarrow> [[x]] | y # ys \<Rightarrow> (x # y) # ys))"

text \<open>strings.Fields: maximal runs of non-space bytes.\<close>

fun Fields_acc :: "string \<Rightarrow> string \<Rightarrow> string list" where
  "Fields_acc acc [] = (if acc = [] then [] else [rev acc])"
| "Fields_acc acc (x # xs) =
     (if is_space x then (if acc = [] then Fields_acc [] xs else rev acc # Fields_acc [] xs)
      else Fields_acc (x # acc) xs)"

definition Fields :: "string \<Rightarrow> string list" where
  [go_strings]: "Fields s = Fields_acc [] s"

fun Join :: "string list \<Rightarrow> string \<Rightarrow> string" where
  "Join [] sep = []"
| "Join [x] sep = x"
| "Join (x # y # xs) sep = x @ sep @ Join (y # xs) sep"

text \<open>strings.ReplaceAll with a one-byte pattern.\<close>

definition ReplaceAll :: "string \<Rightarrow> char \<Rightarrow> string \<Rightarrow> string" where
  [go_strings]: "ReplaceAll s c r = concat (map (\<lambda>x. if x = c then r else [x]) s)"

fun Contains :: "string \<Rightarrow> string \<Rightarrow> bool" where
  "Contains s sub = (HasPrefix s sub \<or> (case s of [] \<Rightarrow> False | _ # t \<Rightarrow> Contains t sub))"

declare Contains.simps [simp del]

text \<open>strings.IndexByte together with the two halves around the byte.\<close>

fun cut_byte :: "char \<Rightarrow> string \<Rightarrow> (string \<times> string) option" where
  "cut_byte c [] = None"
| "cut_byte c (x # xs) =
     (if x = c then Some ([], xs)
      else (case cut_byte c xs of None \<Rightarrow> None | Some (a, b) \<Rightarrow> Some (x # a, b)))"

lemma HasPrefix_append [simp]: "HasPrefix (p @ s) p"
  by (simp add: HasPrefix_def)

lemma HasPrefixE: "HasPrefix s p \<Longrightarrow> \<exists>t. s = p @ t"
  by (metis HasPrefix_def append_take_drop_id)

lemma CutPrefix_Some_iff: "CutPrefix s p = Some t \<longleftrightarrow> s = p @ t"
proof
  assume "CutPrefix s p = Some t"
  then have "take (length p) s = p" and "t = drop (length p) s"
    by (auto simp: CutPrefix_def HasPrefix_def split: if_splits)
  then show "s = p @ t" by (metis append_take_drop_id)
qed (simp add: CutPrefix_def)

lemma Split_ne [simp]: "Split c s \<noteq> []"
  by (induction s) (auto split: list.splits)

lemma Split_no_sep: "p \<in> set (Split c s) \<Longrightarrow> c \<notin> set p"
  by (induction s arbitrary: p) (fastforce split: if_splits list.splits)+

lemma Split_plain: "ch \<notin> set a \<Longrightarrow> Split ch a = [a]" "ch \<notin> set a \<Longrightarrow> Split ch (a @ ch # r) = a # Split ch r"
  by (induction a) auto

lemma Split_join: "Join (Split c s) [c] = s"
proof (induction s)
  case (Cons x xs)
  obtain y ys where y: "Split c xs = y # ys" by (cases "Split c xs") auto
  with Cons show ?case by (cases ys) auto
qed simp

lemma cut_byte_Some: "cut_byte c s = Some (a, b) \<Longrightarrow> s = a @ c # b \<and> c \<notin> set a"
  by (induction s arbitrary: a) (auto split: if_splits option.splits)

lemma cut_byte_None: "cut_byte c s = None \<longleftrightarrow> c \<notin> set s"
  by (induction s) (auto split: option.splits)

lemma cut_byte_append: "c \<notin> set a \<Longrightarrow> cut_byte c (a @ c # b) = Some (a, b)"
  by (induction a) auto

lemma Fields_acc_nospace:
  "\<forall>c \<in> set acc. \<not> is_space c \<Longrightarrow> f \<in> set (Fields_acc acc s) \<Longrightarrow>
   f \<noteq> [] \<and> (\<forall>c \<in> set f. \<not> is_space c)"
proof (induction acc s rule: Fields_acc.induct)
  case (1 acc)
  then show ?case by (auto split: if_splits)
next
  case (2 acc x xs)
  show ?case
  proof (cases "is_space x")
    case True
    with 2(5) have "f \<in> set (Fields_acc [] xs) \<or> acc \<noteq> [] \<and> f = rev acc"
      by (simp split: if_splits) blast
    then show ?thesis
    proof
      assume f: "f \<in> set (Fields_acc [] xs)"
      have none: "\<forall>c \<in> set []. \<not> is_space c" by simp
      show ?thesis using 2(1) [OF True _ none f] 2(2) [OF True _ none f] by blast
    next
      assume "acc \<noteq> [] \<and> f = rev acc"
      then have "set f = set acc" "f \<noteq> []" by auto
      then show ?thesis using 2(4) by metis
    qed
  next
    case False
    then have "f \<in> set (Fields_acc (x # acc) xs)" using 2(5) by simp
    moreover have "\<forall>c \<in> set (x # acc). \<not> is_space c" using 2(4) False by simp
    ultimately show ?thesis using 2(3) [OF False] by blast
  qed
qed

lemma Fields_nospace: "f \<in> set (Fields s) \<Longrightarrow> f \<noteq> [] \<and> (\<forall>c \<in> set f. \<not> is_space c)"
  using Fields_acc_nospace [of "[]" f s] by (simp add: Fields_def)

section \<open>Integers\<close>

text \<open>Go's int and time.Duration are 64-bit two's complement: arithmetic wraps.\<close>

definition wrap64 :: "int \<Rightarrow> int" where
  "wrap64 i = (i + 2 ^ 63) mod 2 ^ 64 - 2 ^ 63"

definition second :: duration where "second = 1000000000"

definition minute :: duration where "minute = 60 * second"

lemma wrap64_id: "- (2 ^ 63) \<le> i \<Longrightarrow> i < 2 ^ 63 \<Longrightarrow> wrap64 i = i"
  by (simp add: wrap64_def)

lemma wrap64_range: "- (2 ^ 63) \<le> wrap64 i \<and> wrap64 i < 2 ^ 63"
proof -
  have "0 \<le> m mod 2 ^ 64" "m mod 2 ^ 64 < 2 ^ 64" for m :: int by simp_all
  moreover have "(2 :: int) ^ 64 = 2 * 2 ^ 63" by simp
  ultimately show ?thesis unfolding wrap64_def by (intro conjI; smt (verit))
qed

text \<open>
  time.Unix on whole seconds: Go counts from the year 1 in an int64, so the shift wraps; Add
  saturates at the largest representable second. Nanoseconds from the Unix epoch here.
\<close>

definition unix_epoch_shift :: int where "unix_epoch_shift = 62135596800"

definition unix_time :: "int \<Rightarrow> time" where
  "unix_time sec = (wrap64 (sec + unix_epoch_shift) - unix_epoch_shift) * second"

definition max_time :: time where "max_time = (2 ^ 63 - 1 - unix_epoch_shift) * second"

definition time_add :: "time \<Rightarrow> duration \<Rightarrow> time" where
  "time_add t d = (if t + d > max_time then max_time else t + d)"

text \<open>time.Time's zero value.\<close>

definition zero_time :: time where "zero_time = - (unix_epoch_shift * second)"

text \<open>strconv.ParseInt in base 10 with 64 bits, the rule encoding/json uses for int64 fields.\<close>

definition digit_val :: "char \<Rightarrow> nat option" where
  [go_strings]: "digit_val c = (let n = of_char c :: nat in if 48 \<le> n \<and> n \<le> 57 then Some (n - 48) else None)"

fun parse_digits :: "int \<Rightarrow> string \<Rightarrow> int option" where
  "parse_digits acc [] = Some acc"
| "parse_digits acc (c # cs) =
     (case digit_val c of None \<Rightarrow> None | Some d \<Rightarrow> parse_digits (10 * acc + int d) cs)"

definition in_int64 :: "int \<Rightarrow> bool" where
  [go_strings]: "in_int64 i \<longleftrightarrow> - (2 ^ 63) \<le> i \<and> i < 2 ^ 63"

definition parse_int64 :: "string \<Rightarrow> int option" where
  [go_strings]: "parse_int64 s =
    (let (neg, ds) = (case s of CHR ''-'' # t \<Rightarrow> (True, t) | CHR ''+'' # t \<Rightarrow> (False, t) | _ \<Rightarrow> (False, s))
     in if ds = [] then None
        else (case parse_digits 0 ds of None \<Rightarrow> None
              | Some n \<Rightarrow> (let v = (if neg then - n else n) in if in_int64 v then Some v else None)))"

text \<open>Decimal rendering (fmt's percent d on non-negative values).\<close>

fun show_nat :: "nat \<Rightarrow> string" where
  "show_nat n = (if n < 10 then [char_of (48 + n)] else show_nat (n div 10) @ [char_of (48 + n mod 10)])"

declare show_nat.simps [simp del]

section \<open>Binary encodings\<close>

text \<open>binary.BigEndian.PutUint32, LittleEndian.PutUint32 / Uint32, BigEndian.Uint64 and big.Int.SetBytes.\<close>

definition put_u32_be :: "32 word \<Rightarrow> bytes" where
  "put_u32_be w = map (\<lambda>i. char_of (unat w div 256 ^ i)) [3, 2, 1, 0]"

definition put_u32_le :: "32 word \<Rightarrow> bytes" where
  "put_u32_le w = map (\<lambda>i. char_of (unat w div 256 ^ i)) [0, 1, 2, 3]"

definition be_nat :: "bytes \<Rightarrow> nat" where
  "be_nat bs = foldl (\<lambda>acc c. 256 * acc + of_char c) 0 bs"

definition le_nat :: "bytes \<Rightarrow> nat" where
  "le_nat bs = foldr (\<lambda>c acc. of_char c + 256 * acc) bs 0"

definition get_u32_le :: "bytes \<Rightarrow> 32 word" where
  "get_u32_le bs = of_nat (le_nat (take 4 bs))"

lemma length_put_u32_be [simp]: "length (put_u32_be w) = 4"
  by (simp add: put_u32_be_def)

lemma length_put_u32_le [simp]: "length (put_u32_le w) = 4"
  by (simp add: put_u32_le_def)

lemma u32_bytes_sum:
  assumes "(n :: nat) < 2 ^ 32"
  shows "n mod 256 + 256 * (n div 256 mod 256 + 256 * (n div 65536 mod 256 + 256 * (n div 16777216))) = n"
proof -
  have div_step: "m div 256 mod 256 = m div 256 - 256 * (m div 65536)" for m :: nat
    using div_mult2_eq [of m 256 256] by (simp add: minus_mult_div_eq_mod)
  have "m = m mod 256 + 256 * (m div 256)" for m :: nat by simp
  moreover have "n div 256 div 256 = n div 65536" "n div 65536 div 256 = n div 16777216"
    by (simp_all add: div_mult2_eq [symmetric])
  ultimately show ?thesis by (metis add.commute)
qed

lemma le_nat_put: "le_nat (put_u32_le w) = unat w"
proof -
  have "unat w < 2 ^ 32" using unsigned_less [of w, where ?'a = nat] by simp
  moreover from this have "unat w div 16777216 mod 256 = unat w div 16777216"
    by (simp add: less_mult_imp_div_less)
  ultimately show ?thesis using u32_bytes_sum [of "unat w"]
    by (simp add: le_nat_def put_u32_le_def of_char_of)
qed

lemma get_put_u32_le [simp]: "get_u32_le (put_u32_le w @ rest) = w"
  by (simp add: get_u32_le_def le_nat_put)

lemma be_nat_put: "be_nat (put_u32_be w) = unat w"
proof -
  have "unat w < 2 ^ 32" using unsigned_less [of w, where ?'a = nat] by simp
  moreover from this have "unat w div 16777216 mod 256 = unat w div 16777216"
    by (simp add: less_mult_imp_div_less)
  ultimately show ?thesis using u32_bytes_sum [of "unat w"]
    by (simp add: be_nat_def put_u32_be_def of_char_of algebra_simps)
qed

lemma put_u32_be_inj: "put_u32_be v = put_u32_be w \<Longrightarrow> v = w"
  by (metis be_nat_put word_unat_eq_iff)

text \<open>encoding/hex: EncodeToString (lower case) and DecodeString (both cases, even length).\<close>

definition hex_digit :: "nat \<Rightarrow> char" where
  "hex_digit n = (if n < 10 then char_of (48 + n) else char_of (87 + n))"

definition hex_val :: "char \<Rightarrow> nat option" where
  "hex_val c = (let n = of_char c :: nat in
     if 48 \<le> n \<and> n \<le> 57 then Some (n - 48)
     else if 97 \<le> n \<and> n \<le> 102 then Some (n - 87)
     else if 65 \<le> n \<and> n \<le> 70 then Some (n - 55) else None)"

definition hex_encode :: "bytes \<Rightarrow> string" where
  "hex_encode bs = concat (map (\<lambda>c. [hex_digit (of_char c div 16), hex_digit (of_char c mod 16)]) bs)"

fun hex_decode :: "string \<Rightarrow> bytes option" where
  "hex_decode [] = Some []"
| "hex_decode [_] = None"
| "hex_decode (a # b # cs) =
     (case (hex_val a, hex_val b, hex_decode cs) of
        (Some x, Some y, Some r) \<Rightarrow> Some (char_of (16 * x + y) # r) | _ \<Rightarrow> None)"

lemma of_char_less_256: "(of_char c :: nat) < 256"
  by (rule nat_of_char_less_256)

lemma hex_val_digit: "n < 16 \<Longrightarrow> hex_val (hex_digit n) = Some n"
  by (auto simp: hex_val_def hex_digit_def Let_def of_char_of)

lemma hex_decode_encode [simp]: "hex_decode (hex_encode bs) = Some bs"
proof (induction bs)
  case (Cons c cs)
  have "of_char c div 16 < (16 :: nat)" using of_char_less_256 [of c]
    by (simp add: less_mult_imp_div_less)
  then show ?case using Cons
    by (simp add: hex_encode_def hex_val_digit)
qed (simp add: hex_encode_def)

lemma length_hex_encode [simp]: "length (hex_encode bs) = 2 * length bs"
  by (induction bs) (auto simp: hex_encode_def)

text \<open>TrimSpace keeps a string's hex form, which the key files rely on.\<close>

lemma hex_digit_not_space: "n < 16 \<Longrightarrow> \<not> is_space (hex_digit n)"
  by (auto simp: is_space_def hex_digit_def of_char_of)

lemma hex_encode_no_space: "ch \<in> set (hex_encode bs) \<Longrightarrow> \<not> is_space ch"
proof (induction bs)
  case (Cons b bs)
  have "(of_char b :: nat) div 16 < 16" using of_char_less_256 [of b] by (simp add: less_mult_imp_div_less)
  then have "\<not> is_space (hex_digit (of_char b div 16))" "\<not> is_space (hex_digit (of_char b mod 16))"
    by (simp_all add: hex_digit_not_space)
  with Cons show ?case by (auto simp: hex_encode_def)
qed (simp add: hex_encode_def)

lemma TrimSpace_id: "\<forall>c \<in> set s. \<not> is_space c \<Longrightarrow> TrimSpace s = s"
proof -
  assume s: "\<forall>c \<in> set s. \<not> is_space c"
  have drop: "dropWhile is_space xs = xs" if "\<forall>c \<in> set xs. \<not> is_space c" for xs
    using that by (cases xs) auto
  show ?thesis using s drop [of s] drop [of "rev s"] by (simp add: TrimSpace_def)
qed

lemma TrimSpace_hex [simp]: "TrimSpace (hex_encode bs) = hex_encode bs"
  by (simp add: TrimSpace_id hex_encode_no_space)

section \<open>Go maps as association lists\<close>

text \<open>
  A Go map is an association list with one entry per key; ranging over it walks the list. Go
  ranges in an unspecified order, so a result that depends on the list's order is a result that
  depends on that choice.
\<close>

abbreviation map_get :: "('k \<times> 'v) list \<Rightarrow> 'k \<Rightarrow> 'v option" where
  "map_get al k \<equiv> map_of al k"

abbreviation map_put :: "'k \<Rightarrow> 'v \<Rightarrow> ('k \<times> 'v) list \<Rightarrow> ('k \<times> 'v) list" where
  "map_put k v al \<equiv> AList.update k v al"

abbreviation map_del :: "'k \<Rightarrow> ('k \<times> 'v) list \<Rightarrow> ('k \<times> 'v) list" where
  "map_del k al \<equiv> AList.delete k al"

abbreviation go_map :: "('k \<times> 'v) list \<Rightarrow> bool" where
  "go_map al \<equiv> distinct (map fst al)"

lemma map_get_put: "map_get (map_put k v al) k' = (if k' = k then Some v else map_get al k')"
  by (simp add: update_conv')

lemma map_get_del: "map_get (map_del k al) k' = (if k' = k then None else map_get al k')"
  by (simp add: delete_conv')

lemma go_map_put [simp]: "go_map al \<Longrightarrow> go_map (map_put k v al)"
  by (rule distinct_update)

lemma go_map_del [simp]: "go_map al \<Longrightarrow> go_map (map_del k al)"
  by (rule distinct_delete)

lemma go_map_filter [simp]: "go_map al \<Longrightarrow> go_map (filter P al)"
  by (rule distinct_map_filter)

lemma map_get_filter:
  "go_map al \<Longrightarrow> map_get (filter P al) k =
     (case map_get al k of None \<Rightarrow> None | Some v \<Rightarrow> if P (k, v) then Some v else None)"
  by (induction al) (force split: option.splits dest: map_of_SomeD)+

lemma set_put:
  "go_map al \<Longrightarrow> set (map_put k v al) = insert (k, v) {e \<in> set al. fst e \<noteq> k}"
  by (induction al) (auto simp: image_iff)

section \<open>HTTP\<close>

text \<open>The outcome of one client request: a transport error, or a status code and body.\<close>

datatype http_result = HttpFail string | HttpResp nat bytes

section \<open>Sums\<close>

text \<open>The Go idiom of a value and an error, folded into a sum.\<close>

definition is_ok :: "'e + 'a \<Rightarrow> bool" where
  "is_ok r = (case r of Inl _ \<Rightarrow> False | Inr _ \<Rightarrow> True)"

lemma is_ok_simps [simp]: "is_ok (Inr a)" "\<not> is_ok (Inl e)"
  by (simp_all add: is_ok_def)

end
