(* ===== verification/Fs.thy ===== *)
theory Fs
  imports Prelude
begin

text \<open>
  Files (internal/fsutil/atomic.go): a disk maps paths to a mode and contents. WriteFileAtomic is
  modelled as the list of the disks after each of its system calls, the last one being the disk
  it leaves behind, so that a crash between two calls is a prefix of that list. Which call fails,
  and the name CreateTemp picks, come from the environment.
\<close>

record go_file =
  f_mode :: nat
  f_data :: bytes

type_synonym disk = "(string \<times> go_file) list"

datatype fs_err = ErrNotExist | ErrPath string

datatype wfa_fault = NoFault | FailCreate | FailChmod | FailWrite nat | FailClose | FailRename

text \<open>The environment of one atomic write: the failing call and the temporary name.\<close>

type_synonym wfa_env = "wfa_fault \<times> string"

definition mode_0600 :: nat where "mode_0600 = 384"

definition mode_0644 :: nat where "mode_0644 = 420"

definition ReadFile :: "disk \<Rightarrow> string \<Rightarrow> fs_err + bytes" where
  "ReadFile d p = (case map_get d p of None \<Rightarrow> Inl ErrNotExist | Some f \<Rightarrow> Inr (f_data f))"

definition WriteFileAtomic_trace :: "wfa_env \<Rightarrow> string \<Rightarrow> bytes \<Rightarrow> nat \<Rightarrow> disk \<Rightarrow> disk list \<times> fs_err option" where
  "WriteFileAtomic_trace env path data mode d =
    (let (fault, tmp) = env;
         created = map_put tmp \<lparr>f_mode = mode_0600, f_data = []\<rparr> d;
         moded = map_put tmp \<lparr>f_mode = mode, f_data = []\<rparr> d;
         part = (\<lambda>n. map_put tmp \<lparr>f_mode = mode, f_data = take n data\<rparr> d);
         written = map_put tmp \<lparr>f_mode = mode, f_data = data\<rparr> d;
         renamed = map_put path \<lparr>f_mode = mode, f_data = data\<rparr> (map_del tmp d);
         gone = map_del tmp d
     in case fault of
          FailCreate \<Rightarrow> ([d], Some (ErrPath ''create''))
        | FailChmod \<Rightarrow> ([created, gone], Some (ErrPath ''chmod''))
        | FailWrite n \<Rightarrow> ([created, moded, part n, gone], Some (ErrPath ''write''))
        | FailClose \<Rightarrow> ([created, moded, written, gone], Some (ErrPath ''close''))
        | FailRename \<Rightarrow> ([created, moded, written, gone], Some (ErrPath ''rename''))
        | NoFault \<Rightarrow> ([created, moded, written, renamed], None))"

definition WriteFileAtomic :: "wfa_env \<Rightarrow> string \<Rightarrow> bytes \<Rightarrow> nat \<Rightarrow> disk \<Rightarrow> disk \<times> fs_err option" where
  "WriteFileAtomic env path data mode d =
    (case WriteFileAtomic_trace env path data mode d of (ds, e) \<Rightarrow> (last ds, e))"

text \<open>
  os.WriteFile: the file is created or truncated in place and keeps its mode when it exists; a
  failed write leaves a prefix behind.
\<close>

datatype wf_fault = WfOK | WfOpen | WfPartial nat

definition WriteFile :: "wf_fault \<Rightarrow> string \<Rightarrow> bytes \<Rightarrow> nat \<Rightarrow> disk \<Rightarrow> disk \<times> fs_err option" where
  "WriteFile fault path data mode d =
    (let m = (case map_get d path of None \<Rightarrow> mode | Some f \<Rightarrow> f_mode f) in
     case fault of
       WfOpen \<Rightarrow> (d, Some (ErrPath ''open''))
     | WfPartial n \<Rightarrow> (map_put path \<lparr>f_mode = m, f_data = take n data\<rparr> d, Some (ErrPath ''write''))
     | WfOK \<Rightarrow> (map_put path \<lparr>f_mode = m, f_data = data\<rparr> d, None))"

definition path_join :: "string \<Rightarrow> string \<Rightarrow> string" where
  "path_join dir name = dir @ CHR ''/'' # name"

section \<open>What an atomic write guarantees\<close>

lemma WriteFileAtomic_ok_iff: "snd (WriteFileAtomic env path data mode d) = None \<longleftrightarrow> fst env = NoFault"
  by (cases env; cases "fst env") (auto simp: WriteFileAtomic_def WriteFileAtomic_trace_def)

lemma WriteFileAtomic_ok:
  "WriteFileAtomic env path data mode d = (d', None) \<Longrightarrow>
   d' = map_put path \<lparr>f_mode = mode, f_data = data\<rparr> (map_del (snd env) d)"
  by (cases env; cases "fst env") (auto simp: WriteFileAtomic_def WriteFileAtomic_trace_def)

lemma WriteFileAtomic_err:
  "WriteFileAtomic env path data mode d = (d', Some e) \<Longrightarrow> d' = d \<or> d' = map_del (snd env) d"
  by (cases env; cases "fst env") (auto simp: WriteFileAtomic_def WriteFileAtomic_trace_def)

text \<open>
  A file kept by whole-file replacement: the interface the key stores, the pin store and the
  identity files rely on.
\<close>

locale durable_file =
  fixes put :: "'env \<Rightarrow> bytes \<Rightarrow> 'd \<Rightarrow> 'd \<times> fs_err option"
    and got :: "'d \<Rightarrow> bytes option"
    and ok :: "'env \<Rightarrow> bool"
  assumes write_ok: "ok env \<Longrightarrow> put env data d = (d', None) \<Longrightarrow> got d' = Some data"
    and write_err: "ok env \<Longrightarrow> put env data d = (d', Some e) \<Longrightarrow> got d' = got d"
begin

definition run :: "('env \<times> bytes) list \<Rightarrow> 'd \<Rightarrow> 'd" where
  "run ws d = foldl (\<lambda>d w. fst (put (fst w) (snd w) d)) d ws"

text \<open>However many writes fail, the file always holds its first contents or something written whole.\<close>

lemma run_whole:
  "\<forall>w \<in> set ws. ok (fst w) \<Longrightarrow> got (run ws d) = got d \<or> got (run ws d) \<in> (Some \<circ> snd) ` set ws"
proof (induction ws rule: rev_induct)
  case (snoc w ws)
  obtain d' e where w: "put (fst w) (snd w) (run ws d) = (d', e)" by fastforce
  have "got d' = Some (snd w) \<or> got d' = got (run ws d)"
    using write_ok write_err w snoc.prems by (cases e) auto
  moreover have "run (ws @ [w]) d = d'" using w by (simp add: run_def)
  moreover have "got (run ws d) = got d \<or> got (run ws d) \<in> (Some \<circ> snd) ` set ws"
    using snoc by simp
  ultimately show ?case by (simp add: image_iff) metis
qed (simp add: run_def)

end

definition read_path :: "string \<Rightarrow> disk \<Rightarrow> bytes option" where
  "read_path p d = map_option f_data (map_get d p)"

interpretation atomic_file: durable_file
  "\<lambda>env data d. WriteFileAtomic env path data mode d" "read_path path" "\<lambda>env. snd env \<noteq> path"
  for path mode
proof (unfold_locales, goal_cases)
  case (1 env data d d')
  then show ?case by (auto simp: read_path_def map_get_put dest!: WriteFileAtomic_ok)
next
  case (2 env data d d' e)
  then show ?case
    using WriteFileAtomic_err [of env path data mode d d' e] by (auto simp: read_path_def map_get_del)
qed

text \<open>
  C13. A crash at any point of WriteFileAtomic leaves the target with either its old contents or
  all of the new ones, and the temporary file with mode 0600 or the requested one at every moment.
\<close>

theorem WriteFileAtomic_crash_safe:
  assumes "tmp \<noteq> path" "d' \<in> set (fst (WriteFileAtomic_trace (fault, tmp) path data mode d))"
  shows "(map_get d' path = map_get d path \<or> map_get d' path = Some \<lparr>f_mode = mode, f_data = data\<rparr>) \<and>
    (map_get d tmp = None \<longrightarrow> (case map_get d' tmp of None \<Rightarrow> True | Some f \<Rightarrow> f_mode f \<in> {mode_0600, mode}))"
  using assms
  by (cases fault) (auto simp: WriteFileAtomic_trace_def map_get_put map_get_del split: option.splits)

theorem WriteFileAtomic_crash_safe_witness:
  "let d = [(''k'', \<lparr>f_mode = mode_0600, f_data = ''old''\<rparr>)];
       d' = map_put ''t'' \<lparr>f_mode = mode_0600, f_data = ''ne''\<rparr> d
   in d' \<in> set (fst (WriteFileAtomic_trace (FailWrite 2, ''t'') ''k'' ''new'' mode_0600 d)) \<and>
      (map_get d' ''k'' = map_get d ''k'' \<or> map_get d' ''k'' = Some \<lparr>f_mode = mode_0600, f_data = ''new''\<rparr>)"
proof -
  let ?d = "[(''k'', \<lparr>f_mode = mode_0600, f_data = ''old''\<rparr>)]"
  let ?d' = "map_put ''t'' \<lparr>f_mode = mode_0600, f_data = ''ne''\<rparr> ?d"
  have "?d' \<in> set (fst (WriteFileAtomic_trace (FailWrite 2, ''t'') ''k'' ''new'' mode_0600 ?d))"
    by (simp add: WriteFileAtomic_trace_def Let_def)
  then show ?thesis using WriteFileAtomic_crash_safe [of "''t''" "''k''" ?d' "FailWrite 2"] by simp
qed

end
