(* ===== verification/Crypto.thy ===== *)
theory Crypto
  imports Fs
begin

text \<open>
  The cryptographic core of device pairing (internal/pairing/crypto.go, identity.go) and the
  sealed message envelope (internal/lanserve/envelope.go). The primitives of Go's crypto packages
  are a record of functions; what a result relies on is a named law of that record. A P-256
  public key is its SEC1 bytes and a private key its scalar bytes. Randomness is an argument: a
  private key or nonce, or nothing when the random source fails.
\<close>

record crypto =
  c_sha256 :: "bytes \<Rightarrow> bytes"
  c_hmac :: "bytes \<Rightarrow> bytes \<Rightarrow> bytes"   \<comment> \<open>HMAC-SHA256 of key and message\<close>
  c_hkdf :: "bytes \<Rightarrow> bytes \<Rightarrow> string \<Rightarrow> nat \<Rightarrow> bytes option"   \<comment> \<open>secret, salt, info, length\<close>
  c_pub_ok :: "bytes \<Rightarrow> bool"   \<comment> \<open>Curve().NewPublicKey accepts\<close>
  c_priv_ok :: "bytes \<Rightarrow> bool"   \<comment> \<open>Curve().NewPrivateKey accepts\<close>
  c_pub :: "bytes \<Rightarrow> bytes"   \<comment> \<open>the public key of a private key\<close>
  c_ecdh :: "bytes \<Rightarrow> bytes \<Rightarrow> bytes option"   \<comment> \<open>own private key, peer public key\<close>
  c_ecdsa :: "nat \<times> nat \<Rightarrow> bytes \<Rightarrow> nat \<Rightarrow> nat \<Rightarrow> bool"   \<comment> \<open>key, digest, r, s\<close>
  c_seal :: "bytes \<Rightarrow> bytes \<Rightarrow> bytes \<Rightarrow> bytes"   \<comment> \<open>AES-256-GCM: key, nonce, plaintext\<close>
  c_open :: "bytes \<Rightarrow> bytes \<Rightarrow> bytes \<Rightarrow> bytes option"

section \<open>Documented laws of the primitives\<close>

definition dh_law :: "crypto \<Rightarrow> bool" where
  "dh_law c \<longleftrightarrow> (\<forall>a b. c_priv_ok c a \<longrightarrow> c_priv_ok c b \<longrightarrow>
     c_pub_ok c (c_pub c a) \<and> c_ecdh c a (c_pub c b) = c_ecdh c b (c_pub c a))"

definition aead_law :: "crypto \<Rightarrow> bool" where
  "aead_law c \<longleftrightarrow> (\<forall>k n p. c_open c k n (c_seal c k n p) = Some p \<and> length (c_seal c k n p) = length p + 16)"

section \<open>Transcript\<close>

definition kdfInfo :: string where "kdfInfo = ''onesilo-pairing-v1''"
definition SessionKeyLen :: nat where "SessionKeyLen = 32"
definition NonceLen :: nat where "NonceLen = 16"
definition confirmLabelApp :: string where "confirmLabelApp = ''onesilo-pairing-confirm-app''"
definition confirmLabelNode :: string where "confirmLabelNode = ''onesilo-pairing-confirm-node''"
definition sasInfo :: string where "sasInfo = ''onesilo-pairing-sas''"

record Transcript =
  t_AppIDPub :: bytes
  t_NodeIDPub :: bytes
  t_AppEphPub :: bytes
  t_NodeEphPub :: bytes
  t_AppNonce :: bytes
  t_NodeNonce :: bytes
  t_AssertionSHA :: bytes

definition transcript_fields :: "Transcript \<Rightarrow> bytes list" where
  "transcript_fields t = [t_AppIDPub t, t_NodeIDPub t, t_AppEphPub t, t_NodeEphPub t,
     t_AppNonce t, t_NodeNonce t, t_AssertionSHA t]"

text \<open>uint32(len(f)) wraps for fields of 4 GiB and more.\<close>

definition length_prefixed :: "bytes \<Rightarrow> bytes" where
  "length_prefixed f = put_u32_be (of_nat (length f)) @ f"

definition transcript_bytes :: "Transcript \<Rightarrow> bytes" where
  "transcript_bytes t = concat (map length_prefixed (transcript_fields t))"

definition Transcript_Hash :: "crypto \<Rightarrow> Transcript \<Rightarrow> bytes" where
  "Transcript_Hash c t = c_sha256 c (transcript_bytes t)"

definition DeriveSessionKey :: "crypto \<Rightarrow> bytes \<Rightarrow> bytes \<Rightarrow> bytes \<Rightarrow> bytes option" where
  "DeriveSessionKey c eeShared ssShared transcriptHash =
     c_hkdf c (eeShared @ ssShared) transcriptHash kdfInfo SessionKeyLen"

definition ConfirmMAC :: "crypto \<Rightarrow> bytes \<Rightarrow> string \<Rightarrow> bytes \<Rightarrow> bytes" where
  "ConfirmMAC c sessionKey label transcriptHash = c_hmac c sessionKey (label @ transcriptHash)"

definition AppConfirm :: "crypto \<Rightarrow> bytes \<Rightarrow> bytes \<Rightarrow> bytes" where
  "AppConfirm c sessionKey th = ConfirmMAC c sessionKey confirmLabelApp th"

definition NodeConfirm :: "crypto \<Rightarrow> bytes \<Rightarrow> bytes \<Rightarrow> bytes" where
  "NodeConfirm c sessionKey th = ConfirmMAC c sessionKey confirmLabelNode th"

text \<open>hmac.Equal compares contents.\<close>

definition VerifyMAC :: "bytes \<Rightarrow> bytes \<Rightarrow> bool" where
  "VerifyMAC want given \<longleftrightarrow> want = given"

text \<open>fmt's percent 08d: at least eight digits.\<close>

definition pad8 :: "nat \<Rightarrow> string" where
  "pad8 n = (let d = show_nat n in replicate (8 - length d) (CHR ''0'') @ d)"

definition SAS :: "crypto \<Rightarrow> bytes \<Rightarrow> string option" where
  "SAS c sessionKey = map_option (\<lambda>raw. pad8 (be_nat raw mod 100000000)) (c_hkdf c sessionKey [] sasInfo 8)"

section \<open>The node's identity key\<close>

datatype identity_err = ErrIdentityHex | ErrIdentityMalformed | ErrReadIdentity fs_err
  | ErrGenerate | ErrWriteIdentity fs_err

definition identityKeyFile :: string where "identityKeyFile = ''device_identity.key''"

definition LoadOrCreateIdentity ::
  "crypto \<Rightarrow> bytes option \<Rightarrow> wfa_env \<Rightarrow> string \<Rightarrow> disk \<Rightarrow> (identity_err + bytes) \<times> disk" where
  "LoadOrCreateIdentity c fresh env dataDir disk =
    (let path = path_join dataDir identityKeyFile
     in case ReadFile disk path of
          Inr raw \<Rightarrow>
            (case hex_decode (TrimSpace raw) of
               None \<Rightarrow> (Inl ErrIdentityHex, disk)
             | Some key \<Rightarrow> if c_priv_ok c key then (Inr key, disk) else (Inl ErrIdentityMalformed, disk))
        | Inl ErrNotExist \<Rightarrow>
            (case fresh of None \<Rightarrow> (Inl ErrGenerate, disk)
             | Some priv \<Rightarrow>
                (case WriteFileAtomic env path (hex_encode priv) mode_0600 disk of
                   (disk', Some e) \<Rightarrow> (Inl (ErrWriteIdentity e), disk')
                 | (disk', None) \<Rightarrow> (Inr priv, disk')))
        | Inl e \<Rightarrow> (Inl (ErrReadIdentity e), disk))"

section \<open>The envelope\<close>

datatype seal_err = ErrNonce | ErrKeyLen nat | ErrNonceLen nat | ErrTooShort nat | ErrAuth

definition nonceSize :: nat where "nonceSize = 12"
definition tagSize :: nat where "tagSize = 16"

definition sealWithNonce :: "crypto \<Rightarrow> bytes \<Rightarrow> bytes \<Rightarrow> bytes \<Rightarrow> seal_err + bytes" where
  "sealWithNonce c key nonce plaintext =
    (if length key \<noteq> 32 then Inl (ErrKeyLen (length key))
     else if length nonce \<noteq> nonceSize then Inl (ErrNonceLen (length nonce))
     else Inr (nonce @ c_seal c key nonce plaintext))"

definition Seal :: "crypto \<Rightarrow> bytes option \<Rightarrow> bytes \<Rightarrow> bytes \<Rightarrow> seal_err + bytes" where
  "Seal c rnd key plaintext =
    (case rnd of None \<Rightarrow> Inl ErrNonce | Some nonce \<Rightarrow> sealWithNonce c key nonce plaintext)"

definition Open :: "crypto \<Rightarrow> bytes \<Rightarrow> bytes \<Rightarrow> seal_err + bytes" where
  "Open c key combined =
    (if length key \<noteq> 32 then Inl (ErrKeyLen (length key))
     else if length combined < nonceSize + tagSize then Inl (ErrTooShort (length combined))
     else (case c_open c key (take nonceSize combined) (drop nonceSize combined) of
             None \<Rightarrow> Inl ErrAuth | Some p \<Rightarrow> Inr p))"

datatype key_err = ErrNoKey | ErrReadKey fs_err | ErrKeyFormat

definition LoadPairingKey :: "disk \<Rightarrow> string \<Rightarrow> key_err + bytes" where
  "LoadPairingKey disk dataDir =
    (case ReadFile disk (path_join dataDir ''pairing.key'') of
       Inl ErrNotExist \<Rightarrow> Inl ErrNoKey
     | Inl e \<Rightarrow> Inl (ErrReadKey e)
     | Inr raw \<Rightarrow> (case hex_decode (TrimSpace raw) of
          Some key \<Rightarrow> if length key = 32 then Inr key else Inl ErrKeyFormat
        | None \<Rightarrow> Inl ErrKeyFormat))"

definition FileKeySource :: "string option \<Rightarrow> disk \<Rightarrow> bytes option" where
  "FileKeySource dataDir disk = (case dataDir of None \<Rightarrow> None
     | Some dir \<Rightarrow> (case LoadPairingKey disk dir of Inl _ \<Rightarrow> None | Inr key \<Rightarrow> Some key))"

section \<open>Properties\<close>

text \<open>One field can be read back off the front of the transcript bytes.\<close>

lemma length_prefixed_inj:
  assumes "length_prefixed f @ r = length_prefixed g @ q" "length f < 2 ^ 32" "length g < 2 ^ 32"
  shows "f = g \<and> r = q"
proof -
  have "put_u32_be (of_nat (length f)) = put_u32_be (of_nat (length g))" and rest: "f @ r = g @ q"
    using assms(1) by (simp_all add: length_prefixed_def)
  then have "(of_nat (length f) :: 32 word) = of_nat (length g)" by (intro put_u32_be_inj)
  moreover have "unat (of_nat n :: 32 word) = n" if "n < 2 ^ 32" for n
    using that by (simp add: unsigned_of_nat take_bit_nat_eq_self)
  ultimately have "length f = length g" using assms(2,3) by metis
  with rest show ?thesis by simp
qed

lemma concat_prefixed_inj:
  "concat (map length_prefixed fs) = concat (map length_prefixed gs) \<Longrightarrow> length fs = length gs \<Longrightarrow>
   \<forall>f \<in> set fs \<union> set gs. length f < 2 ^ 32 \<Longrightarrow> fs = gs"
proof (induction fs gs rule: list_induct2')
  case (4 f fs g gs)
  then have "f = g" "concat (map length_prefixed fs) = concat (map length_prefixed gs)"
    using length_prefixed_inj [of f _ g] by fastforce+
  with 4 show ?case by simp
qed simp_all

text \<open>
  Length-prefixing leaves no field-boundary ambiguity: transcripts whose fields are below
  4 GiB and whose hashed bytes agree are equal field by field.
\<close>

theorem transcript_injective:
  assumes "transcript_bytes t = transcript_bytes u"
    and "\<forall>f \<in> set (transcript_fields t) \<union> set (transcript_fields u). length f < 2 ^ 32"
  shows "t = u"
proof -
  have "transcript_fields t = transcript_fields u"
    using concat_prefixed_inj [of "transcript_fields t" "transcript_fields u"] assms
    by (simp add: transcript_bytes_def) (simp add: transcript_fields_def)
  then show ?thesis by (cases t; cases u) (simp add: transcript_fields_def)
qed

theorem transcript_injective_witness:
  "let t = \<lparr>t_AppIDPub = ''a'', t_NodeIDPub = ''bc'', t_AppEphPub = [], t_NodeEphPub = [],
             t_AppNonce = [], t_NodeNonce = [], t_AssertionSHA = []\<rparr>
   in transcript_bytes t \<noteq> transcript_bytes (t\<lparr>t_AppIDPub := ''ab'', t_NodeIDPub := ''c''\<rparr>)"
proof -
  let ?t = "\<lparr>t_AppIDPub = ''a'', t_NodeIDPub = ''bc'', t_AppEphPub = [], t_NodeEphPub = [],
             t_AppNonce = [], t_NodeNonce = [], t_AssertionSHA = []\<rparr>"
  show ?thesis using transcript_injective [of ?t "?t\<lparr>t_AppIDPub := ''ab'', t_NodeIDPub := ''c''\<rparr>"]
    by (auto simp: transcript_fields_def)
qed

text \<open>
  The identity is stable: when LoadOrCreateIdentity returns a key, every later call on the
  disk it leaves returns the same key and writes nothing, whatever the random source offers.
\<close>

theorem identity_stable:
  assumes "LoadOrCreateIdentity c fresh env dir disk = (Inr key, disk')"
    and "\<forall>k. fresh = Some k \<longrightarrow> c_priv_ok c k"
  shows "LoadOrCreateIdentity c fresh' env' dir disk' = (Inr key, disk')"
proof (cases "map_get disk (path_join dir identityKeyFile)")
  case None
  with assms(1) obtain priv where "fresh = Some priv" "key = priv"
    "WriteFileAtomic env (path_join dir identityKeyFile) (hex_encode priv) mode_0600 disk = (disk', None)"
    by (auto simp: LoadOrCreateIdentity_def ReadFile_def split: option.splits prod.splits)
  with assms(2) show ?thesis
    by (auto simp: LoadOrCreateIdentity_def ReadFile_def map_get_put dest!: WriteFileAtomic_ok)
next
  case (Some f)
  then show ?thesis using assms(1)
    by (auto simp: LoadOrCreateIdentity_def ReadFile_def Let_def split: option.splits if_splits)
qed

definition demo_crypto :: crypto where
  "demo_crypto = \<lparr>c_sha256 = (\<lambda>b. b), c_hmac = (\<lambda>k m. k @ m), c_hkdf = (\<lambda>s salt info n. Some (take n (s @ salt @ info @ replicate n (CHR ''x'')))),
     c_pub_ok = (\<lambda>b. b \<noteq> []), c_priv_ok = (\<lambda>b. b \<noteq> []), c_pub = (\<lambda>k. k),
     c_ecdh = (\<lambda>a b. Some (show_nat (be_nat a + be_nat b))),
     c_ecdsa = (\<lambda>k d r s. True), c_seal = (\<lambda>k n p. p @ replicate 16 (CHR ''t'')),
     c_open = (\<lambda>k n ct. Some (take (length ct - 16) ct))\<rparr>"

theorem identity_stable_witness:
  "snd (LoadOrCreateIdentity demo_crypto None (FailCreate, ''u'') ''d''
     (snd (LoadOrCreateIdentity demo_crypto (Some ''k'') (NoFault, ''t'') ''d'' []))) =
   snd (LoadOrCreateIdentity demo_crypto (Some ''k'') (NoFault, ''t'') ''d'' [])"
proof -
  obtain disk' where "LoadOrCreateIdentity demo_crypto (Some ''k'') (NoFault, ''t'') ''d'' [] = (Inr ''k'', disk')"
    by (simp add: LoadOrCreateIdentity_def ReadFile_def WriteFileAtomic_def WriteFileAtomic_trace_def Let_def)
  with identity_stable [OF this, of None "(FailCreate, ''u'')"] show ?thesis by (simp add: demo_crypto_def)
qed

text \<open>
  What Seal produces Open recovers: a 32-byte key and a 12-byte nonce never fail, the result
  starts with the nonce and is 28 bytes longer than the plaintext.
\<close>

theorem Open_Seal:
  assumes "aead_law c" "length key = 32" "length nonce = nonceSize"
  shows "\<exists>combined. Seal c (Some nonce) key plaintext = Inr combined \<and> Open c key combined = Inr plaintext \<and>
    take nonceSize combined = nonce \<and> length combined = length plaintext + 28"
  using assms by (simp add: Seal_def sealWithNonce_def Open_def aead_law_def nonceSize_def tagSize_def)

theorem Open_Seal_witness:
  "\<exists>combined. Seal demo_crypto (Some (replicate 12 (CHR ''n''))) (replicate 32 (CHR ''k'')) ''hi'' = Inr combined \<and>
     Open demo_crypto (replicate 32 (CHR ''k'')) combined = Inr ''hi''"
  using Open_Seal [of demo_crypto "replicate 32 (CHR ''k'')" "replicate 12 (CHR ''n'')" "''hi''"]
  by (auto simp: aead_law_def demo_crypto_def nonceSize_def)

end
