(* ===== verification/Json.thy ===== *)
theory Json
  imports Prelude "HOL-Library.Monad_Syntax"
begin

text \<open>
  encoding/json and encoding/base64, as far as the node uses them: a lexer and parser of JSON
  texts, the compact and the indented printer, the rules by which Unmarshal fills the fields of a
  struct (keys match without regard to case, a later duplicate wins, null leaves the field alone,
  a value of the wrong type is an error), and the padded standard and raw URL base64 alphabets.

  Strings are bytes: bytes from 0x80 up are copied through unchanged, so the replacement of
  ill-formed UTF-8 by U+FFFD is not modelled. Numbers keep their literal text, as
  json.Number does.
\<close>

datatype json = JNull | JBool bool | JNum string | JStr string | JArr "json list"
  | JObj "(string \<times> json) list"

datatype tok = TLBrace | TRBrace | TLBrack | TRBrack | TColon | TComma
  | TStr string | TNum string | TTrue | TFalse | TNull

section \<open>Lexing\<close>

definition is_ws :: "char \<Rightarrow> bool" where
  "is_ws c \<longleftrightarrow> of_char c \<in> {9, 10, 13, 32 :: nat}"

definition is_digit :: "char \<Rightarrow> bool" where
  "is_digit c \<longleftrightarrow> 48 \<le> (of_char c :: nat) \<and> (of_char c :: nat) \<le> 57"

definition is_num_char :: "char \<Rightarrow> bool" where
  "is_num_char c \<longleftrightarrow> is_digit c \<or> c \<in> {CHR ''-'', CHR ''+'', CHR ''.'', CHR ''e'', CHR ''E''}"

definition strip_sign :: "char set \<Rightarrow> string \<Rightarrow> string" where
  "strip_sign S s = (case s of [] \<Rightarrow> [] | c # t \<Rightarrow> if c \<in> S then t else s)"

definition valid_exp :: "string \<Rightarrow> bool" where
  "valid_exp s = (case s of [] \<Rightarrow> True
     | c # t \<Rightarrow> c \<in> {CHR ''e'', CHR ''E''} \<and>
         (let u = strip_sign {CHR ''+'', CHR ''-''} t in u \<noteq> [] \<and> list_all is_digit u))"

definition valid_frac_exp :: "string \<Rightarrow> bool" where
  "valid_frac_exp s = (case s of [] \<Rightarrow> True
     | c # t \<Rightarrow> if c = CHR ''.''
         then takeWhile is_digit t \<noteq> [] \<and> valid_exp (dropWhile is_digit t) else valid_exp s)"

definition valid_num :: "string \<Rightarrow> bool" where
  "valid_num s =
    (let u = strip_sign {CHR ''-''} s; ds = takeWhile is_digit u
     in ds \<noteq> [] \<and> (hd ds = CHR ''0'' \<longrightarrow> length ds = 1) \<and> list_all is_num_char s
        \<and> valid_frac_exp (dropWhile is_digit u))"

definition utf8 :: "nat \<Rightarrow> bytes" where
  "utf8 n = (if n < 128 then [char_of n]
     else if n < 2048 then [char_of (192 + n div 64), char_of (128 + n mod 64)]
     else if n < 65536 then [char_of (224 + n div 4096), char_of (128 + n div 64 mod 64), char_of (128 + n mod 64)]
     else [char_of (240 + n div 262144), char_of (128 + n div 4096 mod 64),
           char_of (128 + n div 64 mod 64), char_of (128 + n mod 64)])"

definition hex4 :: "string \<Rightarrow> (nat \<times> string) option" where
  "hex4 s = (case s of
     a # b # c # d # r \<Rightarrow>
       (case (hex_val a, hex_val b, hex_val c, hex_val d) of
          (Some w, Some x, Some y, Some z) \<Rightarrow> Some (4096 * w + 256 * x + 16 * y + z, r)
        | _ \<Rightarrow> None)
   | _ \<Rightarrow> None)"

text \<open>The text after a backslash-u: a surrogate pair is one code point, a lone surrogate U+FFFD.\<close>

definition uni_escape :: "string \<Rightarrow> (bytes \<times> string) option" where
  "uni_escape s = (case hex4 s of None \<Rightarrow> None
     | Some (n, r) \<Rightarrow>
        if 55296 \<le> n \<and> n < 56320 then
          (case r of b # u # r2 \<Rightarrow>
             if b = CHR 0x5C \<and> u = CHR ''u'' then
               (case hex4 r2 of
                  Some (m, r3) \<Rightarrow> if 56320 \<le> m \<and> m < 57344
                     then Some (utf8 (65536 + (n - 55296) * 1024 + (m - 56320)), r3)
                     else Some (utf8 65533, r)
                | None \<Rightarrow> Some (utf8 65533, r))
             else Some (utf8 65533, r)
           | _ \<Rightarrow> Some (utf8 65533, r))
        else if 56320 \<le> n \<and> n < 57344 then Some (utf8 65533, r)
        else Some (utf8 n, r))"

definition unescape :: "char \<Rightarrow> char option" where
  "unescape e = (if e = CHR 0x22 then Some e else if e = CHR 0x5C then Some e
     else if e = CHR ''/'' then Some e else if e = CHR ''b'' then Some (CHR 0x08)
     else if e = CHR ''f'' then Some (CHR 0x0C) else if e = CHR ''n'' then Some (CHR 0x0A)
     else if e = CHR ''r'' then Some (CHR 0x0D) else if e = CHR ''t'' then Some (CHR 0x09) else None)"

lemma hex4_length: "hex4 s = Some (n, r) \<Longrightarrow> length r < length s"
  by (auto simp: hex4_def split: list.splits option.splits)

lemma uni_escape_length: "uni_escape s = Some (b, r) \<Longrightarrow> length r < length s"
  by (auto simp: uni_escape_def split: list.splits option.splits if_splits dest!: hex4_length)

text \<open>The rest of a string literal, after its opening quote.\<close>

function lex_str :: "string \<Rightarrow> (string \<times> string) option" where
  "lex_str [] = None"
| "lex_str (c # r) =
     (if c = CHR 0x22 then Some ([], r)
      else if c = CHR 0x5C then
        (case r of [] \<Rightarrow> None
         | e # r2 \<Rightarrow>
            if e = CHR ''u'' then
              (case uni_escape r2 of None \<Rightarrow> None
               | Some (b, r3) \<Rightarrow> (case lex_str r3 of None \<Rightarrow> None | Some (s, q) \<Rightarrow> Some (b @ s, q)))
            else (case unescape e of None \<Rightarrow> None
                  | Some d \<Rightarrow> (case lex_str r2 of None \<Rightarrow> None | Some (s, q) \<Rightarrow> Some (d # s, q))))
      else if (of_char c :: nat) < 32 then None
      else (case lex_str r of None \<Rightarrow> None | Some (s, q) \<Rightarrow> Some (c # s, q)))"
  by pat_completeness auto
termination
  by (relation "measure length") (auto dest: uni_escape_length)

declare lex_str.simps [simp del]

lemma lex_str_length: "lex_str s = Some (t, r) \<Longrightarrow> length r < length s"
proof (induction s arbitrary: t r rule: measure_induct_rule [of length])
  case (less s)
  have IH: "length r < length s'" if "lex_str s' = Some (t, r)" "length s' < length s" for s' t r
    using less.IH [OF that(2,1)] .
  show ?case
  proof (cases s)
    case Nil
    then show ?thesis using less.prems by (simp add: lex_str.simps)
  next
    case (Cons c r0)
    have "lex_str r0 = Some (t', r') \<Longrightarrow> length r' < length r0" for t' r'
      using IH [of r0 t' r'] Cons by simp
    then show ?thesis using less.prems Cons
      by (auto simp: lex_str.simps(2) [of c r0] split: if_splits list.splits option.splits prod.splits
          dest!: uni_escape_length) (drule IH, simp, simp)+
  qed
qed

definition punct :: "char \<Rightarrow> tok option" where
  "punct c = (if c = CHR ''{'' then Some TLBrace else if c = CHR ''}'' then Some TRBrace
     else if c = CHR ''['' then Some TLBrack else if c = CHR '']'' then Some TRBrack
     else if c = CHR '':'' then Some TColon else if c = CHR '','' then Some TComma else None)"

definition keyword :: "string \<Rightarrow> (tok \<times> string) option" where
  "keyword s = (case CutPrefix s ''true'' of Some r \<Rightarrow> Some (TTrue, r)
     | None \<Rightarrow> (case CutPrefix s ''false'' of Some r \<Rightarrow> Some (TFalse, r)
        | None \<Rightarrow> (case CutPrefix s ''null'' of Some r \<Rightarrow> Some (TNull, r) | None \<Rightarrow> None)))"

text \<open>One token at the head of a non-empty text that does not start with white space.\<close>

definition lex_tok :: "char \<Rightarrow> string \<Rightarrow> (tok \<times> string) option" where
  "lex_tok c r =
    (case punct c of Some t \<Rightarrow> Some (t, r)
     | None \<Rightarrow>
        if c = CHR 0x22 then (case lex_str r of None \<Rightarrow> None | Some (s, q) \<Rightarrow> Some (TStr s, q))
        else if is_num_char c then
          (let n = takeWhile is_num_char (c # r) in
           if valid_num n then Some (TNum n, dropWhile is_num_char (c # r)) else None)
        else keyword (c # r))"

lemma lex_tok_length: "lex_tok c r = Some (t, q) \<Longrightarrow> length q < length (c # r)"
  using lex_str_length length_dropWhile_le [of is_num_char r]
  by (fastforce simp: lex_tok_def keyword_def Let_def CutPrefix_Some_iff
      split: option.splits if_splits)

function lex :: "string \<Rightarrow> tok list option" where
  "lex [] = Some []"
| "lex (c # r) =
     (if is_ws c then lex r
      else (case lex_tok c r of None \<Rightarrow> None
            | Some (t, q) \<Rightarrow> (case lex q of None \<Rightarrow> None | Some ts \<Rightarrow> Some (t # ts))))"
  by pat_completeness auto
termination
  by (relation "measure length") (auto dest: lex_tok_length)

declare lex.simps [simp del]

section \<open>Parsing\<close>

text \<open>The fuel bounds the nesting; the number of tokens is always enough.\<close>

fun parse_val :: "nat \<Rightarrow> tok list \<Rightarrow> (json \<times> tok list) option"
  and parse_elems :: "nat \<Rightarrow> tok list \<Rightarrow> (json list \<times> tok list) option"
  and parse_members :: "nat \<Rightarrow> tok list \<Rightarrow> ((string \<times> json) list \<times> tok list) option" where
  "parse_val 0 ts = None"
| "parse_val (Suc n) ts = (case ts of
     TNull # r \<Rightarrow> Some (JNull, r) | TTrue # r \<Rightarrow> Some (JBool True, r)
   | TFalse # r \<Rightarrow> Some (JBool False, r) | TNum s # r \<Rightarrow> Some (JNum s, r)
   | TStr s # r \<Rightarrow> Some (JStr s, r)
   | TLBrack # TRBrack # r \<Rightarrow> Some (JArr [], r)
   | TLBrack # r \<Rightarrow> map_option (\<lambda>(xs, q). (JArr xs, q)) (parse_elems n r)
   | TLBrace # TRBrace # r \<Rightarrow> Some (JObj [], r)
   | TLBrace # r \<Rightarrow> map_option (\<lambda>(xs, q). (JObj xs, q)) (parse_members n r)
   | _ \<Rightarrow> None)"
| "parse_elems 0 ts = None"
| "parse_elems (Suc n) ts = (case parse_val n ts of
     Some (v, TComma # r) \<Rightarrow> map_option (\<lambda>(xs, q). (v # xs, q)) (parse_elems n r)
   | Some (v, TRBrack # r) \<Rightarrow> Some ([v], r)
   | _ \<Rightarrow> None)"
| "parse_members 0 ts = None"
| "parse_members (Suc n) ts = (case ts of
     TStr k # TColon # q \<Rightarrow> (case parse_val n q of
        Some (v, TComma # r) \<Rightarrow> map_option (\<lambda>(xs, q). ((k, v) # xs, q)) (parse_members n r)
      | Some (v, TRBrace # r) \<Rightarrow> Some ([(k, v)], r)
      | _ \<Rightarrow> None)
   | _ \<Rightarrow> None)"

definition json_parse :: "string \<Rightarrow> json option" where
  "json_parse s = (case lex s of None \<Rightarrow> None
     | Some ts \<Rightarrow> (case parse_val (Suc (length ts)) ts of
          Some (v, []) \<Rightarrow> Some v | _ \<Rightarrow> None))"

section \<open>Printing\<close>

definition hex2 :: "nat \<Rightarrow> string" where
  "hex2 n = [hex_digit (n div 16), hex_digit (n mod 16)]"

definition esc_char :: "char \<Rightarrow> string" where
  "esc_char c =
    (if c = CHR 0x22 \<or> c = CHR 0x5C then [CHR 0x5C, c]
     else if c = CHR 0x08 then [CHR 0x5C, CHR ''b''] else if c = CHR 0x0C then [CHR 0x5C, CHR ''f'']
     else if c = CHR 0x0A then [CHR 0x5C, CHR ''n''] else if c = CHR 0x0D then [CHR 0x5C, CHR ''r'']
     else if c = CHR 0x09 then [CHR 0x5C, CHR ''t'']
     else if (of_char c :: nat) < 32 \<or> c \<in> {CHR ''<'', CHR ''>'', CHR ''&''}
       then CHR 0x5C # CHR ''u'' # ''00'' @ hex2 (of_char c)
     else [c])"

definition quote_str :: "string \<Rightarrow> string" where
  "quote_str s = CHR 0x22 # concat (map esc_char s) @ [CHR 0x22]"

fun comma_sep :: "string list \<Rightarrow> string" where
  "comma_sep [] = []"
| "comma_sep [x] = x"
| "comma_sep (x # y # xs) = x @ CHR '','' # comma_sep (y # xs)"

text \<open>json.Marshal\<close>

fun json_text :: "json \<Rightarrow> string" where
  "json_text JNull = ''null''"
| "json_text (JBool b) = (if b then ''true'' else ''false'')"
| "json_text (JNum n) = n"
| "json_text (JStr s) = quote_str s"
| "json_text (JArr xs) = CHR ''['' # comma_sep (map json_text xs) @ '']''"
| "json_text (JObj kvs) =
     CHR ''{'' # comma_sep (map (\<lambda>(k, v). quote_str k @ CHR '':'' # json_text v) kvs) @ ''}''"

definition newline_indent :: "nat \<Rightarrow> string" where
  "newline_indent d = CHR 0x0A # replicate (2 * d) (CHR '' '')"

text \<open>json.MarshalIndent with an empty prefix and two spaces, at nesting depth d.\<close>

fun json_indent :: "nat \<Rightarrow> json \<Rightarrow> string" where
  "json_indent d (JArr (x # xs)) =
     CHR ''['' # comma_sep (map (\<lambda>v. newline_indent (Suc d) @ json_indent (Suc d) v) (x # xs))
       @ newline_indent d @ '']''"
| "json_indent d (JObj (x # xs)) =
     CHR ''{'' # comma_sep (map (\<lambda>(k, v). newline_indent (Suc d) @ quote_str k @ '': '' @ json_indent (Suc d) v) (x # xs))
       @ newline_indent d @ ''}''"
| "json_indent d v = json_text v"

section \<open>Printing and parsing are inverse\<close>

fun sep_toks :: "tok list list \<Rightarrow> tok list" where
  "sep_toks [] = []"
| "sep_toks [x] = x"
| "sep_toks (x # y # xs) = x @ TComma # sep_toks (y # xs)"

fun toks :: "json \<Rightarrow> tok list" where
  "toks JNull = [TNull]"
| "toks (JBool b) = [if b then TTrue else TFalse]"
| "toks (JNum n) = [TNum n]"
| "toks (JStr s) = [TStr s]"
| "toks (JArr xs) = TLBrack # sep_toks (map toks xs) @ [TRBrack]"
| "toks (JObj kvs) = TLBrace # sep_toks (map (\<lambda>(k, v). TStr k # TColon # toks v) kvs) @ [TRBrace]"

fun wf_json :: "json \<Rightarrow> bool" where
  "wf_json (JNum n) \<longleftrightarrow> valid_num n"
| "wf_json (JArr xs) \<longleftrightarrow> list_all wf_json xs"
| "wf_json (JObj kvs) \<longleftrightarrow> list_all (\<lambda>(k, v). wf_json v) kvs"
| "wf_json _ \<longleftrightarrow> True"

lemma toks_head: "\<exists>t ts. toks v = t # ts \<and> t \<noteq> TRBrack \<and> t \<noteq> TRBrace"
  by (cases v) auto

lemma toks_ne [simp]: "toks v \<noteq> []"
  using toks_head [of v] by auto

lemma sep_toks_Cons: "xs \<noteq> [] \<Longrightarrow> sep_toks (x # xs) = x @ TComma # sep_toks xs"
  by (cases xs) auto

lemma parse_elems_toks:
  assumes "\<And>v n rest. v \<in> set xs \<Longrightarrow> length (toks v) \<le> n \<Longrightarrow> parse_val n (toks v @ rest) = Some (v, rest)"
    and "xs \<noteq> []" "length (sep_toks (map toks xs)) < n"
  shows "parse_elems n (sep_toks (map toks xs) @ TRBrack # rest) = Some (xs, rest)"
  using assms
proof (induction xs arbitrary: n)
  case (Cons v vs)
  obtain m where n: "n = Suc m" using Cons.prems(3) by (cases n) auto
  show ?case
  proof (cases "vs = []")
    case True
    then show ?thesis using Cons.prems n by simp
  next
    case False
    then have tail: "parse_elems m (sep_toks (map toks vs) @ TRBrack # rest) = Some (vs, rest)"
      using Cons n by (simp add: sep_toks_Cons)
    have "parse_val m (toks v @ TComma # sep_toks (map toks vs) @ TRBrack # rest)
        = Some (v, TComma # sep_toks (map toks vs) @ TRBrack # rest)"
      using Cons.prems(1) [of v] Cons.prems(3) False n by (simp add: sep_toks_Cons)
    then show ?thesis using tail False n by (simp add: sep_toks_Cons)
  qed
qed simp

abbreviation member_toks :: "string \<times> json \<Rightarrow> tok list" where
  "member_toks \<equiv> \<lambda>(k, v). TStr k # TColon # toks v"

lemma parse_members_toks:
  assumes "\<And>k v n rest. (k, v) \<in> set xs \<Longrightarrow> length (toks v) \<le> n \<Longrightarrow> parse_val n (toks v @ rest) = Some (v, rest)"
    and "xs \<noteq> []" "length (sep_toks (map member_toks xs)) < n"
  shows "parse_members n (sep_toks (map member_toks xs) @ TRBrace # rest) = Some (xs, rest)"
  using assms
proof (induction xs arbitrary: n)
  case (Cons e es)
  obtain k v where e: "e = (k, v)" by (cases e)
  obtain m where n: "n = Suc m" using Cons.prems(3) by (cases n) auto
  show ?case
  proof (cases "es = []")
    case True
    then show ?thesis using Cons.prems(1) [of k v m] Cons.prems(3) n e by simp
  next
    case False
    have tail: "parse_members m (sep_toks (map member_toks es) @ TRBrace # rest) = Some (es, rest)"
    proof (rule Cons.IH)
      show "length (sep_toks (map member_toks es)) < m"
        using Cons.prems(3) False n e by (simp add: sep_toks_Cons)
    qed (use Cons.prems(1) False in auto)
    have "parse_val m (toks v @ TComma # sep_toks (map member_toks es) @ TRBrace # rest)
        = Some (v, TComma # sep_toks (map member_toks es) @ TRBrace # rest)"
      using Cons.prems(1) [of k v] Cons.prems(3) False n e by (simp add: sep_toks_Cons)
    then show ?thesis using tail False n e by (simp add: sep_toks_Cons)
  qed
qed simp

lemma parse_val_toks: "length (toks v) \<le> n \<Longrightarrow> parse_val n (toks v @ rest) = Some (v, rest)"
proof (induction v arbitrary: n rest)
  case (JArr xs)
  obtain m where n: "n = Suc m" using JArr.prems by (cases n) auto
  show ?case
  proof (cases xs)
    case (Cons y ys)
    obtain t ts where "sep_toks (map toks xs) = t # ts" "t \<noteq> TRBrack"
      using toks_head [of y] Cons by (cases ys) auto
    moreover have "parse_elems m (sep_toks (map toks xs) @ TRBrack # rest) = Some (xs, rest)"
      using JArr n Cons by (intro parse_elems_toks) auto
    ultimately show ?thesis using n by (cases t) simp_all
  qed (simp add: n)
next
  case (JObj xs)
  obtain m where n: "n = Suc m" using JObj.prems by (cases n) auto
  show ?case
  proof (cases xs)
    case (Cons y ys)
    obtain k ts where "sep_toks (map member_toks xs) = TStr k # ts"
      using Cons by (cases y; cases ys) auto
    moreover have "parse_members m (sep_toks (map member_toks xs) @ TRBrace # rest) = Some (xs, rest)"
    proof (rule parse_members_toks)
      fix k v n rest
      assume "(k, v) \<in> set xs" "length (toks v) \<le> n"
      then show "parse_val n (toks v @ rest) = Some (v, rest)" using JObj.IH [of "(k, v)" v] by auto
    qed (use JObj.prems n Cons in auto)
    ultimately show ?thesis using n by simp
  qed (simp add: n)
qed (auto simp: Suc_le_eq gr0_conv_Suc)

text \<open>A text lexes to tokens whatever follows, or whatever follows that cannot extend a number.\<close>

definition lexes :: "string \<Rightarrow> tok list \<Rightarrow> bool" where
  "lexes s ts \<longleftrightarrow> (\<forall>rest. lex (s @ rest) = map_option ((@) ts) (lex rest))"

definition delim :: "string \<Rightarrow> bool" where
  "delim rest \<longleftrightarrow> rest = [] \<or> \<not> is_num_char (hd rest)"

definition lexes_to :: "string \<Rightarrow> tok list \<Rightarrow> bool" where
  "lexes_to s ts \<longleftrightarrow> (\<forall>rest. delim rest \<longrightarrow> lex (s @ rest) = map_option ((@) ts) (lex rest))"

lemma map_append_simps:
  "map_option ((@) []) x = x"
  "map_option ((@) ts) (map_option ((@) us) x) = map_option ((@) (ts @ us)) x"
  by (cases x; simp)+

lemma lexes_Nil: "lexes [] []"
  by (simp add: lexes_def map_append_simps)

lemma lexes_append: "lexes a ts \<Longrightarrow> lexes b us \<Longrightarrow> lexes (a @ b) (ts @ us)"
  by (simp add: lexes_def map_append_simps del: option.map_comp)

lemma lexes_lexes_to: "lexes s ts \<Longrightarrow> lexes_to s ts"
  by (simp add: lexes_def lexes_to_def)

lemma lexes_to_append:
  "lexes_to a ts \<Longrightarrow> lexes b us \<Longrightarrow> b \<noteq> [] \<Longrightarrow> \<not> is_num_char (hd b) \<Longrightarrow> lexes (a @ b) (ts @ us)"
  by (simp add: lexes_def lexes_to_def delim_def map_append_simps del: option.map_comp)

lemma lexes_ws: "\<forall>c \<in> set s. is_ws c \<Longrightarrow> lexes s []"
  by (induction s) (simp_all add: lexes_def lex.simps map_append_simps)

lemma lexes_punct: "punct c = Some t \<Longrightarrow> lexes [c] [t]"
  by (auto simp: lexes_def lex.simps lex_tok_def map_option_case punct_def is_ws_def split: if_splits option.splits)

lemma hex_decode_hex2: "n < 256 \<Longrightarrow> hex4 (CHR ''0'' # CHR ''0'' # hex2 n @ r) = Some (n, r)"
proof -
  assume "n < 256"
  then have "n div 16 < 16" "n mod 16 < 16" by (simp_all add: less_mult_imp_div_less)
  moreover have "hex_val (CHR ''0'') = Some 0" by (simp add: hex_val_def)
  ultimately show ?thesis by (simp add: hex4_def hex2_def hex_val_digit)
qed

lemma lex_str_plain:
  "c \<noteq> CHR 0x22 \<Longrightarrow> c \<noteq> CHR 0x5C \<Longrightarrow> \<not> (of_char c :: nat) < 32 \<Longrightarrow>
   lex_str (c # r) = map_option (\<lambda>(s, q). (c # s, q)) (lex_str r)"
  by (simp add: lex_str.simps(2) [of c] map_option_case split: option.splits)

lemma lex_str_escape:
  "unescape d = Some c \<Longrightarrow> d \<noteq> CHR ''u'' \<Longrightarrow>
   lex_str (CHR 0x5C # d # r) = map_option (\<lambda>(s, q). (c # s, q)) (lex_str r)"
  by (simp add: lex_str.simps(2) [of "CHR 0x5C"] map_option_case split: option.splits)

lemma lex_str_uni:
  "uni_escape q = Some (b, r) \<Longrightarrow>
   lex_str (CHR 0x5C # CHR ''u'' # q) = map_option (\<lambda>(s, q). (b @ s, q)) (lex_str r)"
  by (simp add: lex_str.simps(2) [of "CHR 0x5C"] map_option_case split: option.splits)

lemma lex_str_esc_char: "lex_str (esc_char c @ r) = map_option (\<lambda>(s, q). (c # s, q)) (lex_str r)"
proof -
  define two where "two \<longleftrightarrow> c \<in> {CHR 0x22, CHR 0x5C, CHR 0x08, CHR 0x0C, CHR 0x0A, CHR 0x0D, CHR 0x09}"
  define ctl where "ctl \<longleftrightarrow> (of_char c :: nat) < 32 \<or> c \<in> {CHR ''<'', CHR ''>'', CHR ''&''}"
  consider "two" | "\<not> two" "ctl" | "\<not> two" "\<not> ctl" by satx
  then show ?thesis
  proof cases
    case 1
    then have "\<exists>d. esc_char c = [CHR 0x5C, d] \<and> unescape d = Some c \<and> d \<noteq> CHR ''u''"
      unfolding two_def insert_iff by (elim disjE) (simp_all add: esc_char_def unescape_def)
    then show ?thesis using lex_str_escape by auto
  next
    case 2
    then have "(of_char c :: nat) < 128" by (auto simp: ctl_def)
    then have "uni_escape (''00'' @ hex2 (of_char c) @ r) = Some ([c], r)"
      by (simp add: uni_escape_def hex_decode_hex2 utf8_def)
    moreover have "esc_char c = CHR 0x5C # CHR ''u'' # ''00'' @ hex2 (of_char c)"
      using 2 by (simp add: esc_char_def two_def ctl_def)
    ultimately show ?thesis using lex_str_uni by simp
  next
    case 3
    then have "esc_char c = [c]" by (simp add: esc_char_def two_def ctl_def)
    with 3 show ?thesis using lex_str_plain by (simp add: two_def ctl_def)
  qed
qed

lemma lex_str_quote: "lex_str (concat (map esc_char s) @ CHR 0x22 # rest) = Some (s, rest)"
  by (induction s) (simp_all add: lex_str_esc_char lex_str.simps(2) [of "CHR 0x22"])

lemma lexes_quote: "lexes (quote_str s) [TStr s]"
  by (auto simp: lexes_def quote_str_def lex.simps(2) [of "CHR 0x22"] is_ws_def lex_tok_def punct_def
      lex_str_quote map_option_case split: option.splits)

lemma lexes_append_to: "lexes a ts \<Longrightarrow> lexes_to b us \<Longrightarrow> lexes_to (a @ b) (ts @ us)"
  by (simp add: lexes_def lexes_to_def map_append_simps del: option.map_comp)

lemma lexes_keyword_tok:
  assumes "\<not> is_ws c" "\<And>rest. lex_tok c (w @ rest) = Some (t, rest)"
  shows "lexes (c # w) [t]"
  using assms by (simp add: lexes_def lex.simps(2) [of c] map_option_case split: option.splits)

lemma lex_tok_keyword:
  "lex_tok (CHR ''t'') (''rue'' @ rest) = Some (TTrue, rest)"
  "lex_tok (CHR ''f'') (''alse'' @ rest) = Some (TFalse, rest)"
  "lex_tok (CHR ''n'') (''ull'' @ rest) = Some (TNull, rest)"
proof -
  have "keyword (''true'' @ rest) = Some (TTrue, rest)" "keyword (''false'' @ rest) = Some (TFalse, rest)"
    "keyword (''null'' @ rest) = Some (TNull, rest)"
    by (simp_all add: keyword_def CutPrefix_def HasPrefix_def)
  then show "lex_tok (CHR ''t'') (''rue'' @ rest) = Some (TTrue, rest)"
    "lex_tok (CHR ''f'') (''alse'' @ rest) = Some (TFalse, rest)"
    "lex_tok (CHR ''n'') (''ull'' @ rest) = Some (TNull, rest)"
    by (simp_all add: lex_tok_def punct_def is_num_char_def is_digit_def)
qed

lemma lexes_keyword:
  "lexes ''true'' [TTrue]" "lexes ''false'' [TFalse]" "lexes ''null'' [TNull]"
  by (rule lexes_keyword_tok [OF _ lex_tok_keyword(1)] lexes_keyword_tok [OF _ lex_tok_keyword(2)]
      lexes_keyword_tok [OF _ lex_tok_keyword(3)]; simp add: is_ws_def)+

lemma takeWhile_all_delim:
  "list_all is_num_char n \<Longrightarrow> delim rest \<Longrightarrow>
   takeWhile is_num_char (n @ rest) = n \<and> dropWhile is_num_char (n @ rest) = rest"
  by (induction n) (cases rest; auto simp: delim_def)+

lemma num_char_plain: "is_num_char c \<Longrightarrow> \<not> is_ws c \<and> punct c = None \<and> c \<noteq> CHR 0x22"
proof (intro conjI)
  assume c: "is_num_char c"
  show "\<not> is_ws c" using c unfolding is_num_char_def is_digit_def is_ws_def by (elim disjE) auto
  have "punct d = Some t \<Longrightarrow> \<not> is_num_char d" for d t
    unfolding punct_def by (simp add: is_num_char_def is_digit_def split: if_split_asm)
  then show "punct c = None" using c by (cases "punct c") auto
  have "\<not> is_num_char (CHR 0x22)" by (simp add: is_num_char_def is_digit_def)
  then show "c \<noteq> CHR 0x22" using c by blast
qed

lemma lexes_num: "valid_num n \<Longrightarrow> lexes_to n [TNum n]"
proof -
  assume n: "valid_num n"
  then obtain c m where c: "n = c # m"
    by (cases n) (auto simp: valid_num_def strip_sign_def Let_def)
  have all: "list_all is_num_char n" using n by (simp add: valid_num_def Let_def)
  then have plain: "is_num_char c" "\<not> is_ws c" "punct c = None" "c \<noteq> CHR 0x22"
    using c num_char_plain by auto
  show ?thesis unfolding lexes_to_def
  proof (intro allI impI)
    fix rest
    assume "delim rest"
    from takeWhile_all_delim [OF all this]
    have "takeWhile is_num_char (c # m @ rest) = n" "dropWhile is_num_char (c # m @ rest) = rest"
      using c by simp_all
    then have "lex_tok c (m @ rest) = Some (TNum n, rest)" using plain n
      by (simp only: lex_tok_def Let_def if_True if_False option.case simp_thms)
    then show "lex (n @ rest) = map_option ((@) [TNum n]) (lex rest)"
      using c plain by (simp add: lex.simps map_option_case split: option.splits)
  qed
qed

lemma lexes_comma_sep:
  assumes "\<And>x. x \<in> set xs \<Longrightarrow> lexes_to (f x) (g x)" "lexes (c # tail) us" "\<not> is_num_char c"
  shows "lexes (comma_sep (map f xs) @ c # tail) (sep_toks (map g xs) @ us)"
  using assms(1)
proof (induction xs)
  case (Cons x xs)
  show ?case
  proof (cases xs)
    case Nil
    then show ?thesis using Cons.prems assms(2,3) lexes_to_append [of "f x" "g x" "c # tail" us] by simp
  next
    case (Cons y ys)
    have "lexes (comma_sep (map f xs) @ c # tail) (sep_toks (map g xs) @ us)"
      using Cons.IH Cons.prems by simp
    then have "lexes ([CHR '',''] @ comma_sep (map f xs) @ c # tail) ([TComma] @ sep_toks (map g xs) @ us)"
      by (rule lexes_append [rotated]) (simp add: lexes_punct punct_def)
    moreover have "\<not> is_num_char (CHR '','')" by (simp add: is_num_char_def is_digit_def)
    ultimately have "lexes (f x @ CHR '','' # comma_sep (map f xs) @ c # tail)
        (g x @ TComma # sep_toks (map g xs) @ us)"
      using Cons.prems lexes_to_append [of "f x" "g x"] by simp
    then show ?thesis using Cons by simp
  qed
qed (use assms(2) in simp)

lemma close_not_num: "\<not> is_num_char (CHR '']'')" "\<not> is_num_char (CHR ''}'')" "\<not> is_num_char (CHR 0x0A)"
  by (simp_all add: is_num_char_def is_digit_def)

lemma lexes_brackets:
  "lexes ''['' [TLBrack]" "lexes '']'' [TRBrack]" "lexes ''{'' [TLBrace]" "lexes ''}'' [TRBrace]" "lexes '':'' [TColon]"
  by (simp_all add: lexes_punct punct_def)

lemma lexes_member: "lexes_to t ts \<Longrightarrow> lexes_to (quote_str k @ CHR '':'' # t) (TStr k # TColon # ts)"
  using lexes_append_to [OF lexes_append [OF lexes_quote lexes_brackets(5)]] by fastforce

lemma json_text_lexes: "wf_json v \<Longrightarrow> lexes_to (json_text v) (toks v)"
proof (induction v)
  case (JArr xs)
  then have "\<And>x. x \<in> set xs \<Longrightarrow> lexes_to (json_text x) (toks x)" by (auto simp: list_all_iff)
  from lexes_append [OF lexes_brackets(1) lexes_comma_sep
      [of xs json_text toks, OF this lexes_brackets(2) close_not_num(1)]]
  show ?case by (simp add: lexes_lexes_to)
next
  case (JObj xs)
  then have "lexes_to (json_text v) (toks v)" if "(k, v) \<in> set xs" for k v
    using that by (auto simp: list_all_iff)
  then have "lexes_to (case e of (k, v) \<Rightarrow> quote_str k @ CHR '':'' # json_text v) (member_toks e)"
    if "e \<in> set xs" for e using that lexes_member by (cases e) simp
  from lexes_append [OF lexes_brackets(3) lexes_comma_sep
      [of xs "\<lambda>(k, v). quote_str k @ CHR '':'' # json_text v" member_toks, OF this lexes_brackets(4) close_not_num(2)]]
  show ?case by (simp add: lexes_lexes_to)
qed (auto simp: lexes_lexes_to lexes_keyword lexes_num lexes_quote)

lemma newline_indent_lexes: "lexes (newline_indent d) []"
  by (rule lexes_ws) (simp add: newline_indent_def is_ws_def)

lemma lexes_indented_item: "lexes_to t ts \<Longrightarrow> lexes_to (newline_indent d @ t) ts"
  using lexes_append_to [OF newline_indent_lexes] by simp

lemma lexes_close: "lexes b [t] \<Longrightarrow> lexes (newline_indent d @ b) [t]"
  using lexes_append [OF newline_indent_lexes] by simp

lemma lexes_indented_member:
  "lexes_to t ts \<Longrightarrow> lexes_to (newline_indent d @ quote_str k @ CHR '':'' # CHR '' '' # t) (TStr k # TColon # ts)"
proof (rule lexes_indented_item)
  assume t: "lexes_to t ts"
  have "lexes '' '' []" by (rule lexes_ws) (simp add: is_ws_def)
  then have "lexes_to ('' '' @ t) ([] @ ts)" using t by (rule lexes_append_to)
  then show "lexes_to (quote_str k @ CHR '':'' # CHR '' '' # t) (TStr k # TColon # ts)"
    using lexes_member by fastforce
qed

lemma json_indent_lexes: "wf_json v \<Longrightarrow> lexes_to (json_indent d v) (toks v)"
proof (induction d v rule: json_indent.induct)
  case (1 d x xs)
  let ?f = "\<lambda>v. newline_indent (Suc d) @ json_indent (Suc d) v"
  have "\<And>y. y \<in> set (x # xs) \<Longrightarrow> lexes_to (?f y) (toks y)"
    using 1 by (auto simp: list_all_iff intro!: lexes_indented_item)
  moreover have "lexes (CHR 0x0A # replicate (2 * d) (CHR '' '') @ '']'') [TRBrack]"
    using lexes_close [OF lexes_brackets(2), of d] by (simp add: newline_indent_def)
  ultimately show ?case
    using lexes_append [OF lexes_brackets(1) lexes_comma_sep [of "x # xs" ?f toks, OF _ _ close_not_num(3)]]
    by (simp add: lexes_lexes_to newline_indent_def)
next
  case (2 d x xs)
  let ?f = "\<lambda>(k, v). newline_indent (Suc d) @ quote_str k @ '': '' @ json_indent (Suc d) v"
  have "lexes_to (json_indent (Suc d) v) (toks v)" if "(k, v) \<in> set (x # xs)" for k v
    using 2 that by (fastforce simp: list_all_iff)
  then have "\<And>y. y \<in> set (x # xs) \<Longrightarrow> lexes_to (?f y) (member_toks y)"
    using lexes_indented_member by (auto simp del: set_simps split: prod.splits)
  moreover have "lexes (CHR 0x0A # replicate (2 * d) (CHR '' '') @ ''}'') [TRBrace]"
    using lexes_close [OF lexes_brackets(4), of d] by (simp add: newline_indent_def)
  ultimately show ?case
    using lexes_append [OF lexes_brackets(3) lexes_comma_sep [of "x # xs" ?f member_toks, OF _ _ close_not_num(3)]]
    by (simp add: lexes_lexes_to newline_indent_def)
qed (auto simp: json_text_lexes simp del: json_text.simps toks.simps)

lemma lexes_to_parse: "lexes_to s (toks v) \<Longrightarrow> json_parse s = Some v"
proof -
  assume "lexes_to s (toks v)"
  then have "lex s = Some (toks v)"
    unfolding lexes_to_def delim_def by (metis append.right_neutral lex.simps(1) option.simps(9))
  then show ?thesis using parse_val_toks [of v "Suc (length (toks v))" "[]"] by (simp add: json_parse_def)
qed

lemma json_parse_text: "wf_json v \<Longrightarrow> json_parse (json_text v) = Some v"
  by (rule lexes_to_parse [OF json_text_lexes])

lemma json_parse_indent: "wf_json v \<Longrightarrow> json_parse (json_indent d v) = Some v"
  by (rule lexes_to_parse [OF json_indent_lexes])

section \<open>Filling struct fields\<close>

text \<open>
  Unmarshal into a struct: the members of an object, none for null, an error for anything else.
  A field's decoder is given the member's value and the field's current value.
\<close>

definition struct_fields :: "json \<Rightarrow> (string \<times> json) list option" where
  "struct_fields v = (case v of JObj kvs \<Rightarrow> Some kvs | JNull \<Rightarrow> Some [] | _ \<Rightarrow> None)"

fun get_field :: "(json \<Rightarrow> 'a \<Rightarrow> 'a option) \<Rightarrow> string \<Rightarrow> 'a \<Rightarrow> (string \<times> json) list \<Rightarrow> 'a option" where
  "get_field dec f cur [] = Some cur"
| "get_field dec f cur ((k, v) # kvs) =
     (if EqualFold k f then (case dec v cur of None \<Rightarrow> None | Some c \<Rightarrow> get_field dec f c kvs)
      else get_field dec f cur kvs)"

definition dec_str :: "json \<Rightarrow> string \<Rightarrow> string option" where
  "dec_str v cur = (case v of JStr s \<Rightarrow> Some s | JNull \<Rightarrow> Some cur | _ \<Rightarrow> None)"

definition dec_bool :: "json \<Rightarrow> bool \<Rightarrow> bool option" where
  "dec_bool v cur = (case v of JBool b \<Rightarrow> Some b | JNull \<Rightarrow> Some cur | _ \<Rightarrow> None)"

definition dec_int :: "json \<Rightarrow> int \<Rightarrow> int option" where
  "dec_int v cur = (case v of JNum n \<Rightarrow> parse_int64 n | JNull \<Rightarrow> Some cur | _ \<Rightarrow> None)"

text \<open>A pointer field: null stores nil, another value is decoded into what it points to.\<close>

definition dec_ptr :: "(json \<Rightarrow> 'a \<Rightarrow> 'a option) \<Rightarrow> 'a \<Rightarrow> json \<Rightarrow> 'a option \<Rightarrow> 'a option option" where
  "dec_ptr dec z v cur = (if v = JNull then Some None
     else map_option Some (dec v (case cur of None \<Rightarrow> z | Some x \<Rightarrow> x)))"

fun dec_all :: "(json \<Rightarrow> 'a option) \<Rightarrow> json list \<Rightarrow> 'a list option" where
  "dec_all dec [] = Some []"
| "dec_all dec (v # vs) =
     (case dec v of None \<Rightarrow> None
      | Some x \<Rightarrow> (case dec_all dec vs of None \<Rightarrow> None | Some xs \<Rightarrow> Some (x # xs)))"

definition dec_slice :: "(json \<Rightarrow> 'a option) \<Rightarrow> json \<Rightarrow> 'a list \<Rightarrow> 'a list option" where
  "dec_slice dec v cur = (case v of JArr vs \<Rightarrow> dec_all dec vs | JNull \<Rightarrow> Some [] | _ \<Rightarrow> None)"

abbreviation get_str :: "string \<Rightarrow> (string \<times> json) list \<Rightarrow> string option" where
  "get_str f kvs \<equiv> get_field dec_str f [] kvs"

abbreviation get_bool :: "string \<Rightarrow> (string \<times> json) list \<Rightarrow> bool option" where
  "get_bool f kvs \<equiv> get_field dec_bool f False kvs"

abbreviation get_int :: "string \<Rightarrow> (string \<times> json) list \<Rightarrow> int option" where
  "get_int f kvs \<equiv> get_field dec_int f 0 kvs"

lemma dec_all_map: "(\<And>x. x \<in> set xs \<Longrightarrow> dec (enc x) = Some x) \<Longrightarrow> dec_all dec (map enc xs) = Some xs"
  by (induction xs) auto

end
