(* ===== verification/Base64.thy ===== *)
theory Base64
  imports Prelude
begin

text \<open>
  encoding/base64: StdEncoding (padded, + and /) and RawURLEncoding (unpadded, - and _), the two
  the node uses. The decoders skip carriage returns and line feeds and do not check the unused
  low bits of a final group, as Go's non-strict decoders do not.
\<close>

definition b64_char :: "char \<Rightarrow> char \<Rightarrow> nat \<Rightarrow> char" where
  "b64_char c62 c63 n =
     (if n < 26 then char_of (65 + n) else if n < 52 then char_of (71 + n)
      else if n < 62 then char_of (n - 4) else if n = 62 then c62 else c63)"

definition b64_val :: "char \<Rightarrow> char \<Rightarrow> char \<Rightarrow> nat option" where
  "b64_val c62 c63 c = (let n = of_char c :: nat in
     if 65 \<le> n \<and> n \<le> 90 then Some (n - 65) else if 97 \<le> n \<and> n \<le> 122 then Some (n - 71)
     else if 48 \<le> n \<and> n \<le> 57 then Some (n + 4)
     else if c = c62 then Some 62 else if c = c63 then Some 63 else None)"

text \<open>Bytes to 6-bit digits and back.\<close>

fun sextets :: "bytes \<Rightarrow> nat list" where
  "sextets [] = []"
| "sextets [a] = [of_char a div 4, of_char a mod 4 * 16]"
| "sextets [a, b] = [of_char a div 4, of_char a mod 4 * 16 + of_char b div 16, of_char b mod 16 * 4]"
| "sextets (a # b # c # r) =
     of_char a div 4 # (of_char a mod 4 * 16 + of_char b div 16)
       # (of_char b mod 16 * 4 + of_char c div 64) # of_char c mod 64 # sextets r"

fun unsextets :: "nat list \<Rightarrow> bytes option" where
  "unsextets [] = Some []"
| "unsextets [p] = None"
| "unsextets [p, q] = Some [char_of (p * 4 + q div 16)]"
| "unsextets [p, q, r] = Some [char_of (p * 4 + q div 16), char_of (q mod 16 * 16 + r div 4)]"
| "unsextets (p # q # r # s # t) =
     (case unsextets t of None \<Rightarrow> None
      | Some bs \<Rightarrow> Some (char_of (p * 4 + q div 16) # char_of (q mod 16 * 16 + r div 4) # char_of (r mod 4 * 64 + s) # bs))"

fun all_some :: "'a option list \<Rightarrow> 'a list option" where
  "all_some [] = Some []"
| "all_some (x # xs) = (case x of None \<Rightarrow> None
     | Some a \<Rightarrow> (case all_some xs of None \<Rightarrow> None | Some as \<Rightarrow> Some (a # as)))"

definition b64_digits :: "char \<Rightarrow> char \<Rightarrow> string \<Rightarrow> bytes option" where
  "b64_digits c62 c63 s = (case all_some (map (b64_val c62 c63) s) of None \<Rightarrow> None | Some ns \<Rightarrow> unsextets ns)"

definition drop_newlines :: "string \<Rightarrow> string" where
  "drop_newlines s = filter (\<lambda>c. c \<noteq> CHR 0x0A \<and> c \<noteq> CHR 0x0D) s"

definition padding :: "nat \<Rightarrow> string" where
  "padding n = replicate ((4 - n mod 4) mod 4) (CHR ''='')"

definition StdEncode :: "bytes \<Rightarrow> string" where
  "StdEncode bs = (let d = map (b64_char (CHR ''+'') (CHR ''/'')) (sextets bs) in d @ padding (length d))"

definition StdDecode :: "string \<Rightarrow> bytes option" where
  "StdDecode s =
    (let t = drop_newlines s; d = takeWhile (\<lambda>c. c \<noteq> CHR ''='') t; p = dropWhile (\<lambda>c. c \<noteq> CHR ''='') t
     in if p = padding (length d) then b64_digits (CHR ''+'') (CHR ''/'') d else None)"

definition RawURLEncode :: "bytes \<Rightarrow> string" where
  "RawURLEncode bs = map (b64_char (CHR ''-'') (CHR ''_'')) (sextets bs)"

definition RawURLDecode :: "string \<Rightarrow> bytes option" where
  "RawURLDecode s = b64_digits (CHR ''-'') (CHR ''_'') (drop_newlines s)"

section \<open>Decoding an encoding\<close>

lemma byte_less: "(of_char (c :: char) :: nat) < 256"
  by (rule nat_of_char_less_256)

lemma byte_parts:
  "(of_char (a :: char) :: nat) div 4 < 64" "(of_char a :: nat) div 64 < 4" "(of_char a :: nat) div 16 < 16"
  using byte_less [of a] by (simp_all add: less_mult_imp_div_less)

lemma sextets_less: "n \<in> set (sextets bs) \<Longrightarrow> n < 64"
proof (induction bs rule: sextets.induct)
  case (4 a b c r)
  have "(of_char a :: nat) mod 4 < 4" "(of_char b :: nat) mod 16 < 16" "(of_char c :: nat) mod 64 < 64"
    by simp_all
  then have "(of_char a :: nat) mod 4 * 16 + of_char b div 16 < 64" "(of_char b :: nat) mod 16 * 4 + of_char c div 64 < 64"
    using byte_parts(3) [of b] byte_parts(2) [of c] by linarith+
  with 4 byte_parts(1) [of a] show ?case by auto
next
  case (3 a b)
  have "(of_char a :: nat) mod 4 < 4" "(of_char b :: nat) mod 16 < 16" by simp_all
  then have "(of_char a :: nat) mod 4 * 16 + of_char b div 16 < 64" "(of_char b :: nat) mod 16 * 4 < 64"
    using byte_parts(3) [of b] by linarith+
  with 3 byte_parts(1) [of a] show ?case by auto
next
  case (2 a)
  have "(of_char a :: nat) mod 4 < 4" by simp
  then have "(of_char a :: nat) mod 4 * 16 < 64" by linarith
  with 2 byte_parts(1) [of a] show ?case by auto
qed simp

lemma unsextets_sextets: "unsextets (sextets bs) = Some bs"
proof (induction bs rule: sextets.induct)
  case (2 a)
  show ?case by simp
next
  case (3 a b)
  show ?case using byte_parts(3) [of b] by simp
next
  case (4 a b c r)
  then show ?case using byte_parts(3) [of b] byte_parts(2) [of c] by simp
qed simp

lemma b64_char_plain:
  assumes "n < 64" "c62 \<in> {CHR ''+'', CHR ''-''}" "c63 \<in> {CHR ''/'', CHR ''_''}"
  shows "b64_val c62 c63 (b64_char c62 c63 n) = Some n" "b64_char c62 c63 n \<noteq> CHR ''=''"
    "b64_char c62 c63 n \<noteq> CHR 0x0A" "b64_char c62 c63 n \<noteq> CHR 0x0D"
proof -
  have bad: "b64_val c62 c63 c = None" if "c \<in> {CHR ''='', CHR 0x0A, CHR 0x0D}" for c
    using that assms(2,3) by (auto simp: b64_val_def)
  consider "n < 26" | "26 \<le> n" "n < 52" | "52 \<le> n" "n < 62" | "n = 62" | "n = 63"
    using assms(1) by linarith
  then show good: "b64_val c62 c63 (b64_char c62 c63 n) = Some n"
    using assms(2,3) by cases (auto simp: b64_val_def b64_char_def of_char_of Let_def)
  then show "b64_char c62 c63 n \<noteq> CHR ''=''" "b64_char c62 c63 n \<noteq> CHR 0x0A" "b64_char c62 c63 n \<noteq> CHR 0x0D"
    using bad by fastforce+
qed

lemma b64_digits_encode:
  assumes "c62 \<in> {CHR ''+'', CHR ''-''}" "c63 \<in> {CHR ''/'', CHR ''_''}"
  shows "b64_digits c62 c63 (map (b64_char c62 c63) (sextets bs)) = Some bs"
proof -
  have "all_some (map (b64_val c62 c63) (map (b64_char c62 c63) ns)) = Some ns" if "\<forall>n \<in> set ns. n < 64" for ns
    using that assms by (induction ns) (auto simp: b64_char_plain)
  then show ?thesis using sextets_less by (simp add: b64_digits_def unsextets_sextets)
qed

lemma drop_newlines_encode:
  assumes "c62 \<in> {CHR ''+'', CHR ''-''}" "c63 \<in> {CHR ''/'', CHR ''_''}"
  shows "drop_newlines (map (b64_char c62 c63) (sextets bs)) = map (b64_char c62 c63) (sextets bs)"
  unfolding drop_newlines_def using sextets_less assms
  by (intro filter_True) (auto simp: b64_char_plain)

lemma RawURLDecode_Encode [simp]: "RawURLDecode (RawURLEncode bs) = Some bs"
  by (simp add: RawURLDecode_def RawURLEncode_def drop_newlines_encode b64_digits_encode)

lemma StdDecode_Encode [simp]: "StdDecode (StdEncode bs) = Some bs"
proof -
  define d where "d = map (b64_char (CHR ''+'') (CHR ''/'')) (sextets bs)"
  have eq: "c \<noteq> CHR ''=''" if "c \<in> set d" for c
    using that sextets_less b64_char_plain(2) by (force simp: d_def)
  have pad: "drop_newlines (padding n) = padding n" "takeWhile (\<lambda>c. c \<noteq> CHR ''='') (padding n) = []"
    "dropWhile (\<lambda>c. c \<noteq> CHR ''='') (padding n) = padding n" for n
    by (cases "(4 - n mod 4) mod 4"; simp add: drop_newlines_def padding_def)+
  have "drop_newlines (d @ padding n) = d @ padding n" for n
    using drop_newlines_encode [of "CHR ''+''" "CHR ''/''" bs] pad(1) [of n]
    by (simp add: d_def drop_newlines_def)
  moreover have "takeWhile (\<lambda>c. c \<noteq> CHR ''='') (d @ padding n) = d" for n
    using takeWhile_append2 [of d "\<lambda>c. c \<noteq> CHR ''=''" "padding n"] eq pad(2) by simp
  moreover have "dropWhile (\<lambda>c. c \<noteq> CHR ''='') (d @ padding n) = padding n" for n
    using dropWhile_append2 [of d "\<lambda>c. c \<noteq> CHR ''=''" "padding n"] eq pad(3) by simp
  moreover have "b64_digits (CHR ''+'') (CHR ''/'') d = Some bs" by (simp add: d_def b64_digits_encode)
  ultimately show ?thesis by (simp add: StdDecode_def StdEncode_def d_def [symmetric])
qed

end
