(* ===== verification/Jwks.thy ===== *)
theory Jwks
  imports Crypto Json Base64
begin

text \<open>
  The control plane's assertion-signing keys: parsing a JWKS document (internal/pairing/verify.go)
  and the caching, rate-limited key source over its endpoint (internal/pairing/jwks.go).

  The key source is modelled at two grains. HTTPKeySource_Keys and HTTPKeySource_KeysForKid run a
  whole call. ks_step is the interleaving: a call begins, and either answers, leads a fetch, or
  joins the one in flight; a fetch ends later. The clock readings and the HTTP answers come from
  the environment.
\<close>

section \<open>Documents\<close>

type_synonym ECPublicKeys = "(string \<times> (nat \<times> nat)) list"

datatype jwks_err = ErrParseJWKS | ErrMissingKid | ErrBadX | ErrBadY | ErrCoordLen nat nat | ErrNotOnCurve

definition b64urlDecode :: "string \<Rightarrow> bytes option" where
  "b64urlDecode s = RawURLDecode (TrimRight s (CHR ''=''))"

definition decodeJSONSegment :: "string \<Rightarrow> json option" where
  "decodeJSONSegment seg = Option.bind (b64urlDecode seg) json_parse"

definition ecP256FromXY :: "crypto \<Rightarrow> string \<Rightarrow> string \<Rightarrow> jwks_err + (nat \<times> nat)" where
  "ecP256FromXY c xB64 yB64 =
    (case b64urlDecode xB64 of None \<Rightarrow> Inl ErrBadX
     | Some x \<Rightarrow> (case b64urlDecode yB64 of None \<Rightarrow> Inl ErrBadY
        | Some y \<Rightarrow>
           if length x \<noteq> 32 \<or> length y \<noteq> 32 then Inl (ErrCoordLen (length x) (length y))
           else if \<not> c_pub_ok c (CHR 0x04 # x @ y) then Inl ErrNotOnCurve
           else Inr (be_nat x, be_nat y)))"

record jwk =
  jk_Kty :: string
  jk_Crv :: string
  jk_Kid :: string
  jk_X :: string
  jk_Y :: string

definition jwk_of_json :: "json \<Rightarrow> jwk option" where
  "jwk_of_json v = do {
     kvs \<leftarrow> struct_fields v;
     kty \<leftarrow> get_str ''kty'' kvs; crv \<leftarrow> get_str ''crv'' kvs; kid \<leftarrow> get_str ''kid'' kvs;
     x \<leftarrow> get_str ''x'' kvs; y \<leftarrow> get_str ''y'' kvs;
     Some \<lparr>jk_Kty = kty, jk_Crv = crv, jk_Kid = kid, jk_X = x, jk_Y = y\<rparr>}"

definition is_p256 :: "jwk \<Rightarrow> bool" where
  "is_p256 k \<longleftrightarrow> jk_Kty k = ''EC'' \<and> jk_Crv k = ''P-256''"

fun collect_keys :: "crypto \<Rightarrow> jwk list \<Rightarrow> ECPublicKeys \<Rightarrow> jwks_err + ECPublicKeys" where
  "collect_keys c [] out = Inr out"
| "collect_keys c (k # ks) out =
     (if \<not> is_p256 k then collect_keys c ks out
      else if jk_Kid k = [] then Inl ErrMissingKid
      else (case ecP256FromXY c (jk_X k) (jk_Y k) of
              Inl e \<Rightarrow> Inl e
            | Inr pub \<Rightarrow> collect_keys c ks (map_put (jk_Kid k) pub out)))"

definition ParseJWKS :: "crypto \<Rightarrow> bytes \<Rightarrow> jwks_err + ECPublicKeys" where
  "ParseJWKS c doc =
    (case (do { v \<leftarrow> json_parse doc; kvs \<leftarrow> struct_fields v; get_field (dec_slice jwk_of_json) ''keys'' [] kvs }) of
       None \<Rightarrow> Inl ErrParseJWKS
     | Some ks \<Rightarrow> collect_keys c ks [])"

section \<open>The key source\<close>

definition jwksPath :: string where "jwksPath = ''/oauth/jwks''"
definition jwksCacheTTL :: duration where "jwksCacheTTL = 10 * minute"
definition jwksMinRefresh :: duration where "jwksMinRefresh = 30 * second"

datatype fetch_err = ErrNoURL | ErrTransport string | ErrStatus nat | ErrDoc jwks_err | ErrRateLimited string

record HTTPKeySource =
  ks_keys :: "ECPublicKeys option"
  ks_fetchedAt :: time
  ks_lastAttempt :: time
  ks_inflight :: "nat option"   \<comment> \<open>the fetchCall in flight, named by a number\<close>

definition NewHTTPKeySource :: HTTPKeySource where
  "NewHTTPKeySource = \<lparr>ks_keys = None, ks_fetchedAt = zero_time, ks_lastAttempt = zero_time, ks_inflight = None\<rparr>"

text \<open>One GET and parse; the body is cut at 256 KiB.\<close>

definition ks_fetch :: "crypto \<Rightarrow> string \<Rightarrow> (string \<Rightarrow> http_result) \<Rightarrow> fetch_err + ECPublicKeys" where
  "ks_fetch c baseURL http =
    (let base = TrimRight baseURL (CHR ''/'')
     in if base = [] then Inl ErrNoURL
        else (case http (base @ jwksPath) of
                HttpFail e \<Rightarrow> Inl (ErrTransport e)
              | HttpResp status body \<Rightarrow>
                  if status \<noteq> 200 then Inl (ErrStatus status)
                  else (case ParseJWKS c (take (256 * 1024) body) of
                          Inl e \<Rightarrow> Inl (ErrDoc e) | Inr ks \<Rightarrow> Inr ks)))"

definition refresh_begin :: "time \<Rightarrow> HTTPKeySource \<Rightarrow> HTTPKeySource" where
  "refresh_begin now s = s\<lparr>ks_inflight := Some (case ks_inflight s of None \<Rightarrow> 0 | Some n \<Rightarrow> n), ks_lastAttempt := now\<rparr>"

definition refresh_end :: "time \<Rightarrow> fetch_err + ECPublicKeys \<Rightarrow> HTTPKeySource \<Rightarrow> HTTPKeySource" where
  "refresh_end now res s =
    (case res of Inl _ \<Rightarrow> s | Inr ks \<Rightarrow> s\<lparr>ks_keys := Some ks, ks_fetchedAt := now\<rparr>)\<lparr>ks_inflight := None\<rparr>"

text \<open>A call on an idle source: it leads the fetch. The three clock readings are in order.\<close>

definition refresh ::
  "time \<Rightarrow> time \<Rightarrow> fetch_err + ECPublicKeys \<Rightarrow> HTTPKeySource \<Rightarrow> (fetch_err + ECPublicKeys) \<times> HTTPKeySource" where
  "refresh t_start t_end res s = (res, refresh_end t_end res (refresh_begin t_start s))"

definition ks_fresh :: "time \<Rightarrow> HTTPKeySource \<Rightarrow> bool" where
  "ks_fresh now s \<longleftrightarrow> ks_keys s \<noteq> None \<and> now - ks_fetchedAt s < jwksCacheTTL"

record ks_env =
  ke_now :: time
  ke_start :: time
  ke_end :: time
  ke_fetch :: "fetch_err + ECPublicKeys"

definition HTTPKeySource_Keys :: "ks_env \<Rightarrow> HTTPKeySource \<Rightarrow> (fetch_err + ECPublicKeys) \<times> HTTPKeySource" where
  "HTTPKeySource_Keys e s =
    (if ks_fresh (ke_now e) s then (Inr (the (ks_keys s)), s)
     else (case refresh (ke_start e) (ke_end e) (ke_fetch e) s of
             (Inr ks, s') \<Rightarrow> (Inr ks, s')
           | (Inl err, s') \<Rightarrow> (case ks_keys s of Some cached \<Rightarrow> (Inr cached, s') | None \<Rightarrow> (Inl err, s'))))"

definition HTTPKeySource_KeysForKid ::
  "ks_env \<Rightarrow> string \<Rightarrow> HTTPKeySource \<Rightarrow> (fetch_err + ECPublicKeys) \<times> HTTPKeySource" where
  "HTTPKeySource_KeysForKid e kid s =
    (case ks_keys s of
       Some ks \<Rightarrow>
         if map_get ks kid \<noteq> None then (Inr ks, s)
         else if ke_now e - ks_lastAttempt s < jwksMinRefresh then (Inr ks, s)
         else refresh (ke_start e) (ke_end e) (ke_fetch e) s
     | None \<Rightarrow>
         if ke_now e - ks_lastAttempt s < jwksMinRefresh then (Inl (ErrRateLimited kid), s)
         else refresh (ke_start e) (ke_end e) (ke_fetch e) s)"

section \<open>Calls interleaved\<close>

text \<open>
  What a caller learns when it enters: an answer, that it leads a new fetch, or that it waits
  for the fetch in flight. Each entry is one critical section of the mutex in the code; KeysForKid
  reads the clock for its rate limit and again when it leads, and the two readings are the entry
  time here.
\<close>

datatype ks_entry = Answered "fetch_err + ECPublicKeys" | Leads | Joins

definition enter_refresh :: "time \<Rightarrow> HTTPKeySource \<Rightarrow> ks_entry \<times> HTTPKeySource" where
  "enter_refresh now s = (if ks_inflight s \<noteq> None then (Joins, s) else (Leads, refresh_begin now s))"

definition enter_Keys :: "time \<Rightarrow> HTTPKeySource \<Rightarrow> ks_entry \<times> HTTPKeySource" where
  "enter_Keys now s = (if ks_fresh now s then (Answered (Inr (the (ks_keys s))), s) else enter_refresh now s)"

definition enter_KeysForKid :: "time \<Rightarrow> string \<Rightarrow> HTTPKeySource \<Rightarrow> ks_entry \<times> HTTPKeySource" where
  "enter_KeysForKid now kid s =
    (case ks_keys s of
       Some ks \<Rightarrow>
         if map_get ks kid \<noteq> None \<or> now - ks_lastAttempt s < jwksMinRefresh then (Answered (Inr ks), s)
         else enter_refresh now s
     | None \<Rightarrow> if now - ks_lastAttempt s < jwksMinRefresh then (Answered (Inl (ErrRateLimited kid)), s)
         else enter_refresh now s)"

datatype ks_event = CallKeys time | CallKid time string | FetchDone time "fetch_err + ECPublicKeys"

fun ks_step :: "ks_event \<Rightarrow> HTTPKeySource \<Rightarrow> HTTPKeySource" where
  "ks_step (CallKeys now) s = snd (enter_Keys now s)"
| "ks_step (CallKid now kid) s = snd (enter_KeysForKid now kid s)"
| "ks_step (FetchDone now res) s = (if ks_inflight s = None then s else refresh_end now res s)"

text \<open>The times at which a fetch triggered by an unknown kid, or by any call, begins.\<close>

fun kid_fetches :: "ks_event list \<Rightarrow> HTTPKeySource \<Rightarrow> time list" where
  "kid_fetches [] s = []"
| "kid_fetches (e # es) s =
     (case e of CallKid now kid \<Rightarrow> (if fst (enter_KeysForKid now kid s) = Leads then [now] else []) | _ \<Rightarrow> [])
       @ kid_fetches es (ks_step e s)"

fun in_flight :: "ks_event list \<Rightarrow> HTTPKeySource \<Rightarrow> nat list" where
  "in_flight [] s = []"
| "in_flight (e # es) s = (case ks_inflight s of None \<Rightarrow> 0 | Some _ \<Rightarrow> 1) # in_flight es (ks_step e s)"

section \<open>Properties\<close>

fun event_time :: "ks_event \<Rightarrow> time" where
  "event_time (CallKeys now) = now"
| "event_time (CallKid now kid) = now"
| "event_time (FetchDone now res) = now"

lemma lastAttempt_step:
  "ks_lastAttempt (ks_step e s) = ks_lastAttempt s \<or> ks_lastAttempt (ks_step e s) = event_time e"
  by (cases e) (auto simp: enter_Keys_def enter_KeysForKid_def enter_refresh_def refresh_begin_def refresh_end_def
      split: option.splits sum.splits)

lemma kid_leads:
  "fst (enter_KeysForKid now kid s) = Leads \<Longrightarrow>
   jwksMinRefresh \<le> now - ks_lastAttempt s \<and> ks_lastAttempt (ks_step (CallKid now kid) s) = now"
  by (auto simp: enter_KeysForKid_def enter_refresh_def refresh_begin_def split: option.splits if_splits)

definition spaced :: "duration \<Rightarrow> time list \<Rightarrow> bool" where
  "spaced d ts \<longleftrightarrow> sorted_wrt (\<lambda>a b. d \<le> b - a) ts"

lemma kid_fetches_after:
  "sorted (map event_time es) \<Longrightarrow> \<forall>e \<in> set es. ks_lastAttempt s \<le> event_time e \<Longrightarrow>
   spaced jwksMinRefresh (kid_fetches es s) \<and> (\<forall>t \<in> set (kid_fetches es s). ks_lastAttempt s + jwksMinRefresh \<le> t)"
proof (induction es arbitrary: s)
  case (Cons e es)
  have step: "ks_lastAttempt s \<le> ks_lastAttempt (ks_step e s)"
    "\<forall>e' \<in> set es. ks_lastAttempt (ks_step e s) \<le> event_time e'"
    using lastAttempt_step [of e s] Cons.prems by auto
  with Cons have IH: "spaced jwksMinRefresh (kid_fetches es (ks_step e s))"
    "\<forall>t \<in> set (kid_fetches es (ks_step e s)). ks_lastAttempt (ks_step e s) + jwksMinRefresh \<le> t"
    by simp_all
  show ?case
  proof (cases "\<exists>now kid. e = CallKid now kid \<and> fst (enter_KeysForKid now kid s) = Leads")
    case True
    then obtain now kid where e: "e = CallKid now kid" "fst (enter_KeysForKid now kid s) = Leads" by blast
    then show ?thesis using IH step kid_leads [OF e(2)] by (fastforce simp: spaced_def)
  next
    case False
    then have "kid_fetches (e # es) s = kid_fetches es (ks_step e s)" by (cases e) auto
    with IH step show ?thesis by force
  qed
qed (simp add: spaced_def)



section \<open>Trusted keys\<close>

text \<open>A key that ParseJWKS may hand out: named, with 32-byte coordinates of a point on the curve.\<close>

definition jwk_key_ok :: "crypto \<Rightarrow> string \<Rightarrow> nat \<times> nat \<Rightarrow> bool" where
  "jwk_key_ok c kid pub \<longleftrightarrow> kid \<noteq> [] \<and>
    (\<exists>x y. length x = 32 \<and> length y = 32 \<and> c_pub_ok c (CHR 0x04 # x @ y) \<and> pub = (be_nat x, be_nat y))"

definition all_keys :: "(string \<Rightarrow> nat \<times> nat \<Rightarrow> bool) \<Rightarrow> ECPublicKeys \<Rightarrow> bool" where
  "all_keys ok ks \<longleftrightarrow> (\<forall>kid pub. map_get ks kid = Some pub \<longrightarrow> ok kid pub)"

lemma ecP256_ok: "ecP256FromXY c xs ys = Inr pub \<Longrightarrow> kid \<noteq> [] \<Longrightarrow> jwk_key_ok c kid pub"
  by (auto simp: ecP256FromXY_def jwk_key_ok_def split: option.splits if_splits)

lemma collect_keys_ok:
  "all_keys (jwk_key_ok c) out \<Longrightarrow> collect_keys c ks out = Inr res \<Longrightarrow> all_keys (jwk_key_ok c) res"
proof (induction c ks out rule: collect_keys.induct)
  case (2 c k ks out)
  show ?case
  proof (cases "is_p256 k")
    case True
    with 2(4) obtain pub where pub: "jk_Kid k \<noteq> []" "ecP256FromXY c (jk_X k) (jk_Y k) = Inr pub"
      "collect_keys c ks (map_put (jk_Kid k) pub out) = Inr res"
      by (auto split: if_splits sum.splits)
    have "all_keys (jwk_key_ok c) (map_put (jk_Kid k) pub out)"
      using 2(3) ecP256_ok [OF pub(2,1)] by (cases pub) (simp add: all_keys_def map_get_put)
    then show ?thesis using 2(2) True pub by simp
  qed (use 2 in simp)
qed simp

lemma collect_keys_complete:
  "collect_keys c ks out = Inr res \<Longrightarrow> kid \<in> fst ` set out \<union> jk_Kid ` {k \<in> set ks. is_p256 k} \<longleftrightarrow> map_get res kid \<noteq> None"
proof (induction c ks out rule: collect_keys.induct)
  case (1 c out)
  then show ?case by (auto simp: map_of_eq_None_iff)
next
  case (2 c k ks out)
  show ?case
  proof (cases "is_p256 k")
    case True
    with 2(3) obtain pub where "jk_Kid k \<noteq> []" "ecP256FromXY c (jk_X k) (jk_Y k) = Inr pub"
      "collect_keys c ks (map_put (jk_Kid k) pub out) = Inr res"
      by (auto split: if_splits sum.splits)
    then show ?thesis using 2(2) True by (auto simp: dom_update)
  next
    case False
    then have "{k' \<in> set (k # ks). is_p256 k'} = {k' \<in> set ks. is_p256 k'}" by auto
    then show ?thesis using 2 False by simp
  qed
qed

lemma ParseJWKS_keys_ok: "ParseJWKS c doc = Inr ks \<Longrightarrow> all_keys (jwk_key_ok c) ks"
proof -
  assume "ParseJWKS c doc = Inr ks"
  then obtain jwks where "collect_keys c jwks [] = Inr ks" unfolding ParseJWKS_def by (auto split: option.splits)
  then show ?thesis by (rule collect_keys_ok [rotated]) (simp add: all_keys_def)
qed

text \<open>
  ParseJWKS fails closed: when it succeeds the result has exactly the kids of the document's
  EC P-256 entries, none of them empty, and every key is a curve point with 32-byte
  coordinates; an entry of another kind never contributes a key.
\<close>

theorem ParseJWKS_sound:
  assumes "ParseJWKS c doc = Inr ks"
  shows "\<exists>jwks. (do { v \<leftarrow> json_parse doc; kvs \<leftarrow> struct_fields v; get_field (dec_slice jwk_of_json) ''keys'' [] kvs }) = Some jwks \<and>
    (\<forall>kid. map_get ks kid \<noteq> None \<longleftrightarrow> (\<exists>k \<in> set jwks. is_p256 k \<and> jk_Kid k = kid)) \<and>
    (\<forall>kid pub. map_get ks kid = Some pub \<longrightarrow> jwk_key_ok c kid pub)"
proof -
  from assms obtain jwks where j: "(do { v \<leftarrow> json_parse doc; kvs \<leftarrow> struct_fields v; get_field (dec_slice jwk_of_json) ''keys'' [] kvs }) = Some jwks"
    "collect_keys c jwks [] = Inr ks"
    unfolding ParseJWKS_def by (auto split: option.splits)
  have "kid \<in> fst ` set [] \<union> jk_Kid ` {k \<in> set jwks. is_p256 k} \<longleftrightarrow> (\<exists>k \<in> set jwks. is_p256 k \<and> jk_Kid k = kid)" for kid
    by auto
  then have kids: "map_get ks kid \<noteq> None \<longleftrightarrow> (\<exists>k \<in> set jwks. is_p256 k \<and> jk_Kid k = kid)" for kid
    using collect_keys_complete [OF j(2), of kid] by simp
  show ?thesis using j(1) kids ParseJWKS_keys_ok [OF assms] unfolding all_keys_def by blast
qed

theorem ParseJWKS_sound_witness:
  "let doc = json_text (JObj [(''keys'', JArr [JObj [(''kty'', JStr ''RSA''), (''kid'', JStr ''r'')]])])
   in ParseJWKS demo_crypto doc = Inr [] \<and> (\<exists>jwks. jwks \<noteq> [] \<and>
        (do { v \<leftarrow> json_parse doc; kvs \<leftarrow> struct_fields v; get_field (dec_slice jwk_of_json) ''keys'' [] kvs }) = Some jwks)"
proof -
  let ?v = "JObj [(''keys'', JArr [JObj [(''kty'', JStr ''RSA''), (''kid'', JStr ''r'')]])]"
  have "json_parse (json_text ?v) = Some ?v" by (rule json_parse_text) simp
  moreover have "get_field (dec_slice jwk_of_json) ''keys'' [] [(''keys'', JArr [JObj [(''kty'', JStr ''RSA''), (''kid'', JStr ''r'')]])]
      = Some [\<lparr>jk_Kty = ''RSA'', jk_Crv = [], jk_Kid = ''r'', jk_X = [], jk_Y = []\<rparr>]"
    by (simp add: dec_slice_def jwk_of_json_def struct_fields_def dec_str_def EqualFold_def ToLower_def lower_char_def)
  ultimately have keys: "(do { v \<leftarrow> json_parse (json_text ?v); kvs \<leftarrow> struct_fields v; get_field (dec_slice jwk_of_json) ''keys'' [] kvs })
      = Some [\<lparr>jk_Kty = ''RSA'', jk_Crv = [], jk_Kid = ''r'', jk_X = [], jk_Y = []\<rparr>]"
    by (simp add: struct_fields_def del: get_field.simps)
  then have "ParseJWKS demo_crypto (json_text ?v) = Inr []"
    unfolding ParseJWKS_def keys by (simp add: is_p256_def)
  from ParseJWKS_sound [OF this] this show ?thesis unfolding Let_def keys by blast
qed

lemma ks_fetch_ok: "ks_fetch c url http = Inr ks \<Longrightarrow> all_keys (jwk_key_ok c) ks"
  using ParseJWKS_keys_ok by (auto simp: ks_fetch_def Let_def split: http_result.splits if_splits sum.splits)

text \<open>
  The interface of a key source: Keys, and the optional KeysForKid. Whatever it answers, its keys
  are good, as long as the documents it fetched were.
\<close>

locale key_source =
  fixes keys :: "'e \<Rightarrow> 's \<Rightarrow> ('x + ECPublicKeys) \<times> 's"
    and for_kid :: "'e \<Rightarrow> string \<Rightarrow> 's \<Rightarrow> ('x + ECPublicKeys) \<times> 's"
    and ok :: "string \<Rightarrow> nat \<times> nat \<Rightarrow> bool"
    and inv :: "'s \<Rightarrow> bool"
    and sane :: "'e \<Rightarrow> bool"
  assumes keys_good: "inv s \<Longrightarrow> sane e \<Longrightarrow> keys e s = (r, s') \<Longrightarrow> inv s' \<and> (\<forall>ks. r = Inr ks \<longrightarrow> all_keys ok ks)"
    and for_kid_good: "inv s \<Longrightarrow> sane e \<Longrightarrow> for_kid e kid s = (r, s') \<Longrightarrow> inv s' \<and> (\<forall>ks. r = Inr ks \<longrightarrow> all_keys ok ks)"

definition ks_good :: "crypto \<Rightarrow> HTTPKeySource \<Rightarrow> bool" where
  "ks_good c s \<longleftrightarrow> (\<forall>ks. ks_keys s = Some ks \<longrightarrow> all_keys (jwk_key_ok c) ks)"

definition env_good :: "crypto \<Rightarrow> ks_env \<Rightarrow> bool" where
  "env_good c e \<longleftrightarrow> (\<forall>ks. ke_fetch e = Inr ks \<longrightarrow> all_keys (jwk_key_ok c) ks)"

interpretation jwks: key_source HTTPKeySource_Keys HTTPKeySource_KeysForKid "jwk_key_ok c" "ks_good c" "env_good c"
  for c
proof (unfold_locales, goal_cases)
  case (1 s e r s')
  then show ?case
    by (auto simp: HTTPKeySource_Keys_def ks_good_def env_good_def refresh_def refresh_end_def refresh_begin_def ks_fresh_def
        split: if_splits sum.splits option.splits)
next
  case (2 s e kid r s')
  then show ?case
    by (auto simp: HTTPKeySource_KeysForKid_def ks_good_def env_good_def refresh_def refresh_end_def refresh_begin_def
        split: if_splits sum.splits option.splits)
qed

end
