(* ===== verification/Verify.thy ===== *)
theory Verify
  imports Jwks
begin

text \<open>
  AssertionVerifier.Verify (internal/pairing/verify.go): the ES256 check of a pairing assertion.
  The key source is any pair of functions on a state of its own, as the code's interfaces
  KeySource and KidRefresher are; a source without KeysForKid passes none. The clock reading is an
  argument.
\<close>

record Assertion =
  as_AppIDPubB64 :: string
  as_NodeDeviceID :: string
  as_AccountID :: string

record AssertionVerifier =
  av_OwnDeviceID :: string
  av_OwnAccount :: string

datatype 'x verify_err = ErrNoKeySource | ErrNotCompact | ErrHeader | ErrAlg string | ErrNoKid
  | ErrKeys 'x | ErrNoTrustedKey string | ErrSigEncoding | ErrSigLen nat | ErrBadSignature
  | ErrClaims | ErrAudience string | ErrExpired | ErrNotYetValid | ErrOtherNode | ErrOtherAccount | ErrNoAppKey

definition PairingAudience :: string where "PairingAudience = ''onesilo-node-pairing''"
definition clockSkew :: duration where "clockSkew = 30 * second"

record jwt_header =
  jh_Alg :: string
  jh_Kid :: string

record jwt_claims =
  jc_Aud :: string
  jc_Exp :: int
  jc_Iat :: int
  jc_NodeDeviceID :: string
  jc_AccountID :: string
  jc_AppIDPub :: string

definition parse_header :: "string \<Rightarrow> jwt_header option" where
  "parse_header seg = do {
     v \<leftarrow> decodeJSONSegment seg; kvs \<leftarrow> struct_fields v;
     alg \<leftarrow> get_str ''alg'' kvs; kid \<leftarrow> get_str ''kid'' kvs;
     Some \<lparr>jh_Alg = alg, jh_Kid = kid\<rparr>}"

definition parse_claims :: "string \<Rightarrow> jwt_claims option" where
  "parse_claims seg = do {
     v \<leftarrow> decodeJSONSegment seg; kvs \<leftarrow> struct_fields v;
     aud \<leftarrow> get_str ''aud'' kvs; expires \<leftarrow> get_int ''exp'' kvs; iat \<leftarrow> get_int ''iat'' kvs;
     dev \<leftarrow> get_str ''node_device_id'' kvs; acc \<leftarrow> get_str ''account_id'' kvs; pub \<leftarrow> get_str ''app_id_pub'' kvs;
     Some \<lparr>jc_Aud = aud, jc_Exp = expires, jc_Iat = iat, jc_NodeDeviceID = dev, jc_AccountID = acc, jc_AppIDPub = pub\<rparr>}"

type_synonym ('x, 's) keys_fn = "'s \<Rightarrow> ('x + ECPublicKeys) \<times> 's"

text \<open>The trusted key for a kid, with the one refresh a KidRefresher gets.\<close>

definition find_key :: "('x, 's) keys_fn \<Rightarrow> (string \<Rightarrow> ('x, 's) keys_fn) option \<Rightarrow> string \<Rightarrow> 's
    \<Rightarrow> ('x verify_err + (nat \<times> nat)) \<times> 's" where
  "find_key keys for_kid kid s =
    (case keys s of
       (Inl e, s1) \<Rightarrow> (Inl (ErrKeys e), s1)
     | (Inr ks, s1) \<Rightarrow>
        (case map_get ks kid of
           Some pub \<Rightarrow> (Inr pub, s1)
         | None \<Rightarrow>
            (case for_kid of
               None \<Rightarrow> (Inl (ErrNoTrustedKey kid), s1)
             | Some f \<Rightarrow>
                (case f kid s1 of
                   (Inr ks2, s2) \<Rightarrow> (case map_get ks2 kid of Some pub \<Rightarrow> (Inr pub, s2) | None \<Rightarrow> (Inl (ErrNoTrustedKey kid), s2))
                 | (Inl e, s2) \<Rightarrow> (Inl (ErrNoTrustedKey kid), s2)))))"

definition check_signature :: "crypto \<Rightarrow> nat \<times> nat \<Rightarrow> string \<Rightarrow> string \<Rightarrow> string \<Rightarrow> 'x verify_err option" where
  "check_signature c pub p0 p1 p2 =
    (case b64urlDecode p2 of
       None \<Rightarrow> Some ErrSigEncoding
     | Some sig \<Rightarrow>
        if length sig \<noteq> 64 then Some (ErrSigLen (length sig))
        else if \<not> c_ecdsa c pub (c_sha256 c (p0 @ ''.'' @ p1)) (be_nat (take 32 sig)) (be_nat (drop 32 sig))
        then Some ErrBadSignature else None)"

definition check_claims :: "AssertionVerifier \<Rightarrow> time \<Rightarrow> jwt_claims \<Rightarrow> 'x verify_err + Assertion" where
  "check_claims v now c =
    (if jc_Aud c \<noteq> PairingAudience then Inl (ErrAudience (jc_Aud c))
     else if jc_Exp c = 0 \<or> now > time_add (unix_time (jc_Exp c)) clockSkew then Inl ErrExpired
     else if jc_Iat c \<noteq> 0 \<and> time_add now clockSkew < unix_time (jc_Iat c) then Inl ErrNotYetValid
     else if jc_NodeDeviceID c \<noteq> av_OwnDeviceID v then Inl ErrOtherNode
     else if jc_AccountID c \<noteq> av_OwnAccount v then Inl ErrOtherAccount
     else if jc_AppIDPub c = [] then Inl ErrNoAppKey
     else Inr \<lparr>as_AppIDPubB64 = jc_AppIDPub c, as_NodeDeviceID = jc_NodeDeviceID c, as_AccountID = jc_AccountID c\<rparr>)"

definition AssertionVerifier_Verify ::
  "crypto \<Rightarrow> ('x, 's) keys_fn option \<Rightarrow> (string \<Rightarrow> ('x, 's) keys_fn) option \<Rightarrow> AssertionVerifier \<Rightarrow> time \<Rightarrow> string \<Rightarrow> 's
    \<Rightarrow> ('x verify_err + Assertion) \<times> 's" where
  "AssertionVerifier_Verify c Keys for_kid v now token s =
    (case Keys of None \<Rightarrow> (Inl ErrNoKeySource, s)
     | Some keys \<Rightarrow>
      (case Split (CHR ''.'') token of
         [p0, p1, p2] \<Rightarrow>
          (case parse_header p0 of
             None \<Rightarrow> (Inl ErrHeader, s)
           | Some hdr \<Rightarrow>
              if jh_Alg hdr \<noteq> ''ES256'' then (Inl (ErrAlg (jh_Alg hdr)), s)
              else if jh_Kid hdr = [] then (Inl ErrNoKid, s)
              else (case find_key keys for_kid (jh_Kid hdr) s of
                      (Inl e, s1) \<Rightarrow> (Inl e, s1)
                    | (Inr pub, s1) \<Rightarrow>
                       (case check_signature c pub p0 p1 p2 of
                          Some e \<Rightarrow> (Inl e, s1)
                        | None \<Rightarrow>
                           (case parse_claims p1 of
                              None \<Rightarrow> (Inl ErrClaims, s1)
                            | Some cl \<Rightarrow> (check_claims v now cl, s1)))))
       | _ \<Rightarrow> (Inl ErrNotCompact, s)))"

section \<open>Specification\<close>

text \<open>What it means for a token to be a good assertion under a given verification key.\<close>

definition signed_by :: "crypto \<Rightarrow> nat \<times> nat \<Rightarrow> string \<Rightarrow> string \<Rightarrow> string \<Rightarrow> bool" where
  "signed_by c pub p0 p1 p2 \<longleftrightarrow> (\<exists>r s. length r = 32 \<and> length s = 32 \<and> b64urlDecode p2 = Some (r @ s) \<and>
     c_ecdsa c pub (c_sha256 c (p0 @ ''.'' @ p1)) (be_nat r) (be_nat s))"

definition claims_bind :: "AssertionVerifier \<Rightarrow> time \<Rightarrow> jwt_claims \<Rightarrow> bool" where
  "claims_bind v now c \<longleftrightarrow> jc_Aud c = PairingAudience \<and>
     jc_Exp c \<noteq> 0 \<and> now \<le> time_add (unix_time (jc_Exp c)) clockSkew \<and>
     (jc_Iat c = 0 \<or> unix_time (jc_Iat c) \<le> time_add now clockSkew) \<and>
     jc_NodeDeviceID c = av_OwnDeviceID v \<and> jc_AccountID c = av_OwnAccount v \<and> jc_AppIDPub c \<noteq> []"

definition good_assertion :: "crypto \<Rightarrow> (string \<Rightarrow> nat \<times> nat \<Rightarrow> bool) \<Rightarrow> AssertionVerifier \<Rightarrow> time \<Rightarrow> string \<Rightarrow> Assertion \<Rightarrow> bool" where
  "good_assertion c trusted v now token a \<longleftrightarrow>
    (\<exists>p0 p1 p2 hdr cl pub. token = p0 @ ''.'' @ p1 @ ''.'' @ p2 \<and>
       parse_header p0 = Some hdr \<and> jh_Alg hdr = ''ES256'' \<and> trusted (jh_Kid hdr) pub \<and>
       signed_by c pub p0 p1 p2 \<and> parse_claims p1 = Some cl \<and> claims_bind v now cl \<and>
       as_AppIDPubB64 a = jc_AppIDPub cl \<and> as_NodeDeviceID a = av_OwnDeviceID v \<and> as_AccountID a = av_OwnAccount v)"

lemma check_signature_spec: "check_signature c pub p0 p1 p2 = None \<longleftrightarrow> signed_by c pub p0 p1 p2"
proof
  assume "check_signature c pub p0 p1 p2 = None"
  then obtain sig where "b64urlDecode p2 = Some sig" "length sig = 64"
    "c_ecdsa c pub (c_sha256 c (p0 @ ''.'' @ p1)) (be_nat (take 32 sig)) (be_nat (drop 32 sig))"
    by (auto simp: check_signature_def split: option.splits if_splits)
  then show "signed_by c pub p0 p1 p2"
    unfolding signed_by_def by (intro exI [of _ "take 32 sig"] exI [of _ "drop 32 sig"]) simp
qed (auto simp: signed_by_def check_signature_def)

lemma check_claims_spec:
  "check_claims v now cl = Inr a \<longleftrightarrow> claims_bind v now cl \<and>
    a = \<lparr>as_AppIDPubB64 = jc_AppIDPub cl, as_NodeDeviceID = av_OwnDeviceID v, as_AccountID = av_OwnAccount v\<rparr>"
  by (auto simp: check_claims_def claims_bind_def)

lemma Split_three: "Split ch s = [a, b, d] \<Longrightarrow> s = a @ [ch] @ b @ [ch] @ d"
  using Split_join [of ch s] by simp

section \<open>Verification over a trustworthy key source\<close>

context key_source
begin

lemma find_key_good:
  assumes "inv s" "sane e" "find_key (keys e) (Some (for_kid e)) kid s = (r, s')"
  shows "inv s' \<and> (\<forall>pub. r = Inr pub \<longrightarrow> ok kid pub)"
proof -
  obtain r1 s1 where k: "keys e s = (r1, s1)" by fastforce
  obtain r2 s2 where f: "for_kid e kid s1 = (r2, s2)" by fastforce
  have g1: "inv s1" "\<And>ks. r1 = Inr ks \<Longrightarrow> all_keys ok ks" using keys_good [OF assms(1,2) k] by blast+
  have g2: "inv s2" "\<And>ks. r2 = Inr ks \<Longrightarrow> all_keys ok ks" using for_kid_good [OF g1(1) assms(2) f] by blast+
  show ?thesis using assms(3) k f g1 g2
    by (cases r1; cases r2) (auto simp: find_key_def all_keys_def split: option.splits)
qed

lemma Verify_good:
  assumes "inv s" "sane e" "AssertionVerifier_Verify c (Some (keys e)) (Some (for_kid e)) v now token s = (r, s')"
  shows "inv s' \<and> (\<forall>a. r = Inr a \<longrightarrow> good_assertion c ok v now token a)"
proof -
  consider (early) "s' = s" "\<nexists>a. r = Inr a"
    | (late) p0 p1 p2 hdr q where "Split (CHR ''.'') token = [p0, p1, p2]" "parse_header p0 = Some hdr" "jh_Alg hdr = ''ES256''"
        "find_key (keys e) (Some (for_kid e)) (jh_Kid hdr) s = (q, s')"
        "r = (case q of Inl e \<Rightarrow> Inl e | Inr pub \<Rightarrow>
           (case check_signature c pub p0 p1 p2 of Some e \<Rightarrow> Inl e
            | None \<Rightarrow> (case parse_claims p1 of None \<Rightarrow> Inl ErrClaims | Some cl \<Rightarrow> check_claims v now cl)))"
    using assms(3) unfolding AssertionVerifier_Verify_def
    by (auto split: list.splits option.splits if_splits prod.splits sum.splits)
  then show ?thesis
  proof cases
    case late
    note fk = find_key_good [OF assms(1,2) late(4)]
    have "good_assertion c ok v now token a" if ra: "r = Inr a" for a
    proof -
      obtain pub cl where pub: "q = Inr pub" "signed_by c pub p0 p1 p2" "parse_claims p1 = Some cl"
        "claims_bind v now cl"
        "a = \<lparr>as_AppIDPubB64 = jc_AppIDPub cl, as_NodeDeviceID = av_OwnDeviceID v, as_AccountID = av_OwnAccount v\<rparr>"
        using ra late(5)
        by (auto simp: check_signature_spec check_claims_spec split: sum.splits option.splits)
      moreover have "ok (jh_Kid hdr) pub" using fk pub(1) by blast
      moreover have "token = p0 @ ''.'' @ p1 @ ''.'' @ p2" using Split_three [OF late(1)] by simp
      ultimately show ?thesis using late(2,3) unfolding good_assertion_def
        by (intro exI [of _ p0] exI [of _ p1] exI [of _ p2] exI [of _ hdr] exI [of _ cl] exI [of _ pub]) simp
    qed
    with fk show ?thesis by blast
  qed (use assms(1) in auto)
qed

end

section \<open>A concrete token\<close>

lemma RawURLEncode_plain: "CHR ''='' \<notin> set (RawURLEncode bs)" "CHR ''.'' \<notin> set (RawURLEncode bs)"
proof -
  have "b64_val (CHR ''-'') (CHR ''_'') (CHR ''.'') = None" by (simp add: b64_val_def)
  then have "b64_char (CHR ''-'') (CHR ''_'') n \<noteq> CHR ''.''" if "n < 64" for n
    using b64_char_plain(1) [of n "CHR ''-''" "CHR ''_''"] that by auto
  then show "CHR ''.'' \<notin> set (RawURLEncode bs)" using sextets_less by (auto simp: RawURLEncode_def) metis
  have "b64_char (CHR ''-'') (CHR ''_'') n \<noteq> CHR ''=''" if "n < 64" for n
    using b64_char_plain(2) [of n "CHR ''-''" "CHR ''_''"] that by simp
  then show "CHR ''='' \<notin> set (RawURLEncode bs)" using sextets_less by (auto simp: RawURLEncode_def) metis
qed

lemma TrimRight_id: "ch \<notin> set s \<Longrightarrow> TrimRight s ch = s"
  by (cases "rev s") (auto simp: TrimRight_def rev_swap)

lemma decodeJSONSegment_encode: "wf_json v \<Longrightarrow> decodeJSONSegment (RawURLEncode (json_text v)) = Some v"
  by (simp add: decodeJSONSegment_def b64urlDecode_def json_parse_text TrimRight_id RawURLEncode_plain)

definition demo_header :: json where
  "demo_header = JObj [(''alg'', JStr ''ES256''), (''kid'', JStr ''k1'')]"

definition demo_claims :: json where
  "demo_claims = JObj [(''aud'', JStr ''onesilo-node-pairing''), (''exp'', JNum ''100''), (''iat'', JNum ''40''),
     (''node_device_id'', JStr ''dev''), (''account_id'', JStr ''acct''), (''app_id_pub'', JStr ''QQ=='')]"

definition demo_token :: string where
  "demo_token = RawURLEncode (json_text demo_header) @ ''.'' @ RawURLEncode (json_text demo_claims) @ ''.''
     @ RawURLEncode (replicate 64 (CHR ''s''))"

definition demo_verifier :: AssertionVerifier where
  "demo_verifier = \<lparr>av_OwnDeviceID = ''dev'', av_OwnAccount = ''acct''\<rparr>"

definition demo_assertion :: Assertion where
  "demo_assertion = \<lparr>as_AppIDPubB64 = ''QQ=='', as_NodeDeviceID = ''dev'', as_AccountID = ''acct''\<rparr>"

definition demo_key :: "nat \<times> nat" where
  "demo_key = (be_nat (replicate 32 (CHR ''x'')), be_nat (replicate 32 (CHR ''y'')))"

lemma demo_Split: "Split (CHR ''.'') demo_token =
  [RawURLEncode (json_text demo_header), RawURLEncode (json_text demo_claims), RawURLEncode (replicate 64 (CHR ''s''))]"
  by (simp add: demo_token_def Split_plain RawURLEncode_plain)

lemma demo_parse_header: "parse_header (RawURLEncode (json_text demo_header)) = Some \<lparr>jh_Alg = ''ES256'', jh_Kid = ''k1''\<rparr>"
proof -
  have "decodeJSONSegment (RawURLEncode (json_text demo_header)) = Some demo_header"
    by (rule decodeJSONSegment_encode) (simp add: demo_header_def)
  then show ?thesis
    by (simp add: parse_header_def demo_header_def struct_fields_def dec_str_def EqualFold_def ToLower_def lower_char_def)
qed

lemma demo_parse_claims: "parse_claims (RawURLEncode (json_text demo_claims)) =
  Some \<lparr>jc_Aud = ''onesilo-node-pairing'', jc_Exp = 100, jc_Iat = 40, jc_NodeDeviceID = ''dev'', jc_AccountID = ''acct'', jc_AppIDPub = ''QQ==''\<rparr>"
proof -
  have "decodeJSONSegment (RawURLEncode (json_text demo_claims)) = Some demo_claims"
    by (rule decodeJSONSegment_encode)
      (simp add: demo_claims_def valid_num_def strip_sign_def is_digit_def is_num_char_def valid_frac_exp_def valid_exp_def)
  moreover have "parse_int64 ''100'' = Some 100" "parse_int64 ''40'' = Some 40"
    by (simp_all add: parse_int64_def digit_val_def in_int64_def)
  ultimately show ?thesis
    by (simp add: parse_claims_def demo_claims_def struct_fields_def dec_str_def dec_int_def EqualFold_def ToLower_def lower_char_def)
qed

lemma demo_claims_bind: "claims_bind demo_verifier (90 * second)
  \<lparr>jc_Aud = ''onesilo-node-pairing'', jc_Exp = 100, jc_Iat = 40, jc_NodeDeviceID = ''dev'', jc_AccountID = ''acct'', jc_AppIDPub = ''QQ==''\<rparr>"
  by (simp add: claims_bind_def PairingAudience_def demo_verifier_def unix_time_def wrap64_def unix_epoch_shift_def
      time_add_def max_time_def clockSkew_def second_def)

lemma demo_signed: "signed_by demo_crypto pub p0 p1 (RawURLEncode (replicate 64 (CHR ''s'')))"
proof -
  have "b64urlDecode (RawURLEncode (replicate 64 (CHR ''s''))) = Some (replicate 64 (CHR ''s''))"
    by (simp add: b64urlDecode_def TrimRight_id RawURLEncode_plain)
  moreover have "replicate 64 (CHR ''s'') = replicate 32 (CHR ''s'') @ replicate 32 (CHR ''s'')"
    using replicate_add [of 32 32 "CHR ''s''"] by simp
  ultimately show ?thesis unfolding signed_by_def
    by (intro exI [of _ "replicate 32 (CHR ''s'')"]) (simp add: demo_crypto_def)
qed


definition demo_source :: HTTPKeySource where
  "demo_source = NewHTTPKeySource\<lparr>ks_keys := Some [(''k1'', demo_key)], ks_fetchedAt := 80 * second\<rparr>"

definition demo_env :: ks_env where
  "demo_env = \<lparr>ke_now = 90 * second, ke_start = 90 * second, ke_end = 91 * second, ke_fetch = Inl ErrNoURL\<rparr>"

lemma demo_Keys: "HTTPKeySource_Keys demo_env demo_source = (Inr [(''k1'', demo_key)], demo_source)"
  by (simp add: HTTPKeySource_Keys_def ks_fresh_def demo_source_def demo_env_def jwksCacheTTL_def minute_def second_def)

lemma demo_verified: "AssertionVerifier_Verify demo_crypto (Some (HTTPKeySource_Keys demo_env)) for_kid demo_verifier
   (90 * second) demo_token demo_source = (Inr demo_assertion, demo_source)"
proof -
  have "check_signature demo_crypto demo_key p0 p1 (RawURLEncode (replicate 64 (CHR ''s''))) = (None :: fetch_err verify_err option)" for p0 p1
    using demo_signed check_signature_spec by blast
  moreover have "check_claims demo_verifier (90 * second)
     \<lparr>jc_Aud = ''onesilo-node-pairing'', jc_Exp = 100, jc_Iat = 40, jc_NodeDeviceID = ''dev'', jc_AccountID = ''acct'', jc_AppIDPub = ''QQ==''\<rparr>
     = (Inr demo_assertion :: fetch_err verify_err + Assertion)"
    using demo_claims_bind check_claims_spec by (fastforce simp: demo_assertion_def demo_verifier_def)
  ultimately show ?thesis
    by (simp add: AssertionVerifier_Verify_def demo_Split demo_parse_header demo_parse_claims find_key_def demo_Keys)
qed

lemma demo_good: "ks_good demo_crypto demo_source" "env_good demo_crypto demo_env"
  "good_assertion demo_crypto (jwk_key_ok demo_crypto) demo_verifier (90 * second) demo_token demo_assertion"
proof -
  have "jwk_key_ok demo_crypto ''k1'' demo_key"
    unfolding jwk_key_ok_def demo_key_def
    by (intro conjI exI [of _ "replicate 32 (CHR ''x'')"] exI [of _ "replicate 32 (CHR ''y'')"]) (simp_all add: demo_crypto_def)
  then show g: "ks_good demo_crypto demo_source" by (simp add: ks_good_def demo_source_def all_keys_def)
  show e: "env_good demo_crypto demo_env" by (simp add: env_good_def demo_env_def)
  show "good_assertion demo_crypto (jwk_key_ok demo_crypto) demo_verifier (90 * second) demo_token demo_assertion"
    using jwks.Verify_good [OF g e demo_verified] by blast
qed


text \<open>
  Verification is also complete: a token whose header, claims and signature are in order is
  accepted, with exactly the attested values, whenever the source knows the key of its kid.
\<close>

theorem Verify_complete:
  assumes "Split (CHR ''.'') token = [p0, p1, p2]" "parse_header p0 = Some hdr" "jh_Alg hdr = ''ES256''" "jh_Kid hdr \<noteq> []"
    and "keys s = (Inr ks, s')" "map_get ks (jh_Kid hdr) = Some pub" "signed_by c pub p0 p1 p2"
    and "parse_claims p1 = Some cl" "claims_bind v now cl"
  shows "AssertionVerifier_Verify c (Some keys) for_kid v now token s =
    (Inr \<lparr>as_AppIDPubB64 = jc_AppIDPub cl, as_NodeDeviceID = av_OwnDeviceID v, as_AccountID = av_OwnAccount v\<rparr>, s')"
proof -
  have "check_signature c pub p0 p1 p2 = (None :: 'a verify_err option)" using assms(7) check_signature_spec by blast
  moreover have "check_claims v now cl =
      (Inr \<lparr>as_AppIDPubB64 = jc_AppIDPub cl, as_NodeDeviceID = av_OwnDeviceID v, as_AccountID = av_OwnAccount v\<rparr> :: 'a verify_err + Assertion)"
    using assms(9) check_claims_spec by blast
  ultimately show ?thesis using assms by (simp add: AssertionVerifier_Verify_def find_key_def)
qed

theorem Verify_complete_witness:
  "AssertionVerifier_Verify demo_crypto (Some (HTTPKeySource_Keys demo_env)) None demo_verifier (90 * second) demo_token demo_source
    = (Inr demo_assertion, demo_source)"
  using Verify_complete [where c = demo_crypto and pub = demo_key and v = demo_verifier and keys = "HTTPKeySource_Keys demo_env" and s = demo_source, OF demo_Split demo_parse_header _ _ demo_Keys _ demo_signed demo_parse_claims demo_claims_bind]
  by (simp add: demo_assertion_def demo_verifier_def)

end
