(* ===== verification/Handshake.thy ===== *)
theory Handshake
  imports Verify
begin

text \<open>
  The node side of the pairing handshake (internal/pairing/handshake.go): a responder per
  connection that takes one pair_hello and one pair_confirm. The verifier's key source state is
  threaded through; the ephemeral key, the nonce and the clock reading are arguments.
\<close>

record Hello =
  h_Type :: string
  h_AppIDPub :: string
  h_AppEphPub :: string
  h_AppNonce :: string
  h_Assertion :: string

record Ack =
  ack_Type :: string
  ack_NodeIDPub :: string
  ack_NodeEphPub :: string
  ack_NodeNonce :: string
  ack_NodeConfirm :: string

record Confirm =
  cf_Type :: string
  cf_AppConfirm :: string

record Result =
  res_SessionKey :: bytes
  res_SAS :: string
  res_AppIDPubB64 :: string
  res_AccountID :: string
  res_NodeDeviceID :: string

record Responder =
  r_identity :: bytes
  r_verifier :: AssertionVerifier
  r_eph :: "bytes option"
  r_transcriptHash :: bytes
  r_sessionKey :: bytes
  r_sas :: string
  r_appIDPub :: string
  r_accountID :: string
  r_nodeDeviceID :: string
  r_helloDone :: bool
  r_done :: bool

datatype 'x resp_err = ErrHelloTwice | ErrB64 string | ErrPub string | ErrNonceBytes nat | ErrNoAssertion
  | ErrRejected "'x verify_err" | ErrAppKeyMismatch | ErrEphemeral | ErrNewNonce | ErrEphECDH | ErrStaticECDH
  | ErrDerive | ErrSAS | ErrConfirmFirst | ErrConfirmTwice | ErrMAC

definition FrameHello :: string where "FrameHello = ''pair_hello''"
definition FrameAck :: string where "FrameAck = ''pair_ack''"
definition FrameConfirm :: string where "FrameConfirm = ''pair_confirm''"
definition FrameError :: string where "FrameError = ''pair_error''"

definition NewResponder :: "bytes \<Rightarrow> AssertionVerifier \<Rightarrow> Responder" where
  "NewResponder identity verifier = \<lparr>r_identity = identity, r_verifier = verifier, r_eph = None,
     r_transcriptHash = [], r_sessionKey = [], r_sas = [], r_appIDPub = [], r_accountID = [], r_nodeDeviceID = [],
     r_helloDone = False, r_done = False\<rparr>"

definition decodeB64 :: "string \<Rightarrow> string \<Rightarrow> 'x resp_err + bytes" where
  "decodeB64 field s = (case StdDecode s of None \<Rightarrow> Inl (ErrB64 field) | Some b \<Rightarrow> Inr b)"

definition decodePub :: "crypto \<Rightarrow> string \<Rightarrow> string \<Rightarrow> 'x resp_err + bytes" where
  "decodePub c field s = (case decodeB64 field s of Inl e \<Rightarrow> Inl e
     | Inr b \<Rightarrow> if c_pub_ok c b then Inr b else Inl (ErrPub field))"

definition constantTimeStringEqual :: "string \<Rightarrow> string \<Rightarrow> bool" where
  "constantTimeStringEqual a b = VerifyMAC a b"

text \<open>The inputs Hello decodes before it asks the verifier: both app keys and the nonce.\<close>

definition hello_inputs :: "crypto \<Rightarrow> Hello \<Rightarrow> 'x resp_err + bytes \<times> bytes \<times> bytes" where
  "hello_inputs c h =
    (case decodePub c ''app_id_pub'' (h_AppIDPub h) of Inl e \<Rightarrow> Inl e
     | Inr idPub \<Rightarrow>
       (case decodePub c ''app_eph_pub'' (h_AppEphPub h) of Inl e \<Rightarrow> Inl e
        | Inr ephPub \<Rightarrow>
          (case decodeB64 ''app_nonce'' (h_AppNonce h) of Inl e \<Rightarrow> Inl e
           | Inr nonce \<Rightarrow>
              if length nonce \<noteq> NonceLen then Inl (ErrNonceBytes (length nonce))
              else if h_Assertion h = [] then Inl ErrNoAssertion
              else Inr (idPub, ephPub, nonce))))"

definition hello_transcript :: "crypto \<Rightarrow> bytes \<Rightarrow> bytes \<Rightarrow> bytes \<Rightarrow> bytes \<Rightarrow> bytes \<Rightarrow> bytes \<Rightarrow> string \<Rightarrow> Transcript" where
  "hello_transcript c appIDPub nodeIDPub appEphPub nodeEphPub appNonce nodeNonce assertion =
    \<lparr>t_AppIDPub = appIDPub, t_NodeIDPub = nodeIDPub, t_AppEphPub = appEphPub, t_NodeEphPub = nodeEphPub,
     t_AppNonce = appNonce, t_NodeNonce = nodeNonce, t_AssertionSHA = c_sha256 c assertion\<rparr>"

text \<open>Transcript hash, session key and SAS from the decoded inputs.\<close>

definition hello_keys :: "crypto \<Rightarrow> bytes \<Rightarrow> bytes \<Rightarrow> bytes \<Rightarrow> bytes \<Rightarrow> bytes \<Rightarrow> bytes \<Rightarrow> string
    \<Rightarrow> 'x resp_err + bytes \<times> bytes \<times> string" where
  "hello_keys c identity eph appIDPub appEphPub appNonce nodeNonce assertion =
    (let th = Transcript_Hash c (hello_transcript c appIDPub (c_pub c identity) appEphPub (c_pub c eph) appNonce nodeNonce assertion)
     in case c_ecdh c eph appEphPub of None \<Rightarrow> Inl ErrEphECDH
        | Some ee \<Rightarrow>
          (case c_ecdh c identity appIDPub of None \<Rightarrow> Inl ErrStaticECDH
           | Some ss \<Rightarrow>
             (case DeriveSessionKey c ee ss th of None \<Rightarrow> Inl ErrDerive
              | Some key \<Rightarrow> (case SAS c key of None \<Rightarrow> Inl ErrSAS | Some sas \<Rightarrow> Inr (th, key, sas)))))"

definition make_ack :: "crypto \<Rightarrow> bytes \<Rightarrow> bytes \<Rightarrow> bytes \<Rightarrow> bytes \<Rightarrow> bytes \<Rightarrow> Ack" where
  "make_ack c identity eph nodeNonce key th =
    \<lparr>ack_Type = FrameAck, ack_NodeIDPub = StdEncode (c_pub c identity), ack_NodeEphPub = StdEncode (c_pub c eph),
     ack_NodeNonce = StdEncode nodeNonce, ack_NodeConfirm = StdEncode (NodeConfirm c key th)\<rparr>"

record hello_env =
  he_now :: time
  he_eph :: "bytes option"
  he_nonce :: "bytes option"

definition Responder_Hello ::
  "crypto \<Rightarrow> ('x, 's) keys_fn option \<Rightarrow> (string \<Rightarrow> ('x, 's) keys_fn) option \<Rightarrow> hello_env \<Rightarrow> Hello \<Rightarrow> Responder \<Rightarrow> 's
    \<Rightarrow> ('x resp_err + Ack) \<times> Responder \<times> 's" where
  "Responder_Hello c Keys for_kid e h r s =
    (if r_helloDone r then (Inl ErrHelloTwice, r, s)
     else case hello_inputs c h of
       Inl err \<Rightarrow> (Inl err, r, s)
     | Inr (appIDPub, appEphPub, appNonce) \<Rightarrow>
       (case AssertionVerifier_Verify c Keys for_kid (r_verifier r) (he_now e) (h_Assertion h) s of
          (Inl err, s1) \<Rightarrow> (Inl (ErrRejected err), r, s1)
        | (Inr a, s1) \<Rightarrow>
          if \<not> constantTimeStringEqual (as_AppIDPubB64 a) (h_AppIDPub h) then (Inl ErrAppKeyMismatch, r, s1)
          else (case he_eph e of None \<Rightarrow> (Inl ErrEphemeral, r, s1)
            | Some eph \<Rightarrow>
              let r1 = r\<lparr>r_eph := Some eph\<rparr>
              in (case he_nonce e of None \<Rightarrow> (Inl ErrNewNonce, r1, s1)
                | Some nodeNonce \<Rightarrow>
                  (case hello_keys c (r_identity r) eph appIDPub appEphPub appNonce nodeNonce (h_Assertion h) of
                     Inl err \<Rightarrow> (Inl err, r1, s1)
                   | Inr (th, key, sas) \<Rightarrow>
                     (Inr (make_ack c (r_identity r) eph nodeNonce key th),
                      r1\<lparr>r_transcriptHash := th, r_sessionKey := key, r_sas := sas, r_appIDPub := as_AppIDPubB64 a,
                         r_accountID := as_AccountID a, r_nodeDeviceID := as_NodeDeviceID a, r_helloDone := True\<rparr>,
                      s1))))))"

definition responder_result :: "Responder \<Rightarrow> Result" where
  "responder_result r = \<lparr>res_SessionKey = r_sessionKey r, res_SAS = r_sas r, res_AppIDPubB64 = r_appIDPub r,
     res_AccountID = r_accountID r, res_NodeDeviceID = r_nodeDeviceID r\<rparr>"

definition Responder_Confirm :: "crypto \<Rightarrow> Confirm \<Rightarrow> Responder \<Rightarrow> ('x resp_err + Result) \<times> Responder" where
  "Responder_Confirm c cf r =
    (if \<not> r_helloDone r then (Inl ErrConfirmFirst, r)
     else if r_done r then (Inl ErrConfirmTwice, r)
     else case decodeB64 ''app_confirm'' (cf_AppConfirm cf) of
       Inl e \<Rightarrow> (Inl e, r)
     | Inr mac \<Rightarrow>
        if VerifyMAC (AppConfirm c (r_sessionKey r) (r_transcriptHash r)) mac
        then (Inr (responder_result r), r\<lparr>r_done := True\<rparr>)
        else (Inl ErrMAC, r))"

section \<open>What a successful Hello has established\<close>

lemma Hello_success:
  fixes Keys :: "('x, 's) keys_fn option"
  assumes "Responder_Hello c Keys for_kid e h r s = (Inr ack, r', s')"
  obtains idPub ephPub nonce a eph nodeNonce th key sas where
    "\<not> r_helloDone r"
    "hello_inputs c h = (Inr (idPub, ephPub, nonce) :: 'x resp_err + bytes \<times> bytes \<times> bytes)"
    "AssertionVerifier_Verify c Keys for_kid (r_verifier r) (he_now e) (h_Assertion h) s = (Inr a, s')"
    "as_AppIDPubB64 a = h_AppIDPub h" "he_eph e = Some eph" "he_nonce e = Some nodeNonce"
    "hello_keys c (r_identity r) eph idPub ephPub nonce nodeNonce (h_Assertion h) = (Inr (th, key, sas) :: 'x resp_err + bytes \<times> bytes \<times> string)"
    "ack = make_ack c (r_identity r) eph nodeNonce key th"
    "r' = r\<lparr>r_eph := Some eph, r_transcriptHash := th, r_sessionKey := key, r_sas := sas, r_appIDPub := as_AppIDPubB64 a,
            r_accountID := as_AccountID a, r_nodeDeviceID := as_NodeDeviceID a, r_helloDone := True\<rparr>"
  using assms
  by (auto simp: Responder_Hello_def constantTimeStringEqual_def VerifyMAC_def Let_def
      split: if_splits sum.splits prod.splits option.splits)

lemma Hello_failure:
  "Responder_Hello c Keys for_kid e h r s = (Inl err, r', s') \<Longrightarrow> r' = r\<lparr>r_eph := r_eph r'\<rparr>"
  by (auto simp: Responder_Hello_def Let_def split: if_splits sum.splits prod.splits option.splits)

lemma hello_inputs_SomeD:
  assumes "hello_inputs c h = Inr (idPub, ephPub, nonce)"
  shows "StdDecode (h_AppIDPub h) = Some idPub" "StdDecode (h_AppEphPub h) = Some ephPub"
    "StdDecode (h_AppNonce h) = Some nonce" "c_pub_ok c idPub" "c_pub_ok c ephPub" "length nonce = NonceLen" "h_Assertion h \<noteq> []"
  using assms by (auto simp: hello_inputs_def decodePub_def decodeB64_def split: sum.splits option.splits if_splits)

lemma hello_keys_success:
  assumes "hello_keys c identity eph idPub ephPub nonce nodeNonce assertion = Inr (th, key, sas)"
  shows "th = Transcript_Hash c (hello_transcript c idPub (c_pub c identity) ephPub (c_pub c eph) nonce nodeNonce assertion) \<and>
    (\<exists>ee ss. c_ecdh c eph ephPub = Some ee \<and> c_ecdh c identity idPub = Some ss \<and> DeriveSessionKey c ee ss th = Some key)"
  using assms by (auto simp: hello_keys_def Let_def split: option.splits)

section \<open>Sequences of frames on one connection\<close>

datatype hs_op = DoHello hello_env Hello | DoConfirm Confirm

fun hs_step :: "crypto \<Rightarrow> ('x, 's) keys_fn option \<Rightarrow> (string \<Rightarrow> ('x, 's) keys_fn) option \<Rightarrow> hs_op \<Rightarrow> Responder \<times> 's
    \<Rightarrow> Result option \<times> Responder \<times> 's" where
  "hs_step c Keys for_kid (DoHello e h) (r, s) = (None, snd (Responder_Hello c Keys for_kid e h r s))"
| "hs_step c Keys for_kid (DoConfirm cf) (r, s) =
     (case Responder_Confirm c cf r :: ('x resp_err + Result) \<times> Responder of
        (Inl _, r') \<Rightarrow> (None, r', s) | (Inr res, r') \<Rightarrow> (Some res, r', s))"

fun hs_results :: "crypto \<Rightarrow> ('x, 's) keys_fn option \<Rightarrow> (string \<Rightarrow> ('x, 's) keys_fn) option \<Rightarrow> hs_op list \<Rightarrow> Responder \<times> 's
    \<Rightarrow> Result list" where
  "hs_results c Keys for_kid [] w = []"
| "hs_results c Keys for_kid (op # ops) w =
     (case hs_step c Keys for_kid op w of (res, w') \<Rightarrow>
        (case res of None \<Rightarrow> [] | Some x \<Rightarrow> [x]) @ hs_results c Keys for_kid ops w')"

lemma Hello_after: "r_helloDone r \<Longrightarrow> Responder_Hello c Keys for_kid e h r s = (Inl ErrHelloTwice, r, s)"
  by (simp add: Responder_Hello_def)

lemma results_done:
  "r_helloDone r \<Longrightarrow> r_done r \<Longrightarrow> hs_results c Keys for_kid ops (r, s) = []"
  by (induction ops arbitrary: s)
    (auto simp: Responder_Confirm_def Hello_after elim!: hs_step.elims split: prod.splits)

lemma Confirm_cases:
  fixes c :: crypto
  assumes "r_helloDone r" "\<not> r_done r"
  obtains e where "Responder_Confirm c cf r = (Inl e :: 'x resp_err + Result, r)"
    | "Responder_Confirm c cf r = (Inr (responder_result r) :: 'x resp_err + Result, r\<lparr>r_done := True\<rparr>)"
proof (cases "decodeB64 ''app_confirm'' (cf_AppConfirm cf) :: 'x resp_err + bytes")
  case (Inl e)
  then show ?thesis using assms that(1) by (simp add: Responder_Confirm_def)
next
  case (Inr mac)
  then show ?thesis using assms that
    by (cases "VerifyMAC (AppConfirm c (r_sessionKey r) (r_transcriptHash r)) mac") (simp_all add: Responder_Confirm_def)
qed

lemma results_hello_done:
  fixes Keys :: "('x, 's) keys_fn option"
  shows
  "r_helloDone r \<Longrightarrow> \<not> r_done r \<Longrightarrow>
   hs_results c Keys for_kid ops (r, s) = [] \<or> hs_results c Keys for_kid ops (r, s) = [responder_result r]"
proof (induction ops arbitrary: r s)
  case (Cons op ops)
  show ?case
  proof (cases op)
    case (DoHello e h)
    then show ?thesis using Cons by (simp add: Hello_after)
  next
    case (DoConfirm cf)
    from Cons.prems show ?thesis
      by (cases rule: Confirm_cases [where 'x = 'x and c = c and cf = cf]) (simp_all add: DoConfirm Cons.IH results_done Cons.prems)
  qed
qed simp

text \<open>
  The responder is a strict two-step machine: whatever sequence of hello and confirm frames a
  connection sends, at most one result is ever produced, and only after an accepted hello.
\<close>

theorem handshake_single_result:
  "length (hs_results c Keys for_kid ops (NewResponder identity v, s)) \<le> 1"
proof -
  have "length (hs_results c Keys for_kid ops (r, s)) \<le> 1" if "\<not> r_helloDone r" "\<not> r_done r" for r
    using that
  proof (induction ops arbitrary: r s)
    case (Cons op ops)
    show ?case
    proof (cases op)
      case (DoHello e h)
      obtain q r' s' where hello: "Responder_Hello c Keys for_kid e h r s = (q, r', s')" by (metis surj_pair)
      show ?thesis
      proof (cases q)
        case (Inl err)
        then have "\<not> r_helloDone r' \<and> \<not> r_done r'"
          using Hello_failure [of c Keys for_kid e h r s err r' s'] hello Cons.prems by (cases r; cases r') simp
        then show ?thesis using Cons.IH hello DoHello by simp
      next
        case (Inr ack)
        then have "r_helloDone r'" "\<not> r_done r'"
          using hello Cons.prems by (auto elim!: Hello_success)
        then show ?thesis using results_hello_done [of r' c Keys for_kid ops s'] hello DoHello by auto
      qed
    next
      case (DoConfirm cf)
      then show ?thesis using Cons by (simp add: Responder_Confirm_def)
    qed
  qed simp
  then show ?thesis by (simp add: NewResponder_def)
qed

section \<open>Agreement\<close>

text \<open>
  The other role of the protocol, as docs/automated-pairing.md describes the app: from the ack it
  decodes the node's keys and nonce, forms the same transcript and derives its own session key.
\<close>

definition app_derive :: "crypto \<Rightarrow> bytes \<Rightarrow> bytes \<Rightarrow> bytes \<Rightarrow> string \<Rightarrow> Ack \<Rightarrow> (bytes \<times> bytes) option" where
  "app_derive c idPriv ephPriv nonce assertion ack = do {
     nodeId \<leftarrow> StdDecode (ack_NodeIDPub ack);
     nodeEph \<leftarrow> StdDecode (ack_NodeEphPub ack);
     nodeNonce \<leftarrow> StdDecode (ack_NodeNonce ack);
     let th = Transcript_Hash c (hello_transcript c (c_pub c idPriv) nodeId (c_pub c ephPriv) nodeEph nonce nodeNonce assertion);
     ee \<leftarrow> c_ecdh c ephPriv nodeEph;
     ss \<leftarrow> c_ecdh c idPriv nodeId;
     key \<leftarrow> DeriveSessionKey c ee ss th;
     Some (key, th)}"

definition app_hello :: "crypto \<Rightarrow> bytes \<Rightarrow> bytes \<Rightarrow> bytes \<Rightarrow> string \<Rightarrow> Hello" where
  "app_hello c idPriv ephPriv nonce assertion = \<lparr>h_Type = FrameHello, h_AppIDPub = StdEncode (c_pub c idPriv),
     h_AppEphPub = StdEncode (c_pub c ephPriv), h_AppNonce = StdEncode nonce, h_Assertion = assertion\<rparr>"

text \<open>
  C28. Honest runs agree: if the node accepts an honest app's hello, the app derives from the ack
  the node's session key, the node's confirmation tag checks on the app side, and the app's own tag
  completes the handshake with that key and the attested identity.
\<close>

theorem handshake_agreement:
  fixes Keys :: "('x, 's) keys_fn option"
  assumes laws: "dh_law c" and valid: "c_priv_ok c idPriv" "c_priv_ok c ephPriv" "c_priv_ok c (r_identity r)"
    "\<forall>k. he_eph e = Some k \<longrightarrow> c_priv_ok c k" and fresh: "\<not> r_done r"
    and hello: "Responder_Hello c Keys for_kid e (app_hello c idPriv ephPriv nonce assertion) r s = (Inr ack, r', s')"
  shows "\<exists>key th. app_derive c idPriv ephPriv nonce assertion ack = Some (key, th) \<and>
    StdDecode (ack_NodeConfirm ack) = Some (NodeConfirm c key th) \<and>
    (case Responder_Confirm c \<lparr>cf_Type = FrameConfirm, cf_AppConfirm = StdEncode (AppConfirm c key th)\<rparr> r' :: ('x resp_err + Result) \<times> Responder of
       (Inr res, r'') \<Rightarrow> res_SessionKey res = key \<and> res_AppIDPubB64 res = StdEncode (c_pub c idPriv) \<and> r_done r''
     | (Inl _, _) \<Rightarrow> False)"
proof -
  let ?h = "app_hello c idPriv ephPriv nonce assertion"
  obtain idPub ephPub non a eph nodeNonce th key sas where h:
    "\<not> r_helloDone r"
    "hello_inputs c ?h = (Inr (idPub, ephPub, non) :: 'x resp_err + bytes \<times> bytes \<times> bytes)"
    "AssertionVerifier_Verify c Keys for_kid (r_verifier r) (he_now e) (h_Assertion ?h) s = (Inr a, s')"
    "as_AppIDPubB64 a = h_AppIDPub ?h" "he_eph e = Some eph" "he_nonce e = Some nodeNonce"
    "hello_keys c (r_identity r) eph idPub ephPub non nodeNonce (h_Assertion ?h) = (Inr (th, key, sas) :: 'x resp_err + bytes \<times> bytes \<times> string)"
    "ack = make_ack c (r_identity r) eph nodeNonce key th"
    "r' = r\<lparr>r_eph := Some eph, r_transcriptHash := th, r_sessionKey := key, r_sas := sas, r_appIDPub := as_AppIDPubB64 a,
            r_accountID := as_AccountID a, r_nodeDeviceID := as_NodeDeviceID a, r_helloDone := True\<rparr>"
    using hello by (rule Hello_success)
  have inputs: "idPub = c_pub c idPriv" "ephPub = c_pub c ephPriv" "non = nonce"
    using hello_inputs_SomeD(1-3) [OF h(2)] by (simp_all add: app_hello_def)
  have sym: "c_ecdh c x (c_pub c y) = c_ecdh c y (c_pub c x)" if "c_priv_ok c x" "c_priv_ok c y" for x y
    using laws that by (simp add: dh_law_def)
  have "app_derive c idPriv ephPriv nonce assertion ack = Some (key, th)"
    using h(7) inputs sym [OF valid(2)] sym [OF valid(1,3)] valid(4) h(5)
    by (auto simp: app_derive_def h(8) make_ack_def hello_keys_def app_hello_def Let_def split: option.splits)
  then show ?thesis using h(4) fresh
    by (simp add: h(8,9) make_ack_def Responder_Confirm_def decodeB64_def VerifyMAC_def responder_result_def app_hello_def)
qed


section \<open>A concrete run\<close>

definition demo_nonce :: bytes where "demo_nonce = replicate 16 (CHR ''n'')"

definition demo_hello :: Hello where
  "demo_hello = app_hello demo_crypto ''A'' ''E'' demo_nonce demo_token"

definition demo_he :: hello_env where
  "demo_he = \<lparr>he_now = 90 * second, he_eph = Some ''F'', he_nonce = Some demo_nonce\<rparr>"

lemma demo_dh: "dh_law demo_crypto"
  by (simp add: dh_law_def demo_crypto_def add.commute)

lemma demo_app_key: "StdEncode ''A'' = ''QQ==''"
  by code_simp

lemma demo_crypto_ok: "c_pub demo_crypto k = k" "c_pub_ok demo_crypto k \<longleftrightarrow> k \<noteq> []" "c_priv_ok demo_crypto k \<longleftrightarrow> k \<noteq> []"
  by (simp_all add: demo_crypto_def)

lemma demo_inputs: "hello_inputs demo_crypto demo_hello = Inr (''A'', ''E'', demo_nonce)"
proof -
  have "demo_token \<noteq> []" "length demo_nonce = NonceLen" by (simp_all add: demo_token_def demo_nonce_def NonceLen_def)
  then show ?thesis
    by (simp add: hello_inputs_def demo_hello_def app_hello_def decodePub_def decodeB64_def demo_crypto_ok)
qed

lemma demo_hello_keys: "\<exists>th key sas. hello_keys demo_crypto i e p q n m a = Inr (th, key, sas)"
proof -
  have some: "\<exists>k. c_hkdf demo_crypto s t u l = Some k" "\<exists>k. c_ecdh demo_crypto x y = Some k" for s t u l x y
    by (simp_all add: demo_crypto_def)
  obtain ee ss where "c_ecdh demo_crypto e q = Some ee" "c_ecdh demo_crypto i p = Some ss" using some(2) by metis
  moreover obtain key where "DeriveSessionKey demo_crypto ee ss
      (Transcript_Hash demo_crypto (hello_transcript demo_crypto p (c_pub demo_crypto i) q (c_pub demo_crypto e) n m a)) = Some key"
    using some(1) unfolding DeriveSessionKey_def by metis
  moreover obtain sas where "SAS demo_crypto key = Some sas" using some(1) unfolding SAS_def by (metis option.simps(9))
  ultimately show ?thesis by (simp add: hello_keys_def Let_def)
qed

lemma demo_Hello: "\<exists>ack r'. Responder_Hello demo_crypto (Some (HTTPKeySource_Keys demo_env)) (Some (HTTPKeySource_KeysForKid demo_env))
   demo_he demo_hello (NewResponder ''N'' demo_verifier) demo_source = (Inr ack, r', demo_source)"
proof -
  obtain th key sas where keys: "hello_keys demo_crypto ''N'' ''F'' ''A'' ''E'' demo_nonce demo_nonce demo_token
      = (Inr (th, key, sas) :: fetch_err resp_err + bytes \<times> bytes \<times> string)"
    using demo_hello_keys by blast
  have "h_AppIDPub demo_hello = ''QQ==''" "h_Assertion demo_hello = demo_token"
    by (simp_all add: demo_hello_def app_hello_def demo_crypto_ok demo_app_key)
  then show ?thesis
    by (simp add: Responder_Hello_def NewResponder_def demo_he_def demo_inputs demo_verified keys demo_assertion_def
        constantTimeStringEqual_def VerifyMAC_def Let_def)
qed

theorem handshake_agreement_witness:
  "\<exists>ack key th. app_derive demo_crypto ''A'' ''E'' demo_nonce demo_token ack = Some (key, th) \<and>
    StdDecode (ack_NodeConfirm ack) = Some (NodeConfirm demo_crypto key th)"
proof -
  obtain ack r' where "Responder_Hello demo_crypto (Some (HTTPKeySource_Keys demo_env)) (Some (HTTPKeySource_KeysForKid demo_env))
      demo_he (app_hello demo_crypto ''A'' ''E'' demo_nonce demo_token) (NewResponder ''N'' demo_verifier) demo_source = (Inr ack, r', demo_source)"
    using demo_Hello unfolding demo_hello_def by blast
  from handshake_agreement [OF demo_dh _ _ _ _ _ this] show ?thesis
    by (auto simp: demo_crypto_ok NewResponder_def demo_he_def)
qed


end
