(* ===== verification/PinStore.thy ===== *)
theory PinStore
  imports Fs Json
begin

text \<open>
  The trust-on-first-use registry of app identity keys (internal/pairing/pinstore.go). The store
  is its devices map; every operation also takes the disk, the clock reading and the environment
  of its one file write, and returns the store and disk it leaves. time.Time's JSON form is a
  parameter: a printer (an error for years outside 0..9999) and a parser.

  The specification is a map from accounts to their one pinned key and whether the operator has
  confirmed it; the lemmas show that the devices map implements it, and that the file holds
  exactly what memory holds whenever an operation has succeeded.
\<close>

section \<open>The store\<close>

record pinnedDevice =
  pd_AccountID :: string
  pd_AppIDPubB64 :: string
  pd_Verified :: bool
  pd_FirstSeen :: time
  pd_VerifiedAt :: time

record timefmt =
  tf_fmt :: "time \<Rightarrow> string option"
  tf_parse :: "string \<Rightarrow> time option"

record pin_store =
  ps_path :: string
  ps_devices :: "(string \<times> pinnedDevice) list"

datatype pin_err = ErrSafetyNumberChanged | ErrNoPending | ErrSave fs_err | ErrMarshal
  | ErrReadPins fs_err | ErrCorruptPins

datatype PinStatus = PinFirstContact | PinKnownVerified | PinKnownUnverified

definition pinFile :: string where "pinFile = ''paired_devices.json''"

definition pinKey :: "string \<Rightarrow> string \<Rightarrow> string" where
  "pinKey account appIDPub = account @ CHR 0x00 # appIDPub"

section \<open>Persistence\<close>

definition device_json :: "timefmt \<Rightarrow> pinnedDevice \<Rightarrow> json option" where
  "device_json tf d = do {
     seen \<leftarrow> tf_fmt tf (pd_FirstSeen d);
     at \<leftarrow> tf_fmt tf (pd_VerifiedAt d);
     Some (JObj [(''account_id'', JStr (pd_AccountID d)), (''app_id_pub'', JStr (pd_AppIDPubB64 d)),
       (''verified'', JBool (pd_Verified d)), (''first_seen'', JStr seen), (''verified_at'', JStr at)])}"

definition dec_time :: "timefmt \<Rightarrow> json \<Rightarrow> time \<Rightarrow> time option" where
  "dec_time tf v cur = (case v of JStr s \<Rightarrow> tf_parse tf s | JNull \<Rightarrow> Some cur | _ \<Rightarrow> None)"

definition device_of_json :: "timefmt \<Rightarrow> json \<Rightarrow> pinnedDevice option" where
  "device_of_json tf v = do {
     kvs \<leftarrow> struct_fields v;
     acc \<leftarrow> get_str ''account_id'' kvs;
     pub \<leftarrow> get_str ''app_id_pub'' kvs;
     ver \<leftarrow> get_bool ''verified'' kvs;
     seen \<leftarrow> get_field (dec_time tf) ''first_seen'' zero_time kvs;
     at \<leftarrow> get_field (dec_time tf) ''verified_at'' zero_time kvs;
     Some \<lparr>pd_AccountID = acc, pd_AppIDPubB64 = pub, pd_Verified = ver, pd_FirstSeen = seen, pd_VerifiedAt = at\<rparr>}"

fun put_devices :: "pinnedDevice list \<Rightarrow> (string \<times> pinnedDevice) list \<Rightarrow> (string \<times> pinnedDevice) list" where
  "put_devices [] m = m"
| "put_devices (d # ds) m = put_devices ds (map_put (pinKey (pd_AccountID d) (pd_AppIDPubB64 d)) d m)"

definition LoadPinStore :: "timefmt \<Rightarrow> string \<Rightarrow> disk \<Rightarrow> pin_err + pin_store" where
  "LoadPinStore tf dataDir disk =
    (let path = path_join dataDir pinFile; s = \<lparr>ps_path = path, ps_devices = []\<rparr>
     in case ReadFile disk path of
          Inl ErrNotExist \<Rightarrow> Inr s
        | Inl e \<Rightarrow> Inl (ErrReadPins e)
        | Inr raw \<Rightarrow>
           (case Option.bind (json_parse raw) (\<lambda>v. dec_slice (device_of_json tf) v []) of
              None \<Rightarrow> Inl ErrCorruptPins
            | Some ds \<Rightarrow> Inr (s\<lparr>ps_devices := put_devices ds []\<rparr>)))"

definition saveLocked :: "timefmt \<Rightarrow> wfa_env \<Rightarrow> pin_store \<Rightarrow> disk \<Rightarrow> disk \<times> pin_err option" where
  "saveLocked tf env s disk =
    (case those (map (device_json tf \<circ> snd) (ps_devices s)) of
       None \<Rightarrow> (disk, Some ErrMarshal)
     | Some vs \<Rightarrow> apsnd (map_option ErrSave)
         (WriteFileAtomic env (ps_path s) (json_indent 0 (JArr vs)) mode_0600 disk))"

section \<open>Operations\<close>

definition PinStore_Observe ::
  "timefmt \<Rightarrow> wfa_env \<Rightarrow> time \<Rightarrow> string \<Rightarrow> string \<Rightarrow> pin_store \<Rightarrow> disk
    \<Rightarrow> (PinStatus \<times> pin_err option) \<times> pin_store \<times> disk" where
  "PinStore_Observe tf env now accountID appIDPubB64 s disk =
    (case map_get (ps_devices s) (pinKey accountID appIDPubB64) of
       Some d \<Rightarrow> ((if pd_Verified d then PinKnownVerified else PinKnownUnverified, None), s, disk)
     | None \<Rightarrow>
        if list_ex (\<lambda>(k, d). pd_AccountID d = accountID \<and> pd_AppIDPubB64 d \<noteq> appIDPubB64 \<and> pd_Verified d) (ps_devices s)
        then ((PinFirstContact, Some ErrSafetyNumberChanged), s, disk)
        else
          let kept = filter (\<lambda>(k, d). \<not> (pd_AccountID d = accountID \<and> \<not> pd_Verified d)) (ps_devices s);
              s' = s\<lparr>ps_devices := map_put (pinKey accountID appIDPubB64)
                \<lparr>pd_AccountID = accountID, pd_AppIDPubB64 = appIDPubB64, pd_Verified = False,
                 pd_FirstSeen = now, pd_VerifiedAt = zero_time\<rparr> kept\<rparr>
          in (case saveLocked tf env s' disk of (disk', e) \<Rightarrow> ((PinFirstContact, e), s', disk')))"

definition PinStore_Verify ::
  "timefmt \<Rightarrow> wfa_env \<Rightarrow> time \<Rightarrow> string \<Rightarrow> string \<Rightarrow> pin_store \<Rightarrow> disk \<Rightarrow> pin_err option \<times> pin_store \<times> disk" where
  "PinStore_Verify tf env now accountID appIDPubB64 s disk =
    (let k = pinKey accountID appIDPubB64
     in case map_get (ps_devices s) k of
          None \<Rightarrow> (Some ErrNoPending, s, disk)
        | Some d \<Rightarrow>
           let s' = s\<lparr>ps_devices := map_put k (d\<lparr>pd_Verified := True, pd_VerifiedAt := now\<rparr>) (ps_devices s)\<rparr>
           in (case saveLocked tf env s' disk of (disk', e) \<Rightarrow> (e, s', disk')))"

definition PinStore_IsVerified :: "string \<Rightarrow> string \<Rightarrow> pin_store \<Rightarrow> bool" where
  "PinStore_IsVerified accountID appIDPubB64 s =
    (case map_get (ps_devices s) (pinKey accountID appIDPubB64) of None \<Rightarrow> False | Some d \<Rightarrow> pd_Verified d)"

text \<open>The calls the node makes on its store, each with its clock reading and write environment.\<close>

datatype pin_op = OpObserve wfa_env time string string | OpVerify wfa_env time string string

fun pin_step :: "timefmt \<Rightarrow> pin_op \<Rightarrow> pin_store \<times> disk \<Rightarrow> pin_store \<times> disk" where
  "pin_step tf (OpObserve env now a p) (s, disk) = snd (PinStore_Observe tf env now a p s disk)"
| "pin_step tf (OpVerify env now a p) (s, disk) = snd (PinStore_Verify tf env now a p s disk)"

fun op_account :: "pin_op \<Rightarrow> string" where
  "op_account (OpObserve env now a p) = a"
| "op_account (OpVerify env now a p) = a"

fun pin_run :: "timefmt \<Rightarrow> pin_op list \<Rightarrow> pin_store \<times> disk \<Rightarrow> pin_store \<times> disk" where
  "pin_run tf [] w = w"
| "pin_run tf (op # ops) w = pin_run tf ops (pin_step tf op w)"

section \<open>Specification\<close>

type_synonym pins = "string \<Rightarrow> (string \<times> bool) option"

fun spec_observe :: "string \<Rightarrow> string \<Rightarrow> pins \<Rightarrow> PinStatus \<times> bool \<times> pins" where
  "spec_observe a p m = (case m a of
     Some (q, v) \<Rightarrow>
       if q = p then (if v then PinKnownVerified else PinKnownUnverified, True, m)
       else if v then (PinFirstContact, False, m)
       else (PinFirstContact, True, m(a \<mapsto> (p, False)))
   | None \<Rightarrow> (PinFirstContact, True, m(a \<mapsto> (p, False))))"

fun spec_verify :: "string \<Rightarrow> string \<Rightarrow> pins \<Rightarrow> bool \<times> pins" where
  "spec_verify a p m = (case m a of
     Some (q, v) \<Rightarrow> if q = p then (True, m(a \<mapsto> (p, True))) else (False, m)
   | None \<Rightarrow> (False, m))"

definition pins_of :: "pin_store \<Rightarrow> pins" where
  "pins_of s a = (case filter (\<lambda>(k, d). pd_AccountID d = a) (ps_devices s) of
     [] \<Rightarrow> None | (k, d) # _ \<Rightarrow> Some (pd_AppIDPubB64 d, pd_Verified d))"

section \<open>Invariant\<close>

definition nul_free :: "string \<Rightarrow> bool" where
  "nul_free s \<longleftrightarrow> CHR 0x00 \<notin> set s"

definition pin_inv :: "pin_store \<Rightarrow> bool" where
  "pin_inv s \<longleftrightarrow> go_map (ps_devices s) \<and>
    (\<forall>(k, d) \<in> set (ps_devices s). k = pinKey (pd_AccountID d) (pd_AppIDPubB64 d) \<and> nul_free (pd_AccountID d)) \<and>
    (\<forall>(k, d) \<in> set (ps_devices s). \<forall>(k', d') \<in> set (ps_devices s). pd_AccountID d = pd_AccountID d' \<longrightarrow> k = k')"

lemma pinKey_inj: "nul_free a \<Longrightarrow> nul_free b \<Longrightarrow> pinKey a p = pinKey b q \<longleftrightarrow> a = b \<and> p = q"
  unfolding nul_free_def pinKey_def by (metis cut_byte_append option.inject prod.inject)

lemma pin_invD:
  assumes "pin_inv s" "(k, d) \<in> set (ps_devices s)"
  shows "k = pinKey (pd_AccountID d) (pd_AppIDPubB64 d)" "nul_free (pd_AccountID d)"
    "map_get (ps_devices s) k = Some d"
  using assms by (auto simp: pin_inv_def)

lemma pin_inv_single:
  "pin_inv s \<Longrightarrow> (k, d) \<in> set (ps_devices s) \<Longrightarrow> (k', d') \<in> set (ps_devices s) \<Longrightarrow>
   pd_AccountID d = pd_AccountID d' \<Longrightarrow> k = k' \<and> d = d'"
  unfolding pin_inv_def by (smt (verit) case_prodD map_of_eq_Some_iff option.inject)

lemma pins_of_Some:
  assumes "pin_inv s"
  shows "pins_of s a = Some (p, v) \<longleftrightarrow>
    (\<exists>k d. (k, d) \<in> set (ps_devices s) \<and> pd_AccountID d = a \<and> pd_AppIDPubB64 d = p \<and> pd_Verified d = v)"
proof
  assume "pins_of s a = Some (p, v)"
  then obtain k d r where f: "filter (\<lambda>(k, d). pd_AccountID d = a) (ps_devices s) = (k, d) # r"
    "pd_AppIDPubB64 d = p" "pd_Verified d = v"
    by (auto simp: pins_of_def split: list.splits prod.splits)
  then have "(k, d) \<in> set (filter (\<lambda>(k, d). pd_AccountID d = a) (ps_devices s))" by simp
  then have "(k, d) \<in> set (ps_devices s)" "pd_AccountID d = a" unfolding set_filter by blast+
  with f(2,3) show "\<exists>k d. (k, d) \<in> set (ps_devices s) \<and> pd_AccountID d = a \<and> pd_AppIDPubB64 d = p \<and> pd_Verified d = v"
    by blast
next
  assume "\<exists>k d. (k, d) \<in> set (ps_devices s) \<and> pd_AccountID d = a \<and> pd_AppIDPubB64 d = p \<and> pd_Verified d = v"
  then obtain k d where d: "(k, d) \<in> set (ps_devices s)" "pd_AccountID d = a" "pd_AppIDPubB64 d = p" "pd_Verified d = v"
    by blast
  let ?l = "filter (\<lambda>(k, d). pd_AccountID d = a) (ps_devices s)"
  have only: "e = (k, d)" if "e \<in> set (ps_devices s)" "pd_AccountID (snd e) = a" for e
    using pin_inv_single [OF assms d(1), of "fst e" "snd e"] that d(2) by (cases e) simp
  have "(k, d) \<in> set ?l" using d by simp
  then obtain e r where e: "?l = e # r" by (cases ?l) simp_all
  then have "e \<in> set ?l" by simp
  then have "e = (k, d)" using only [of e] by (simp add: case_prod_beta)
  with e show "pins_of s a = Some (p, v)" using d by (simp add: pins_of_def)
qed

lemma pins_of_SomeI:
  "pin_inv s \<Longrightarrow> (k, d) \<in> set (ps_devices s) \<Longrightarrow> pins_of s (pd_AccountID d) = Some (pd_AppIDPubB64 d, pd_Verified d)"
  unfolding pins_of_Some by blast

lemma pins_of_None:
  assumes "pin_inv s"
  shows "pins_of s a = None \<longleftrightarrow> (\<forall>(k, d) \<in> set (ps_devices s). pd_AccountID d \<noteq> a)"
proof (cases "pins_of s a")
  case None
  then have "filter (\<lambda>(k, d). pd_AccountID d = a) (ps_devices s) = []"
    by (auto simp: pins_of_def split: list.splits)
  with None show ?thesis by (auto simp: filter_empty_conv)
next
  case (Some e)
  then show ?thesis using pins_of_Some [OF assms, of a "fst e" "snd e"] by fastforce
qed

section \<open>The operations implement the specification\<close>

lemma saveLocked_path: "saveLocked tf env s disk = (disk', None) \<Longrightarrow>
  \<exists>vs. those (map (device_json tf \<circ> snd) (ps_devices s)) = Some vs \<and> fst env = NoFault \<and>
    disk' = map_put (ps_path s) \<lparr>f_mode = mode_0600, f_data = json_indent 0 (JArr vs)\<rparr> (map_del (snd env) disk)"
  by (auto simp: saveLocked_def apsnd_def map_prod_def split: option.splits prod.splits
      dest: WriteFileAtomic_ok)
    (metis WriteFileAtomic_ok WriteFileAtomic_ok_iff prod.sel snd_conv)

definition new_device :: "time \<Rightarrow> string \<Rightarrow> string \<Rightarrow> pinnedDevice" where
  "new_device now a p = \<lparr>pd_AccountID = a, pd_AppIDPubB64 = p, pd_Verified = False,
    pd_FirstSeen = now, pd_VerifiedAt = zero_time\<rparr>"

definition first_contact :: "time \<Rightarrow> string \<Rightarrow> string \<Rightarrow> pin_store \<Rightarrow> pin_store" where
  "first_contact now a p s = s\<lparr>ps_devices := map_put (pinKey a p) (new_device now a p)
     (filter (\<lambda>(k, d). \<not> (pd_AccountID d = a \<and> \<not> pd_Verified d)) (ps_devices s))\<rparr>"

definition mark_verified :: "time \<Rightarrow> string \<Rightarrow> string \<Rightarrow> pin_store \<Rightarrow> pin_store" where
  "mark_verified now a p s = (case map_get (ps_devices s) (pinKey a p) of None \<Rightarrow> s
     | Some d \<Rightarrow> s\<lparr>ps_devices := map_put (pinKey a p) (d\<lparr>pd_Verified := True, pd_VerifiedAt := now\<rparr>) (ps_devices s)\<rparr>)"

lemma Verify_store: "fst (snd (PinStore_Verify tf env now a p s disk)) = mark_verified now a p s"
  by (auto simp: PinStore_Verify_def mark_verified_def Let_def split: option.splits prod.splits)

lemma pin_lookup:
  assumes "pin_inv s" "nul_free a"
  shows "map_get (ps_devices s) (pinKey a p) = Some d \<longleftrightarrow>
    (pinKey a p, d) \<in> set (ps_devices s) \<and> pd_AccountID d = a \<and> pd_AppIDPubB64 d = p"
proof
  assume "map_get (ps_devices s) (pinKey a p) = Some d"
  then have m: "(pinKey a p, d) \<in> set (ps_devices s)" by (rule map_of_SomeD)
  from pin_invD(1,2) [OF assms(1) m] pinKey_inj assms(2) m
  show "(pinKey a p, d) \<in> set (ps_devices s) \<and> pd_AccountID d = a \<and> pd_AppIDPubB64 d = p" by auto
qed (use pin_invD(3) [OF assms(1)] in blast)

lemma pin_lookup_spec:
  assumes "pin_inv s" "nul_free a"
  shows "map_get (ps_devices s) (pinKey a p) = Some d \<Longrightarrow> pins_of s a = Some (p, pd_Verified d)"
    "map_get (ps_devices s) (pinKey a p) = None \<Longrightarrow> pins_of s a = Some (q, v) \<Longrightarrow> q \<noteq> p"
proof -
  show "pins_of s a = Some (p, pd_Verified d)" if "map_get (ps_devices s) (pinKey a p) = Some d"
    using that unfolding pin_lookup [OF assms] pins_of_Some [OF assms(1)] by blast
  show "q \<noteq> p" if n: "map_get (ps_devices s) (pinKey a p) = None" and "pins_of s a = Some (q, v)"
  proof
    assume "q = p"
    with that(2) obtain k d where kd: "(k, d) \<in> set (ps_devices s)" "pd_AccountID d = a" "pd_AppIDPubB64 d = p"
      unfolding pins_of_Some [OF assms(1)] by blast
    with pin_invD [OF assms(1) kd(1)] n show False by simp
  qed
qed

lemma changed_key_spec:
  assumes "pin_inv s" "nul_free a" "map_get (ps_devices s) (pinKey a p) = None"
  shows "list_ex (\<lambda>(k, d). pd_AccountID d = a \<and> pd_AppIDPubB64 d \<noteq> p \<and> pd_Verified d) (ps_devices s)
    \<longleftrightarrow> (\<exists>q. pins_of s a = Some (q, True))"
proof -
  have "pd_AppIDPubB64 d \<noteq> p" if "(k, d) \<in> set (ps_devices s)" "pd_AccountID d = a" for k d
    using pin_invD [OF assms(1) that(1)] assms(3) that(2) by auto
  then show ?thesis unfolding pins_of_Some [OF assms(1)] by (auto simp: list_ex_iff)
qed

lemma Observe_store:
  assumes "pin_inv s" "nul_free a"
  shows "PinStore_Observe tf env now a p s disk =
    (case pins_of s a of
       Some (q, v) \<Rightarrow>
         if q = p then ((if v then PinKnownVerified else PinKnownUnverified, None), s, disk)
         else if v then ((PinFirstContact, Some ErrSafetyNumberChanged), s, disk)
         else (case saveLocked tf env (first_contact now a p s) disk of
                 (disk', e) \<Rightarrow> ((PinFirstContact, e), first_contact now a p s, disk'))
     | None \<Rightarrow> (case saveLocked tf env (first_contact now a p s) disk of
                 (disk', e) \<Rightarrow> ((PinFirstContact, e), first_contact now a p s, disk')))"
proof (cases "map_get (ps_devices s) (pinKey a p)")
  case None
  show ?thesis
    using changed_key_spec [OF assms None] pin_lookup_spec(2) [OF assms None] None
    by (cases "pins_of s a") (auto simp: PinStore_Observe_def first_contact_def new_device_def Let_def)
next
  case (Some d)
  then show ?thesis using pin_lookup_spec(1) [OF assms Some] by (simp add: PinStore_Observe_def)
qed

lemma first_contact_devices:
  assumes "pin_inv s" "nul_free a" "\<nexists>q. pins_of s a = Some (q, True)"
  shows "go_map (ps_devices (first_contact now a p s))"
    "set (ps_devices (first_contact now a p s)) =
      insert (pinKey a p, new_device now a p) {(k, d). (k, d) \<in> set (ps_devices s) \<and> pd_AccountID d \<noteq> a}"
proof -
  let ?kept = "filter (\<lambda>(k, d). \<not> (pd_AccountID d = a \<and> \<not> pd_Verified d)) (ps_devices s)"
  have g: "go_map ?kept" using assms(1) by (simp add: pin_inv_def)
  then show "go_map (ps_devices (first_contact now a p s))" by (simp add: first_contact_def)
  have unver: "\<not> pd_Verified d" if "(k, d) \<in> set (ps_devices s)" "pd_AccountID d = a" for k d
    using assms(3) that unfolding pins_of_Some [OF assms(1)] by blast
  then have kept: "e \<in> set ?kept \<longleftrightarrow> e \<in> set (ps_devices s) \<and> pd_AccountID (snd e) \<noteq> a" for e
    by (cases e) auto
  have "k \<noteq> pinKey a p" if "(k, d) \<in> set (ps_devices s)" "pd_AccountID d \<noteq> a" for k d
    using pin_invD [OF assms(1) that(1)] pinKey_inj assms(2) that(2) by metis
  then have "{e \<in> set ?kept. fst e \<noteq> pinKey a p} = {(k, d). (k, d) \<in> set (ps_devices s) \<and> pd_AccountID d \<noteq> a}"
    unfolding kept by auto
  then show "set (ps_devices (first_contact now a p s)) =
      insert (pinKey a p, new_device now a p) {(k, d). (k, d) \<in> set (ps_devices s) \<and> pd_AccountID d \<noteq> a}"
    using set_put [OF g, of "pinKey a p" "new_device now a p"] by (simp add: first_contact_def)
qed

lemma pin_inv_first_contact [inv_intros]:
  assumes "pin_inv s" "nul_free a" "\<nexists>q. pins_of s a = Some (q, True)"
  shows "pin_inv (first_contact now a p s)"
  using assms(1,2) unfolding pin_inv_def first_contact_devices [OF assms]
  by (auto simp: first_contact_devices [OF assms] new_device_def)

lemma pins_of_first_contact:
  assumes "pin_inv s" "nul_free a" "\<nexists>q. pins_of s a = Some (q, True)"
  shows "pins_of (first_contact now a p s) = (pins_of s)(a \<mapsto> (p, False))"
proof
  fix b
  note inv = pin_inv_first_contact [OF assms, of now p]
  show "pins_of (first_contact now a p s) b = ((pins_of s)(a \<mapsto> (p, False))) b"
  proof (cases "b = a")
    case True
    then show ?thesis
      using pins_of_SomeI [OF inv, of "pinKey a p" "new_device now a p"] first_contact_devices [OF assms]
      by (simp add: new_device_def)
  next
    case False
    have "pins_of (first_contact now a p s) b = Some (q, v) \<longleftrightarrow> pins_of s b = Some (q, v)" for q v
      unfolding pins_of_Some [OF inv] pins_of_Some [OF assms(1)] first_contact_devices [OF assms]
      using False by (auto simp: new_device_def)
    then show ?thesis using False by (cases "pins_of s b"; cases "pins_of (first_contact now a p s) b") auto
  qed
qed

lemma mark_verified_devices:
  assumes "pin_inv s" "map_get (ps_devices s) (pinKey a p) = Some d"
  shows "go_map (ps_devices (mark_verified now a p s))"
    "set (ps_devices (mark_verified now a p s)) =
      insert (pinKey a p, d\<lparr>pd_Verified := True, pd_VerifiedAt := now\<rparr>)
        {e \<in> set (ps_devices s). fst e \<noteq> pinKey a p}"
  using assms by (simp_all add: mark_verified_def pin_inv_def set_put)

lemma pin_inv_mark_verified [inv_intros]:
  assumes "pin_inv s"
  shows "pin_inv (mark_verified now a p s)"
proof (cases "map_get (ps_devices s) (pinKey a p)")
  case (Some d)
  then have d: "(pinKey a p, d) \<in> set (ps_devices s)" by (rule map_of_SomeD)
  have other: "pd_AccountID d' \<noteq> pd_AccountID d" if "(k, d') \<in> set (ps_devices s)" "k \<noteq> pinKey a p" for k d'
    using pin_inv_single [OF assms d that(1)] that(2) by auto
  have keys: "\<forall>(k, d) \<in> set (ps_devices s). k = pinKey (pd_AccountID d) (pd_AppIDPubB64 d) \<and> nul_free (pd_AccountID d)"
    using assms by (simp add: pin_inv_def)
  have single: "\<forall>(k, d) \<in> set (ps_devices s). \<forall>(k', d') \<in> set (ps_devices s). pd_AccountID d = pd_AccountID d' \<longrightarrow> k = k'"
    using assms by (simp add: pin_inv_def)
  show ?thesis
    unfolding pin_inv_def mark_verified_devices [OF assms Some]
  proof (intro conjI)
    show "go_map (ps_devices (mark_verified now a p s))" by (rule mark_verified_devices [OF assms Some])
    show "\<forall>(k, d) \<in> insert (pinKey a p, d\<lparr>pd_Verified := True, pd_VerifiedAt := now\<rparr>) {e \<in> set (ps_devices s). fst e \<noteq> pinKey a p}.
        k = pinKey (pd_AccountID d) (pd_AppIDPubB64 d) \<and> nul_free (pd_AccountID d)"
      using keys d by auto
  qed (use single other in fastforce)
qed (simp add: assms mark_verified_def)

lemma pins_of_mark_verified:
  assumes "pin_inv s" "nul_free a"
  shows "pins_of (mark_verified now a p s) = snd (spec_verify a p (pins_of s))"
proof (cases "map_get (ps_devices s) (pinKey a p)")
  case None
  then have "pins_of s a \<noteq> Some (p, v)" for v using pin_lookup_spec(2) [OF assms] by blast
  then show ?thesis using None by (auto simp: mark_verified_def split: option.splits)
next
  case (Some d)
  note inv = pin_inv_mark_verified [OF assms(1), of now a p]
  have d: "(pinKey a p, d) \<in> set (ps_devices s)" "pd_AccountID d = a" "pd_AppIDPubB64 d = p"
    using Some pin_lookup [OF assms] by blast+
  have "pins_of (mark_verified now a p s) b = ((pins_of s)(a \<mapsto> (p, True))) b" for b
  proof (cases "b = a")
    case True
    then show ?thesis
      using pins_of_SomeI [OF inv, of "pinKey a p" "d\<lparr>pd_Verified := True, pd_VerifiedAt := now\<rparr>"] d
        mark_verified_devices [OF assms(1) Some] by simp
  next
    case False
    have "k \<noteq> pinKey a p" if "(k, d') \<in> set (ps_devices s)" "pd_AccountID d' = b" for k d'
      using pin_inv_single [OF assms(1)] that d False pin_invD(3) [OF assms(1)] by (metis option.inject)
    then have "pins_of (mark_verified now a p s) b = Some (q, v) \<longleftrightarrow> pins_of s b = Some (q, v)" for q v
      unfolding pins_of_Some [OF inv] pins_of_Some [OF assms(1)] mark_verified_devices [OF assms(1) Some]
      using False d by auto
    then show ?thesis using False by (cases "pins_of s b"; cases "pins_of (mark_verified now a p s) b") auto
  qed
  then show ?thesis using pin_lookup_spec(1) [OF assms Some] by auto
qed

lemma pin_inv_empty: "pin_inv \<lparr>ps_path = path, ps_devices = []\<rparr>"
  by (simp add: pin_inv_def)

lemma pin_inv_step [inv_intros]:
  assumes "pin_inv s" "nul_free (op_account op)"
  shows "pin_inv (fst (pin_step tf op (s, disk)))"
proof (cases op)
  case (OpObserve env now a p)
  then have "pin_inv (fst (snd (PinStore_Observe tf env now a p s disk)))"
    using assms pin_inv_first_contact [OF assms(1), of a] Observe_store [OF assms(1), of a]
    by (auto split: option.splits prod.splits)
  with OpObserve show ?thesis by simp
next
  case (OpVerify env now a p)
  then show ?thesis using pin_inv_mark_verified [OF assms(1)] by (simp add: Verify_store)
qed

lemma pin_inv_run:
  "pin_inv s \<Longrightarrow> list_all (nul_free \<circ> op_account) ops \<Longrightarrow> pin_inv (fst (pin_run tf ops (s, disk)))"
proof (induction ops arbitrary: s disk)
  case (Cons op ops)
  then show ?case using pin_inv_step [of s op tf disk] by (cases "pin_step tf op (s, disk)") simp
qed simp

lemma saveLocked_err: "snd (saveLocked tf env s disk) \<noteq> Some ErrSafetyNumberChanged"
  "snd (saveLocked tf env s disk) \<noteq> Some ErrNoPending"
  by (auto simp: saveLocked_def split: option.splits)

text \<open>
  C8. On a well-formed store, Observe and Verify implement the trust-on-first-use specification
  over one key per account, whatever the outcome of the file write, and keep the store well
  formed: Observe reports exactly the specification's status and refuses exactly a changed
  verified key, and Verify refuses exactly a key that is not the account's current one.
\<close>

theorem PinStore_refines_spec:
  assumes "pin_inv s" "nul_free a"
  shows "(case PinStore_Observe tf env now a p s disk of ((st, e), s', disk') \<Rightarrow>
      spec_observe a p (pins_of s) = (st, e \<noteq> Some ErrSafetyNumberChanged, pins_of s') \<and> pin_inv s')
    \<and> (case PinStore_Verify tf env now a p s disk of (e, s', disk') \<Rightarrow>
      spec_verify a p (pins_of s) = (e \<noteq> Some ErrNoPending, pins_of s') \<and> pin_inv s')"
proof (intro conjI)
  note fc = pin_inv_first_contact [OF assms, of now p] pins_of_first_contact [OF assms, of now p]
  show "case PinStore_Observe tf env now a p s disk of ((st, e), s', disk') \<Rightarrow>
      spec_observe a p (pins_of s) = (st, e \<noteq> Some ErrSafetyNumberChanged, pins_of s') \<and> pin_inv s'"
    using fc saveLocked_err(1) [of tf env "first_contact now a p s" disk] assms(1)
    by (simp add: Observe_store [OF assms] split: option.splits prod.splits) auto
next
  have "fst (PinStore_Verify tf env now a p s disk) = Some ErrNoPending \<longleftrightarrow> map_get (ps_devices s) (pinKey a p) = None"
    using saveLocked_err(2) [of tf env _ disk]
    by (auto simp: PinStore_Verify_def Let_def split: option.splits prod.splits) (metis snd_conv)
  moreover have "map_get (ps_devices s) (pinKey a p) = None \<longleftrightarrow> \<not> fst (spec_verify a p (pins_of s))"
    using pin_lookup_spec [OF assms, of p]
    by (cases "map_get (ps_devices s) (pinKey a p)") (auto split: option.splits)
  moreover obtain e s' d' where v: "PinStore_Verify tf env now a p s disk = (e, s', d')" by (rule prod_cases3)
  moreover have "s' = mark_verified now a p s" using v Verify_store [of tf env now a p s disk] by simp
  ultimately show "case PinStore_Verify tf env now a p s disk of (e, s', disk') \<Rightarrow>
      spec_verify a p (pins_of s) = (e \<noteq> Some ErrNoPending, pins_of s') \<and> pin_inv s'"
    using pins_of_mark_verified [OF assms, of now p] pin_inv_mark_verified [OF assms(1), of now a p]
    by (cases "spec_verify a p (pins_of s)") simp
qed

definition demo_device :: "string \<Rightarrow> string \<Rightarrow> bool \<Rightarrow> pinnedDevice" where
  "demo_device a p v = \<lparr>pd_AccountID = a, pd_AppIDPubB64 = p, pd_Verified = v, pd_FirstSeen = 1, pd_VerifiedAt = 2\<rparr>"

definition demo_store :: "bool \<Rightarrow> pin_store" where
  "demo_store v = \<lparr>ps_path = ''d/paired_devices.json'', ps_devices = [(pinKey ''acct'' ''K1'', demo_device ''acct'' ''K1'' v)]\<rparr>"

definition demo_tf :: timefmt where
  "demo_tf = \<lparr>tf_fmt = (\<lambda>t. Some (show_nat (nat t))), tf_parse = parse_digits 0\<rparr>"

lemma demo_inv: "pin_inv (demo_store v)"
  by (simp add: pin_inv_def demo_store_def demo_device_def nul_free_def)

lemma demo_nul: "nul_free ''acct''"
  by (simp add: nul_free_def)

theorem PinStore_refines_spec_witness:
  "case PinStore_Observe demo_tf (NoFault, ''t'') 7 ''acct'' ''K2'' (demo_store False) [] of ((st, e), s', disk') \<Rightarrow>
     spec_observe ''acct'' ''K2'' (pins_of (demo_store False)) = (st, e \<noteq> Some ErrSafetyNumberChanged, pins_of s')"
  using PinStore_refines_spec [OF demo_inv [of False] demo_nul, where tf = demo_tf and env = "(NoFault, ''t'')"
      and now = 7 and p = "''K2''" and disk = "[]"]
  by (auto split: prod.splits)

section \<open>What the rest of the node relies on\<close>

text \<open>
  The interface of a pin registry: verified keys, and steps that keep an invariant under which
  a verified key stays verified and an account has one verified key at most.
\<close>

locale pin_registry =
  fixes step :: "'op \<Rightarrow> 's \<Rightarrow> 's"
    and verified :: "'s \<Rightarrow> string \<Rightarrow> string \<Rightarrow> bool"
    and inv :: "'s \<Rightarrow> bool"
    and sane :: "'op \<Rightarrow> bool"
  assumes inv_step: "inv s \<Longrightarrow> sane op \<Longrightarrow> inv (step op s)"
    and verified_step: "inv s \<Longrightarrow> sane op \<Longrightarrow> verified s a p \<Longrightarrow> verified (step op s) a p"
    and verified_unique: "inv s \<Longrightarrow> verified s a p \<Longrightarrow> verified s a q \<Longrightarrow> p = q"
begin

definition steps :: "'op list \<Rightarrow> 's \<Rightarrow> 's" where
  "steps ops s = foldl (\<lambda>s op. step op s) s ops"

lemma steps_inv: "inv s \<Longrightarrow> list_all sane ops \<Longrightarrow> inv (steps ops s)"
  by (induction ops arbitrary: s) (auto simp: steps_def inv_step)

lemma steps_verified: "inv s \<Longrightarrow> list_all sane ops \<Longrightarrow> verified s a p \<Longrightarrow> verified (steps ops s) a p"
  by (induction ops arbitrary: s) (auto simp: steps_def inv_step verified_step)

lemma never_superseded:
  "inv s \<Longrightarrow> list_all sane ops \<Longrightarrow> verified s a p \<Longrightarrow> q \<noteq> p \<Longrightarrow> \<not> verified (steps ops s) a q"
  using steps_verified verified_unique steps_inv by blast

end

lemma IsVerified_spec:
  assumes "pin_inv s" "nul_free a"
  shows "PinStore_IsVerified a p s \<longleftrightarrow> pins_of s a = Some (p, True)"
  using pin_lookup_spec [OF assms, of p] by (auto simp: PinStore_IsVerified_def split: option.splits)

lemma verified_step_spec:
  assumes "pin_inv s" "nul_free (op_account op)" "pins_of s a = Some (p, True)"
  shows "pins_of (fst (pin_step tf op (s, disk))) a = Some (p, True)"
proof (cases op)
  case (OpObserve env now b q)
  obtain st e s' d' where o: "PinStore_Observe tf env now b q s disk = ((st, e), s', d')"
    by (metis surj_pair)
  then have "pins_of s' = snd (snd (spec_observe b q (pins_of s)))"
    using Observe_store [OF assms(1), of b tf env now q disk] assms OpObserve
      pins_of_first_contact [OF assms(1), of b now q]
    by (auto split: option.splits prod.splits if_splits)
  then show ?thesis using o OpObserve assms(3) by (auto split: option.splits if_splits prod.splits)
next
  case (OpVerify env now b q)
  then show ?thesis using pins_of_mark_verified [OF assms(1), of b now q] assms
    by (auto simp: Verify_store split: option.splits prod.splits)
qed

interpretation pin_reg: pin_registry "pin_step tf" "\<lambda>w a p. nul_free a \<and> PinStore_IsVerified a p (fst w)"
  "\<lambda>w. pin_inv (fst w)" "nul_free \<circ> op_account" for tf
proof (unfold_locales, goal_cases)
  case (1 w op)
  then show ?case using pin_inv_step by (cases w) simp
next
  case (2 w op a p)
  then show ?case using verified_step_spec [of "fst w" op a p tf "snd w"] pin_inv_step [of "fst w" op tf "snd w"]
    by (auto simp: IsVerified_spec)
next
  case (3 w a p q)
  then show ?case by (auto simp: IsVerified_spec)
qed

lemma pin_run_steps: "pin_run tf ops w = pin_reg.steps tf ops w"
  by (induction ops arbitrary: w) (simp_all add: pin_reg.steps_def)

text \<open>
  C29. Once a key is confirmed for an account, no sequence of Observe and Verify calls, with any
  write failures, unpins it or ever confirms another key for that account: Verify of another key
  always answers that there is no pending pairing. Re-verification of a changed key, which
  Observe's comment promises, cannot happen.
\<close>

theorem PinStore_no_reverification:
  assumes "pin_inv s" "nul_free a" "PinStore_IsVerified a p s" "list_all (nul_free \<circ> op_account) ops" "q \<noteq> p"
  shows "(case pin_run tf ops (s, disk) of (s', disk') \<Rightarrow>
      PinStore_IsVerified a p s' \<and> \<not> PinStore_IsVerified a q s' \<and>
      fst (PinStore_Observe tf env now a q s' disk') = (PinFirstContact, Some ErrSafetyNumberChanged) \<and>
      fst (PinStore_Verify tf env now a q s' disk') = Some ErrNoPending)"
proof -
  obtain s' d' where run: "pin_run tf ops (s, disk) = (s', d')" by fastforce
  have inv: "pin_inv s'" using pin_reg.steps_inv [of "(s, disk)" ops tf] assms run by (simp add: pin_run_steps)
  have ver: "PinStore_IsVerified a p s'" "\<not> PinStore_IsVerified a q s'"
    using pin_reg.steps_verified [of "(s, disk)" ops a p tf] pin_reg.never_superseded [of "(s, disk)" ops a p q tf]
      assms run by (simp_all add: pin_run_steps)
  then have pin: "pins_of s' a = Some (p, True)" using IsVerified_spec [OF inv assms(2)] by blast
  then have "map_get (ps_devices s') (pinKey a q) = None"
    using pin_lookup_spec(1) [OF inv assms(2)] assms(5) by (cases "map_get (ps_devices s') (pinKey a q)") auto
  then show ?thesis using run ver pin assms(5)
    by (simp add: Observe_store [OF inv assms(2)] PinStore_Verify_def)
qed

theorem PinStore_no_reverification_witness:
  "case pin_run demo_tf [OpObserve (NoFault, ''t'') 3 ''acct'' ''K2'', OpVerify (NoFault, ''t'') 4 ''acct'' ''K2''] (demo_store True, []) of
     (s', disk') \<Rightarrow> PinStore_IsVerified ''acct'' ''K1'' s' \<and> \<not> PinStore_IsVerified ''acct'' ''K2'' s' \<and>
      fst (PinStore_Observe demo_tf (NoFault, ''t'') 5 ''acct'' ''K2'' s' disk') = (PinFirstContact, Some ErrSafetyNumberChanged) \<and>
      fst (PinStore_Verify demo_tf (NoFault, ''t'') 5 ''acct'' ''K2'' s' disk') = Some ErrNoPending"
  by (rule PinStore_no_reverification [OF demo_inv demo_nul])
    (simp_all add: PinStore_IsVerified_def demo_store_def demo_device_def demo_nul)

section \<open>The file\<close>

definition tf_laws :: "timefmt \<Rightarrow> bool" where
  "tf_laws tf \<longleftrightarrow> (\<forall>t s. tf_fmt tf t = Some s \<longrightarrow> tf_parse tf s = Some t)"

lemma device_json_roundtrip:
  assumes "tf_laws tf" "device_json tf d = Some v"
  shows "device_of_json tf v = Some d \<and> wf_json v"
proof -
  have fold: "EqualFold ''account_id'' ''account_id''" "EqualFold ''app_id_pub'' ''app_id_pub''"
    "EqualFold ''verified'' ''verified''" "EqualFold ''first_seen'' ''first_seen''" "EqualFold ''verified_at'' ''verified_at''"
    by (simp_all add: EqualFold_def)
  from assms obtain seen at where "tf_fmt tf (pd_FirstSeen d) = Some seen" "tf_fmt tf (pd_VerifiedAt d) = Some at"
    and v: "v = JObj [(''account_id'', JStr (pd_AccountID d)), (''app_id_pub'', JStr (pd_AppIDPubB64 d)),
       (''verified'', JBool (pd_Verified d)), (''first_seen'', JStr seen), (''verified_at'', JStr at)]"
    by (auto simp: device_json_def split: bind_splits)
  then have "tf_parse tf seen = Some (pd_FirstSeen d)" "tf_parse tf at = Some (pd_VerifiedAt d)"
    using assms(1) by (simp_all add: tf_laws_def)
  then show ?thesis
    by (simp add: v device_of_json_def struct_fields_def fold EqualFold_def ToLower_def lower_char_def
        dec_str_def dec_bool_def dec_time_def)
qed

lemma those_roundtrip:
  "tf_laws tf \<Longrightarrow> those (map (device_json tf) ds) = Some vs \<Longrightarrow>
   dec_all (device_of_json tf) vs = Some ds \<and> list_all wf_json vs"
  by (induction ds arbitrary: vs) (auto split: option.splits dest: device_json_roundtrip)

lemma map_put_fresh: "k \<notin> fst ` set m \<Longrightarrow> map_put k v m = m @ [(k, v)]"
  by (induction m) auto

lemma put_devices_list:
  "distinct (map fst (m @ kds)) \<Longrightarrow> \<forall>(k, d) \<in> set kds. k = pinKey (pd_AccountID d) (pd_AppIDPubB64 d) \<Longrightarrow>
   put_devices (map snd kds) m = m @ kds"
proof (induction kds arbitrary: m)
  case (Cons e kds)
  obtain k d where e: "e = (k, d)" by (cases e)
  have "put_devices (map snd kds) (m @ [(k, d)]) = (m @ [(k, d)]) @ kds"
    using Cons.prems e by (intro Cons.IH) auto
  then show ?case using Cons.prems e map_put_fresh [of k m d] by (force simp: image_iff)
qed simp

lemma Load_saved:
  assumes "pin_inv s" "tf_laws tf" "ps_path s = path_join dataDir pinFile" "saveLocked tf env s disk = (disk', None)"
  shows "LoadPinStore tf dataDir disk' = Inr s"
proof -
  obtain vs where vs: "those (map (device_json tf) (map snd (ps_devices s))) = Some vs"
    and read: "ReadFile disk' (ps_path s) = Inr (json_indent 0 (JArr vs))"
    using saveLocked_path [OF assms(4)] by (auto simp: ReadFile_def map_get_put)
  from those_roundtrip [OF assms(2) vs]
  have dec: "dec_all (device_of_json tf) vs = Some (map snd (ps_devices s))" and "wf_json (JArr vs)" by simp_all
  then have "json_parse (json_indent 0 (JArr vs)) = Some (JArr vs)" by (intro json_parse_indent)
  moreover have "put_devices (map snd (ps_devices s)) [] = ps_devices s"
    using put_devices_list [of "[]" "ps_devices s"] assms(1) by (auto simp: pin_inv_def)
  ultimately show ?thesis using read dec assms(3)
    by (simp add: LoadPinStore_def Let_def dec_slice_def)
qed

text \<open>
  Restart safety: after an Observe that recorded a first contact without an error, or a
  Verify that returned no error, loading the file gives back exactly the store in memory.
\<close>

theorem PinStore_persisted:
  assumes "pin_inv s" "nul_free a" "tf_laws tf" "ps_path s = path_join dataDir pinFile"
  shows "(case PinStore_Verify tf env now a p s disk of (e, s', disk') \<Rightarrow>
      e = None \<longrightarrow> LoadPinStore tf dataDir disk' = Inr s' \<and> PinStore_IsVerified a p s') \<and>
    (case PinStore_Observe tf env now a p s disk of ((st, e), s', disk') \<Rightarrow>
      st = PinFirstContact \<and> e = None \<longrightarrow> LoadPinStore tf dataDir disk' = Inr s')"
proof
  show "case PinStore_Verify tf env now a p s disk of (e, s', disk') \<Rightarrow>
      e = None \<longrightarrow> LoadPinStore tf dataDir disk' = Inr s' \<and> PinStore_IsVerified a p s'"
  proof (cases "map_get (ps_devices s) (pinKey a p)")
    case (Some d)
    have path: "ps_path (mark_verified now a p s) = path_join dataDir pinFile"
      using assms(4) Some by (simp add: mark_verified_def)
    have "PinStore_Verify tf env now a p s disk =
        (case saveLocked tf env (mark_verified now a p s) disk of (disk', e) \<Rightarrow> (e, mark_verified now a p s, disk'))"
      using Some by (simp add: PinStore_Verify_def mark_verified_def Let_def)
    moreover have "PinStore_IsVerified a p (mark_verified now a p s)"
      using Some by (simp add: PinStore_IsVerified_def mark_verified_def map_get_put)
    ultimately show ?thesis
      using Load_saved [OF pin_inv_mark_verified [OF assms(1)] assms(3) path] by (auto split: prod.splits)
  qed (simp add: PinStore_Verify_def)
next
  have path: "ps_path (first_contact now a p s) = path_join dataDir pinFile" using assms(4) by (simp add: first_contact_def)
  show "case PinStore_Observe tf env now a p s disk of ((st, e), s', disk') \<Rightarrow>
      st = PinFirstContact \<and> e = None \<longrightarrow> LoadPinStore tf dataDir disk' = Inr s'"
    using Load_saved [OF pin_inv_first_contact [OF assms(1,2)] assms(3) path, of env disk]
    by (auto simp: Observe_store [OF assms(1,2)] split: option.splits prod.splits if_splits)
qed

text \<open>
  A Verify whose file write fails returns the error, yet the key counts as verified from then
  on while the file still holds what it held before: memory and disk disagree until a restart.
\<close>

theorem PinStore_failed_Verify_trusts:
  assumes "map_get (ps_devices s) (pinKey a p) = Some d" "fault \<noteq> NoFault" "tmp \<noteq> ps_path s"
    "\<forall>d. device_json tf d \<noteq> None"
  shows "case PinStore_Verify tf (fault, tmp) now a p s disk of (e, s', disk') \<Rightarrow>
    (\<exists>fe. e = Some (ErrSave fe)) \<and> PinStore_IsVerified a p s' \<and> read_path (ps_path s) disk' = read_path (ps_path s) disk"
proof -
  let ?s = "mark_verified now a p s"
  have "those xs \<noteq> None" if "None \<notin> set xs" for xs :: "json option list"
    using that
  proof (induction xs)
    case (Cons a xs)
    then show ?case by (cases a) auto
  qed simp
  moreover have "device_json tf d \<noteq> None" for d using assms(4) by blast
  then have "None \<notin> set (map (device_json tf \<circ> snd) (ps_devices ?s))"
    by (auto simp: eq_commute [of None] simp del: not_None_eq)
  ultimately obtain vs where vs: "those (map (device_json tf \<circ> snd) (ps_devices ?s)) = Some vs" by blast
  let ?w = "WriteFileAtomic (fault, tmp) (ps_path ?s) (json_indent 0 (JArr vs)) mode_0600 disk"
  have "snd ?w \<noteq> None" using assms(2) by (simp add: WriteFileAtomic_ok_iff)
  then obtain disk' fe where w: "?w = (disk', Some fe)" by (cases ?w) auto
  have path: "ps_path ?s = ps_path s" using assms(1) by (simp add: mark_verified_def)
  have "read_path (ps_path s) disk' = read_path (ps_path s) disk"
    using atomic_file.write_err [of "(fault, tmp)" "ps_path s"] w assms(3) path by simp
  moreover have "PinStore_IsVerified a p ?s"
    using assms(1) by (simp add: PinStore_IsVerified_def mark_verified_def map_get_put)
  moreover have "PinStore_Verify tf (fault, tmp) now a p s disk = (Some (ErrSave fe), ?s, disk')"
    using assms(1) vs w by (simp add: PinStore_Verify_def mark_verified_def Let_def saveLocked_def)
  ultimately show ?thesis by simp
qed

theorem PinStore_persisted_witness:
  "\<exists>tf. tf_laws tf \<and> (case PinStore_Verify tf (NoFault, ''t'') 5 ''acct'' ''K1'' (demo_store False) [] of (e, s', disk') \<Rightarrow>
      e = None \<and> LoadPinStore tf ''d'' disk' = Inr s')"
proof -
  let ?tf = "\<lparr>tf_fmt = (\<lambda>t. if t = 1 then Some ''A'' else if t = 5 then Some ''B'' else None),
    tf_parse = (\<lambda>s. if s = ''A'' then Some 1 else if s = ''B'' then Some 5 else None)\<rparr>"
  have laws: "tf_laws ?tf" by (auto simp: tf_laws_def)
  have "ps_path (demo_store False) = path_join ''d'' pinFile"
    by (simp add: demo_store_def path_join_def pinFile_def)
  note PinStore_persisted [OF demo_inv [of False] demo_nul laws this, where p = "''K1''" and env = "(NoFault, ''t'')"
      and now = 5 and disk = "[]"]
  moreover have "fst (PinStore_Verify ?tf (NoFault, ''t'') 5 ''acct'' ''K1'' (demo_store False) []) = None"
    by (simp add: PinStore_Verify_def demo_store_def demo_device_def saveLocked_def device_json_def
        WriteFileAtomic_def WriteFileAtomic_trace_def Let_def)
  ultimately show ?thesis using laws by (intro exI [of _ ?tf]) (auto split: prod.splits)
qed

theorem PinStore_failed_Verify_trusts_witness:
  "case PinStore_Verify demo_tf (FailRename, ''t'') 5 ''acct'' ''K1'' (demo_store False) [] of (e, s', disk') \<Rightarrow>
    (\<exists>fe. e = Some (ErrSave fe)) \<and> PinStore_IsVerified ''acct'' ''K1'' s'"
proof -
  have "map_get (ps_devices (demo_store False)) (pinKey ''acct'' ''K1'') = Some (demo_device ''acct'' ''K1'' False)"
    by (simp add: demo_store_def)
  from PinStore_failed_Verify_trusts [OF this, where tf = demo_tf and fault = FailRename and tmp = "''t''"
      and now = 5 and disk = "[]"]
  show ?thesis by (simp add: demo_store_def device_json_def demo_tf_def split: prod.splits)
qed

end
