(* ===== verification/Router.thy ===== *)
theory Router
  imports Complex_Main Handshake PinStore
begin

text \<open>
  The LAN message router (internal/lanserve/router.go, pairing.go, messages.go): sessions, frame
  dispatch, the automated-pairing handlers, and a generation's stream of replies. A frame is
  handled in one step; the handlers of different sessions and the admin's confirmations
  interleave between steps, sharing the pairer (pins, pending codes, key cache, disk). Error texts
  are constructors, error codes the source's strings. A sealed reply is recorded as the key it is
  sealed under, the echoed user id and the inner message.
\<close>

section \<open>Messages\<close>

datatype err_msg = MsgHandshakeIncomplete | MsgPairingRequired | MsgInvalidBase64 | MsgDecryptFailed
  | MsgInvalidFormat | MsgMissingType | MsgRouteFailed | MsgUnknownType string | MsgPairingUnverified
  | MsgNoInference | MsgGenerateFailed string

datatype pair_err = PairDisabled | PairMalformedHello | PairMalformedConfirm | PairConfirmFirst
  | PairResponder "fetch_err resp_err" | PairPins pin_err

datatype out_msg =
    OStatus string string
  | OHealth string
  | ODelta string nat
  | OMetadata rat rat int nat
  | OCompleted string
  | OError err_msg string
  | OAck Ack
  | OPairError pair_err
  | OPairResult bool string

datatype frame = Plain out_msg | Sealed bytes string out_msg

definition CodeInvalidFormat :: string where "CodeInvalidFormat = ''INVALID_FORMAT''"
definition CodeNoKey :: string where "CodeNoKey = ''NO_KEY''"
definition CodeInvalidBase64 :: string where "CodeInvalidBase64 = ''INVALID_BASE64''"
definition CodeDecryptionFailed :: string where "CodeDecryptionFailed = ''DECRYPTION_FAILED''"
definition CodeOllamaUnavailable :: string where "CodeOllamaUnavailable = ''OLLAMA_UNAVAILABLE''"
definition CodePairingUnverified :: string where "CodePairingUnverified = ''PAIRING_UNVERIFIED''"

definition omit_empty :: "string \<Rightarrow> string \<Rightarrow> (string \<times> json) list" where
  "omit_empty k v = (if v = [] then [] else [(k, JStr v)])"

definition jint :: "nat \<Rightarrow> json" where "jint n = JNum (show_nat n)"

text \<open>
  The JSON object of each outbound message; how error texts and floats are spelled are parameters.
\<close>

fun out_json :: "(err_msg \<Rightarrow> string) \<Rightarrow> (pair_err \<Rightarrow> string) \<Rightarrow> (rat \<Rightarrow> string) \<Rightarrow> (int \<Rightarrow> string) \<Rightarrow> out_msg \<Rightarrow> json" where
  "out_json et pt ft it (OStatus st msg) = JObj ([(''type'', JStr ''status''), (''status'', JStr st)] @ omit_empty ''message'' msg)"
| "out_json et pt ft it (OHealth content) = JObj [(''type'', JStr ''health_check_response''), (''content'', JStr content)]"
| "out_json et pt ft it (ODelta d i) = JObj [(''type'', JStr ''content_delta''), (''delta'', JStr d), (''index'', jint i)]"
| "out_json et pt ft it (OMetadata think tps inp out) = JObj [(''type'', JStr ''llm_response_metadata''),
     (''thinking_time_seconds'', JNum (ft think)), (''average_tokens_per_second'', JNum (ft tps)),
     (''total_input_tokens'', JNum (it inp)), (''total_output_tokens'', jint out)]"
| "out_json et pt ft it (OCompleted r) = JObj [(''type'', JStr ''completed''), (''finish_reason'', JStr r)]"
| "out_json et pt ft it (OError m code) = JObj ([(''type'', JStr ''error''), (''error'', JStr (et m))] @ omit_empty ''code'' code
     @ [(''recoverable'', JBool True)])"
| "out_json et pt ft it (OAck a) = JObj [(''type'', JStr (ack_Type a)), (''node_id_pub'', JStr (ack_NodeIDPub a)),
     (''node_eph_pub'', JStr (ack_NodeEphPub a)), (''node_nonce'', JStr (ack_NodeNonce a)), (''node_confirm'', JStr (ack_NodeConfirm a))]"
| "out_json et pt ft it (OPairError e) = JObj [(''type'', JStr FrameError), (''error'', JStr (pt e))]"
| "out_json et pt ft it (OPairResult v sas) = JObj ([(''type'', JStr ''pair_result''), (''verified'', JBool v)] @ omit_empty ''sas'' sas)"

section \<open>State\<close>

record PendingPairing =
  pp_AccountID :: string
  pp_AppIDPubB64 :: string
  pp_SAS :: string

record pairer =
  pr_identity :: bytes   \<comment> \<open>what newResponder captures\<close>
  pr_verifier :: AssertionVerifier
  pr_source :: HTTPKeySource
  pr_pins :: pin_store
  pr_disk :: disk
  pr_requireVerify :: bool
  pr_pending :: "(string \<times> PendingPairing) list"

record session =
  ss_genCancel :: "nat option"   \<comment> \<open>the generation CancelGeneration would cancel\<close>
  ss_pairResponder :: "Responder option"
  ss_pairStarted :: bool
  ss_sessionKey :: "bytes option"
  ss_pairVerified :: bool
  ss_pairAccountID :: string
  ss_pairAppIDPub :: string

definition NewSession :: session where
  "NewSession = \<lparr>ss_genCancel = None, ss_pairResponder = None, ss_pairStarted = False, ss_sessionKey = None,
     ss_pairVerified = False, ss_pairAccountID = [], ss_pairAppIDPub = []\<rparr>"

definition NewPairer :: "bytes \<Rightarrow> AssertionVerifier \<Rightarrow> HTTPKeySource \<Rightarrow> pin_store \<Rightarrow> disk \<Rightarrow> bool \<Rightarrow> pairer" where
  "NewPairer identity verifier source pins disk requireVerify =
    \<lparr>pr_identity = identity, pr_verifier = verifier, pr_source = source, pr_pins = pins, pr_disk = disk,
     pr_requireVerify = requireVerify, pr_pending = []\<rparr>"

text \<open>The environment of one frame: clock, random values, network answer, file write, file key, compute.\<close>

record frame_env =
  fe_now :: time
  fe_hello :: hello_env
  fe_ks :: ks_env
  fe_wfa :: wfa_env
  fe_fileKey :: "bytes option"
  fe_genId :: nat

section \<open>Pairer\<close>

definition pendingKey :: "string \<Rightarrow> string \<Rightarrow> string" where
  "pendingKey account appIDPub = account @ CHR 0x00 # appIDPub"

definition recordPending :: "PendingPairing \<Rightarrow> pairer \<Rightarrow> pairer" where
  "recordPending pp p = p\<lparr>pr_pending := map_put (pendingKey (pp_AccountID pp) (pp_AppIDPubB64 pp)) pp (pr_pending p)\<rparr>"

definition clearPending :: "string \<Rightarrow> string \<Rightarrow> pairer \<Rightarrow> pairer" where
  "clearPending account appIDPub p = p\<lparr>pr_pending := map_del (pendingKey account appIDPub) (pr_pending p)\<rparr>"

definition Pairer_Pending :: "pairer option \<Rightarrow> PendingPairing list" where
  "Pairer_Pending p = (case p of None \<Rightarrow> [] | Some q \<Rightarrow> map snd (pr_pending q))"

datatype pverify_err = ErrPairingDisabled | ErrPinVerify pin_err

definition Pairer_Verify :: "timefmt \<Rightarrow> wfa_env \<Rightarrow> time \<Rightarrow> string \<Rightarrow> string \<Rightarrow> pairer option \<Rightarrow> pverify_err option \<times> pairer option" where
  "Pairer_Verify tf env now accountID appIDPubB64 p =
    (case p of None \<Rightarrow> (Some ErrPairingDisabled, None)
     | Some q \<Rightarrow>
        (case PinStore_Verify tf env now accountID appIDPubB64 (pr_pins q) (pr_disk q) of
           (Some e, s', d') \<Rightarrow> (Some (ErrPinVerify e), Some (q\<lparr>pr_pins := s', pr_disk := d'\<rparr>))
         | (None, s', d') \<Rightarrow> (None, Some (clearPending accountID appIDPubB64 (q\<lparr>pr_pins := s', pr_disk := d'\<rparr>)))))"

section \<open>Inbound messages\<close>

definition hello_of_json :: "json \<Rightarrow> Hello option" where
  "hello_of_json v = do {
     kvs \<leftarrow> struct_fields v;
     t \<leftarrow> get_str ''type'' kvs; i \<leftarrow> get_str ''app_id_pub'' kvs; e \<leftarrow> get_str ''app_eph_pub'' kvs;
     n \<leftarrow> get_str ''app_nonce'' kvs; a \<leftarrow> get_str ''assertion'' kvs;
     Some \<lparr>h_Type = t, h_AppIDPub = i, h_AppEphPub = e, h_AppNonce = n, h_Assertion = a\<rparr>}"

definition confirm_of_json :: "json \<Rightarrow> Confirm option" where
  "confirm_of_json v = do {
     kvs \<leftarrow> struct_fields v;
     t \<leftarrow> get_str ''type'' kvs; m \<leftarrow> get_str ''app_confirm'' kvs;
     Some \<lparr>cf_Type = t, cf_AppConfirm = m\<rparr>}"

text \<open>A float field: the number's literal text.\<close>

definition dec_num :: "json \<Rightarrow> string \<Rightarrow> string option" where
  "dec_num v cur = (case v of JNum n \<Rightarrow> Some n | JNull \<Rightarrow> Some cur | _ \<Rightarrow> None)"

record UserMessage =
  um_Type :: string
  um_Content :: string
  um_Temperature :: "string option"

definition user_message_of_json :: "json \<Rightarrow> UserMessage option" where
  "user_message_of_json v = do {
     kvs \<leftarrow> struct_fields v;
     t \<leftarrow> get_str ''type'' kvs; c \<leftarrow> get_str ''content'' kvs;
     temp \<leftarrow> get_field (dec_ptr dec_num ''0'') ''temperature'' None kvs;
     Some \<lparr>um_Type = t, um_Content = c, um_Temperature = temp\<rparr>}"

definition health_of_json :: "json \<Rightarrow> string option" where
  "health_of_json v = do {
     kvs \<leftarrow> struct_fields v; t \<leftarrow> get_str ''type'' kvs; c \<leftarrow> get_str ''content'' kvs; Some c}"

text \<open>The envelope probe: both content and user_id present as strings.\<close>

definition envelope_probe :: "bytes \<Rightarrow> (string \<times> string) option" where
  "envelope_probe frame = do {
     v \<leftarrow> json_parse frame; kvs \<leftarrow> struct_fields v;
     c \<leftarrow> get_field (dec_ptr dec_str []) ''content'' None kvs;
     u \<leftarrow> get_field (dec_ptr dec_str []) ''user_id'' None kvs;
     content \<leftarrow> c; user \<leftarrow> u;
     Some (content, user)}"

definition head_type :: "bytes \<Rightarrow> string option" where
  "head_type plaintext = do {
     v \<leftarrow> json_parse plaintext; kvs \<leftarrow> struct_fields v;
     t \<leftarrow> get_field (dec_ptr dec_str []) ''type'' None kvs; t}"

text \<open>A key of a decoded map[string]any, as a string: the last duplicate counts, case matters.\<close>

definition any_str :: "string \<Rightarrow> (string \<times> json) list \<Rightarrow> string" where
  "any_str k kvs = (case map_of (rev kvs) k of Some (JStr s) \<Rightarrow> s | _ \<Rightarrow> [])"

section \<open>Handlers\<close>

type_synonym handled = "pairer option \<times> session \<times> frame list"

definition handleHello :: "crypto \<Rightarrow> frame_env \<Rightarrow> bytes \<Rightarrow> pairer option \<Rightarrow> session \<Rightarrow> handled" where
  "handleHello c env frame pr s =
    (case pr of None \<Rightarrow> (None, s, [Plain (OPairError PairDisabled)])
     | Some p \<Rightarrow>
       (case Option.bind (json_parse frame) hello_of_json of
          None \<Rightarrow> (pr, s, [Plain (OPairError PairMalformedHello)])
        | Some h \<Rightarrow>
           let responder = (case ss_pairResponder s of Some r \<Rightarrow> r | None \<Rightarrow> NewResponder (pr_identity p) (pr_verifier p))
           in (case Responder_Hello c (Some (HTTPKeySource_Keys (fe_ks env))) (Some (HTTPKeySource_KeysForKid (fe_ks env)))
                      (fe_hello env) h responder (pr_source p) of
                 (res, r', src') \<Rightarrow>
                   (Some (p\<lparr>pr_source := src'\<rparr>), s\<lparr>ss_pairResponder := Some r', ss_pairStarted := True\<rparr>,
                    [Plain (case res of Inl e \<Rightarrow> OPairError (PairResponder e) | Inr ack \<Rightarrow> OAck ack)]))))"

text \<open>The TOFU half of handleConfirm: pin the proven key, then activate or hold the session.\<close>

definition activate :: "timefmt \<Rightarrow> frame_env \<Rightarrow> pairer \<Rightarrow> session \<Rightarrow> Result \<Rightarrow> handled" where
  "activate tf env p s res =
    (case PinStore_Observe tf (fe_wfa env) (fe_now env) (res_AccountID res) (res_AppIDPubB64 res) (pr_pins p) (pr_disk p) of
       ((status, err), pins', disk') \<Rightarrow>
         let p' = p\<lparr>pr_pins := pins', pr_disk := disk'\<rparr>
         in (case err of
               Some e \<Rightarrow> (Some p', s, [Plain (OPairError (PairPins e))])
             | None \<Rightarrow>
                let verified = (status = PinKnownVerified \<or> \<not> pr_requireVerify p);
                    s' = s\<lparr>ss_sessionKey := Some (res_SessionKey res), ss_pairVerified := verified,
                           ss_pairAccountID := res_AccountID res, ss_pairAppIDPub := res_AppIDPubB64 res\<rparr>
                in if verified then (Some p', s', [Plain (OPairResult True [])])
                   else (Some (recordPending \<lparr>pp_AccountID = res_AccountID res,
                            pp_AppIDPubB64 = res_AppIDPubB64 res, pp_SAS = res_SAS res\<rparr> p'),
                         s', [Plain (OPairResult False (res_SAS res))])))"

definition handleConfirm :: "crypto \<Rightarrow> timefmt \<Rightarrow> frame_env \<Rightarrow> bytes \<Rightarrow> pairer option \<Rightarrow> session \<Rightarrow> handled" where
  "handleConfirm c tf env frame pr s =
    (case pr of None \<Rightarrow> (None, s, [Plain (OPairError PairDisabled)])
     | Some p \<Rightarrow>
       (case Option.bind (json_parse frame) confirm_of_json of
          None \<Rightarrow> (pr, s, [Plain (OPairError PairMalformedConfirm)])
        | Some cf \<Rightarrow>
          (case ss_pairResponder s of
             None \<Rightarrow> (pr, s, [Plain (OPairError PairConfirmFirst)])
           | Some responder \<Rightarrow>
             (case Responder_Confirm c cf responder of
                (Inl e, r') \<Rightarrow> (pr, s\<lparr>ss_pairResponder := Some r'\<rparr>, [Plain (OPairError (PairResponder e))])
              | (Inr res, r') \<Rightarrow> activate tf env p (s\<lparr>ss_pairResponder := Some r'\<rparr>) res))))"

definition sessionInferenceAllowed :: "pairer option \<Rightarrow> session \<Rightarrow> bool \<times> session" where
  "sessionInferenceAllowed pr s =
    (if \<not> ss_pairStarted s \<or> ss_pairVerified s then (True, s)
     else (case pr of
             Some p \<Rightarrow> if PinStore_IsVerified (ss_pairAccountID s) (ss_pairAppIDPub s) (pr_pins p)
                       then (True, s\<lparr>ss_pairVerified := True\<rparr>) else (False, s)
           | None \<Rightarrow> (False, s)))"

definition handlePlain :: "crypto \<Rightarrow> timefmt \<Rightarrow> frame_env \<Rightarrow> bytes \<Rightarrow> pairer option \<Rightarrow> session \<Rightarrow> handled" where
  "handlePlain c tf env frame pr s =
    (let kvs = (case json_parse frame of Some (JObj kvs) \<Rightarrow> kvs | _ \<Rightarrow> []); t = any_str ''type'' kvs
     in if t = ''health_check'' then (pr, s, [Plain (OHealth (''pong: '' @ any_str ''content'' kvs))])
        else if t = FrameHello then handleHello c env frame pr s
        else if t = FrameConfirm then handleConfirm c tf env frame pr s
        else (pr, s, [Plain (OError MsgInvalidFormat CodeInvalidFormat)]))"

text \<open>A started generation: its id, reply key, user id and message.\<close>

record gen_start =
  gs_id :: nat
  gs_key :: bytes
  gs_user :: string
  gs_msg :: UserMessage

text \<open>routeInner: what is cancelled, started and sent. SealFails tells whether sealing a reply fails.\<close>

record routed =
  ro_session :: session
  ro_frames :: "frame list"
  ro_start :: "gen_start option"
  ro_cancel :: "nat option"

definition sealed :: "bytes \<Rightarrow> string \<Rightarrow> out_msg \<Rightarrow> frame list" where
  "sealed key user m = (if length key = 32 then [Sealed key user m] else [])"

definition CancelGeneration :: "session \<Rightarrow> nat option \<times> session" where
  "CancelGeneration s = (ss_genCancel s, s\<lparr>ss_genCancel := None\<rparr>)"

definition routeInner :: "frame_env \<Rightarrow> pairer option \<Rightarrow> bytes \<Rightarrow> string \<Rightarrow> bytes \<Rightarrow> session \<Rightarrow> routed" where
  "routeInner env pr key user plaintext s =
    (let reply = (\<lambda>s fs. \<lparr>ro_session = s, ro_frames = fs, ro_start = None, ro_cancel = None\<rparr>)
     in case head_type plaintext of
          None \<Rightarrow> reply s [Plain (OError MsgMissingType [])]
        | Some t \<Rightarrow>
           if t = ''health_check'' then
             (case Option.bind (json_parse plaintext) health_of_json of
                None \<Rightarrow> reply s [Plain (OError MsgRouteFailed [])]
              | Some content \<Rightarrow> reply s (sealed key user (OHealth (''pong: '' @ content))))
           else if t = ''user_message'' then
             (case sessionInferenceAllowed pr s of
                (False, s') \<Rightarrow> reply s' (sealed key user (OError MsgPairingUnverified CodePairingUnverified))
              | (True, s') \<Rightarrow>
                 (case Option.bind (json_parse plaintext) user_message_of_json of
                    None \<Rightarrow> reply s' [Plain (OError MsgRouteFailed [])]
                  | Some msg \<Rightarrow> \<lparr>ro_session = s'\<lparr>ss_genCancel := Some (fe_genId env)\<rparr>, ro_frames = [],
                      ro_start = Some \<lparr>gs_id = fe_genId env, gs_key = key, gs_user = user, gs_msg = msg\<rparr>, ro_cancel = None\<rparr>))
           else if t = ''interrupt'' \<or> t = ''stop'' then
             (case CancelGeneration s of (cancel, s') \<Rightarrow>
                \<lparr>ro_session = s', ro_frames = [], ro_start = None, ro_cancel = cancel\<rparr>)
           else reply s [Plain (OError (MsgUnknownType t) [])])"

text \<open>The key for a sealed frame: the handshake's, or the file key on a session that never began one.\<close>

definition select_key :: "frame_env \<Rightarrow> session \<Rightarrow> err_msg + bytes" where
  "select_key env s =
    (case ss_sessionKey s of
       Some k \<Rightarrow> Inr k
     | None \<Rightarrow> if ss_pairStarted s then Inl MsgHandshakeIncomplete
               else (case fe_fileKey env of Some k \<Rightarrow> Inr k | None \<Rightarrow> Inl MsgPairingRequired))"

definition Router_Handle :: "crypto \<Rightarrow> timefmt \<Rightarrow> frame_env \<Rightarrow> bytes \<Rightarrow> pairer option \<Rightarrow> session \<Rightarrow> pairer option \<times> routed" where
  "Router_Handle c tf env frame pr s =
    (let plain = (\<lambda>(pr', s', fs). (pr', \<lparr>ro_session = s', ro_frames = fs, ro_start = None, ro_cancel = None\<rparr>))
     in case envelope_probe frame of
          None \<Rightarrow> plain (handlePlain c tf env frame pr s)
        | Some (content, user) \<Rightarrow>
           (case select_key env s of
              Inl m \<Rightarrow> plain (pr, s, [Plain (OError m CodeNoKey)])
            | Inr key \<Rightarrow>
               (case StdDecode content of
                  None \<Rightarrow> plain (pr, s, [Plain (OError MsgInvalidBase64 CodeInvalidBase64)])
                | Some combined \<Rightarrow>
                   (case Open c key combined of
                      Inl _ \<Rightarrow> plain (pr, s, [Plain (OError MsgDecryptFailed CodeDecryptionFailed)])
                    | Inr plaintext \<Rightarrow> (pr, routeInner env pr key user plaintext s)))))"

section \<open>Generation\<close>

text \<open>One item of the backend's stream: an error, or a chunk with its text, prompt count and done flag.\<close>

datatype gen_item = GenErr string | GenChunk string int bool

text \<open>
  The environment of a generation: the backend (none, disabled, failing, or its stream until it
  ends or is cancelled), which send attempts succeed, and the clock at start, first token and end.
\<close>

datatype backend = NoBackend | Disabled | StartFails string | Streams "gen_item list"

record gen_env =
  ge_backend :: backend
  ge_sendOK :: "nat \<Rightarrow> bool"
  ge_start :: time
  ge_first :: time
  ge_end :: time

text \<open>The loop over the stream, from the number of sends so far, the next index and the prompt count.\<close>

fun gen_loop :: "(nat \<Rightarrow> bool) \<Rightarrow> nat \<Rightarrow> nat \<Rightarrow> int \<Rightarrow> gen_item list \<Rightarrow> out_msg list \<times> (nat \<times> int) option" where
  "gen_loop ok n index inp [] = ([], Some (index, inp))"
| "gen_loop ok n index inp (GenErr e # items) = ([OError (MsgGenerateFailed e) []], None)"
| "gen_loop ok n index inp (GenChunk resp count done # items) =
     (let inp' = (if count > 0 then count else inp)
      in if resp = [] then (if done then ([], Some (index, inp')) else gen_loop ok n index inp' items)
         else if \<not> ok n then ([ODelta resp index], None)
         else if done then ([ODelta resp index], Some (Suc index, inp'))
         else (case gen_loop ok (Suc n) (Suc index) inp' items of (ms, r) \<Rightarrow> (ODelta resp index # ms, r)))"

definition seconds :: "duration \<Rightarrow> rat" where
  "seconds d = Fract d second"

definition gen_metadata :: "gen_env \<Rightarrow> nat \<Rightarrow> int \<Rightarrow> out_msg" where
  "gen_metadata e index inp =
    (let total = seconds (ge_end e - ge_start e);
         thinking = (if index = 0 then 0 else seconds (ge_first e - ge_start e));
         generation = total - thinking
     in OMetadata thinking (if generation > 0 then of_nat index / generation else 0) inp index)"

text \<open>The inner messages a generation tries to send, in order.\<close>

definition Router_generate :: "gen_env \<Rightarrow> out_msg list" where
  "Router_generate e =
    (let processing = OStatus ''processing'' ''Processing your request...'';
         generating = OStatus ''generating'' ''Generating response...''
     in if \<not> ge_sendOK e 0 then [processing]
        else (case ge_backend e of
           NoBackend \<Rightarrow> [processing, OError MsgNoInference CodeOllamaUnavailable]
         | Disabled \<Rightarrow> [processing, OError MsgNoInference CodeOllamaUnavailable]
         | b \<Rightarrow>
            if \<not> ge_sendOK e 1 then [processing, generating]
            else (case b of
                StartFails err \<Rightarrow> [processing, generating, OError (MsgGenerateFailed err) CodeOllamaUnavailable]
              | Streams items \<Rightarrow>
                  [processing, generating] @
                  (case gen_loop (ge_sendOK e) 2 0 0 items of
                     (ms, None) \<Rightarrow> ms
                   | (ms, Some (index, inp)) \<Rightarrow> ms @ [gen_metadata e index inp, OCompleted ''stop'']))))"

text \<open>The texts a stream delivers: everything before the error, up to and including the done chunk.\<close>

fun stream_texts :: "gen_item list \<Rightarrow> string list" where
  "stream_texts [] = []"
| "stream_texts (GenErr e # items) = []"
| "stream_texts (GenChunk resp count done # items) =
     (if resp = [] then [] else [resp]) @ (if done then [] else stream_texts items)"

fun stream_fails :: "gen_item list \<Rightarrow> string option" where
  "stream_fails [] = None"
| "stream_fails (GenErr e # items) = Some e"
| "stream_fails (GenChunk resp count done # items) = (if done then None else stream_fails items)"

fun deltas :: "nat \<Rightarrow> string list \<Rightarrow> out_msg list" where
  "deltas i [] = []"
| "deltas i (t # ts) = ODelta t i # deltas (Suc i) ts"

lemma gen_loop_spec:
  "\<forall>n. ok n \<Longrightarrow>
   (case stream_fails items of
      Some e \<Rightarrow> gen_loop ok n i inp items = (deltas i (stream_texts items) @ [OError (MsgGenerateFailed e) []], None)
    | None \<Rightarrow> \<exists>inp'. gen_loop ok n i inp items =
        (deltas i (stream_texts items), Some (i + length (stream_texts items), inp')))"
proof (induction ok n i inp items rule: gen_loop.induct)
  case (3 ok n index inp resp count fin items)
  consider "resp = []" "fin" | "resp = []" "\<not> fin" | "resp \<noteq> []" "fin" | "resp \<noteq> []" "\<not> fin" by blast
  then show ?case
  proof cases
    case 2
    then show ?thesis using 3(1) [OF refl] 3(3) by (cases "stream_fails items") (auto simp: Let_def)
  next
    case 4
    then show ?thesis using 3(2) [OF refl] 3(3) by (cases "stream_fails items") (auto simp: Let_def)
  qed (simp_all add: Let_def 3(3))
qed simp_all

text \<open>
  When every send succeeds, the client sees processing, generating, then one delta per
  non-empty chunk up to the done chunk, numbered from zero in order, and then either the error
  that broke the stream or metadata with exactly that count followed by completed.
\<close>

theorem generate_transcript:
  assumes "\<forall>n. ge_sendOK e n" "ge_backend e = Streams items"
  shows "\<exists>tail. Router_generate e = [OStatus ''processing'' ''Processing your request...'', OStatus ''generating'' ''Generating response...'']
      @ deltas 0 (stream_texts items) @ tail \<and>
    (case stream_fails items of
       Some err \<Rightarrow> tail = [OError (MsgGenerateFailed err) []]
     | None \<Rightarrow> \<exists>think tps inp. tail = [OMetadata think tps inp (length (stream_texts items)), OCompleted ''stop''])"
proof -
  have ok: "ge_sendOK e = (\<lambda>_. True)" using assms(1) by auto
  show ?thesis
    using gen_loop_spec [where ok = "\<lambda>_. True" and items = items and n = 2 and i = 0 and inp = 0] assms(2)
    by (auto simp: Router_generate_def gen_metadata_def ok Let_def split: option.splits)
qed

theorem generate_transcript_witness:
  "let e = \<lparr>ge_backend = Streams [GenChunk ''a'' 3 False, GenChunk [] 0 False, GenChunk ''b'' 0 True, GenChunk ''c'' 0 False],
      ge_sendOK = (\<lambda>_. True), ge_start = 0, ge_first = second, ge_end = 2 * second\<rparr>
   in \<exists>think tps inp. Router_generate e = [OStatus ''processing'' ''Processing your request...'', OStatus ''generating'' ''Generating response...'',
      ODelta ''a'' 0, ODelta ''b'' 1, OMetadata think tps inp 2, OCompleted ''stop'']"
  using generate_transcript [of "\<lparr>ge_backend = Streams [GenChunk ''a'' 3 False, GenChunk [] 0 False, GenChunk ''b'' 0 True, GenChunk ''c'' 0 False],
      ge_sendOK = (\<lambda>_. True), ge_start = 0, ge_first = second, ge_end = 2 * second\<rparr>"]
  by (auto simp: numeral_2_eq_2)

section \<open>No downgrade\<close>

definition with_file_key :: "bytes option \<Rightarrow> frame_env \<Rightarrow> frame_env" where
  "with_file_key k env = env\<lparr>fe_fileKey := k\<rparr>"

lemma handlers_latch:
  "handleHello c env frame pr s = (pr', s', fs) \<Longrightarrow> ss_pairStarted s \<Longrightarrow> ss_pairStarted s'"
  "handleConfirm c tf env frame pr s = (pr', s', fs) \<Longrightarrow> ss_pairStarted s \<Longrightarrow> ss_pairStarted s'"
  "handlePlain c tf env frame pr s = (pr', s', fs) \<Longrightarrow> ss_pairStarted s \<Longrightarrow> ss_pairStarted s'"
proof -
  show hello: "ss_pairStarted s'" if "handleHello c env frame pr s = (pr', s', fs)" "ss_pairStarted s" for pr' s' fs
    using that by (auto simp: handleHello_def Let_def split: option.splits prod.splits)
  show confirm: "ss_pairStarted s'" if "handleConfirm c tf env frame pr s = (pr', s', fs)" "ss_pairStarted s" for pr' s' fs
    using that by (auto simp: handleConfirm_def activate_def Let_def split: option.splits prod.splits sum.splits if_splits)
  show "ss_pairStarted s'" if "handlePlain c tf env frame pr s = (pr', s', fs)" "ss_pairStarted s"
    using that hello confirm by (auto simp: handlePlain_def Let_def split: if_splits)
qed

lemma inferenceAllowed_frame:
  "ss_pairStarted (snd (sessionInferenceAllowed pr s)) = ss_pairStarted s"
  "ss_sessionKey (snd (sessionInferenceAllowed pr s)) = ss_sessionKey s"
  "ss_pairAccountID (snd (sessionInferenceAllowed pr s)) = ss_pairAccountID s"
  "ss_pairAppIDPub (snd (sessionInferenceAllowed pr s)) = ss_pairAppIDPub s"
  "ss_pairResponder (snd (sessionInferenceAllowed pr s)) = ss_pairResponder s"
  by (auto simp: sessionInferenceAllowed_def split: option.splits)

text \<open>The session routeInner leaves is the old one, perhaps found verified, perhaps with another generation.\<close>

lemma routeInner_session:
  "ro_session (routeInner env pr key user plaintext s) \<in>
     {s, s\<lparr>ss_genCancel := None\<rparr>, snd (sessionInferenceAllowed pr s),
      snd (sessionInferenceAllowed pr s)\<lparr>ss_genCancel := Some (fe_genId env)\<rparr>}"
  by (cases "sessionInferenceAllowed pr s"; cases "fst (sessionInferenceAllowed pr s)")
    (auto simp: routeInner_def CancelGeneration_def Let_def split: option.splits)

lemma routeInner_frame:
  "ss_pairStarted (ro_session (routeInner env pr key user plaintext s)) = ss_pairStarted s"
  "ss_sessionKey (ro_session (routeInner env pr key user plaintext s)) = ss_sessionKey s"
  using routeInner_session [of env pr key user plaintext s] by (auto simp: inferenceAllowed_frame)

lemma routeInner_key:
  "Sealed k u m \<in> set (ro_frames (routeInner env pr key user plaintext s)) \<Longrightarrow> k = key"
  "ro_start (routeInner env pr key user plaintext s) = Some g \<Longrightarrow> gs_key g = key \<and> fst (sessionInferenceAllowed pr s)"
  by (cases "sessionInferenceAllowed pr s"; cases "fst (sessionInferenceAllowed pr s)";
      auto simp: routeInner_def CancelGeneration_def sealed_def Let_def split: option.splits if_splits)+

text \<open>A frame either goes to the plain handlers or, with the selected key, to routeInner.\<close>

lemma Handle_cases:
  obtains (unsealed) pr' s' fs where "envelope_probe frame = None" "handlePlain c tf env frame pr s = (pr', s', fs)"
      "Router_Handle c tf env frame pr s = (pr', \<lparr>ro_session = s', ro_frames = fs, ro_start = None, ro_cancel = None\<rparr>)"
    | (refused) m code where
      "Router_Handle c tf env frame pr s = (pr, \<lparr>ro_session = s, ro_frames = [Plain (OError m code)], ro_start = None, ro_cancel = None\<rparr>)"
    | (routed) key user plaintext where "select_key env s = Inr key"
      "Router_Handle c tf env frame pr s = (pr, routeInner env pr key user plaintext s)"
proof (cases "envelope_probe frame")
  case None
  then show ?thesis using unsealed by (cases "handlePlain c tf env frame pr s") (simp add: Router_Handle_def)
next
  case (Some e)
  obtain content user where e: "e = (content, user)" by (cases e)
  show ?thesis
  proof (cases "select_key env s")
    case (Inl m)
    then show ?thesis using Some e refused by (simp add: Router_Handle_def)
  next
    case (Inr key)
    then show ?thesis using Some e refused routed
      by (cases "StdDecode content"; cases "Open c key (the (StdDecode content))") (auto simp: Router_Handle_def)
  qed
qed

lemma plain_frames:
  "handleHello c env frame pr s = (pr', s', fs) \<Longrightarrow> Sealed k u m \<notin> set fs"
  "handleConfirm c tf env frame pr s = (pr', s', fs) \<Longrightarrow> Sealed k u m \<notin> set fs"
  "handlePlain c tf env frame pr s = (pr', s', fs) \<Longrightarrow> Sealed k u m \<notin> set fs"
proof -
  show hello: "Sealed k u m \<notin> set fs" if "handleHello c env frame pr s = (pr', s', fs)" for pr' s' fs
    using that by (auto simp: handleHello_def Let_def split: option.splits prod.splits)
  show confirm: "Sealed k u m \<notin> set fs" if "handleConfirm c tf env frame pr s = (pr', s', fs)" for pr' s' fs
    using that by (auto simp: handleConfirm_def activate_def Let_def split: option.splits prod.splits sum.splits if_splits)
  show "Sealed k u m \<notin> set fs" if "handlePlain c tf env frame pr s = (pr', s', fs)"
    using that hello confirm by (auto simp: handlePlain_def Let_def split: if_splits)
qed

lemma select_key_started: "ss_pairStarted s \<Longrightarrow> select_key env s = Inr key \<Longrightarrow> ss_sessionKey s = Some key"
  by (auto simp: select_key_def split: option.splits)

lemma Handle_started:
  assumes "ss_pairStarted s" "Router_Handle c tf env frame pr s = (pr', r)"
  shows "ss_pairStarted (ro_session r)"
    "Sealed k u m \<in> set (ro_frames r) \<Longrightarrow> ss_sessionKey s = Some k"
    "ro_start r = Some g \<Longrightarrow> ss_sessionKey s = Some (gs_key g)"
  using assms(2)
  by (cases rule: Handle_cases [of frame c tf env pr s];
      use assms handlers_latch(3) plain_frames(3) select_key_started routeInner_key routeInner_frame in fastforce)+

lemma with_file_key_env [frame_simps]:
  "fe_now (with_file_key k env) = fe_now env" "fe_hello (with_file_key k env) = fe_hello env"
  "fe_ks (with_file_key k env) = fe_ks env" "fe_wfa (with_file_key k env) = fe_wfa env"
  "fe_genId (with_file_key k env) = fe_genId env"
  by (simp_all add: with_file_key_def)

lemma handlers_file_key:
  "handleHello c (with_file_key k env) frame pr s = handleHello c env frame pr s"
  "handleConfirm c tf (with_file_key k env) frame pr s = handleConfirm c tf env frame pr s"
  "handlePlain c tf (with_file_key k env) frame pr s = handlePlain c tf env frame pr s"
  "routeInner (with_file_key k env) pr key user plaintext s = routeInner env pr key user plaintext s"
  unfolding handlePlain_def handleHello_def handleConfirm_def activate_def routeInner_def with_file_key_env by (rule refl)+

lemma Handle_file_key:
  assumes "ss_pairStarted s"
  shows "Router_Handle c tf (with_file_key k env) frame pr s = Router_Handle c tf env frame pr s"
proof -
  have "select_key (with_file_key k env) s = select_key env s"
    using assms by (simp add: select_key_def with_file_key_def split: option.splits)
  then show ?thesis unfolding Router_Handle_def handlers_file_key by (simp only:)
qed

text \<open>
  The life of one session: between its frames the rest of the node may change the pairer in any
  way (other sessions, the admin).
\<close>

fun session_run :: "crypto \<Rightarrow> timefmt \<Rightarrow> ((pairer option \<Rightarrow> pairer option) \<times> frame_env \<times> bytes) list \<Rightarrow> pairer option \<Rightarrow> session
    \<Rightarrow> (session \<times> routed) list" where
  "session_run c tf [] pr s = []"
| "session_run c tf ((interfere, env, frame) # rest) pr s =
     (case Router_Handle c tf env frame (interfere pr) s of (pr', r) \<Rightarrow> (s, r) # session_run c tf rest pr' (ro_session r))"

text \<open>
  C5. No downgrade: once a session has begun a handshake, nothing it ever gets back depends on
  the file pairing key, whatever that key is or becomes; every sealed reply and every generation
  runs under the key its own handshake established.
\<close>

theorem no_downgrade:
  assumes "ss_pairStarted s"
  shows "session_run c tf (map (\<lambda>(f, env, frame). (f, with_file_key (keys env) env, frame)) fs) pr s = session_run c tf fs pr s \<and>
    (\<forall>(s', r) \<in> set (session_run c tf fs pr s). ss_pairStarted s' \<and>
      (\<forall>k u m. Sealed k u m \<in> set (ro_frames r) \<longrightarrow> ss_sessionKey s' = Some k) \<and>
      (\<forall>g. ro_start r = Some g \<longrightarrow> ss_sessionKey s' = Some (gs_key g)))"
  using assms
proof (induction fs arbitrary: pr s)
  case (Cons e fs)
  obtain f env frame where e: "e = (f, env, frame)" by (cases e)
  obtain pr' r where h: "Router_Handle c tf env frame (f pr) s = (pr', r)" by fastforce
  note st = Handle_started [OF Cons.prems h]
  show ?case using Cons.IH [OF st(1), of pr'] st Cons.prems h by (simp add: e Handle_file_key) blast
qed simp

definition demo_envelope :: bytes where
  "demo_envelope = json_text (JObj [(''content'', JStr ''AAAA''), (''user_id'', JStr ''u'')])"

lemma demo_envelope_probe: "envelope_probe demo_envelope = Some (''AAAA'', ''u'')"
proof -
  have "json_parse demo_envelope = Some (JObj [(''content'', JStr ''AAAA''), (''user_id'', JStr ''u'')])"
    unfolding demo_envelope_def by (rule json_parse_text) simp
  then show ?thesis
    by (simp add: envelope_probe_def struct_fields_def dec_ptr_def dec_str_def EqualFold_def ToLower_def lower_char_def)
qed

definition demo_fe :: "bytes option \<Rightarrow> frame_env" where
  "demo_fe k = \<lparr>fe_now = 1, fe_hello = demo_he, fe_ks = demo_env, fe_wfa = (NoFault, ''t''), fe_fileKey = k, fe_genId = 7\<rparr>"

theorem no_downgrade_witness:
  "let s = NewSession\<lparr>ss_pairStarted := True\<rparr>; f = (\<lambda>p. p, demo_fe (Some (replicate 32 (CHR ''k''))), demo_envelope)
   in session_run demo_crypto demo_tf [f] None s =
      [(s, \<lparr>ro_session = s, ro_frames = [Plain (OError MsgHandshakeIncomplete CodeNoKey)], ro_start = None, ro_cancel = None\<rparr>)] \<and>
      session_run demo_crypto demo_tf (map (\<lambda>(f, env, frame). (f, with_file_key None env, frame)) [f]) None s =
      session_run demo_crypto demo_tf [f] None s"
proof -
  let ?s = "NewSession\<lparr>ss_pairStarted := True\<rparr>"
  have "Router_Handle demo_crypto demo_tf (demo_fe k) demo_envelope None ?s =
     (None, \<lparr>ro_session = ?s, ro_frames = [Plain (OError MsgHandshakeIncomplete CodeNoKey)], ro_start = None, ro_cancel = None\<rparr>)" for k
    by (simp add: Router_Handle_def demo_envelope_probe select_key_def NewSession_def)
  moreover have "ss_pairStarted ?s" by simp
  note no_downgrade [OF this, where keys = "\<lambda>_. None" and c = demo_crypto and tf = demo_tf and pr = None
      and fs = "[(\<lambda>p. p, demo_fe (Some (replicate 32 (CHR ''k''))), demo_envelope)]"]
  ultimately show ?thesis by (simp add: Let_def)
qed

section \<open>Inference only for verified peers\<close>

record router_sys =
  sy_pairer :: "pairer option"
  sy_sessions :: "(nat \<times> session) list"

datatype rt_event = Connect nat | Disconnect nat | Frame nat frame_env bytes | AdminVerify wfa_env time string string

text \<open>The router with all its sessions; the label carries what a frame produced.\<close>

inductive rt_step :: "crypto \<Rightarrow> timefmt \<Rightarrow> router_sys \<Rightarrow> rt_event \<Rightarrow> routed option \<Rightarrow> router_sys \<Rightarrow> bool" for c tf where
  rt_connect: "map_get (sy_sessions sys) sid = None \<Longrightarrow>
     rt_step c tf sys (Connect sid) None (sys\<lparr>sy_sessions := map_put sid NewSession (sy_sessions sys)\<rparr>)"
| rt_disconnect: "rt_step c tf sys (Disconnect sid) None (sys\<lparr>sy_sessions := map_del sid (sy_sessions sys)\<rparr>)"
| rt_frame: "map_get (sy_sessions sys) sid = Some s \<Longrightarrow> Router_Handle c tf env frame (sy_pairer sys) s = (pr', r) \<Longrightarrow>
     rt_step c tf sys (Frame sid env frame) (Some r)
       (sys\<lparr>sy_pairer := pr', sy_sessions := map_put sid (ro_session r) (sy_sessions sys)\<rparr>)"
| rt_verify: "Pairer_Verify tf env now acc pub (sy_pairer sys) = (e, pr') \<Longrightarrow>
     rt_step c tf sys (AdminVerify env now acc pub) None (sys\<lparr>sy_pairer := pr'\<rparr>)"

inductive_cases rt_frameE: "rt_step c tf sys (Frame sid env frame) r sys'"

inductive rt_reach :: "crypto \<Rightarrow> timefmt \<Rightarrow> router_sys \<Rightarrow> router_sys \<Rightarrow> bool" for c tf sys0 where
  rt_init: "rt_reach c tf sys0 sys0"
| rt_more: "rt_reach c tf sys0 sys \<Longrightarrow> rt_step c tf sys ev r sys' \<Longrightarrow> rt_reach c tf sys0 sys'"

text \<open>
  A session in order: a key or responder only after a hello, and a verified flag only for a key
  the pin store holds as verified, when verification is required at all.
\<close>

definition session_ok :: "pairer option \<Rightarrow> session \<Rightarrow> bool" where
  "session_ok pr s \<longleftrightarrow> (ss_sessionKey s \<noteq> None \<longrightarrow> ss_pairStarted s) \<and> (ss_pairResponder s \<noteq> None \<longrightarrow> ss_pairStarted s) \<and>
    (case pr of None \<Rightarrow> \<not> ss_pairStarted s \<and> \<not> ss_pairVerified s
     | Some p \<Rightarrow> ss_pairVerified s \<longrightarrow> \<not> pr_requireVerify p \<or> PinStore_IsVerified (ss_pairAccountID s) (ss_pairAppIDPub s) (pr_pins p))"

text \<open>One pairer state after another: verified keys stay verified and the policy does not change.\<close>

definition pairer_le :: "pairer option \<Rightarrow> pairer option \<Rightarrow> bool" where
  "pairer_le pr pr' \<longleftrightarrow> (case (pr, pr') of (None, None) \<Rightarrow> True
     | (Some p, Some p') \<Rightarrow> pr_requireVerify p' = pr_requireVerify p \<and> go_map (ps_devices (pr_pins p')) \<and>
         (\<forall>a k. PinStore_IsVerified a k (pr_pins p) \<longrightarrow> PinStore_IsVerified a k (pr_pins p'))
     | _ \<Rightarrow> False)"

definition pairer_wf :: "pairer option \<Rightarrow> bool" where
  "pairer_wf pr \<longleftrightarrow> pairer_le pr pr"

lemma session_ok_le: "session_ok pr s \<Longrightarrow> pairer_le pr pr' \<Longrightarrow> session_ok pr' s"
  by (auto simp: session_ok_def pairer_le_def split: option.splits)

lemma Observe_mono:
  assumes "go_map (ps_devices s)" "PinStore_Observe tf env now a k s disk = ((st, e), s', d')"
  shows "go_map (ps_devices s')" "PinStore_IsVerified b q s \<Longrightarrow> PinStore_IsVerified b q s'"
    "st = PinKnownVerified \<Longrightarrow> PinStore_IsVerified a k s'"
  using assms
  by (auto simp: PinStore_Observe_def PinStore_IsVerified_def Let_def map_get_put map_get_filter
      split: option.splits if_splits prod.splits)

lemma Verify_mono:
  assumes "go_map (ps_devices s)" "PinStore_Verify tf env now a k s disk = (e, s', d')"
  shows "go_map (ps_devices s')" "PinStore_IsVerified b q s \<Longrightarrow> PinStore_IsVerified b q s'"
  using assms
  by (auto simp: PinStore_Verify_def PinStore_IsVerified_def Let_def map_get_put split: option.splits if_splits prod.splits)

lemma handleHello_ok:
  assumes "handleHello c env frame pr s = (pr', s', fs)" "pairer_wf pr" "session_ok pr s"
  shows "pairer_le pr pr' \<and> session_ok pr' s'"
  using assms
  by (auto simp: handleHello_def Let_def pairer_wf_def pairer_le_def session_ok_def split: option.splits prod.splits)

lemma activate_ok:
  assumes "activate tf env p s res = (pr', s', fs)" "pairer_wf (Some p)" "session_ok (Some p) s" "ss_pairStarted s"
  shows "pairer_le (Some p) pr' \<and> session_ok pr' s'"
proof -
  obtain st e pins' d' where o: "PinStore_Observe tf (fe_wfa env) (fe_now env) (res_AccountID res) (res_AppIDPubB64 res)
      (pr_pins p) (pr_disk p) = ((st, e), pins', d')" by (metis surj_pair)
  have "go_map (ps_devices (pr_pins p))" using assms(2) by (simp add: pairer_wf_def pairer_le_def)
  note mono = Observe_mono [OF this o]
  have le: "pairer_le (Some p) (Some q)" if "pr_pins q = pins'" "pr_requireVerify q = pr_requireVerify p" for q
    using mono that by (simp add: pairer_le_def)
  have ok: "session_ok (Some q) s" if "pr_pins q = pins'" "pr_requireVerify q = pr_requireVerify p" for q
    using session_ok_le [OF assms(3) le [OF that]] .
  show ?thesis
  proof (cases e)
    case (Some err)
    then show ?thesis using assms(1) o le ok by (auto simp: activate_def)
  next
    case None
    then show ?thesis using assms(1,4) o le mono(3)
      by (auto simp: activate_def recordPending_def session_ok_def Let_def split: if_splits)
  qed
qed

lemma handleConfirm_ok:
  assumes "handleConfirm c tf env frame pr s = (pr', s', fs)" "pairer_wf pr" "session_ok pr s"
  shows "pairer_le pr pr' \<and> session_ok pr' s'"
proof (cases "\<exists>p cf responder res r'. pr = Some p \<and> ss_pairResponder s = Some responder \<and>
    handleConfirm c tf env frame pr s = activate tf env p (s\<lparr>ss_pairResponder := Some r'\<rparr>) res")
  case True
  then obtain p responder res r' where "pr = Some p" "ss_pairResponder s = Some responder"
    "activate tf env p (s\<lparr>ss_pairResponder := Some r'\<rparr>) res = (pr', s', fs)"
    using assms(1) by auto
  then show ?thesis
    using activate_ok [of tf env p "s\<lparr>ss_pairResponder := Some r'\<rparr>" res pr' s' fs] assms(2,3)
    by (auto simp: session_ok_def)
next
  case False
  then have "pr' = pr \<and> (\<exists>r. s' = s \<or> ss_pairResponder s \<noteq> None \<and> s' = s\<lparr>ss_pairResponder := Some r\<rparr>)"
    using assms(1)
    by (auto simp: handleConfirm_def split: option.splits sum.splits prod.splits) (metis eq_commute)+
  then show ?thesis using assms(2,3) by (auto simp: pairer_wf_def session_ok_def split: option.splits)
qed

lemma handlePlain_ok:
  "handlePlain c tf env frame pr s = (pr', s', fs) \<Longrightarrow> pairer_wf pr \<Longrightarrow> session_ok pr s \<Longrightarrow>
   pairer_le pr pr' \<and> session_ok pr' s'"
  using handleHello_ok handleConfirm_ok
  by (auto simp: handlePlain_def Let_def pairer_wf_def split: if_splits)

lemma inferenceAllowed_ok: "session_ok pr s \<Longrightarrow> session_ok pr (snd (sessionInferenceAllowed pr s))"
  by (auto simp: sessionInferenceAllowed_def session_ok_def split: option.splits)

lemma session_ok_genCancel [simp]: "session_ok pr (s\<lparr>ss_genCancel := g\<rparr>) = session_ok pr s"
  by (cases pr) (simp_all add: session_ok_def)

lemma routeInner_ok: "session_ok pr s \<Longrightarrow> session_ok pr (ro_session (routeInner env pr key user plaintext s))"
  using routeInner_session [of env pr key user plaintext s] inferenceAllowed_ok [of pr s] by auto

lemma Handle_ok:
  assumes "Router_Handle c tf env frame pr s = (pr', r)" "pairer_wf pr" "session_ok pr s"
  shows "pairer_le pr pr' \<and> session_ok pr' (ro_session r)"
  by (cases rule: Handle_cases [of frame c tf env pr s])
    (use assms handlePlain_ok routeInner_ok in \<open>auto simp: pairer_wf_def\<close>)

lemma Pairer_Verify_le:
  "Pairer_Verify tf env now acc pub pr = (e, pr') \<Longrightarrow> pairer_wf pr \<Longrightarrow> pairer_le pr pr'"
  by (auto simp: Pairer_Verify_def pairer_wf_def pairer_le_def clearPending_def split: option.splits prod.splits
      dest: Verify_mono)

definition sys_ok :: "router_sys \<Rightarrow> bool" where
  "sys_ok sys \<longleftrightarrow> pairer_wf (sy_pairer sys) \<and>
    (\<forall>sid s. map_get (sy_sessions sys) sid = Some s \<longrightarrow> session_ok (sy_pairer sys) s)"

lemma pairer_le_wf: "pairer_le pr pr' \<Longrightarrow> pairer_wf pr'"
  by (auto simp: pairer_le_def pairer_wf_def split: option.splits)

lemma sys_ok_step: "rt_step c tf sys ev r sys' \<Longrightarrow> sys_ok sys \<Longrightarrow> sys_ok sys'"
proof (induction rule: rt_step.induct)
  case (rt_connect sys sid)
  then show ?case by (auto simp: sys_ok_def map_get_put session_ok_def NewSession_def split: option.splits)
next
  case (rt_disconnect sys sid)
  then show ?case by (simp add: sys_ok_def map_get_del)
next
  case (rt_frame sys sid s env frame pr' r)
  then have "pairer_le (sy_pairer sys) pr' \<and> session_ok pr' (ro_session r)"
    by (intro Handle_ok) (auto simp: sys_ok_def)
  with rt_frame show ?case by (auto simp: sys_ok_def map_get_put intro: session_ok_le pairer_le_wf)
next
  case (rt_verify env now acc pub sys e pr')
  then have "pairer_le (sy_pairer sys) pr'" by (auto simp: sys_ok_def intro: Pairer_Verify_le)
  with rt_verify show ?case by (auto simp: sys_ok_def intro: session_ok_le pairer_le_wf)
qed

lemma sys_ok_reach: "rt_reach c tf sys0 sys \<Longrightarrow> sys_ok sys0 \<Longrightarrow> sys_ok sys"
  by (induction rule: rt_reach.induct) (auto intro: sys_ok_step)

text \<open>
  C1. No inference for an unverified peer: from any start without sessions, in every reachable
  state of the router, when a frame on a handshake session starts a generation and verification
  is required, the pin store holds that session's account and app key as verified at that
  moment, and the generation runs under the session's own key.
\<close>

theorem inference_gated:
  assumes "rt_reach c tf \<lparr>sy_pairer = Some p0, sy_sessions = []\<rparr> sys" "go_map (ps_devices (pr_pins p0))"
    and "rt_step c tf sys (Frame sid env frame) (Some r) sys'" "ro_start r = Some g"
    and "map_get (sy_sessions sys) sid = Some s" "ss_pairStarted s"
  shows "\<exists>p. sy_pairer sys = Some p \<and> ss_sessionKey s = Some (gs_key g) \<and>
    (pr_requireVerify p \<longrightarrow> PinStore_IsVerified (ss_pairAccountID s) (ss_pairAppIDPub s) (pr_pins p))"
proof -
  have "sys_ok \<lparr>sy_pairer = Some p0, sy_sessions = []\<rparr>"
    using assms(2) by (simp add: sys_ok_def pairer_wf_def pairer_le_def)
  then have ok: "session_ok (sy_pairer sys) s" using sys_ok_reach [OF assms(1)] assms(5) by (auto simp: sys_ok_def)
  obtain pr' where h: "Router_Handle c tf env frame (sy_pairer sys) s = (pr', r)"
    using assms(3,5) by (auto elim: rt_frameE)
  have key: "ss_sessionKey s = Some (gs_key g)" by (rule Handle_started(3) [OF assms(6) h assms(4)])
  have allowed: "fst (sessionInferenceAllowed (sy_pairer sys) s)"
    using assms(4) h by (cases rule: Handle_cases [of frame c tf env "sy_pairer sys" s]) (auto dest: routeInner_key(2))
  obtain p where p: "sy_pairer sys = Some p" using ok assms(6) by (auto simp: session_ok_def split: option.splits)
  show ?thesis using key allowed ok p assms(6)
    by (auto simp: sessionInferenceAllowed_def session_ok_def split: if_splits)
qed

end
