(* ===== verification/Router_Run.thy ===== *)
theory Router_Run
  imports Router
begin

text \<open>
  One complete run of the router on concrete frames: connect, pair_hello, pair_confirm of a key the
  store already holds as verified, and a sealed user_message that starts a generation. It is the
  witness that the gate of inference is reached.
\<close>

definition run_pins :: pin_store where
  "run_pins = \<lparr>ps_path = ''d/paired_devices.json'', ps_devices = [(pinKey ''acct'' ''QQ=='', demo_device ''acct'' ''QQ=='' True)]\<rparr>"

definition run_pairer :: pairer where
  "run_pairer = NewPairer ''N'' demo_verifier demo_source run_pins [] True"

definition hello_frame :: bytes where
  "hello_frame = json_text (JObj [(''type'', JStr ''pair_hello''), (''app_id_pub'', JStr (h_AppIDPub demo_hello)),
     (''app_eph_pub'', JStr (h_AppEphPub demo_hello)), (''app_nonce'', JStr (h_AppNonce demo_hello)), (''assertion'', JStr demo_token)])"

definition confirm_frame :: "bytes \<Rightarrow> bytes" where
  "confirm_frame mac = json_text (JObj [(''type'', JStr ''pair_confirm''), (''app_confirm'', JStr (StdEncode mac))])"

definition user_text :: bytes where
  "user_text = json_text (JObj [(''type'', JStr ''user_message''), (''content'', JStr ''hi'')])"

definition user_frame :: "bytes \<Rightarrow> bytes" where
  "user_frame key = json_text (JObj [(''content'', JStr (StdEncode (replicate 12 (CHR ''n'') @ c_seal demo_crypto key (replicate 12 (CHR ''n'')) user_text))),
     (''user_id'', JStr ''u'')])"

lemmas struct_eval = struct_fields_def dec_ptr_def dec_str_def EqualFold_def ToLower_def lower_char_def

lemma parse_hello_frame: "json_parse hello_frame = Some (JObj [(''type'', JStr ''pair_hello''), (''app_id_pub'', JStr (h_AppIDPub demo_hello)),
     (''app_eph_pub'', JStr (h_AppEphPub demo_hello)), (''app_nonce'', JStr (h_AppNonce demo_hello)), (''assertion'', JStr demo_token)])"
  unfolding hello_frame_def by (rule json_parse_text) simp

lemma parse_confirm_frame: "json_parse (confirm_frame mac) = Some (JObj [(''type'', JStr ''pair_confirm''), (''app_confirm'', JStr (StdEncode mac))])"
  unfolding confirm_frame_def by (rule json_parse_text) simp

lemma hello_frame_probe: "envelope_probe hello_frame = None"
  by (simp add: envelope_probe_def parse_hello_frame struct_eval)

lemma confirm_frame_probe: "envelope_probe (confirm_frame mac) = None"
  by (simp add: envelope_probe_def parse_confirm_frame struct_eval)

lemma hello_frame_decoded: "Option.bind (json_parse hello_frame) hello_of_json = Some demo_hello"
  by (simp add: parse_hello_frame hello_of_json_def struct_eval demo_hello_def app_hello_def FrameHello_def)

lemma confirm_frame_decoded:
  "Option.bind (json_parse (confirm_frame mac)) confirm_of_json = Some \<lparr>cf_Type = ''pair_confirm'', cf_AppConfirm = StdEncode mac\<rparr>"
  by (simp add: parse_confirm_frame confirm_of_json_def struct_eval)

lemma user_text_parsed:
  "head_type user_text = Some ''user_message''"
  "Option.bind (json_parse user_text) user_message_of_json = Some \<lparr>um_Type = ''user_message'', um_Content = ''hi'', um_Temperature = None\<rparr>"
proof -
  have "json_parse user_text = Some (JObj [(''type'', JStr ''user_message''), (''content'', JStr ''hi'')])"
    unfolding user_text_def by (rule json_parse_text) simp
  then show "head_type user_text = Some ''user_message''"
    "Option.bind (json_parse user_text) user_message_of_json = Some \<lparr>um_Type = ''user_message'', um_Content = ''hi'', um_Temperature = None\<rparr>"
    by (simp_all add: head_type_def user_message_of_json_def struct_eval)
qed

lemma user_frame_probe: "envelope_probe (user_frame key) =
  Some (StdEncode (replicate 12 (CHR ''n'') @ c_seal demo_crypto key (replicate 12 (CHR ''n'')) user_text), ''u'')"
proof -
  have "json_parse (user_frame key) = Some (JObj [(''content'', JStr (StdEncode (replicate 12 (CHR ''n'') @ c_seal demo_crypto key (replicate 12 (CHR ''n'')) user_text))),
     (''user_id'', JStr ''u'')])"
    unfolding user_frame_def by (rule json_parse_text) simp
  then show ?thesis by (simp add: envelope_probe_def struct_eval)
qed

lemma Open_user: "length key = 32 \<Longrightarrow>
  Open demo_crypto key (replicate 12 (CHR ''n'') @ c_seal demo_crypto key (replicate 12 (CHR ''n'')) user_text) = Inr user_text"
  by (simp add: Open_def nonceSize_def tagSize_def demo_crypto_def)

lemma demo_key_length: "DeriveSessionKey demo_crypto ee ss th = Some key \<Longrightarrow> length key = 32"
  by (auto simp: DeriveSessionKey_def demo_crypto_def SessionKeyLen_def)

text \<open>The hello: the responder it leaves holds a 32-byte key and the attested identity.\<close>

lemma run_hello: "\<exists>ack r. handleHello demo_crypto (demo_fe None) hello_frame (Some run_pairer) NewSession =
    (Some run_pairer, NewSession\<lparr>ss_pairResponder := Some r, ss_pairStarted := True\<rparr>, [Plain (OAck ack)]) \<and>
    r_helloDone r \<and> \<not> r_done r \<and> length (r_sessionKey r) = 32 \<and> r_accountID r = ''acct'' \<and> r_appIDPub r = ''QQ==''"
proof -
  obtain ack r where h: "Responder_Hello demo_crypto (Some (HTTPKeySource_Keys demo_env)) (Some (HTTPKeySource_KeysForKid demo_env))
      demo_he demo_hello (NewResponder ''N'' demo_verifier) demo_source = (Inr ack, r, demo_source)"
    using demo_Hello by blast
  have "h_AppIDPub demo_hello = ''QQ==''" "h_Assertion demo_hello = demo_token"
    by (simp_all add: demo_hello_def app_hello_def demo_crypto_ok demo_app_key)
  then have "r_helloDone r \<and> \<not> r_done r \<and> length (r_sessionKey r) = 32 \<and> r_accountID r = ''acct'' \<and> r_appIDPub r = ''QQ==''"
    using h by (auto elim!: Hello_success dest!: hello_keys_success demo_key_length
        simp: demo_he_def NewResponder_def demo_verified demo_assertion_def)
  moreover have "handleHello demo_crypto (demo_fe None) hello_frame (Some run_pairer) NewSession =
    (Some run_pairer, NewSession\<lparr>ss_pairResponder := Some r, ss_pairStarted := True\<rparr>, [Plain (OAck ack)])"
    using h by (simp add: handleHello_def hello_frame_decoded demo_fe_def run_pairer_def NewPairer_def NewSession_def)
  ultimately show ?thesis by blast
qed

definition run_session :: "Responder \<Rightarrow> bytes \<Rightarrow> session" where
  "run_session r key = NewSession\<lparr>ss_pairResponder := Some r, ss_pairStarted := True, ss_sessionKey := Some key,
     ss_pairVerified := True, ss_pairAccountID := ''acct'', ss_pairAppIDPub := ''QQ==''\<rparr>"

lemma run_confirm:
  assumes "r_helloDone r" "\<not> r_done r" "r_accountID r = ''acct''" "r_appIDPub r = ''QQ==''"
  shows "handleConfirm demo_crypto demo_tf (demo_fe None)
      (confirm_frame (AppConfirm demo_crypto (r_sessionKey r) (r_transcriptHash r))) (Some run_pairer)
      (NewSession\<lparr>ss_pairResponder := Some r, ss_pairStarted := True\<rparr>) =
    (Some run_pairer, run_session (r\<lparr>r_done := True\<rparr>) (r_sessionKey r), [Plain (OPairResult True [])])"
  using assms
  by (simp add: handleConfirm_def confirm_frame_decoded Responder_Confirm_def decodeB64_def VerifyMAC_def responder_result_def
      activate_def PinStore_Observe_def run_pairer_def NewPairer_def run_pins_def demo_device_def run_session_def NewSession_def)

lemma run_user:
  assumes "length key = 32"
  shows "\<exists>r. Router_Handle demo_crypto demo_tf (demo_fe None) (user_frame key) (Some run_pairer) (run_session rr key) = (Some run_pairer, r) \<and>
    ro_start r = Some \<lparr>gs_id = 7, gs_key = key, gs_user = ''u'', gs_msg = \<lparr>um_Type = ''user_message'', um_Content = ''hi'', um_Temperature = None\<rparr>\<rparr>"
proof -
  let ?s = "run_session rr key"
  have "select_key (demo_fe None) ?s = Inr key" by (simp add: select_key_def run_session_def)
  moreover have "sessionInferenceAllowed (Some run_pairer) ?s = (True, ?s)"
    by (simp add: sessionInferenceAllowed_def run_session_def)
  ultimately show ?thesis
    by (simp add: Router_Handle_def user_frame_probe Open_user [OF assms] routeInner_def user_text_parsed demo_fe_def)
qed

theorem inference_gated_witness:
  "\<exists>sys g. rt_reach demo_crypto demo_tf \<lparr>sy_pairer = Some run_pairer, sy_sessions = []\<rparr> sys \<and>
    (\<exists>env frame r sys'. rt_step demo_crypto demo_tf sys (Frame 1 env frame) (Some r) sys' \<and> ro_start r = Some g) \<and>
    (\<exists>p s. sy_pairer sys = Some p \<and> map_get (sy_sessions sys) 1 = Some s \<and> ss_sessionKey s = Some (gs_key g) \<and>
      (pr_requireVerify p \<longrightarrow> PinStore_IsVerified (ss_pairAccountID s) (ss_pairAppIDPub s) (pr_pins p)))"
proof -
  let ?sys = "\<lambda>s. \<lparr>sy_pairer = Some run_pairer, sy_sessions = [(1, s)]\<rparr>"
  let ?c = demo_crypto let ?tf = demo_tf let ?init = "\<lparr>sy_pairer = Some run_pairer, sy_sessions = []\<rparr>"
  have frame: "rt_step ?c ?tf (?sys s) (Frame 1 env fr) (Some r) (?sys (ro_session r))"
    if "Router_Handle ?c ?tf env fr (Some run_pairer) s = (Some run_pairer, r)" for s env fr r
    using rt_frame [of "?sys s" 1 s ?c ?tf env fr "Some run_pairer" r] that by simp
  obtain ack r where h: "handleHello ?c (demo_fe None) hello_frame (Some run_pairer) NewSession =
      (Some run_pairer, NewSession\<lparr>ss_pairResponder := Some r, ss_pairStarted := True\<rparr>, [Plain (OAck ack)])"
    "r_helloDone r" "\<not> r_done r" "length (r_sessionKey r) = 32" "r_accountID r = ''acct''" "r_appIDPub r = ''QQ==''"
    using run_hello by blast
  let ?s1 = "NewSession\<lparr>ss_pairResponder := Some r, ss_pairStarted := True\<rparr>"
  let ?s2 = "run_session (r\<lparr>r_done := True\<rparr>) (r_sessionKey r)"
  have "rt_reach ?c ?tf ?init (?sys NewSession)"
    using rt_more [OF rt_init rt_connect [of ?init 1 ?c ?tf]] by simp
  moreover have "rt_step ?c ?tf (?sys NewSession) (Frame 1 (demo_fe None) hello_frame)
      (Some \<lparr>ro_session = ?s1, ro_frames = [Plain (OAck ack)], ro_start = None, ro_cancel = None\<rparr>) (?sys ?s1)"
    using frame [of "demo_fe None" hello_frame NewSession] h(1)
    by (simp add: Router_Handle_def hello_frame_probe handlePlain_def parse_hello_frame any_str_def FrameHello_def)
  moreover have "rt_step ?c ?tf (?sys ?s1) (Frame 1 (demo_fe None) (confirm_frame (AppConfirm ?c (r_sessionKey r) (r_transcriptHash r))))
      (Some \<lparr>ro_session = ?s2, ro_frames = [Plain (OPairResult True [])], ro_start = None, ro_cancel = None\<rparr>) (?sys ?s2)"
    using frame [of "demo_fe None" "confirm_frame (AppConfirm ?c (r_sessionKey r) (r_transcriptHash r))" ?s1] run_confirm [OF h(2,3,5,6)]
    by (simp add: Router_Handle_def confirm_frame_probe handlePlain_def parse_confirm_frame any_str_def FrameHello_def FrameConfirm_def)
  ultimately have reach: "rt_reach ?c ?tf ?init (?sys ?s2)" by (blast intro: rt_more)
  obtain ro where ro: "Router_Handle ?c ?tf (demo_fe None) (user_frame (r_sessionKey r)) (Some run_pairer) ?s2 = (Some run_pairer, ro)"
    "\<exists>g. ro_start ro = Some g"
    using run_user [OF h(4)] by blast
  then obtain g where g: "ro_start ro = Some g" by blast
  have "go_map (ps_devices (pr_pins run_pairer))" by (simp add: run_pairer_def NewPairer_def run_pins_def)
  from inference_gated [OF reach this frame [OF ro(1)] g, of ?s2]
  show ?thesis using reach frame [OF ro(1)] g by (fastforce simp: run_session_def)
qed

end
