(* ===== verification/Url.thy ===== *)
theory Url
  imports Prelude
begin

text \<open>
  net/url as far as the node uses it: Parse with its scheme, authority and host rules, Hostname and
  Port. Paths, queries and user information are checked for well-formed escapes and kept raw;
  percent-encoded hosts are rejected except for the forms Parse decodes to themselves (zone
  identifiers of IPv6 literals are not modelled).
\<close>

record url =
  u_Scheme :: string
  u_Opaque :: string
  u_User :: "string option"
  u_Host :: string
  u_Path :: string
  u_RawQuery :: string
  u_Fragment :: string

definition is_letter :: "char \<Rightarrow> bool" where
  "is_letter c = (let n = of_char c :: nat in 65 \<le> n \<and> n \<le> 90 \<or> 97 \<le> n \<and> n \<le> 122)"

definition is_num :: "char \<Rightarrow> bool" where
  "is_num c = (let n = of_char c :: nat in 48 \<le> n \<and> n \<le> 57)"

text \<open>The scheme before the first colon, if what precedes it can be one; an error for a leading colon.\<close>

fun scheme_from :: "bool \<Rightarrow> string \<Rightarrow> string \<Rightarrow> (string \<times> string) option option" where
  "scheme_from start acc [] = Some None"
| "scheme_from start acc (c # cs) =
     (if is_letter c then scheme_from False (c # acc) cs
      else if is_num c \<or> c \<in> {CHR ''+'', CHR ''-'', CHR ''.''} then
        (if start then Some None else scheme_from False (c # acc) cs)
      else if c = CHR '':'' then (if start then None else Some (Some (rev acc, cs)))
      else Some None)"

definition getScheme :: "string \<Rightarrow> (string \<times> string) option" where
  "getScheme s = (case scheme_from True [] s of None \<Rightarrow> None
     | Some None \<Rightarrow> Some ([], s) | Some (Some (sch, rest)) \<Rightarrow> Some (sch, rest))"

fun escapes_ok :: "string \<Rightarrow> bool" where
  "escapes_ok [] = True"
| "escapes_ok (c # cs) = (if c = CHR ''%'' then
     (case cs of a # b # r \<Rightarrow> hex_val a \<noteq> None \<and> hex_val b \<noteq> None \<and> escapes_ok r | _ \<Rightarrow> False)
     else escapes_ok cs)"

definition last_cut :: "char \<Rightarrow> string \<Rightarrow> (string \<times> string) option" where
  "last_cut c s = (case cut_byte c (rev s) of None \<Rightarrow> None | Some (b, a) \<Rightarrow> Some (rev a, rev b))"

definition validOptionalPort :: "string \<Rightarrow> bool" where
  "validOptionalPort s = (case s of [] \<Rightarrow> True | c # cs \<Rightarrow> c = CHR '':'' \<and> list_all is_num cs)"

text \<open>A byte that may stand in a host: unreserved, sub-delimiter, or one of the bracket characters.\<close>

definition host_char :: "char \<Rightarrow> bool" where
  "host_char c \<longleftrightarrow> is_letter c \<or> is_num c \<or> (of_char c :: nat) \<ge> 128 \<or> c \<in> set ''-_.~!$&()*+,;=:[]<>'' \<or> c \<in> {CHR 0x27, CHR 0x22}"

definition parseHost :: "string \<Rightarrow> string option" where
  "parseHost h =
    (let port_ok = (case h of
           CHR ''['' # _ \<Rightarrow> (case last_cut (CHR '']'') h of None \<Rightarrow> False | Some (_, colonPort) \<Rightarrow> validOptionalPort colonPort)
         | _ \<Rightarrow> (case last_cut (CHR '':'') h of None \<Rightarrow> True | Some (_, port) \<Rightarrow> list_all is_num port))
     in if port_ok \<and> list_all host_char h then Some h else None)"

definition user_char :: "char \<Rightarrow> bool" where
  "user_char c \<longleftrightarrow> is_letter c \<or> is_num c \<or> c \<in> set ''-._:~!$&()*+,;=%@'' \<or> c = CHR 0x27"

definition parseAuthority :: "string \<Rightarrow> (string option \<times> string) option" where
  "parseAuthority a = (case last_cut (CHR ''@'') a of
     None \<Rightarrow> map_option (\<lambda>h. (None, h)) (parseHost a)
   | Some (user, h) \<Rightarrow>
      (case parseHost h of None \<Rightarrow> None
       | Some h' \<Rightarrow> if list_all user_char user \<and> escapes_ok user then Some (Some user, h') else None))"

definition cut_or_all :: "char \<Rightarrow> string \<Rightarrow> string \<times> string" where
  "cut_or_all c s = (case cut_byte c s of None \<Rightarrow> (s, []) | Some p \<Rightarrow> p)"

definition ctl_byte :: "char \<Rightarrow> bool" where
  "ctl_byte c \<longleftrightarrow> (of_char c :: nat) < 32 \<or> (of_char c :: nat) = 127"

definition url_parse :: "string \<Rightarrow> url option" where
  "url_parse raw =
    (let (body, frag) = cut_or_all (CHR ''#'') raw
     in if list_ex ctl_byte body \<or> \<not> escapes_ok frag then None
        else (case getScheme body of None \<Rightarrow> None
          | Some (scheme, rest0) \<Rightarrow>
             let (rest, query) = cut_or_all (CHR ''?'') rest0;
                 u = \<lparr>u_Scheme = ToLower scheme, u_Opaque = [], u_User = None, u_Host = [], u_Path = [], u_RawQuery = query, u_Fragment = frag\<rparr>
             in if \<not> HasPrefix rest ''/'' \<and> scheme \<noteq> [] then Some (u\<lparr>u_Opaque := rest\<rparr>)
                else if \<not> HasPrefix rest ''/'' \<and> CHR '':'' \<in> set (fst (cut_or_all (CHR ''/'') rest)) then None
                else if HasPrefix rest ''//'' \<and> (scheme \<noteq> [] \<or> \<not> HasPrefix rest ''///'') then
                  let auth = takeWhile (\<lambda>c. c \<noteq> CHR ''/'') (drop 2 rest); path = dropWhile (\<lambda>c. c \<noteq> CHR ''/'') (drop 2 rest)
                  in (case parseAuthority auth of None \<Rightarrow> None
                      | Some (user, host) \<Rightarrow> if escapes_ok path then Some (u\<lparr>u_User := user, u_Host := host, u_Path := path\<rparr>) else None)
                else if escapes_ok rest then Some (u\<lparr>u_Path := rest\<rparr>) else None))"

text \<open>Hostname and Port: the host without its optional port and without brackets.\<close>

definition splitHostPort :: "string \<Rightarrow> string \<times> string" where
  "splitHostPort hp =
    (let (h, port) = (case last_cut (CHR '':'') hp of
           Some (h, port) \<Rightarrow> if list_all is_num port then (h, port) else (hp, []) | None \<Rightarrow> (hp, []))
     in (if HasPrefix h ''['' \<and> h \<noteq> [] \<and> last h = CHR '']'' \<and> length h \<ge> 2 then butlast (tl h) else h, port))"

definition Hostname :: "url \<Rightarrow> string" where "Hostname u = fst (splitHostPort (u_Host u))"

definition Port :: "url \<Rightarrow> string" where "Port u = snd (splitHostPort (u_Host u))"

end
