(* ===== verification/Config.thy ===== *)
theory Config
  imports Url Fs
begin

text \<open>
  The node's configuration (internal/config/config.go, load.go) and the admin API's partial update
  of it (internal/adminapi/handlers.go). The TOML library is a parameter: a decoder that fills a
  configuration from a file, and an encoder. Environment and flags are lookup functions.
\<close>

section \<open>Data\<close>

definition ModeLocal :: string where "ModeLocal = ''local''"
definition ModeGateway :: string where "ModeGateway = ''gateway''"
definition TunnelModeOff :: string where "TunnelModeOff = ''off''"
definition TunnelModeManaged :: string where "TunnelModeManaged = ''managed''"
definition TunnelModeQuick :: string where "TunnelModeQuick = ''quick''"
definition TunnelModeExternal :: string where "TunnelModeExternal = ''external''"
definition AuthModeJWT :: string where "AuthModeJWT = ''jwt''"
definition AuthModeAPIKey :: string where "AuthModeAPIKey = ''api_key''"
definition AuthModeOAuth :: string where "AuthModeOAuth = ''oauth''"

lemmas config_consts = ModeLocal_def ModeGateway_def TunnelModeOff_def TunnelModeManaged_def TunnelModeQuick_def
  TunnelModeExternal_def AuthModeJWT_def AuthModeAPIKey_def AuthModeOAuth_def

record LogCfg =
  log_Format :: string
  log_Level :: string

record CapabilitiesCfg =
  cap_Memory :: bool
  cap_Compute :: bool

record ControlPlaneCfg =
  cp_URL :: string
  cp_AuthMode :: string
  cp_DeviceName :: string

record OllamaCfg =
  ol_Host :: string
  ol_Manage :: bool
  ol_DefaultModel :: string
  ol_BinaryPath :: string

record TunnelCfg =
  tn_Mode :: string
  tn_CloudflaredPath :: string
  tn_ExternalURL :: string

record LANCfg =
  lan_Enabled :: bool
  lan_Port :: int
  lan_RequirePairingVerification :: bool

record OpenAICfg =
  oa_Enabled :: bool
  oa_PublishKeyToControlPlane :: bool

record Config =
  c_Mode :: string
  c_DataDir :: string
  c_Log :: LogCfg
  c_Capabilities :: CapabilitiesCfg
  c_ControlPlane :: ControlPlaneCfg
  c_EmbedModel :: string
  c_Ollama :: OllamaCfg
  c_Tunnel :: TunnelCfg
  c_LAN :: LANCfg
  c_OpenAI :: OpenAICfg
  c_AdminPort :: int

definition Default :: Config where
  "Default = \<lparr>c_Mode = ModeLocal, c_DataDir = ''~/.onesilo-node'',
     c_Log = \<lparr>log_Format = ''text'', log_Level = ''info''\<rparr>,
     c_Capabilities = \<lparr>cap_Memory = False, cap_Compute = False\<rparr>,
     c_ControlPlane = \<lparr>cp_URL = ''https://api.onesilo.com'', cp_AuthMode = AuthModeJWT, cp_DeviceName = []\<rparr>,
     c_EmbedModel = ''nomic-embed-text'',
     c_Ollama = \<lparr>ol_Host = ''http://127.0.0.1:11434'', ol_Manage = False, ol_DefaultModel = ''llama3.2:3b'', ol_BinaryPath = []\<rparr>,
     c_Tunnel = \<lparr>tn_Mode = TunnelModeOff, tn_CloudflaredPath = [], tn_ExternalURL = []\<rparr>,
     c_LAN = \<lparr>lan_Enabled = False, lan_Port = 8765, lan_RequirePairingVerification = True\<rparr>,
     c_OpenAI = \<lparr>oa_Enabled = False, oa_PublishKeyToControlPlane = False\<rparr>,
     c_AdminPort = 8766\<rparr>"

definition Exposed :: "Config \<Rightarrow> bool" where
  "Exposed c \<longleftrightarrow> tn_Mode (c_Tunnel c) \<noteq> TunnelModeOff"

section \<open>Validation\<close>

datatype cfg_err = ErrMode string | ErrLogFormat string | ErrLogLevel string | ErrAuthMode string | ErrTunnelMode string
  | ErrExternalURL | ErrURLEmpty | ErrURLInvalid | ErrURLPlaintext string | ErrURLScheme string | ErrDataDir
  | ErrPort string int | ErrOpenAICompute | ErrPublishOpenAI
  | ErrNotBool string | ErrNotInt string | ErrSetting string cfg_err | ErrToml | ErrUnknownKey string | ErrStat
  | ErrSaveDir | ErrSaveOpen | ErrSaveEncode | ErrSaveClose | ErrSaveRename

definition requireSecureURL :: "string \<Rightarrow> cfg_err option" where
  "requireSecureURL raw =
    (if raw = [] then Some ErrURLEmpty
     else case url_parse raw of
       None \<Rightarrow> Some ErrURLInvalid
     | Some u \<Rightarrow>
        if u_Scheme u = ''https'' then None
        else if u_Scheme u = ''http'' then
          (if Hostname u \<in> {''localhost'', ''127.0.0.1'', ''::1''} then None else Some (ErrURLPlaintext raw))
        else Some (ErrURLScheme (u_Scheme u)))"

definition validPort :: "string \<Rightarrow> int \<Rightarrow> cfg_err option" where
  "validPort name p = (if p < 1 \<or> p > 65535 then Some (ErrPort name p) else None)"

fun first_err :: "cfg_err option list \<Rightarrow> cfg_err option" where
  "first_err [] = None"
| "first_err (e # es) = (case e of None \<Rightarrow> first_err es | Some x \<Rightarrow> Some x)"

definition check_that :: "bool \<Rightarrow> cfg_err \<Rightarrow> cfg_err option" where
  "check_that ok e = (if ok then None else Some e)"

text \<open>The checks in the order of the code; each is reported before any later one is made.\<close>

definition Validate :: "Config \<Rightarrow> cfg_err option" where
  "Validate c = first_err [
     check_that (c_Mode c \<in> {ModeLocal, ModeGateway}) (ErrMode (c_Mode c)),
     check_that (log_Format (c_Log c) \<in> {''text'', ''json''}) (ErrLogFormat (log_Format (c_Log c))),
     check_that (ToLower (log_Level (c_Log c)) \<in> {''debug'', ''info'', ''warn'', ''error''}) (ErrLogLevel (log_Level (c_Log c))),
     check_that (cp_AuthMode (c_ControlPlane c) \<in> {AuthModeJWT, AuthModeAPIKey, AuthModeOAuth}) (ErrAuthMode (cp_AuthMode (c_ControlPlane c))),
     check_that (tn_Mode (c_Tunnel c) \<in> {TunnelModeOff, TunnelModeManaged, TunnelModeQuick, TunnelModeExternal}) (ErrTunnelMode (tn_Mode (c_Tunnel c))),
     check_that (tn_Mode (c_Tunnel c) = TunnelModeExternal \<longrightarrow> HasPrefix (tn_ExternalURL (c_Tunnel c)) ''https://'') ErrExternalURL,
     (if c_Mode c = ModeGateway \<or> Exposed c then requireSecureURL (cp_URL (c_ControlPlane c)) else None),
     check_that (c_DataDir c \<noteq> []) ErrDataDir,
     validPort ''lan.port'' (lan_Port (c_LAN c)),
     validPort ''admin.port'' (c_AdminPort c),
     check_that (oa_Enabled (c_OpenAI c) \<longrightarrow> cap_Compute (c_Capabilities c)) ErrOpenAICompute,
     check_that (oa_PublishKeyToControlPlane (c_OpenAI c) \<longrightarrow> oa_Enabled (c_OpenAI c)) ErrPublishOpenAI]"

text \<open>ExpandTilde, over the user's home directory when there is one.\<close>

definition ExpandTilde :: "string option \<Rightarrow> string \<Rightarrow> string option" where
  "ExpandTilde home path =
    (if path = ''~'' \<or> HasPrefix path ''~/'' then
       (case home of None \<Rightarrow> None
        | Some h \<Rightarrow> Some (if path = ''~'' then h else path_join h (drop 2 path)))
     else Some path)"

definition ResolvedDataDir :: "string option \<Rightarrow> Config \<Rightarrow> string option" where
  "ResolvedDataDir home c = ExpandTilde home (c_DataDir c)"

section \<open>Settings and loading\<close>

type_synonym setter = "Config \<Rightarrow> string \<Rightarrow> cfg_err + Config"

record Setting =
  st_Flag :: string
  st_Env :: string
  st_Set :: setter

definition ParseBool :: "string \<Rightarrow> bool option" where
  "ParseBool s = (if s \<in> {''1'', ''t'', ''T'', ''TRUE'', ''true'', ''True''} then Some True
     else if s \<in> {''0'', ''f'', ''F'', ''FALSE'', ''false'', ''False''} then Some False else None)"

definition strSetting :: "(string \<Rightarrow> Config \<Rightarrow> Config) \<Rightarrow> setter" where
  "strSetting upd c raw = Inr (upd raw c)"

definition boolSetting :: "(bool \<Rightarrow> Config \<Rightarrow> Config) \<Rightarrow> setter" where
  "boolSetting upd c raw = (case ParseBool raw of None \<Rightarrow> Inl (ErrNotBool raw) | Some v \<Rightarrow> Inr (upd v c))"

definition intSetting :: "(int \<Rightarrow> Config \<Rightarrow> Config) \<Rightarrow> setter" where
  "intSetting upd c raw = (case parse_int64 raw of None \<Rightarrow> Inl (ErrNotInt raw) | Some v \<Rightarrow> Inr (upd v c))"

definition mk_setting :: "string \<Rightarrow> string \<Rightarrow> setter \<Rightarrow> Setting" where
  "mk_setting f e s = \<lparr>st_Flag = f, st_Env = e, st_Set = s\<rparr>"

definition Settings :: "Setting list" where
  "Settings = [
     mk_setting ''mode'' ''SILO_NODE_MODE'' (strSetting (\<lambda>v c. c\<lparr>c_Mode := v\<rparr>)),
     mk_setting ''data-dir'' ''SILO_NODE_DATA_DIR'' (strSetting (\<lambda>v c. c\<lparr>c_DataDir := v\<rparr>)),
     mk_setting ''log-format'' ''SILO_NODE_LOG_FORMAT'' (strSetting (\<lambda>v c. c\<lparr>c_Log := c_Log c\<lparr>log_Format := v\<rparr>\<rparr>)),
     mk_setting ''log-level'' ''SILO_NODE_LOG_LEVEL'' (strSetting (\<lambda>v c. c\<lparr>c_Log := c_Log c\<lparr>log_Level := v\<rparr>\<rparr>)),
     mk_setting ''memory'' ''SILO_NODE_MEMORY'' (boolSetting (\<lambda>v c. c\<lparr>c_Capabilities := c_Capabilities c\<lparr>cap_Memory := v\<rparr>\<rparr>)),
     mk_setting ''compute'' ''SILO_NODE_COMPUTE'' (boolSetting (\<lambda>v c. c\<lparr>c_Capabilities := c_Capabilities c\<lparr>cap_Compute := v\<rparr>\<rparr>)),
     mk_setting ''control-plane-url'' ''SILO_NODE_CONTROL_PLANE_URL'' (strSetting (\<lambda>v c. c\<lparr>c_ControlPlane := c_ControlPlane c\<lparr>cp_URL := v\<rparr>\<rparr>)),
     mk_setting ''auth-mode'' ''SILO_NODE_AUTH_MODE'' (strSetting (\<lambda>v c. c\<lparr>c_ControlPlane := c_ControlPlane c\<lparr>cp_AuthMode := v\<rparr>\<rparr>)),
     mk_setting ''device-name'' ''SILO_NODE_DEVICE_NAME'' (strSetting (\<lambda>v c. c\<lparr>c_ControlPlane := c_ControlPlane c\<lparr>cp_DeviceName := v\<rparr>\<rparr>)),
     mk_setting ''memory-embed-model'' ''SILO_NODE_MEMORY_EMBED_MODEL'' (strSetting (\<lambda>v c. c\<lparr>c_EmbedModel := v\<rparr>)),
     mk_setting ''ollama-host'' ''SILO_NODE_OLLAMA_HOST'' (strSetting (\<lambda>v c. c\<lparr>c_Ollama := c_Ollama c\<lparr>ol_Host := v\<rparr>\<rparr>)),
     mk_setting ''ollama-manage'' ''SILO_NODE_OLLAMA_MANAGE'' (boolSetting (\<lambda>v c. c\<lparr>c_Ollama := c_Ollama c\<lparr>ol_Manage := v\<rparr>\<rparr>)),
     mk_setting ''ollama-default-model'' ''SILO_NODE_OLLAMA_DEFAULT_MODEL'' (strSetting (\<lambda>v c. c\<lparr>c_Ollama := c_Ollama c\<lparr>ol_DefaultModel := v\<rparr>\<rparr>)),
     mk_setting ''ollama-binary'' ''SILO_NODE_OLLAMA_BINARY'' (strSetting (\<lambda>v c. c\<lparr>c_Ollama := c_Ollama c\<lparr>ol_BinaryPath := v\<rparr>\<rparr>)),
     mk_setting ''tunnel-mode'' ''SILO_NODE_TUNNEL_MODE'' (strSetting (\<lambda>v c. c\<lparr>c_Tunnel := c_Tunnel c\<lparr>tn_Mode := v\<rparr>\<rparr>)),
     mk_setting ''cloudflared-path'' ''SILO_NODE_CLOUDFLARED_PATH'' (strSetting (\<lambda>v c. c\<lparr>c_Tunnel := c_Tunnel c\<lparr>tn_CloudflaredPath := v\<rparr>\<rparr>)),
     mk_setting ''tunnel-external-url'' ''SILO_NODE_TUNNEL_EXTERNAL_URL'' (strSetting (\<lambda>v c. c\<lparr>c_Tunnel := c_Tunnel c\<lparr>tn_ExternalURL := v\<rparr>\<rparr>)),
     mk_setting ''lan-enabled'' ''SILO_NODE_LAN_ENABLED'' (boolSetting (\<lambda>v c. c\<lparr>c_LAN := c_LAN c\<lparr>lan_Enabled := v\<rparr>\<rparr>)),
     mk_setting ''lan-port'' ''SILO_NODE_LAN_PORT'' (intSetting (\<lambda>v c. c\<lparr>c_LAN := c_LAN c\<lparr>lan_Port := v\<rparr>\<rparr>)),
     mk_setting ''admin-port'' ''SILO_NODE_ADMIN_PORT'' (intSetting (\<lambda>v c. c\<lparr>c_AdminPort := v\<rparr>))]"

text \<open>One pass over the table with one source of raw values.\<close>

fun apply_settings :: "Setting list \<Rightarrow> (Setting \<Rightarrow> string) \<Rightarrow> (string \<Rightarrow> string option) \<Rightarrow> Config \<Rightarrow> cfg_err + Config" where
  "apply_settings [] name lookup c = Inr c"
| "apply_settings (s # ss) name lookup c =
     (case lookup (name s) of
        None \<Rightarrow> apply_settings ss name lookup c
      | Some raw \<Rightarrow> (case st_Set s c raw of
           Inl e \<Rightarrow> Inl (ErrSetting (name s) e)
         | Inr c' \<Rightarrow> apply_settings ss name lookup c'))"

text \<open>The TOML decoder's verdict on a file, and what Stat says of the path.\<close>

datatype toml_result = TomlErr | TomlUndecoded string | TomlOk Config
datatype stat_result = StatOk bytes | StatMissing | StatFails

definition Load :: "(Config \<Rightarrow> bytes \<Rightarrow> toml_result) \<Rightarrow> stat_result option \<Rightarrow> (string \<Rightarrow> string option) \<Rightarrow> (string \<Rightarrow> string option)
    \<Rightarrow> cfg_err + Config" where
  "Load toml path env flags =
    (let from_file = (case path of
           None \<Rightarrow> Inr Default
         | Some (StatOk raw) \<Rightarrow> (case toml Default raw of TomlErr \<Rightarrow> Inl ErrToml | TomlUndecoded k \<Rightarrow> Inl (ErrUnknownKey k) | TomlOk c \<Rightarrow> Inr c)
         | Some StatMissing \<Rightarrow> Inr Default
         | Some StatFails \<Rightarrow> Inl ErrStat)
     in case from_file of Inl e \<Rightarrow> Inl e
        | Inr c0 \<Rightarrow>
          (case apply_settings Settings st_Env env c0 of Inl e \<Rightarrow> Inl e
           | Inr c1 \<Rightarrow>
             (case apply_settings Settings st_Flag flags c1 of Inl e \<Rightarrow> Inl e
              | Inr c2 \<Rightarrow> (case Validate c2 of Some e \<Rightarrow> Inl e | None \<Rightarrow> Inr c2))))"

text \<open>Save: which step fails, if any; the temporary file is path.tmp, truncated if it already exists.\<close>

datatype save_fault = SaveOK | SaveMkdir | SaveOpen | SaveEncode nat | SaveClose | SaveRename

definition Save :: "(Config \<Rightarrow> bytes) \<Rightarrow> save_fault \<Rightarrow> Config \<Rightarrow> string \<Rightarrow> disk \<Rightarrow> disk \<times> cfg_err option" where
  "Save enc fault cfg path d =
    (let tmp = path @ ''.tmp'' in
     case fault of
       SaveMkdir \<Rightarrow> (d, Some ErrSaveDir)
     | SaveOpen \<Rightarrow> (d, Some ErrSaveOpen)
     | SaveEncode n \<Rightarrow> (map_del tmp d, Some ErrSaveEncode)
     | SaveClose \<Rightarrow> (map_del tmp d, Some ErrSaveClose)
     | SaveRename \<Rightarrow> (map_del tmp d, Some ErrSaveRename)
     | SaveOK \<Rightarrow> (map_put path \<lparr>f_mode = (case map_get d tmp of None \<Rightarrow> mode_0600 | Some f \<Rightarrow> f_mode f), f_data = enc cfg\<rparr>
         (map_del tmp d), None))"

section \<open>The admin API's patch\<close>

record ConfigPatch =
  p_Mode :: "string option"
  p_DataDir :: "string option"
  p_Log :: "(string option \<times> string option) option"
  p_Capabilities :: "(bool option \<times> bool option) option"
  p_ControlPlane :: "(string option \<times> string option \<times> string option) option"
  p_Memory :: "string option option"
  p_Ollama :: "(string option \<times> bool option \<times> string option \<times> string option) option"
  p_Tunnel :: "(string option \<times> string option \<times> string option) option"
  p_LAN :: "(bool option \<times> int option) option"
  p_OpenAI :: "bool option option"
  p_Admin :: "int option option"

definition setIf :: "'a \<Rightarrow> 'a option \<Rightarrow> 'a" where
  "setIf dst src = (case src of None \<Rightarrow> dst | Some v \<Rightarrow> v)"

text \<open>One definition per section of the patch body: an absent section changes nothing.\<close>

definition patchLog :: "ConfigPatch \<Rightarrow> Config \<Rightarrow> Config" where
  "patchLog p c = (case p_Log p of None \<Rightarrow> c | Some (f, l) \<Rightarrow>
     c\<lparr>c_Log := \<lparr>log_Format = setIf (log_Format (c_Log c)) f, log_Level = setIf (log_Level (c_Log c)) l\<rparr>\<rparr>)"

definition patchCapabilities :: "ConfigPatch \<Rightarrow> Config \<Rightarrow> Config" where
  "patchCapabilities p c = (case p_Capabilities p of None \<Rightarrow> c | Some (m, k) \<Rightarrow>
     c\<lparr>c_Capabilities := \<lparr>cap_Memory = setIf (cap_Memory (c_Capabilities c)) m, cap_Compute = setIf (cap_Compute (c_Capabilities c)) k\<rparr>\<rparr>)"

definition patchControlPlane :: "ConfigPatch \<Rightarrow> Config \<Rightarrow> Config" where
  "patchControlPlane p c = (case p_ControlPlane p of None \<Rightarrow> c | Some (u, a, d) \<Rightarrow>
     c\<lparr>c_ControlPlane := \<lparr>cp_URL = setIf (cp_URL (c_ControlPlane c)) u, cp_AuthMode = setIf (cp_AuthMode (c_ControlPlane c)) a,
        cp_DeviceName = setIf (cp_DeviceName (c_ControlPlane c)) d\<rparr>\<rparr>)"

definition patchMemory :: "ConfigPatch \<Rightarrow> Config \<Rightarrow> Config" where
  "patchMemory p c = (case p_Memory p of None \<Rightarrow> c | Some e \<Rightarrow> c\<lparr>c_EmbedModel := setIf (c_EmbedModel c) e\<rparr>)"

definition patchOllama :: "ConfigPatch \<Rightarrow> Config \<Rightarrow> Config" where
  "patchOllama p c = (case p_Ollama p of None \<Rightarrow> c | Some (h, m, dm, b) \<Rightarrow>
     c\<lparr>c_Ollama := \<lparr>ol_Host = setIf (ol_Host (c_Ollama c)) h, ol_Manage = setIf (ol_Manage (c_Ollama c)) m,
        ol_DefaultModel = setIf (ol_DefaultModel (c_Ollama c)) dm, ol_BinaryPath = setIf (ol_BinaryPath (c_Ollama c)) b\<rparr>\<rparr>)"

definition patchTunnel :: "ConfigPatch \<Rightarrow> Config \<Rightarrow> Config" where
  "patchTunnel p c = (case p_Tunnel p of None \<Rightarrow> c | Some (m, cf, x) \<Rightarrow>
     c\<lparr>c_Tunnel := \<lparr>tn_Mode = setIf (tn_Mode (c_Tunnel c)) m, tn_CloudflaredPath = setIf (tn_CloudflaredPath (c_Tunnel c)) cf,
        tn_ExternalURL = setIf (tn_ExternalURL (c_Tunnel c)) x\<rparr>\<rparr>)"

definition patchLAN :: "ConfigPatch \<Rightarrow> Config \<Rightarrow> Config" where
  "patchLAN p c = (case p_LAN p of None \<Rightarrow> c | Some (e, port) \<Rightarrow>
     c\<lparr>c_LAN := c_LAN c\<lparr>lan_Enabled := setIf (lan_Enabled (c_LAN c)) e, lan_Port := setIf (lan_Port (c_LAN c)) port\<rparr>\<rparr>)"

definition patchOpenAI :: "ConfigPatch \<Rightarrow> Config \<Rightarrow> Config" where
  "patchOpenAI p c = (case p_OpenAI p of None \<Rightarrow> c | Some e \<Rightarrow>
     c\<lparr>c_OpenAI := c_OpenAI c\<lparr>oa_Enabled := setIf (oa_Enabled (c_OpenAI c)) e\<rparr>\<rparr>)"

definition patchAdmin :: "ConfigPatch \<Rightarrow> Config \<Rightarrow> Config" where
  "patchAdmin p c = (case p_Admin p of None \<Rightarrow> c | Some port \<Rightarrow> c\<lparr>c_AdminPort := setIf (c_AdminPort c) port\<rparr>)"

definition ApplyTo :: "ConfigPatch \<Rightarrow> Config \<Rightarrow> Config" where
  "ApplyTo p c =
     (let c1 = c\<lparr>c_Mode := setIf (c_Mode c) (p_Mode p), c_DataDir := setIf (c_DataDir c) (p_DataDir p)\<rparr>;
          c2 = patchLog p c1; c3 = patchCapabilities p c2; c4 = patchControlPlane p c3; c5 = patchMemory p c4;
          c6 = patchOllama p c5; c7 = patchTunnel p c6; c8 = patchLAN p c7; c9 = patchOpenAI p c8
      in patchAdmin p c9)"

text \<open>No section touches the two switches ConfigPatch has no field for.\<close>

definition fixed_switches :: "Config \<Rightarrow> bool \<times> bool" where
  "fixed_switches c = (oa_PublishKeyToControlPlane (c_OpenAI c), lan_RequirePairingVerification (c_LAN c))"

lemma patch_frames:
  "fixed_switches (patchLog p c) = fixed_switches c" "fixed_switches (patchCapabilities p c) = fixed_switches c"
  "fixed_switches (patchControlPlane p c) = fixed_switches c" "fixed_switches (patchMemory p c) = fixed_switches c"
  "fixed_switches (patchOllama p c) = fixed_switches c" "fixed_switches (patchTunnel p c) = fixed_switches c"
  "fixed_switches (patchLAN p c) = fixed_switches c" "fixed_switches (patchOpenAI p c) = fixed_switches c"
  "fixed_switches (patchAdmin p c) = fixed_switches c"
  by (simp_all add: fixed_switches_def patchLog_def patchCapabilities_def patchControlPlane_def patchMemory_def
      patchOllama_def patchTunnel_def patchLAN_def patchOpenAI_def patchAdmin_def split: option.split prod.split)

lemma ApplyTo_frame: "fixed_switches (ApplyTo p c) = fixed_switches c"
  unfolding ApplyTo_def Let_def patch_frames by (simp add: fixed_switches_def)

section \<open>What validation guarantees\<close>

definition secure_url :: "string \<Rightarrow> bool" where
  "secure_url raw \<longleftrightarrow> (\<exists>u. raw \<noteq> [] \<and> url_parse raw = Some u \<and>
     (u_Scheme u = ''https'' \<or> u_Scheme u = ''http'' \<and> Hostname u \<in> {''localhost'', ''127.0.0.1'', ''::1''}))"

text \<open>A configuration the node may run with.\<close>

definition valid_config :: "Config \<Rightarrow> bool" where
  "valid_config c \<longleftrightarrow> c_Mode c \<in> {ModeLocal, ModeGateway} \<and> log_Format (c_Log c) \<in> {''text'', ''json''} \<and>
     ToLower (log_Level (c_Log c)) \<in> {''debug'', ''info'', ''warn'', ''error''} \<and>
     cp_AuthMode (c_ControlPlane c) \<in> {AuthModeJWT, AuthModeAPIKey, AuthModeOAuth} \<and>
     tn_Mode (c_Tunnel c) \<in> {TunnelModeOff, TunnelModeManaged, TunnelModeQuick, TunnelModeExternal} \<and>
     (tn_Mode (c_Tunnel c) = TunnelModeExternal \<longrightarrow> HasPrefix (tn_ExternalURL (c_Tunnel c)) ''https://'') \<and>
     (c_Mode c = ModeGateway \<or> tn_Mode (c_Tunnel c) \<noteq> TunnelModeOff \<longrightarrow> secure_url (cp_URL (c_ControlPlane c))) \<and>
     c_DataDir c \<noteq> [] \<and> lan_Port (c_LAN c) \<in> {1..65535} \<and> c_AdminPort c \<in> {1..65535} \<and>
     (oa_Enabled (c_OpenAI c) \<longrightarrow> cap_Compute (c_Capabilities c)) \<and>
     (oa_PublishKeyToControlPlane (c_OpenAI c) \<longrightarrow> oa_Enabled (c_OpenAI c))"

lemma first_err_None: "first_err es = None \<longleftrightarrow> (\<forall>e \<in> set es. e = None)"
  by (induction es) (auto split: option.splits)

lemma requireSecureURL_None: "requireSecureURL raw = None \<longleftrightarrow> secure_url raw"
  by (auto simp: requireSecureURL_def secure_url_def split: option.splits)

lemma Validate_iff: "Validate c = None \<longleftrightarrow> valid_config c"
proof -
  have if_none: "(if b then e else None) = None \<longleftrightarrow> (b \<longrightarrow> e = None)" for b and e :: "cfg_err option" by simp
  have check: "check_that b e = None \<longleftrightarrow> b" for b e by (simp add: check_that_def)
  have port: "validPort n p = None \<longleftrightarrow> p \<in> {1..65535}" for n p by (auto simp: validPort_def)
  show ?thesis
    unfolding Validate_def first_err_None valid_config_def Exposed_def
    by (simp add: check port requireSecureURL_None if_none split del: if_split)
qed


section \<open>Precedence\<close>

datatype val = VS string | VB bool | VI int
datatype kind = KS | KB | KI

text \<open>The knobs of the table, in its order, as values.\<close>

definition knob_values :: "Config \<Rightarrow> val list" where
  "knob_values c = [VS (c_Mode c), VS (c_DataDir c), VS (log_Format (c_Log c)), VS (log_Level (c_Log c)),
     VB (cap_Memory (c_Capabilities c)), VB (cap_Compute (c_Capabilities c)), VS (cp_URL (c_ControlPlane c)),
     VS (cp_AuthMode (c_ControlPlane c)), VS (cp_DeviceName (c_ControlPlane c)), VS (c_EmbedModel c),
     VS (ol_Host (c_Ollama c)), VB (ol_Manage (c_Ollama c)), VS (ol_DefaultModel (c_Ollama c)), VS (ol_BinaryPath (c_Ollama c)),
     VS (tn_Mode (c_Tunnel c)), VS (tn_CloudflaredPath (c_Tunnel c)), VS (tn_ExternalURL (c_Tunnel c)),
     VB (lan_Enabled (c_LAN c)), VI (lan_Port (c_LAN c)), VI (c_AdminPort c)]"

definition knob_kinds :: "kind list" where
  "knob_kinds = [KS, KS, KS, KS, KB, KB, KS, KS, KS, KS, KS, KB, KS, KS, KS, KS, KS, KB, KI, KI]"

fun parse_kind :: "kind \<Rightarrow> string \<Rightarrow> val option" where
  "parse_kind KS raw = Some (VS raw)"
| "parse_kind KB raw = map_option VB (ParseBool raw)"
| "parse_kind KI raw = map_option VI (parse_int64 raw)"

definition row_ok :: "nat \<Rightarrow> Setting \<Rightarrow> bool" where
  "row_ok i s \<longleftrightarrow> (\<forall>c raw c'. st_Set s c raw = Inr c' \<longrightarrow>
     (\<exists>v. parse_kind (knob_kinds ! i) raw = Some v \<and> knob_values c' = (knob_values c)[i := v]))"

lemma length_knobs: "length Settings = 20" "length (knob_values c) = 20"
  by (simp_all add: Settings_def knob_values_def)

lemma row_strSetting: "knob_kinds ! i = KS \<Longrightarrow> (\<And>v c. knob_values (upd v c) = (knob_values c)[i := VS v]) \<Longrightarrow>
  row_ok i (mk_setting f e (strSetting upd))"
  by (simp add: row_ok_def mk_setting_def strSetting_def)

lemma row_boolSetting: "knob_kinds ! i = KB \<Longrightarrow> (\<And>v c. knob_values (upd v c) = (knob_values c)[i := VB v]) \<Longrightarrow>
  row_ok i (mk_setting f e (boolSetting upd))"
  by (auto simp: row_ok_def mk_setting_def boolSetting_def split: option.splits)

lemma row_intSetting: "knob_kinds ! i = KI \<Longrightarrow> (\<And>v c. knob_values (upd v c) = (knob_values c)[i := VI v]) \<Longrightarrow>
  row_ok i (mk_setting f e (intSetting upd))"
  by (auto simp: row_ok_def mk_setting_def intSetting_def split: option.splits)

lemma rows_ok: "list_all (\<lambda>(i, s). row_ok i s) (enumerate 0 Settings)"
  unfolding Settings_def
  by (simp only: enumerate_simps list.pred_inject prod.case; intro conjI TrueI;
      (rule row_strSetting row_boolSetting row_intSetting; simp add: knob_kinds_def knob_values_def numeral_eq_Suc))

text \<open>What one pass leaves in each knob: the source's value where it has one.\<close>

definition override :: "(Setting \<Rightarrow> string) \<Rightarrow> (string \<Rightarrow> string option) \<Rightarrow> nat \<Rightarrow> val \<Rightarrow> val" where
  "override name lookup i old = (case lookup (name (Settings ! i)) of None \<Rightarrow> old
     | Some raw \<Rightarrow> (case parse_kind (knob_kinds ! i) raw of None \<Rightarrow> old | Some v \<Rightarrow> v))"

lemma apply_settings_values:
  assumes "list_all (\<lambda>(i, s). row_ok i s) (enumerate k ss)" "drop k Settings = ss"
    and "apply_settings ss name lookup c = Inr c'"
  shows "i < 20 \<Longrightarrow> knob_values c' ! i = (if i < k then knob_values c ! i else override name lookup i (knob_values c ! i))"
  using assms
proof (induction ss arbitrary: k c)
  case Nil
  then have "20 \<le> k" using length_knobs(1) by simp
  with Nil show ?case by simp
next
  case (Cons s ss)
  have k: "k < 20" "Settings ! k = s"
    using Cons.prems(3) length_knobs(1)
    by (metis drop_eq_Nil leI list.distinct(1)) (metis Cons.prems(3) nth_via_drop)
  have rest: "drop (Suc k) Settings = ss" using Cons.prems(3) by (metis drop_Suc list.sel(3) tl_drop)
  have row: "row_ok k s" and rows: "list_all (\<lambda>(i, s). row_ok i s) (enumerate (Suc k) ss)"
    using Cons.prems(2) by (simp_all add: enumerate_simps)
  show ?case
  proof (cases "lookup (name s)")
    case None
    then have step: "apply_settings ss name lookup c = Inr c'" using Cons.prems(4) by simp
    show ?thesis using Cons.IH [OF Cons.prems(1) rows rest step] None k
      by (auto simp: override_def less_Suc_eq)
  next
    case (Some raw)
    then obtain d where d: "st_Set s c raw = Inr d" "apply_settings ss name lookup d = Inr c'"
      using Cons.prems(4) by (auto split: sum.splits)
    then obtain v where v: "parse_kind (knob_kinds ! k) raw = Some v" "knob_values d = (knob_values c)[k := v]"
      using row unfolding row_ok_def by blast
    show ?thesis using Cons.IH [OF Cons.prems(1) rows rest d(2)] Some k v length_knobs(2)
      by (auto simp: override_def less_Suc_eq nth_list_update)
  qed
qed

lemma pass_values:
  "apply_settings Settings name lookup c = Inr c' \<Longrightarrow> i < 20 \<Longrightarrow>
   knob_values c' ! i = override name lookup i (knob_values c ! i)"
  using apply_settings_values [OF rows_ok, of name lookup c c' i] by simp

text \<open>The configuration the file contributes.\<close>

definition file_config :: "(Config \<Rightarrow> bytes \<Rightarrow> toml_result) \<Rightarrow> stat_result option \<Rightarrow> Config" where
  "file_config toml path = (case path of Some (StatOk raw) \<Rightarrow> (case toml Default raw of TomlOk c \<Rightarrow> c | _ \<Rightarrow> Default) | _ \<Rightarrow> Default)"

text \<open>
  Precedence of every knob: when Load succeeds, each of the twenty knobs has its flag's
  value if the flag was given, else its environment variable's, else the file's, else the
  default; and the result is a valid configuration.
\<close>

theorem Load_precedence:
  assumes "Load toml path env flags = Inr c" "i < length Settings"
  shows "knob_values c ! i = override st_Flag flags i (override st_Env env i (knob_values (file_config toml path) ! i)) \<and> valid_config c"
proof -
  obtain c0 c1 where "c0 = file_config toml path" "apply_settings Settings st_Env env c0 = Inr c1"
    "apply_settings Settings st_Flag flags c1 = Inr c" "Validate c = None"
    using assms(1)
    by (auto simp: Load_def file_config_def Let_def split: option.splits sum.splits stat_result.splits toml_result.splits)
  then show ?thesis using pass_values assms(2) Validate_iff length_knobs(1) by simp
qed

theorem Load_precedence_witness:
  "Load (\<lambda>_ _. TomlErr) None ([''SILO_NODE_MODE'' \<mapsto> ''gateway'']) ([''mode'' \<mapsto> ''local'']) = Inr Default \<and>
   knob_values Default ! 0 = override st_Flag ([''mode'' \<mapsto> ''local'']) 0 (override st_Env ([''SILO_NODE_MODE'' \<mapsto> ''gateway'']) 0 (VS ModeLocal))"
proof -
  have "apply_settings Settings st_Env [''SILO_NODE_MODE'' \<mapsto> ''gateway''] Default = Inr (Default\<lparr>c_Mode := ''gateway''\<rparr>)"
    "apply_settings Settings st_Flag [''mode'' \<mapsto> ''local''] (Default\<lparr>c_Mode := ''gateway''\<rparr>) = Inr (Default\<lparr>c_Mode := ''local''\<rparr>)"
    by (simp_all add: Settings_def mk_setting_def strSetting_def)
  moreover have "Validate Default = None"
    unfolding Validate_iff by (simp add: valid_config_def Default_def config_consts ToLower_def lower_char_def)
  moreover have "Default\<lparr>c_Mode := ''local''\<rparr> = Default" by (simp add: Default_def ModeLocal_def)
  ultimately have "Load (\<lambda>_ _. TomlErr) None [''SILO_NODE_MODE'' \<mapsto> ''gateway''] [''mode'' \<mapsto> ''local''] = Inr Default"
    by (simp add: Load_def)
  from Load_precedence [OF this, of 0] this show ?thesis by (simp add: file_config_def length_knobs) (simp add: knob_values_def Default_def)
qed

section \<open>What a patch can change\<close>

text \<open>
  A patch cannot withdraw the published key: once the OpenAI surface publishes its key to
  the control plane, every patch the node accepts leaves publishing, the surface and compute on,
  because ConfigPatch has no field for the switch and Validate ties the three together.
\<close>

theorem patch_keeps_published:
  assumes "oa_PublishKeyToControlPlane (c_OpenAI c)" "Validate (ApplyTo p c) = None"
  shows "oa_PublishKeyToControlPlane (c_OpenAI (ApplyTo p c)) \<and> oa_Enabled (c_OpenAI (ApplyTo p c)) \<and>
    cap_Compute (c_Capabilities (ApplyTo p c)) \<and>
    lan_RequirePairingVerification (c_LAN (ApplyTo p c)) = lan_RequirePairingVerification (c_LAN c)"
  using ApplyTo_frame [of p c] assms by (auto simp: fixed_switches_def Validate_iff valid_config_def)

definition demo_published :: Config where
  "demo_published = Default\<lparr>c_Capabilities := \<lparr>cap_Memory = False, cap_Compute = True\<rparr>,
     c_OpenAI := \<lparr>oa_Enabled = True, oa_PublishKeyToControlPlane = True\<rparr>\<rparr>"

definition demo_patch :: ConfigPatch where
  "demo_patch = \<lparr>p_Mode = None, p_DataDir = None, p_Log = None, p_Capabilities = Some (Some True, None), p_ControlPlane = None,
     p_Memory = None, p_Ollama = None, p_Tunnel = None, p_LAN = Some (Some False, None), p_OpenAI = None, p_Admin = Some (Some 9000)\<rparr>"

theorem patch_keeps_published_witness:
  "Validate (ApplyTo demo_patch demo_published) = None \<and> cap_Memory (c_Capabilities (ApplyTo demo_patch demo_published)) \<and>
   oa_PublishKeyToControlPlane (c_OpenAI (ApplyTo demo_patch demo_published))"
proof -
  have patched: "ApplyTo demo_patch demo_published = demo_published\<lparr>c_Capabilities := \<lparr>cap_Memory = True, cap_Compute = True\<rparr>,
      c_LAN := c_LAN Default\<lparr>lan_Enabled := False\<rparr>, c_AdminPort := 9000\<rparr>"
    by (simp add: ApplyTo_def Let_def demo_patch_def demo_published_def setIf_def patchLog_def patchCapabilities_def
        patchControlPlane_def patchMemory_def patchOllama_def patchTunnel_def patchLAN_def patchOpenAI_def patchAdmin_def Default_def)
  have "Validate (ApplyTo demo_patch demo_published) = None"
    unfolding Validate_iff patched by (simp add: valid_config_def demo_published_def Default_def config_consts ToLower_def lower_char_def)
  moreover have "oa_PublishKeyToControlPlane (c_OpenAI demo_published)" by (simp add: demo_published_def)
  ultimately show ?thesis using patch_keeps_published [of demo_published demo_patch] by (simp add: patched)
qed

end
