(* ===== verification/LanServer.thy ===== *)
theory LanServer
  imports Config
begin

text \<open>
  The LAN server and its capability (internal/lanserve/server.go, capability.go, bonjour.go):
  the WebSocket slot counter with its concurrent handlers as a step relation, Start and Stop, and
  the Bonjour reconciliation over the Announcer interface. Socket and websocket library calls are
  outcomes; the zeroconf library is represented by the calls made on its server handle.
\<close>

section \<open>Connection slots\<close>

definition maxFrameBytes :: nat where "maxFrameBytes = 16 * 2 ^ 20"
definition maxClients :: nat where "maxClients = 64"
definition idleReadTimeout :: duration where "idleReadTimeout = 5 * minute"

text \<open>
  The serve context: absent before the first Start, then live until Stop cancels it. Handlers in
  flight are listed by where they are in handleWebSocket: past the counter with the cap exceeded
  (about to give the slot back), past it with a slot but not upgraded yet, and connected.
\<close>

datatype serve_ctx = CtxLive | CtxCancelled

record lan_server =
  ls_running :: bool
  ls_ctx :: "serve_ctx option"
  ls_clients :: nat
  ls_over :: "nat list"
  ls_reserved :: "nat list"
  ls_connected :: "nat list"
  ls_notified :: "nat list"   \<comment> \<open>counts passed to onClientCount, latest first\<close>

definition NewServer :: lan_server where
  "NewServer = \<lparr>ls_running = False, ls_ctx = None, ls_clients = 0, ls_over = [], ls_reserved = [], ls_connected = [], ls_notified = []\<rparr>"

definition Server_Start :: "bool \<Rightarrow> lan_server \<Rightarrow> lan_server \<times> bool" where
  "Server_Start bind_ok s =
    (if ls_running s then (s, True)
     else if \<not> bind_ok then (s, False)
     else (s\<lparr>ls_ctx := Some CtxLive, ls_running := True\<rparr>, True))"

definition Server_Stop :: "lan_server \<Rightarrow> lan_server" where
  "Server_Stop s = (if \<not> ls_running s then s
     else s\<lparr>ls_running := False, ls_ctx := map_option (\<lambda>_. CtxCancelled) (ls_ctx s)\<rparr>)"

text \<open>The critical moments of one handleWebSocket call for handler h.\<close>

definition ws_arrive :: "nat \<Rightarrow> lan_server \<Rightarrow> lan_server" where
  "ws_arrive h s = (let n = ls_clients s + 1; s1 = s\<lparr>ls_clients := n\<rparr> in
     if n > maxClients then s1\<lparr>ls_over := h # ls_over s\<rparr> else s1\<lparr>ls_reserved := h # ls_reserved s\<rparr>)"

definition ws_reject :: "nat \<Rightarrow> lan_server \<Rightarrow> lan_server" where
  "ws_reject h s = s\<lparr>ls_clients := ls_clients s - 1, ls_over := remove1 h (ls_over s)\<rparr>"

definition ws_accept_failed :: "nat \<Rightarrow> lan_server \<Rightarrow> lan_server" where
  "ws_accept_failed h s = s\<lparr>ls_clients := ls_clients s - 1, ls_reserved := remove1 h (ls_reserved s)\<rparr>"

definition ws_accepted :: "nat \<Rightarrow> lan_server \<Rightarrow> lan_server" where
  "ws_accepted h s = (case ls_ctx s of
       None \<Rightarrow> s\<lparr>ls_clients := ls_clients s - 1, ls_reserved := remove1 h (ls_reserved s)\<rparr>
     | Some _ \<Rightarrow> s\<lparr>ls_notified := ls_clients s # ls_notified s, ls_reserved := remove1 h (ls_reserved s),
         ls_connected := h # ls_connected s\<rparr>)"

definition ws_release :: "nat \<Rightarrow> lan_server \<Rightarrow> lan_server" where
  "ws_release h s = s\<lparr>ls_clients := ls_clients s - 1, ls_notified := (ls_clients s - 1) # ls_notified s,
     ls_connected := remove1 h (ls_connected s)\<rparr>"

inductive lan_step :: "lan_server \<Rightarrow> lan_server \<Rightarrow> bool" where
  start: "lan_step s (fst (Server_Start ok s))"
| stop: "lan_step s (Server_Stop s)"
| arrive: "ls_ctx s \<noteq> None \<Longrightarrow> lan_step s (ws_arrive h s)"
| reject: "h \<in> set (ls_over s) \<Longrightarrow> lan_step s (ws_reject h s)"
| accept_failed: "h \<in> set (ls_reserved s) \<Longrightarrow> lan_step s (ws_accept_failed h s)"
| accepted: "h \<in> set (ls_reserved s) \<Longrightarrow> lan_step s (ws_accepted h s)"
| release: "h \<in> set (ls_connected s) \<Longrightarrow> lan_step s (ws_release h s)"

inductive lan_reach :: "lan_server \<Rightarrow> bool" where
  init: "lan_reach NewServer"
| step: "lan_reach s \<Longrightarrow> lan_step s s' \<Longrightarrow> lan_reach s'"

definition in_flight :: "lan_server \<Rightarrow> nat" where
  "in_flight s = length (ls_over s) + length (ls_reserved s) + length (ls_connected s)"

definition slots_inv :: "lan_server \<Rightarrow> bool" where
  "slots_inv s \<longleftrightarrow> ls_clients s = in_flight s \<and> length (ls_reserved s) + length (ls_connected s) \<le> maxClients \<and>
     (in_flight s > 0 \<longrightarrow> ls_ctx s \<noteq> None)"

lemma length_remove1_mem: "x \<in> set xs \<Longrightarrow> Suc (length (remove1 x xs)) = length xs"
  using length_pos_if_in_set [of x xs] by (simp add: length_remove1)

lemma slots_start: "slots_inv s \<Longrightarrow> slots_inv (fst (Server_Start ok s))"
  and slots_stop: "slots_inv s \<Longrightarrow> slots_inv (Server_Stop s)"
  by (auto simp: slots_inv_def in_flight_def Server_Start_def Server_Stop_def)

lemma slots_arrive: "slots_inv s \<Longrightarrow> ls_ctx s \<noteq> None \<Longrightarrow> slots_inv (ws_arrive h s)"
  by (auto simp: slots_inv_def in_flight_def ws_arrive_def Let_def)

lemma slots_reject: "slots_inv s \<Longrightarrow> h \<in> set (ls_over s) \<Longrightarrow> slots_inv (ws_reject h s)"
  using length_remove1_mem [of h "ls_over s"] by (auto simp: slots_inv_def in_flight_def ws_reject_def)

lemma slots_accept_failed: "slots_inv s \<Longrightarrow> h \<in> set (ls_reserved s) \<Longrightarrow> slots_inv (ws_accept_failed h s)"
  using length_remove1_mem [of h "ls_reserved s"] by (auto simp: slots_inv_def in_flight_def ws_accept_failed_def)

lemma slots_accepted: "slots_inv s \<Longrightarrow> h \<in> set (ls_reserved s) \<Longrightarrow> slots_inv (ws_accepted h s)"
  using length_remove1_mem [of h "ls_reserved s"]
  by (auto simp: slots_inv_def in_flight_def ws_accepted_def split: option.splits)

lemma slots_release: "slots_inv s \<Longrightarrow> h \<in> set (ls_connected s) \<Longrightarrow> slots_inv (ws_release h s)"
  using length_remove1_mem [of h "ls_connected s"] by (auto simp: slots_inv_def in_flight_def ws_release_def)

lemma slots_step: "lan_step s s' \<Longrightarrow> slots_inv s \<Longrightarrow> slots_inv s'"
  by (induction rule: lan_step.induct)
     (simp_all add: slots_start slots_stop slots_arrive slots_reject slots_accept_failed slots_accepted slots_release)

lemma reach_slots: "lan_reach s \<Longrightarrow> slots_inv s"
  by (induction rule: lan_reach.induct) (auto simp: slots_inv_def in_flight_def NewServer_def dest: slots_step)

text \<open>
  C18. In every interleaving of connection attempts, failed upgrades, disconnects, starts and
  stops, at most 64 WebSocket handlers hold a slot, the counter equals the handlers in flight
  (so no slot leaks: when all have returned it is 0), and the branch of handleWebSocket for a
  server without a context is never taken, because Stop leaves the cancelled context in place.
\<close>

theorem client_slots:
  assumes "lan_reach s"
  shows "length (ls_reserved s) + length (ls_connected s) \<le> 64 \<and> ls_clients s = in_flight s \<and>
    (h \<in> set (ls_reserved s) \<longrightarrow> ls_clients (ws_accepted h s) = ls_clients s \<and> h \<in> set (ls_connected (ws_accepted h s)))"
proof -
  have inv: "slots_inv s" using assms by (rule reach_slots)
  have "h \<in> set (ls_reserved s) \<Longrightarrow> ls_ctx s \<noteq> None"
    using inv by (auto simp: slots_inv_def in_flight_def dest: length_pos_if_in_set)
  then show ?thesis using inv by (auto simp: slots_inv_def maxClients_def ws_accepted_def)
qed

theorem client_slots_witness:
  "\<exists>s. lan_reach s \<and> ls_reserved s = [7] \<and> ls_clients s = in_flight s \<and> ls_clients s = 1"
proof -
  let ?s0 = "fst (Server_Start True NewServer)"
  let ?s1 = "Server_Stop (ws_arrive 7 ?s0)"
  from lan_reach.step [OF lan_reach.init lan_step.start] have "lan_reach ?s0" .
  moreover have "lan_step ?s0 (ws_arrive 7 ?s0)" by (rule lan_step.arrive) (simp add: Server_Start_def NewServer_def)
  ultimately have "lan_reach (ws_arrive 7 ?s0)" by (rule lan_reach.step)
  from lan_reach.step [OF this lan_step.stop] have reach: "lan_reach ?s1" .
  have "ls_reserved ?s1 = [7]" "ls_clients ?s1 = 1"
    by (simp_all add: Server_Stop_def ws_arrive_def Server_Start_def NewServer_def maxClients_def)
  then show ?thesis using reach client_slots [OF reach, of 7] by metis
qed

section \<open>The announcer\<close>

definition bonjourServiceType :: string where "bonjourServiceType = ''_silo-llm._tcp''"
definition bonjourDomain :: string where "bonjourDomain = ''local.''"

definition BonjourInstanceName :: "string option \<Rightarrow> string" where
  "BonjourInstanceName hostname =
    (let host = (case hostname of None \<Rightarrow> ''Silo Node'' | Some h \<Rightarrow> if h = [] then ''Silo Node'' else h);
         stripped = (case cut_byte (CHR ''.'') host of Some (a, _) \<Rightarrow> if a \<noteq> [] then a else host | None \<Rightarrow> host)
     in stripped @ '' Silo LLM'')"

definition BonjourTXT :: "string \<Rightarrow> string \<Rightarrow> string list" where
  "BonjourTXT model deviceID =
    [''model='' @ model, ''version=1.0'', ''capabilities=chat,stream,e2e'', ''protocol=1''] @
    (if deviceID \<noteq> [] then [''device_id='' @ deviceID] else [])"

lemma BonjourTXT_inj: "BonjourTXT m d = BonjourTXT m' d' \<longleftrightarrow> m = m' \<and> d = d'"
  by (auto simp: BonjourTXT_def)

lemma BonjourTXT_no_empty_id: "''device_id='' \<notin> set (BonjourTXT m d)"
  by (simp add: BonjourTXT_def)

text \<open>A live zeroconf server, as the arguments it was registered with and its latest text.\<close>

record registration =
  rg_instance :: string
  rg_service :: string
  rg_domain :: string
  rg_port :: int
  rg_txt :: "string list"

type_synonym zeroconfAnnouncer = "registration option"

definition NewZeroconfAnnouncer :: zeroconfAnnouncer where "NewZeroconfAnnouncer = None"

definition zc_Announce :: "bool \<Rightarrow> zeroconfAnnouncer \<Rightarrow> string \<Rightarrow> int \<Rightarrow> string list \<Rightarrow> zeroconfAnnouncer \<times> bool" where
  "zc_Announce register_ok z inst port txt =
    (if z \<noteq> None then (z, False)
     else if \<not> register_ok then (z, False)
     else (Some \<lparr>rg_instance = inst, rg_service = bonjourServiceType, rg_domain = bonjourDomain, rg_port = port, rg_txt = txt\<rparr>, True))"

definition zc_Update :: "zeroconfAnnouncer \<Rightarrow> string list \<Rightarrow> zeroconfAnnouncer \<times> bool" where
  "zc_Update z txt = (case z of None \<Rightarrow> (z, False) | Some r \<Rightarrow> (Some (r\<lparr>rg_txt := txt\<rparr>), True))"

definition zc_Shutdown :: "zeroconfAnnouncer \<Rightarrow> zeroconfAnnouncer" where
  "zc_Shutdown z = (if z \<noteq> None then None else z)"

text \<open>The Announcer interface as the capability sees it, and its laws.\<close>

record 'a announcer_ops =
  an_new :: 'a
  an_announce :: "bool \<Rightarrow> 'a \<Rightarrow> string \<Rightarrow> int \<Rightarrow> string list \<Rightarrow> 'a \<times> bool"
  an_update :: "'a \<Rightarrow> string list \<Rightarrow> 'a \<times> bool"
  an_shutdown :: "'a \<Rightarrow> 'a"

definition zeroconf_ops :: "zeroconfAnnouncer announcer_ops" where
  "zeroconf_ops = \<lparr>an_new = NewZeroconfAnnouncer, an_announce = zc_Announce, an_update = zc_Update, an_shutdown = zc_Shutdown\<rparr>"

section \<open>Bonjour reconciliation\<close>

record 'a bonjour =
  bj_announcer :: "'a option"
  bj_published :: bool
  bj_lastModel :: string
  bj_lastDeviceID :: string
  bj_dropped :: "'a list"   \<comment> \<open>announcers no longer referenced\<close>

definition bonjour_init :: "'a bonjour" where
  "bonjour_init = \<lparr>bj_announcer = None, bj_published = False, bj_lastModel = [], bj_lastDeviceID = [], bj_dropped = []\<rparr>"

text \<open>What one pass reads: lan.enabled, lan.port, the model, the device id, the host name, and whether zeroconf accepts.\<close>

record bonjour_view =
  bv_want :: bool
  bv_port :: int
  bv_model :: string
  bv_device :: string
  bv_host :: "string option"
  bv_ok :: bool

definition unpublishLocked :: "'a announcer_ops \<Rightarrow> 'a bonjour \<Rightarrow> 'a bonjour" where
  "unpublishLocked ops b =
    (let b1 = (case bj_announcer b of None \<Rightarrow> b
               | Some a \<Rightarrow> b\<lparr>bj_announcer := None, bj_dropped := an_shutdown ops a # bj_dropped b\<rparr>)
     in b1\<lparr>bj_published := False, bj_lastModel := []\<rparr>)"

text \<open>None when the code would call Update on a nil announcer.\<close>

definition reconcileBonjourLocked :: "'a announcer_ops \<Rightarrow> bonjour_view \<Rightarrow> 'a bonjour \<Rightarrow> 'a bonjour option" where
  "reconcileBonjourLocked ops v b =
    (let txt = BonjourTXT (bv_model v) (bv_device v) in
     if bv_want v \<and> \<not> bj_published b then
       (case an_announce ops (bv_ok v) (an_new ops) (BonjourInstanceName (bv_host v)) (bv_port v) txt of (a, ok) \<Rightarrow>
          if \<not> ok then Some (b\<lparr>bj_dropped := a # bj_dropped b\<rparr>)
          else Some (b\<lparr>bj_announcer := Some a, bj_published := True, bj_lastModel := bv_model v, bj_lastDeviceID := bv_device v\<rparr>))
     else if \<not> bv_want v \<and> bj_published b then Some (unpublishLocked ops b)
     else if bv_want v \<and> bj_published b \<and> (bv_model v \<noteq> bj_lastModel b \<or> bv_device v \<noteq> bj_lastDeviceID b) then
       (case bj_announcer b of None \<Rightarrow> None
        | Some a \<Rightarrow> (case an_update ops a txt of (a', ok) \<Rightarrow>
            if \<not> ok then Some (b\<lparr>bj_announcer := Some a'\<rparr>)
            else Some (b\<lparr>bj_announcer := Some a', bj_lastModel := bv_model v, bj_lastDeviceID := bv_device v\<rparr>)))
     else Some b)"

text \<open>The Announcer contract, with what an announcer has on the air.\<close>

locale announcer =
  fixes ops :: "'a announcer_ops" and on_air :: "'a \<Rightarrow> (string \<times> int \<times> string list) option"
  assumes new_silent: "on_air (an_new ops) = None"
    and announce_ok: "on_air a = None \<Longrightarrow> an_announce ops ok a i p t = (a', True) \<Longrightarrow> on_air a' = Some (i, p, t)"
    and announce_err: "on_air a = None \<Longrightarrow> an_announce ops ok a i p t = (a', False) \<Longrightarrow> on_air a' = None"
    and announce_up: "on_air a = None \<Longrightarrow> snd (an_announce ops True a i p t)"
    and update_live: "on_air a = Some (i, p, t) \<Longrightarrow> \<exists>a'. an_update ops a t' = (a', True) \<and> on_air a' = Some (i, p, t')"
    and shutdown_silent: "on_air (an_shutdown ops a) = None"
begin

text \<open>What the capability knows is what is on the air, and nothing it let go of still is.\<close>

definition synced :: "'a bonjour \<Rightarrow> bool" where
  "synced b \<longleftrightarrow> (case bj_announcer b of
       None \<Rightarrow> \<not> bj_published b
     | Some a \<Rightarrow> bj_published b \<and> (\<exists>i p. on_air a = Some (i, p, BonjourTXT (bj_lastModel b) (bj_lastDeviceID b)))) \<and>
     (\<forall>a \<in> set (bj_dropped b). on_air a = None)"

lemma synced_init: "synced bonjour_init"
  by (simp add: synced_def bonjour_init_def)

lemma synced_unpublish: "synced b \<Longrightarrow> synced (unpublishLocked ops b) \<and> \<not> bj_published (unpublishLocked ops b)"
  by (auto simp: synced_def unpublishLocked_def Let_def shutdown_silent split: option.splits)

lemma synced_update:
  assumes "synced b" "bj_announcer b = Some a"
  shows "\<exists>a' i p. an_update ops a t = (a', True) \<and> on_air a' = Some (i, p, t)"
  using assms update_live unfolding synced_def by fastforce

lemma reconcile_synced:
  assumes "synced b"
  shows "\<exists>b'. reconcileBonjourLocked ops v b = Some b' \<and> synced b' \<and> (bj_published b' \<longrightarrow> bv_want v) \<and>
     (bj_published b' \<longrightarrow> bj_lastModel b' = bv_model v \<and> bj_lastDeviceID b' = bv_device v) \<and>
     (bv_want v \<longrightarrow> bv_ok v \<or> bj_published b \<longrightarrow> bj_published b')"
proof -
  consider (publish) "bv_want v" "\<not> bj_published b" | (retract) "\<not> bv_want v" "bj_published b"
    | (update) "bv_want v" "bj_published b" "bv_model v \<noteq> bj_lastModel b \<or> bv_device v \<noteq> bj_lastDeviceID b"
    | (keep) "bv_want v \<longleftrightarrow> bj_published b" "bj_published b \<longrightarrow> bv_model v = bj_lastModel b \<and> bv_device v = bj_lastDeviceID b"
    by blast
  then show ?thesis
  proof cases
    case publish
    obtain a ok where a: "an_announce ops (bv_ok v) (an_new ops) (BonjourInstanceName (bv_host v)) (bv_port v)
        (BonjourTXT (bv_model v) (bv_device v)) = (a, ok)" by fastforce
    have "ok \<or> \<not> bv_ok v" using announce_up [OF new_silent] a by (metis snd_conv)
    moreover have "bj_announcer b = None" using assms publish by (auto simp: synced_def split: option.splits)
    ultimately show ?thesis using assms publish a announce_ok [OF new_silent] announce_err [OF new_silent]
      by (cases ok) (auto simp: reconcileBonjourLocked_def Let_def synced_def)
  next
    case retract
    then show ?thesis using synced_unpublish [OF assms] by (simp add: reconcileBonjourLocked_def Let_def)
  next
    case update
    then obtain a where a: "bj_announcer b = Some a" using assms by (auto simp: synced_def split: option.splits)
    from synced_update [OF assms a] obtain a' i p where
      "an_update ops a (BonjourTXT (bv_model v) (bv_device v)) = (a', True)"
      "on_air a' = Some (i, p, BonjourTXT (bv_model v) (bv_device v))" by blast
    then show ?thesis using assms update a by (auto simp: reconcileBonjourLocked_def Let_def synced_def)
  next
    case keep
    then have "reconcileBonjourLocked ops v b = Some b" by (auto simp: reconcileBonjourLocked_def Let_def)
    then show ?thesis using keep assms by auto
  qed
qed

end

definition zc_on_air :: "zeroconfAnnouncer \<Rightarrow> (string \<times> int \<times> string list) option" where
  "zc_on_air z = map_option (\<lambda>r. (rg_instance r, rg_port r, rg_txt r)) z"

interpretation zc: announcer zeroconf_ops zc_on_air
  by unfold_locales
    (auto simp: zeroconf_ops_def zc_on_air_def NewZeroconfAnnouncer_def zc_Announce_def zc_Update_def zc_Shutdown_def
      split: if_splits option.splits)

section \<open>The capability\<close>

definition lan_Enabled_cap :: "Config \<Rightarrow> bool" where
  "lan_Enabled_cap cfg \<longleftrightarrow> lan_Enabled (c_LAN cfg) \<or> cap_Memory (c_Capabilities cfg) \<or> c_Mode cfg = ModeGateway \<or>
     Exposed cfg \<or> (oa_Enabled (c_OpenAI cfg) \<and> cap_Compute (c_Capabilities cfg))"

record lan_cap =
  lc_server :: "lan_server option"
  lc_bonjour :: "zeroconfAnnouncer bonjour"

definition NewLanCapability :: lan_cap where
  "NewLanCapability = \<lparr>lc_server = None, lc_bonjour = bonjour_init\<rparr>"

definition LanCap_reconcile :: "bonjour_view \<Rightarrow> lan_cap \<Rightarrow> lan_cap option" where
  "LanCap_reconcile v c = (case reconcileBonjourLocked zeroconf_ops v (lc_bonjour c) of
     None \<Rightarrow> None | Some b \<Rightarrow> Some (c\<lparr>lc_bonjour := b\<rparr>))"

definition LanCap_Start :: "bool \<Rightarrow> bonjour_view \<Rightarrow> lan_cap \<Rightarrow> (lan_cap \<times> bool) option" where
  "LanCap_Start bind_ok v c =
    (if lc_server c \<noteq> None then Some (c, True)
     else case Server_Start bind_ok NewServer of
       (_, False) \<Rightarrow> Some (c, False)
     | (s, True) \<Rightarrow> map_option (\<lambda>c'. (c', True)) (LanCap_reconcile v (c\<lparr>lc_server := Some s\<rparr>)))"

text \<open>Stop forgets the server and withdraws the advert; the old server is then shut down.\<close>

definition LanCap_Stop :: "lan_cap \<Rightarrow> lan_cap \<times> lan_server option" where
  "LanCap_Stop c = (c\<lparr>lc_server := None, lc_bonjour := unpublishLocked zeroconf_ops (lc_bonjour c)\<rparr>,
     map_option Server_Stop (lc_server c))"

text \<open>One tick of watchBonjour, and the status readers.\<close>

definition watchBonjour :: "bonjour_view \<Rightarrow> lan_cap \<Rightarrow> lan_cap option" where
  "watchBonjour v c = (if lc_server c = None then Some c else LanCap_reconcile v c)"

definition LanCap_Healthy :: "string \<Rightarrow> lan_cap \<Rightarrow> bool \<times> string" where
  "LanCap_Healthy addr c = (case lc_server c of
       None \<Rightarrow> (False, ''not started'')
     | Some s \<Rightarrow> if \<not> ls_running s then (False, ''not started'')
         else (True, ''serving on '' @ addr @ '' ('' @ show_nat (ls_clients s) @ '' clients)'' @
           (if bj_published (lc_bonjour c) then '', bonjour published'' else [])))"

definition LanCap_Clients :: "lan_cap \<Rightarrow> nat" where
  "LanCap_Clients c = (case lc_server c of None \<Rightarrow> 0 | Some s \<Rightarrow> ls_clients s)"

text \<open>The capability's server runs its handlers between the calls.\<close>

inductive cap_step :: "lan_cap \<Rightarrow> lan_cap \<Rightarrow> bool" where
  start: "LanCap_Start ok v c = Some (c', r) \<Longrightarrow> cap_step c c'"
| stop: "LanCap_Stop c = (c', old) \<Longrightarrow> cap_step c c'"
| tick: "watchBonjour v c = Some c' \<Longrightarrow> cap_step c c'"
| serve: "lc_server c = Some s \<Longrightarrow> lan_step s s' \<Longrightarrow> cap_step c (c\<lparr>lc_server := Some s'\<rparr>)"

inductive cap_reach :: "lan_cap \<Rightarrow> bool" where
  init: "cap_reach NewLanCapability"
| step: "cap_reach c \<Longrightarrow> cap_step c c' \<Longrightarrow> cap_reach c'"

definition cap_inv :: "lan_cap \<Rightarrow> bool" where
  "cap_inv c \<longleftrightarrow> zc.synced (lc_bonjour c) \<and> (bj_published (lc_bonjour c) \<longrightarrow> lc_server c \<noteq> None)"

lemma cap_reconcile:
  assumes "zc.synced (lc_bonjour c)"
  shows "\<exists>b. LanCap_reconcile v c = Some (c\<lparr>lc_bonjour := b\<rparr>) \<and> zc.synced b \<and> (bj_published b \<longrightarrow> bv_want v) \<and>
    (bj_published b \<longrightarrow> bj_lastModel b = bv_model v \<and> bj_lastDeviceID b = bv_device v) \<and>
    (bv_want v \<longrightarrow> bv_ok v \<or> bj_published (lc_bonjour c) \<longrightarrow> bj_published b)"
proof -
  from zc.reconcile_synced [OF assms, of v] obtain b where b: "reconcileBonjourLocked zeroconf_ops v (lc_bonjour c) = Some b" and
    rest: "zc.synced b" "bj_published b \<longrightarrow> bv_want v" "bj_published b \<longrightarrow> bj_lastModel b = bv_model v \<and> bj_lastDeviceID b = bv_device v"
      "bv_want v \<longrightarrow> bv_ok v \<or> bj_published (lc_bonjour c) \<longrightarrow> bj_published b" by blast
  from b have "LanCap_reconcile v c = Some (c\<lparr>lc_bonjour := b\<rparr>)" by (simp add: LanCap_reconcile_def)
  with rest show ?thesis by blast
qed

lemma cap_reconcile_inv:
  assumes "zc.synced (lc_bonjour c)" "lc_server c \<noteq> None" "LanCap_reconcile v c = Some c'"
  shows "cap_inv c'"
proof -
  from cap_reconcile [OF assms(1), of v] assms(3) obtain b where "c' = c\<lparr>lc_bonjour := b\<rparr>" "zc.synced b"
    by (metis option.inject)
  then show ?thesis using assms(2) by (simp add: cap_inv_def)
qed

lemma cap_start_inv:
  assumes "cap_inv c" "LanCap_Start ok v c = Some (c', r)"
  shows "cap_inv c'"
proof (cases "lc_server c = None \<and> ok")
  case False
  then have "c' = c" using assms(2) by (auto simp: LanCap_Start_def Server_Start_def NewServer_def split: if_splits)
  then show ?thesis using assms(1) by simp
next
  case True
  let ?c = "c\<lparr>lc_server := Some (fst (Server_Start True NewServer))\<rparr>"
  from True assms(2) have "LanCap_reconcile v ?c = Some c'"
    by (simp add: LanCap_Start_def Server_Start_def NewServer_def)
  then show ?thesis using assms(1) by (intro cap_reconcile_inv [of ?c]) (simp_all add: cap_inv_def)
qed

lemma cap_stop_inv: "cap_inv c \<Longrightarrow> cap_inv (fst (LanCap_Stop c))"
  using zc.synced_unpublish [of "lc_bonjour c"] by (simp add: cap_inv_def LanCap_Stop_def)

lemma cap_tick_inv:
  assumes "cap_inv c" "watchBonjour v c = Some c'"
  shows "cap_inv c'"
proof (cases "lc_server c = None")
  case True
  then show ?thesis using assms by (simp add: watchBonjour_def)
next
  case False
  then have "LanCap_reconcile v c = Some c'" using assms(2) by (auto simp: watchBonjour_def split: if_splits)
  then show ?thesis using cap_reconcile_inv [of c] assms(1) False by (simp add: cap_inv_def)
qed

lemma cap_step_inv: "cap_step c c' \<Longrightarrow> cap_inv c \<Longrightarrow> cap_inv c'"
proof (induction rule: cap_step.induct)
  case (stop c c' old)
  then show ?case using cap_stop_inv [of c] by simp
next
  case (serve c s s')
  then show ?case by (simp add: cap_inv_def)
qed (erule (1) cap_start_inv cap_tick_inv)+

lemma cap_reach_inv: "cap_reach c \<Longrightarrow> cap_inv c"
proof (induction rule: cap_reach.induct)
  case init
  have "\<not> bj_published bonjour_init" by (simp add: bonjour_init_def)
  then show ?case by (simp add: cap_inv_def NewLanCapability_def zc.synced_init)
next
  case (step c c')
  then show ?case using cap_step_inv by blast
qed

definition advert :: "lan_cap \<Rightarrow> (string \<times> int \<times> string list) option" where
  "advert c = Option.bind (bj_announcer (lc_bonjour c)) zc_on_air"

lemma synced_advert: "zc.synced b \<Longrightarrow> bj_published b \<longleftrightarrow>
  (\<exists>i p. Option.bind (bj_announcer b) zc_on_air = Some (i, p, BonjourTXT (bj_lastModel b) (bj_lastDeviceID b)))"
  by (auto simp: zc.synced_def split: option.splits)

text \<open>
  C32. In every reachable state of the LAN capability, a pass of watchBonjour over the running
  server neither fails nor leaves the advert stale: with lan.enabled off nothing is on the air;
  with it on, and the registration accepted or already made, the advert carries exactly the
  current model and device id. Nothing the capability let go of stays on the air, and a stopped
  capability advertises nothing.
\<close>

theorem bonjour_follows_config:
  assumes "cap_reach c"
  shows "(lc_server c = None \<longrightarrow> advert c = None) \<and> (\<forall>a \<in> set (bj_dropped (lc_bonjour c)). zc_on_air a = None) \<and>
    (lc_server c \<noteq> None \<longrightarrow> (\<exists>c'. watchBonjour v c = Some c' \<and>
       (\<not> bv_want v \<longrightarrow> advert c' = None) \<and>
       (bv_want v \<and> (bv_ok v \<or> bj_published (lc_bonjour c)) \<longrightarrow>
          (\<exists>i p. advert c' = Some (i, p, BonjourTXT (bv_model v) (bv_device v))))))"
proof -
  have inv: "cap_inv c" using assms by (rule cap_reach_inv)
  then have sync: "zc.synced (lc_bonjour c)" by (simp add: cap_inv_def)
  have silent: "Option.bind (bj_announcer b) zc_on_air = None" if "zc.synced b" "\<not> bj_published b" for b
    using that by (auto simp: zc.synced_def split: option.splits)
  from cap_reconcile [OF sync, of v] obtain b where b: "LanCap_reconcile v c = Some (c\<lparr>lc_bonjour := b\<rparr>)" "zc.synced b"
    "bj_published b \<longrightarrow> bv_want v" "bj_published b \<longrightarrow> bj_lastModel b = bv_model v \<and> bj_lastDeviceID b = bv_device v"
    "bv_want v \<longrightarrow> bv_ok v \<or> bj_published (lc_bonjour c) \<longrightarrow> bj_published b" by blast
  have stopped: "lc_server c = None \<longrightarrow> advert c = None" using inv silent by (auto simp: cap_inv_def advert_def)
  have dropped: "\<forall>a \<in> set (bj_dropped (lc_bonjour c)). zc_on_air a = None" using sync by (simp add: zc.synced_def)
  have pass: "watchBonjour v c = Some (c\<lparr>lc_bonjour := b\<rparr>)" if "lc_server c \<noteq> None"
    unfolding watchBonjour_def using that b(1) by (simp only: if_False)
  have ad: "advert (c\<lparr>lc_bonjour := b\<rparr>) = Option.bind (bj_announcer b) zc_on_air" by (simp add: advert_def)
  have off: "\<not> bv_want v \<longrightarrow> advert (c\<lparr>lc_bonjour := b\<rparr>) = None" unfolding ad using silent b(2,3) by blast
  have on: "bv_want v \<and> (bv_ok v \<or> bj_published (lc_bonjour c)) \<longrightarrow>
      (\<exists>i p. advert (c\<lparr>lc_bonjour := b\<rparr>) = Some (i, p, BonjourTXT (bv_model v) (bv_device v)))"
    unfolding ad using b(4,5) synced_advert [OF b(2)] by metis
  show ?thesis using stopped dropped pass off on by blast
qed

definition demo_view :: bonjour_view where
  "demo_view = \<lparr>bv_want = True, bv_port = 8765, bv_model = ''m1'', bv_device = [], bv_host = Some ''mac.local'', bv_ok = True\<rparr>"

theorem bonjour_follows_config_witness:
  "\<exists>c. cap_reach c \<and> advert c = Some (''mac Silo LLM'', 8765, BonjourTXT ''m1'' []) \<and>
     (\<exists>c' i p. watchBonjour (demo_view\<lparr>bv_device := ''d''\<rparr>) c = Some c' \<and> advert c' = Some (i, p, BonjourTXT ''m1'' ''d''))"
proof -
  have inst: "BonjourInstanceName (Some ''mac.local'') = ''mac Silo LLM''" by (simp add: BonjourInstanceName_def)
  let ?b = "bonjour_init\<lparr>bj_announcer := Some (Some \<lparr>rg_instance = ''mac Silo LLM'', rg_service = bonjourServiceType,
      rg_domain = bonjourDomain, rg_port = 8765, rg_txt = BonjourTXT ''m1'' []\<rparr>), bj_published := True, bj_lastModel := ''m1'', bj_lastDeviceID := []\<rparr>"
  let ?c = "\<lparr>lc_server = Some (fst (Server_Start True NewServer)), lc_bonjour = ?b\<rparr>"
  have "reconcileBonjourLocked zeroconf_ops demo_view bonjour_init = Some ?b"
    by (simp add: reconcileBonjourLocked_def Let_def bonjour_init_def zeroconf_ops_def zc_Announce_def NewZeroconfAnnouncer_def
        demo_view_def inst)
  then have start: "LanCap_Start True demo_view NewLanCapability = Some (?c, True)"
    by (simp add: LanCap_Start_def Server_Start_def NewServer_def LanCap_reconcile_def NewLanCapability_def)
  from cap_reach.step [OF cap_reach.init cap_step.start [OF start]] have reach: "cap_reach ?c" .
  have ad: "advert ?c = Some (''mac Silo LLM'', 8765, BonjourTXT ''m1'' [])"
    by (simp add: advert_def zc_on_air_def)
  from bonjour_follows_config [OF reach, of "demo_view\<lparr>bv_device := ''d''\<rparr>"]
  obtain c' i p where "watchBonjour (demo_view\<lparr>bv_device := ''d''\<rparr>) ?c = Some c'" "advert c' = Some (i, p, BonjourTXT ''m1'' ''d'')"
    by (auto simp: demo_view_def)
  with reach ad show ?thesis by (intro exI [of _ ?c]) blast
qed

end
