(* ===== verification/Install.thy ===== *)
theory Install
  imports Fs "HOL-Library.Char_ord" "HOL-Library.List_Lexorder"
begin

text \<open>
  The installer of `onesilo-node setup` (cmd/onesilo-node/install.go): the release assets, the
  extraction of a tar archive under a directory, the download of a bare executable and the search
  for a binary. Files are a tree with symbolic links, given by the canonical location (the list of
  names from the root) of every entry; a path is resolved name by name, following links, as the
  kernel does. path/filepath is modelled for Unix. The gzip and tar readers are the entries they
  deliver, and an HTTP transfer is its outcome.
\<close>

section \<open>path/filepath\<close>

text \<open>Clean's passes over the names of a path, the names kept so far in reverse.\<close>

fun clean_names :: "bool \<Rightarrow> string list \<Rightarrow> string list \<Rightarrow> string list" where
  "clean_names rooted st [] = rev st"
| "clean_names rooted st (c # cs) =
     (if c = [] \<or> c = ''.'' then clean_names rooted st cs
      else if c = ''..'' then
        (case st of [] \<Rightarrow> clean_names rooted (if rooted then [] else [''..'']) cs
         | s # r \<Rightarrow> if s = ''..'' then clean_names rooted (''..'' # st) cs else clean_names rooted r cs)
      else clean_names rooted (c # st) cs)"

definition IsAbs :: "string \<Rightarrow> bool" where "IsAbs p \<longleftrightarrow> HasPrefix p ''/''"

definition Clean :: "string \<Rightarrow> string" where
  "Clean p = (let cs = clean_names (IsAbs p) [] (Split (CHR ''/'') p) in
     if IsAbs p then CHR ''/'' # Join cs ''/'' else if cs = [] then ''.'' else Join cs ''/'')"

definition path_Join :: "string \<Rightarrow> string \<Rightarrow> string" where
  "path_Join a b = (if a \<noteq> [] then Clean (a @ CHR ''/'' # b) else if b \<noteq> [] then Clean b else [])"

definition path_Dir :: "string \<Rightarrow> string" where
  "path_Dir p = Clean (rev (dropWhile (\<lambda>c. c \<noteq> CHR ''/'') (rev p)))"

text \<open>The names of a path, as the kernel reads it.\<close>

definition names :: "string \<Rightarrow> string list" where
  "names p = filter (\<lambda>c. c \<noteq> []) (Split (CHR ''/'') p)"

section \<open>Files and symbolic links\<close>

datatype fnode = FDir | FFile nat bytes | FLink string

type_synonym loc = "string list"
type_synonym tree = "(loc \<times> fnode) list"

definition tree_get :: "tree \<Rightarrow> loc \<Rightarrow> fnode option" where
  "tree_get t l = (if l = [] then Some FDir else map_get t l)"

text \<open>
  Path resolution from a directory: the number of links that may still be followed, whether a link
  in last position is followed, the location reached, the names left. The result is a location in
  an existing directory; the entry itself may not exist. Nothing for ENOENT, ENOTDIR and ELOOP.
\<close>

function resolve :: "nat \<Rightarrow> bool \<Rightarrow> tree \<Rightarrow> loc \<Rightarrow> string list \<Rightarrow> loc option" where
  "resolve n follow t cur [] = Some cur"
| "resolve n follow t cur (c # cs) =
     (if c = [] \<or> c = ''.'' then resolve n follow t cur cs
      else if c = ''..'' then resolve n follow t (butlast cur) cs
      else case tree_get t (cur @ [c]) of
        None \<Rightarrow> if cs = [] then Some (cur @ [c]) else None
      | Some FDir \<Rightarrow> resolve n follow t (cur @ [c]) cs
      | Some (FFile m d) \<Rightarrow> if cs = [] then Some (cur @ [c]) else None
      | Some (FLink l) \<Rightarrow>
          if cs = [] \<and> \<not> follow then Some (cur @ [c])
          else (case n of 0 \<Rightarrow> None
            | Suc m \<Rightarrow> resolve m follow t (if IsAbs l then [] else cur) (names l @ cs)))"
  by pat_completeness auto
termination
  by (relation "measures [\<lambda>(n, f, t, cur, cs). n, \<lambda>(n, f, t, cur, cs). length cs]") auto

text \<open>The kernel follows at most forty links. Paths here are absolute.\<close>

definition max_links :: nat where "max_links = 40"

definition locate :: "bool \<Rightarrow> tree \<Rightarrow> string \<Rightarrow> loc option" where
  "locate follow t p = resolve max_links follow t [] (names p)"

definition Stat :: "tree \<Rightarrow> string \<Rightarrow> fnode option" where
  "Stat t p = Option.bind (locate True t p) (tree_get t)"

definition Lstat :: "tree \<Rightarrow> string \<Rightarrow> fnode option" where
  "Lstat t p = Option.bind (locate False t p) (tree_get t)"

datatype os_err = ErrNoEnt | ErrExist | ErrNotDir | ErrIsDir

definition Mkdir :: "string \<Rightarrow> tree \<Rightarrow> os_err option \<times> tree" where
  "Mkdir p t = (case locate False t p of
     None \<Rightarrow> (Some ErrNoEnt, t)
   | Some l \<Rightarrow> if tree_get t l \<noteq> None then (Some ErrExist, t) else (None, map_put l FDir t))"

text \<open>os.MkdirAll on a clean absolute path, given by its names: what exists is accepted if it is a directory.\<close>

definition path_of :: "string list \<Rightarrow> string" where
  "path_of cs = CHR ''/'' # Join cs ''/''"

function MkdirAll :: "string list \<Rightarrow> tree \<Rightarrow> os_err option \<times> tree" where
  "MkdirAll cs t =
     (case Stat t (path_of cs) of
        Some FDir \<Rightarrow> (None, t)
      | Some _ \<Rightarrow> (Some ErrNotDir, t)
      | None \<Rightarrow>
         if cs = [] then (None, t)
         else (case MkdirAll (butlast cs) t of
            (Some e, t') \<Rightarrow> (Some e, t')
          | (None, t') \<Rightarrow> (case Mkdir (path_of cs) t' of
               (None, t'') \<Rightarrow> (None, t'')
             | (Some e, t'') \<Rightarrow> if Lstat t'' (path_of cs) = Some FDir then (None, t'') else (Some e, t''))))"
  by pat_completeness auto
termination
  by (relation "measure (\<lambda>(cs, t). length cs)") auto

declare MkdirAll.simps [simp del]

text \<open>os.OpenFile with O_WRONLY, O_CREATE and O_TRUNC: links are followed, an existing file keeps its mode.\<close>

definition open_trunc :: "string \<Rightarrow> nat \<Rightarrow> tree \<Rightarrow> (os_err + loc) \<times> tree" where
  "open_trunc p mode t = (case locate True t p of
     None \<Rightarrow> (Inl ErrNoEnt, t)
   | Some l \<Rightarrow> (case tree_get t l of
       Some FDir \<Rightarrow> (Inl ErrIsDir, t)
     | Some (FFile m d) \<Rightarrow> (Inr l, map_put l (FFile m []) t)
     | _ \<Rightarrow> (Inr l, map_put l (FFile mode []) t)))"

definition write_at :: "loc \<Rightarrow> bytes \<Rightarrow> tree \<Rightarrow> tree" where
  "write_at l data t = (case tree_get t l of Some (FFile m d) \<Rightarrow> map_put l (FFile m (d @ data)) t | _ \<Rightarrow> t)"

definition is_empty_dir :: "tree \<Rightarrow> loc \<Rightarrow> bool" where
  "is_empty_dir t l \<longleftrightarrow> \<not> list_ex (\<lambda>(k, v). k \<noteq> [] \<and> butlast k = l \<and> map_get t k \<noteq> None) t"

text \<open>os.Remove, whose error the caller ignores: a file or a link, or an empty directory.\<close>

definition Remove :: "string \<Rightarrow> tree \<Rightarrow> tree" where
  "Remove p t = (case locate False t p of
     None \<Rightarrow> t
   | Some l \<Rightarrow> (case tree_get t l of
       None \<Rightarrow> t
     | Some FDir \<Rightarrow> if l \<noteq> [] \<and> is_empty_dir t l then map_del l t else t
     | Some _ \<Rightarrow> map_del l t))"

definition Symlink :: "string \<Rightarrow> string \<Rightarrow> tree \<Rightarrow> os_err option \<times> tree" where
  "Symlink old p t = (case locate False t p of
     None \<Rightarrow> (Some ErrNoEnt, t)
   | Some l \<Rightarrow> if tree_get t l \<noteq> None then (Some ErrExist, t) else (None, map_put l (FLink old) t))"

section \<open>Extraction\<close>

datatype typeflag = TypeDir | TypeReg | TypeSymlink | TypeOther

text \<open>An entry of the archive: its header, its contents, and whether they could be read to the end.\<close>

record tar_entry =
  te_Name :: string
  te_Type :: typeflag
  te_Linkname :: string
  te_Perm :: nat
  te_Data :: bytes
  te_Complete :: bool

datatype install_err = ErrEscapes string | ErrAbsLink string string | ErrLinkEscapes string | ErrOs os_err
  | ErrArchive | ErrTransfer string | ErrHttpStatus nat | ErrNoAsset string string | ErrNoBinary string

definition securePath :: "string \<Rightarrow> string \<Rightarrow> install_err + string" where
  "securePath root nm = (let cleaned = Clean nm in
     if IsAbs cleaned \<or> cleaned = ''..'' \<or> HasPrefix cleaned ''../'' then Inl (ErrEscapes nm)
     else Inr (path_Join root cleaned))"

definition mkdir_for :: "string \<Rightarrow> tree \<Rightarrow> install_err option \<times> tree" where
  "mkdir_for p t = (case MkdirAll (names p) t of (e, t') \<Rightarrow> (map_option ErrOs e, t'))"

definition extract_reg :: "string \<Rightarrow> tar_entry \<Rightarrow> tree \<Rightarrow> install_err option \<times> tree" where
  "extract_reg target h t =
    (case mkdir_for (path_Dir target) t of
       (Some e, t') \<Rightarrow> (Some e, t')
     | (None, t') \<Rightarrow>
        (case open_trunc target (if te_Perm h = 0 then mode_0644 else te_Perm h) t' of
           (Inl e, t'') \<Rightarrow> (Some (ErrOs e), t'')
         | (Inr l, t'') \<Rightarrow> (if te_Complete h then None else Some ErrArchive, write_at l (te_Data h) t'')))"

definition extract_link :: "string \<Rightarrow> string \<Rightarrow> tar_entry \<Rightarrow> tree \<Rightarrow> install_err option \<times> tree" where
  "extract_link destDir target h t =
    (if IsAbs (te_Linkname h) then (Some (ErrAbsLink (te_Name h) (te_Linkname h)), t)
     else if \<not> HasPrefix (path_Join (path_Dir target) (te_Linkname h)) (Clean destDir @ ''/'') then
       (Some (ErrLinkEscapes (te_Name h)), t)
     else (case mkdir_for (path_Dir target) t of
         (Some e, t') \<Rightarrow> (Some e, t')
       | (None, t') \<Rightarrow> (case Symlink (te_Linkname h) target (Remove target t') of
            (e, t'') \<Rightarrow> (map_option ErrOs e, t''))))"

definition extract_entry :: "string \<Rightarrow> tar_entry \<Rightarrow> tree \<Rightarrow> install_err option \<times> tree" where
  "extract_entry destDir h t =
    (case securePath destDir (te_Name h) of
       Inl e \<Rightarrow> (Some e, t)
     | Inr target \<Rightarrow> (case te_Type h of
          TypeDir \<Rightarrow> mkdir_for target t
        | TypeReg \<Rightarrow> extract_reg target h t
        | TypeSymlink \<Rightarrow> extract_link destDir target h t
        | TypeOther \<Rightarrow> (None, t)))"

text \<open>The loop over the entries: at the end of the archive, or where reading it fails.\<close>

fun extract_loop :: "string \<Rightarrow> tar_entry list \<Rightarrow> bool \<Rightarrow> tree \<Rightarrow> install_err option \<times> tree" where
  "extract_loop destDir [] eof t = (if eof then None else Some ErrArchive, t)"
| "extract_loop destDir (h # hs) eof t =
     (case extract_entry destDir h t of
        (Some e, t') \<Rightarrow> (Some e, t')
      | (None, t') \<Rightarrow> extract_loop destDir hs eof t')"

text \<open>A stream that is not gzip delivers nothing; otherwise its entries and whether they end in EOF.\<close>

type_synonym archive = "(tar_entry list \<times> bool) option"

definition extractTarGz :: "archive \<Rightarrow> string \<Rightarrow> tree \<Rightarrow> install_err option \<times> tree" where
  "extractTarGz a destDir t = (case a of None \<Rightarrow> (Some ErrArchive, t) | Some (hs, eof) \<Rightarrow> extract_loop destDir hs eof t)"

section \<open>Assets and downloads\<close>

definition ollamaAssetURL :: "string \<Rightarrow> string \<Rightarrow> install_err + string" where
  "ollamaAssetURL goos goarch =
    (if goos = ''darwin'' then Inr ''https://ollama.com/download/ollama-darwin.tgz''
     else if goos = ''linux'' \<and> (goarch = ''amd64'' \<or> goarch = ''arm64'') then
       Inr (''https://ollama.com/download/ollama-linux-'' @ goarch @ ''.tgz'')
     else Inl (ErrNoAsset goos goarch))"

definition cloudflaredAssetURL :: "string \<Rightarrow> string \<Rightarrow> install_err + (string \<times> bool)" where
  "cloudflaredAssetURL goos goarch =
    (let base = ''https://github.com/cloudflare/cloudflared/releases/latest/download/'' in
     if goos = ''darwin'' \<and> (goarch = ''amd64'' \<or> goarch = ''arm64'') then
       Inr (base @ ''cloudflared-darwin-'' @ goarch @ ''.tgz'', True)
     else if goos = ''linux'' \<and> (goarch = ''amd64'' \<or> goarch = ''arm64'' \<or> goarch = ''386'' \<or> goarch = ''arm'') then
       Inr (base @ ''cloudflared-linux-'' @ goarch, False)
     else Inl (ErrNoAsset goos goarch))"

text \<open>A GET: no response, a response with its status and what its body yields.\<close>

datatype 'b transfer = NoResponse | Response nat 'b

definition httpGet :: "'b transfer \<Rightarrow> install_err + 'b" where
  "httpGet r = (case r of NoResponse \<Rightarrow> Inl (ErrTransfer ''no response'')
     | Response status body \<Rightarrow> if status \<noteq> 200 then Inl (ErrHttpStatus status) else Inr body)"

text \<open>
  The first binary of that name: in the directory itself, in its bin, then in a walk that visits the
  names of each directory in order and does not follow links.
\<close>

definition under :: "loc \<Rightarrow> loc \<Rightarrow> bool" where
  "under d l \<longleftrightarrow> take (length d) l = d"

definition walk_find :: "string \<Rightarrow> tree \<Rightarrow> string \<Rightarrow> string option" where
  "walk_find root t binName =
    (case Lstat t root of
       Some FDir \<Rightarrow> (case locate False t root of None \<Rightarrow> None
         | Some d \<Rightarrow>
            (case sort (filter (\<lambda>l. under d l \<and> length d < length l \<and> last l = binName \<and> tree_get t l \<notin> {None, Some FDir}) (map fst t)) of
               [] \<Rightarrow> None | l # ls \<Rightarrow> Some (path_Join root (Join (drop (length d) l) ''/''))))
     | Some _ \<Rightarrow> if names root \<noteq> [] \<and> last (names root) = binName then Some root else None
     | None \<Rightarrow> None)"

definition executable_bit :: "nat \<Rightarrow> bool" where
  "executable_bit m \<longleftrightarrow> odd m \<or> odd (m div 8) \<or> odd (m div 64)"

definition mode_0755 :: nat where "mode_0755 = 493"

text \<open>Chmod follows links; the model's modes are the nine permission bits.\<close>

definition Chmod :: "string \<Rightarrow> nat \<Rightarrow> tree \<Rightarrow> os_err option \<times> tree" where
  "Chmod p mode t = (case locate True t p of None \<Rightarrow> (Some ErrNoEnt, t)
     | Some l \<Rightarrow> (case tree_get t l of Some (FFile m d) \<Rightarrow> (None, map_put l (FFile mode d) t)
         | Some _ \<Rightarrow> (None, t) | None \<Rightarrow> (Some ErrNoEnt, t)))"

definition or_mode :: "nat \<Rightarrow> nat \<Rightarrow> nat" where
  "or_mode a b = unat (or (of_nat a :: 16 word) (of_nat b))"

definition findExecutableIn :: "string \<Rightarrow> string \<Rightarrow> tree \<Rightarrow> (install_err + string) \<times> tree" where
  "findExecutableIn root binName t =
    (let spots = [path_Join root binName, path_Join root (path_Join ''bin'' binName)];
         found = (case filter (\<lambda>c. Stat t c \<notin> {None, Some FDir}) spots of
            c # cs \<Rightarrow> Some c | [] \<Rightarrow> walk_find root t binName)
     in case found of
          None \<Rightarrow> (Inl (ErrNoBinary binName), t)
        | Some p \<Rightarrow> (case Stat t p of
             None \<Rightarrow> (Inl (ErrOs ErrNoEnt), t)
           | Some (FFile m d) \<Rightarrow>
              if executable_bit m then (Inr p, t)
              else (case Chmod p (or_mode m mode_0755) t of
                 (Some e, t') \<Rightarrow> (Inl (ErrOs e), t') | (None, t') \<Rightarrow> (Inr p, t'))
           | Some _ \<Rightarrow> (Inr p, t)))"

definition installFromArchive :: "archive transfer \<Rightarrow> string \<Rightarrow> string \<Rightarrow> tree \<Rightarrow> (install_err + string) \<times> tree" where
  "installFromArchive r destDir binName t =
    (case mkdir_for destDir t of
       (Some e, t1) \<Rightarrow> (Inl e, t1)
     | (None, t1) \<Rightarrow> (case httpGet r of
          Inl e \<Rightarrow> (Inl e, t1)
        | Inr body \<Rightarrow> (case extractTarGz body destDir t1 of
             (Some e, t2) \<Rightarrow> (Inl e, t2)
           | (None, t2) \<Rightarrow> findExecutableIn destDir binName t2)))"

text \<open>
  installBinary: the body goes to a temporary name and is renamed when complete. A body is its bytes
  and whether the transfer ended well; close and rename may fail.
\<close>

definition rename_file :: "string \<Rightarrow> string \<Rightarrow> tree \<Rightarrow> os_err option \<times> tree" where
  "rename_file a b t = (case (locate False t a, locate False t b) of
     (Some la, Some lb) \<Rightarrow>
       (case (tree_get t la, tree_get t lb) of
          (None, _) \<Rightarrow> (Some ErrNoEnt, t)
        | (_, Some FDir) \<Rightarrow> (Some ErrIsDir, t)
        | (Some n, _) \<Rightarrow> (None, if la = lb then t else map_put lb n (map_del la t)))
   | _ \<Rightarrow> (Some ErrNoEnt, t))"

definition installBinary :: "(bytes \<times> bool) transfer \<Rightarrow> bool \<Rightarrow> string \<Rightarrow> string \<Rightarrow> tree \<Rightarrow> (install_err + string) \<times> tree" where
  "installBinary r closes destDir binName t =
    (case mkdir_for destDir t of
       (Some e, t1) \<Rightarrow> (Inl e, t1)
     | (None, t1) \<Rightarrow> (case httpGet r of
          Inl e \<Rightarrow> (Inl e, t1)
        | Inr (data, ok) \<Rightarrow>
           (let dest = path_Join destDir binName; tmp = dest @ ''.tmp'' in
            case open_trunc tmp mode_0755 t1 of
              (Inl e, t2) \<Rightarrow> (Inl (ErrOs e), t2)
            | (Inr l, t2) \<Rightarrow>
               let t3 = write_at l data t2 in
               if \<not> ok then (Inl (ErrTransfer ''body''), Remove tmp t3)
               else if \<not> closes then (Inl (ErrTransfer ''close''), Remove tmp t3)
               else (case rename_file tmp dest t3 of
                  (Some e, t4) \<Rightarrow> (Inl (ErrOs e), Remove tmp t4)
                | (None, t4) \<Rightarrow> (Inr dest, t4)))))"

section \<open>Clean paths\<close>

definition plain :: "string \<Rightarrow> bool" where
  "plain c \<longleftrightarrow> c \<noteq> [] \<and> c \<noteq> ''.'' \<and> c \<noteq> ''..'' \<and> CHR ''/'' \<notin> set c"

text \<open>A canonical absolute path: the slash and plain names.\<close>

lemma clean_names_append: "clean_names r st (xs @ ys) = clean_names r (rev (clean_names r st xs)) ys"
  by (induction r st xs rule: clean_names.induct) (auto split: list.splits)

lemma clean_names_plain: "list_all (\<lambda>c. c = [] \<or> c = ''.'' \<or> plain c) xs \<Longrightarrow> clean_names r st xs = rev st @ filter plain xs"
  by (induction r st xs rule: clean_names.induct) (auto simp: plain_def)

text \<open>Relative names keep their leading dot-dots, absolute ones have none.\<close>

lemma clean_names_shape:
  assumes "\<exists>k q. rev st = replicate k ''..'' @ q \<and> list_all plain q \<and> (r \<longrightarrow> k = 0)" "\<forall>c \<in> set cs. CHR ''/'' \<notin> set c"
  shows "\<exists>k q. clean_names r st cs = replicate k ''..'' @ q \<and> list_all plain q \<and> (r \<longrightarrow> k = 0)"
  using assms
proof (induction r st cs rule: clean_names.induct)
  case (2 r st c cs)
  obtain k q where st: "rev st = replicate k ''..'' @ q" "list_all plain q" "r \<longrightarrow> k = 0" using 2(6) by blast
  have rest: "\<forall>c \<in> set cs. CHR ''/'' \<notin> set c" using 2(7) by simp
  consider "c = [] \<or> c = ''.''" | "c = ''..''" | "plain c" using 2(7) by (auto simp: plain_def)
  then show ?case
  proof cases
    case 1
    then show ?thesis using 2(1) [OF 1 2(6) rest] by auto
  next
    case 3
    then have "\<exists>k q. rev (c # st) = replicate k ''..'' @ q \<and> list_all plain q \<and> (r \<longrightarrow> k = 0)"
      using st by (intro exI [of _ k] exI [of _ "q @ [c]"]) simp
    from "2.IH"(5) [OF _ _ this rest] 3 show ?thesis by (simp add: plain_def)
  next
    case 2
    note dd = this
    show ?thesis
    proof (cases "q = []")
      case True
      then have s: "st = replicate k ''..''" using st(1) by (metis append_Nil2 rev_replicate rev_swap)
      show ?thesis
      proof (cases k)
        case 0
        have "\<exists>k q. rev (if r then [] else [''..'']) = replicate k ''..'' @ q \<and> list_all plain q \<and> (r \<longrightarrow> k = 0)"
          by (cases r) (auto intro: exI [of _ 1] exI [of _ 0])
        then show ?thesis using 2 "2.IH"(2) rest s 0 by (auto simp: dd)
      next
        case (Suc n)
        have nr: "\<not> r" using Suc st(3) by auto
        have h: "\<exists>k q. rev (''..'' # st) = replicate k ''..'' @ q \<and> list_all plain q \<and> (r \<longrightarrow> k = 0)"
          using s nr by (intro exI [of _ "Suc k"] exI [of _ "[]"]) (simp add: replicate_append_same)
        have "st = ''..'' # replicate n ''..''" using s Suc by simp
        with "2.IH"(3) [OF _ _ _ _ h rest] dd show ?thesis by simp
      qed
    next
      case False
      then obtain q' x where q: "q = q' @ [x]" by (metis rev_exhaust)
      then have s: "st = x # rev (replicate k ''..'' @ q')" using st(1) by (metis append_assoc rev_eq_Cons_iff rev_rev_ident rev_append rev.simps append_Cons append_Nil)
      moreover have "x \<noteq> ''..''" "list_all plain q'" using q st(2) by (auto simp: plain_def)
      ultimately show ?thesis using "2.IH"(4) rest st(3) dd by (fastforce simp del: rev_append)
    qed
  qed
qed simp

lemma Join_append: "xs \<noteq> [] \<Longrightarrow> Join (xs @ [y]) s = Join xs s @ s @ y"
  by (induction xs s rule: Join.induct) auto

lemma Split_Join: "xs \<noteq> [] \<Longrightarrow> \<forall>x \<in> set xs. c \<notin> set x \<Longrightarrow> Split c (Join xs [c]) = xs"
proof (induction xs "[c]" rule: Join.induct)
  case (3 x y xs)
  then show ?case using Split_plain(2) [of c x "Join (y # xs) [c]"] by simp
qed (auto simp: Split_plain)

lemma Split_append_seg: "Split c (a @ c # b) = Split c a @ Split c b"
  by (induction a) (auto split: list.splits)

lemma plain_names: "list_all plain cs \<Longrightarrow> names (path_of cs) = cs"
proof (cases "cs = []")
  case False
  assume p: "list_all plain cs"
  then have "Split (CHR ''/'') (path_of cs) = [] # cs"
    using Split_Join [OF False, of "CHR ''/''"] by (simp add: path_of_def plain_def list_all_iff)
  then show ?thesis using p by (auto simp: names_def plain_def list_all_iff)
qed (simp add: names_def path_of_def)

lemma Split_path_of: "list_all plain cs \<Longrightarrow> Split (CHR ''/'') (path_of cs) = (if cs = [] then [[], []] else [] # cs)"
  using Split_Join [of cs "CHR ''/''"] by (simp add: path_of_def plain_def list_all_iff)

lemma IsAbs_path_of [simp]: "IsAbs (path_of cs)" "IsAbs (path_of cs @ s)"
  by (simp_all add: IsAbs_def HasPrefix_def path_of_def)

lemma Clean_abs:
  "IsAbs p \<Longrightarrow> list_all (\<lambda>c. c = [] \<or> c = ''.'' \<or> plain c) (Split (CHR ''/'') p) \<Longrightarrow> Clean p = path_of (filter plain (Split (CHR ''/'') p))"
  by (simp add: Clean_def path_of_def clean_names_plain)

lemma filter_plain: "list_all plain cs \<Longrightarrow> filter plain cs = cs"
  by (simp add: list_all_iff)

lemma plain_empty [simp]: "\<not> plain []" "\<not> plain ''.''"
  by (simp_all add: plain_def)

lemma path_Join_plain:
  assumes "list_all plain D" "list_all plain cs"
  shows "path_Join (path_of D) (if cs = [] then ''.'' else Join cs ''/'') = path_of (D @ cs)"
proof -
  let ?s = "if cs = [] then ''.'' else Join cs ''/''"
  have s: "Split (CHR ''/'') ?s = (if cs = [] then [''.''] else cs)"
    using Split_Join [of cs "CHR ''/''"] assms(2) by (simp add: plain_def list_all_iff)
  have sp: "Split (CHR ''/'') (path_of D @ CHR ''/'' # ?s) = (if D = [] then [[], []] else [] # D) @ (if cs = [] then [''.''] else cs)"
    by (simp only: Split_append_seg Split_path_of [OF assms(1)] s)
  have "list_all (\<lambda>c. c = [] \<or> c = ''.'' \<or> plain c) (Split (CHR ''/'') (path_of D @ CHR ''/'' # ?s))"
    unfolding sp using assms by (auto simp: list_all_iff)
  from Clean_abs [OF _ this] have "Clean (path_of D @ CHR ''/'' # ?s) = path_of (filter plain (Split (CHR ''/'') (path_of D @ CHR ''/'' # ?s)))" by simp
  also have "\<dots> = path_of (D @ cs)" unfolding sp using assms by (simp add: filter_plain)
  finally show ?thesis by (simp add: path_Join_def) (simp add: path_of_def)
qed

lemma securePath_plain:
  assumes "list_all plain D" "securePath (path_of D) nm = Inr target"
  obtains cs where "list_all plain cs" "target = path_of (D @ cs)"
proof -
  let ?c = "Clean nm" and ?ns = "clean_names False [] (Split (CHR ''/'') nm)"
  have c: "\<not> IsAbs ?c" "?c \<noteq> ''..''" "\<not> HasPrefix ?c ''../''" "target = path_Join (path_of D) ?c"
    using assms(2) by (auto simp: securePath_def Let_def split: if_splits)
  then have rel: "\<not> IsAbs nm" by (auto simp: Clean_def IsAbs_def HasPrefix_def Let_def)
  then have ce: "?c = (if ?ns = [] then ''.'' else Join ?ns ''/'')" by (simp add: Clean_def Let_def)
  obtain k q where ns: "?ns = replicate k ''..'' @ q" "list_all plain q"
    using clean_names_shape [of "[]" False "Split (CHR ''/'') nm"] Split_no_sep by fastforce
  have "k = 0"
  proof (rule ccontr)
    assume "k \<noteq> 0"
    then obtain r where r: "?ns = ''..'' # r" using ns(1) by (cases k) auto
    show False using c(2,3) ce unfolding r by (cases r) (auto simp: HasPrefix_def)
  qed
  then have "?ns = q" using ns(1) by simp
  then have "target = path_of (D @ q)" using path_Join_plain [OF assms(1) ns(2)] c(4) ce by (simp only:)
  then show thesis using that ns(2) by blast
qed

lemma path_Dir_plain: "list_all plain cs \<Longrightarrow> path_Dir (path_of cs) = path_of (butlast cs)"
proof (cases cs rule: rev_exhaust)
  case Nil
  then show ?thesis by (simp add: path_Dir_def path_of_def) code_simp
next
  case (snoc ds c)
  assume p: "list_all plain cs"
  let ?pre = "if ds = [] then ''/'' else path_of ds @ ''/''"
  have "path_of cs = ?pre @ c" using snoc by (simp add: path_of_def Join_append)
  moreover have "CHR ''/'' \<notin> set c" using p snoc by (simp add: plain_def)
  then have "dropWhile (\<lambda>x. x \<noteq> CHR ''/'') (rev c @ r) = dropWhile (\<lambda>x. x \<noteq> CHR ''/'') r" for r
    by (subst dropWhile_append2) auto
  moreover have "dropWhile (\<lambda>x. x \<noteq> CHR ''/'') (rev ?pre) = rev ?pre" by simp
  ultimately have "path_Dir (path_of cs) = Clean ?pre" by (simp add: path_Dir_def)
  moreover have "Clean ?pre = path_of ds"
  proof -
    have sp: "Split (CHR ''/'') ?pre = (if ds = [] then [[], []] else [] # ds @ [[]])"
      using Split_append_seg [of "CHR ''/''" "path_of ds" "[]"] Split_path_of [of ds] p snoc by simp
    have "list_all (\<lambda>c. c = [] \<or> c = ''.'' \<or> plain c) (Split (CHR ''/'') ?pre)" unfolding sp using p snoc by (auto simp: list_all_iff)
    moreover have "IsAbs ?pre" by (auto simp: IsAbs_def HasPrefix_def path_of_def)
    ultimately have "Clean ?pre = path_of (filter plain (Split (CHR ''/'') ?pre))" by (intro Clean_abs)
    also have "\<dots> = path_of ds" unfolding sp using p snoc by (simp add: filter_plain)
    finally show ?thesis .
  qed
  ultimately show ?thesis using snoc by simp
qed

section \<open>An archive without links stays in its directory\<close>

text \<open>The destination exists, is reached through real directories only, and has no link below it.\<close>

definition safe_dest :: "loc \<Rightarrow> tree \<Rightarrow> bool" where
  "safe_dest D t \<longleftrightarrow> (\<forall>k \<le> length D. tree_get t (take k D) = Some FDir) \<and> (\<forall>l v. under D l \<longrightarrow> map_get t l \<noteq> Some (FLink v))"

definition confined :: "loc \<Rightarrow> tree \<Rightarrow> tree \<Rightarrow> bool" where
  "confined D t t' \<longleftrightarrow> safe_dest D t' \<and> (\<forall>l. \<not> under D l \<longrightarrow> map_get t' l = map_get t l)"

lemma confined_refl: "safe_dest D t \<Longrightarrow> confined D t t"
  by (simp add: confined_def)

lemma confined_trans: "confined D t t1 \<Longrightarrow> confined D t1 t2 \<Longrightarrow> confined D t t2"
  by (simp add: confined_def)

lemma confined_safe: "confined D t t' \<Longrightarrow> safe_dest D t'"
  by (simp add: confined_def)

lemma put_confined:
  assumes "safe_dest D t" "under D l" "tree_get t l \<noteq> Some FDir" "\<forall>s. v \<noteq> FLink s"
  shows "confined D t (map_put l v t)"
  using assms by (auto simp: confined_def safe_dest_def tree_get_def map_get_put)

lemma resolve_plain:
  "list_all plain cs \<Longrightarrow> \<forall>k \<le> length cs. \<forall>v. tree_get t (cur @ take k cs) \<noteq> Some (FLink v) \<Longrightarrow>
   resolve n f t cur cs = Some l \<Longrightarrow> l = cur @ cs"
proof (induction cs arbitrary: cur)
  case (Cons c cs)
  have p: "c \<noteq> []" "c \<noteq> ''.''" "c \<noteq> ''..''" using Cons.prems(1) by (auto simp: plain_def)
  have nl: "tree_get t (cur @ [c]) \<noteq> Some (FLink v)" for v using Cons.prems(2) [rule_format, of 1] by simp
  have rest: "\<forall>k \<le> length cs. \<forall>v. tree_get t ((cur @ [c]) @ take k cs) \<noteq> Some (FLink v)"
    using Cons.prems(2) [rule_format, of "Suc _"] by auto
  show ?case using Cons.prems(1,3) Cons.IH [OF _ rest] p nl by (auto split: option.splits fnode.splits if_splits)
qed simp

lemma resolve_dirs:
  "list_all plain cs \<Longrightarrow> \<forall>k \<le> length cs. tree_get t (cur @ take k cs) = Some FDir \<Longrightarrow> resolve n f t cur cs = Some (cur @ cs)"
proof (induction cs arbitrary: cur)
  case (Cons c cs)
  have "tree_get t (cur @ [c]) = Some FDir" using Cons.prems(2) [rule_format, of 1] by simp
  moreover have "\<forall>k \<le> length cs. tree_get t ((cur @ [c]) @ take k cs) = Some FDir"
    using Cons.prems(2) [rule_format, of "Suc _"] by auto
  ultimately show ?case using Cons.prems(1) Cons.IH [of "cur @ [c]"] by (auto simp: plain_def)
qed simp

lemma locate_plain:
  assumes "list_all plain D" "list_all plain cs" "safe_dest D t" "locate f t (path_of (D @ cs)) = Some l"
  shows "l = D @ cs"
proof -
  have "tree_get t (take k (D @ cs)) \<noteq> Some (FLink v)" for k v
  proof (cases "k \<le> length D")
    case True
    then show ?thesis using assms(3) by (simp add: safe_dest_def)
  next
    case False
    then have "under D (take k (D @ cs))" by (simp add: under_def)
    then show ?thesis using assms(3) by (auto simp: safe_dest_def tree_get_def split: if_splits)
  qed
  then show ?thesis using resolve_plain [of "D @ cs" t "[]" max_links f l] assms plain_names [of "D @ cs"]
    by (simp add: locate_def)
qed

lemma Stat_dest:
  assumes "list_all plain D" "safe_dest D t"
  shows "Stat t (path_of (take k D)) = Some FDir"
proof -
  have p: "list_all plain (take k D)" using assms(1) by (auto simp: list_all_iff dest: in_set_takeD)
  have d: "tree_get t (take j D) = Some FDir" for j
    using assms(2) by (cases "j \<le> length D") (auto simp: safe_dest_def dest: spec [of _ "length D"])
  then have "\<forall>j \<le> length (take k D). tree_get t ([] @ take j (take k D)) = Some FDir" by simp
  from resolve_dirs [OF p this, of max_links True] have "locate True t (path_of (take k D)) = Some (take k D)"
    by (simp add: locate_def plain_names [OF p])
  then show ?thesis using d [of k] by (simp add: Stat_def)
qed

lemma Mkdir_confined:
  assumes "list_all plain D" "list_all plain cs" "safe_dest D t" "Mkdir (path_of (D @ cs)) t = (e, t')"
  shows "confined D t t'"
proof -
  have "confined D t (map_put (D @ cs) FDir t)" if "tree_get t (D @ cs) = None"
    using that assms(3) by (intro put_confined) (auto simp: under_def)
  moreover have "locate False t (path_of (D @ cs)) = Some l \<Longrightarrow> l = D @ cs" for l by (rule locate_plain [OF assms(1-3)])
  ultimately show ?thesis using assms(4) confined_refl [OF assms(3)]
    by (fastforce simp: Mkdir_def split: option.splits if_splits)
qed

lemma MkdirAll_confined:
  "list_all plain D \<Longrightarrow> list_all plain cs \<Longrightarrow> safe_dest D t \<Longrightarrow> MkdirAll (D @ cs) t = (e, t') \<Longrightarrow> confined D t t'"
proof (induction cs arbitrary: e t' rule: rev_induct)
  case Nil
  then show ?case using Stat_dest [of D t "length D"] confined_refl by (simp add: MkdirAll.simps)
next
  case (snoc c cs)
  obtain e1 t1 where m: "MkdirAll (D @ cs) t = (e1, t1)" by (metis surj_pair)
  have c1: "confined D t t1" using snoc.IH [OF _ _ _ m] snoc.prems by simp
  obtain e2 t2 where k: "Mkdir (path_of (D @ cs @ [c])) t1 = (e2, t2)" by (metis surj_pair)
  have "confined D t1 t2" using Mkdir_confined [OF _ _ _ k] snoc.prems c1 by (simp add: confined_safe)
  with c1 have "confined D t t2" by (rule confined_trans)
  moreover have "t' \<in> {t, t1, t2}" using snoc.prems(4) m k
    by (subst (asm) MkdirAll.simps) (auto simp: butlast_append split: option.splits fnode.splits if_splits prod.splits)
  ultimately show ?case using c1 confined_refl [OF snoc.prems(3)] by auto
qed

lemma mkdir_for_confined:
  assumes "list_all plain D" "list_all plain cs" "safe_dest D t"
  shows "mkdir_for (path_of (D @ cs)) t = (e, t') \<Longrightarrow> confined D t t'"
    and "mkdir_for (path_Dir (path_of (D @ cs))) t = (e, t') \<Longrightarrow> confined D t t'"
proof -
  have p: "list_all plain (D @ cs)" using assms by simp
  show "mkdir_for (path_of (D @ cs)) t = (e, t') \<Longrightarrow> confined D t t'"
    using MkdirAll_confined [OF assms] by (auto simp: mkdir_for_def plain_names [OF p] split: prod.splits)
  assume m: "mkdir_for (path_Dir (path_of (D @ cs))) t = (e, t')"
  show "confined D t t'"
  proof (cases "cs = []")
    case True
    have "list_all plain (butlast D)" using assms(1) by (auto simp: list_all_iff dest: in_set_butlastD)
    then have "mkdir_for (path_Dir (path_of (D @ cs))) t = (None, t)"
      using Stat_dest [OF assms(1,3), of "length D - 1"] True path_Dir_plain [OF p]
      by (simp add: mkdir_for_def plain_names MkdirAll.simps butlast_conv_take)
    then show ?thesis using m confined_refl [OF assms(3)] by simp
  next
    case False
    have "list_all plain (butlast cs)" using assms(2) by (auto simp: list_all_iff dest: in_set_butlastD)
    then show ?thesis using m MkdirAll_confined [OF assms(1) _ assms(3), of "butlast cs"] False path_Dir_plain [OF p] assms(1)
      by (auto simp: mkdir_for_def plain_names butlast_append split: prod.splits)
  qed
qed

lemma open_trunc_confined:
  assumes "list_all plain D" "list_all plain cs" "safe_dest D t" "open_trunc (path_of (D @ cs)) mode t = (Inr l, t')"
  shows "l = D @ cs" "confined D t t'" "\<exists>m. tree_get t' l = Some (FFile m [])"
proof -
  obtain l0 where l0: "locate True t (path_of (D @ cs)) = Some l0" using assms(4) by (auto simp: open_trunc_def split: option.splits)
  from locate_plain [OF assms(1-3) this] have l0': "l0 = D @ cs" .
  have "under D (D @ cs)" by (simp add: under_def)
  then have "confined D t (map_put (D @ cs) (FFile m []) t)" if "tree_get t (D @ cs) \<noteq> Some FDir" for m
    using that assms(3) by (intro put_confined) auto
  moreover have "D @ cs \<noteq> []" if "tree_get t (D @ cs) \<noteq> Some FDir" using that by (auto simp: tree_get_def)
  ultimately show "l = D @ cs" "confined D t t'" "\<exists>m. tree_get t' l = Some (FFile m [])"
    using assms(4) l0 unfolding l0' by (auto simp: open_trunc_def tree_get_def map_get_put split: option.splits fnode.splits if_splits)
qed

lemma open_trunc_err: "open_trunc p mode t = (Inl e, t') \<Longrightarrow> t' = t"
  by (auto simp: open_trunc_def split: option.splits fnode.splits)

lemma extract_entry_confined:
  assumes "list_all plain D" "safe_dest D t" "te_Type h \<noteq> TypeSymlink" "extract_entry (path_of D) h t = (e, t')"
  shows "confined D t t'"
proof (cases "securePath (path_of D) (te_Name h)")
  case (Inl x)
  then show ?thesis using assms by (auto simp: extract_entry_def confined_refl)
next
  case (Inr target)
  then obtain cs where cs: "list_all plain cs" "target = path_of (D @ cs)" using securePath_plain [OF assms(1)] by blast
  show ?thesis
  proof (cases "te_Type h")
    case TypeReg
    obtain e1 t1 where m: "mkdir_for (path_Dir target) t = (e1, t1)" by (metis surj_pair)
    have c1: "confined D t t1" using mkdir_for_confined(2) [OF assms(1) cs(1) assms(2)] m cs(2) by blast
    let ?mode = "if te_Perm h = 0 then mode_0644 else te_Perm h"
    obtain r t2 where o: "open_trunc target ?mode t1 = (r, t2)" by (metis surj_pair)
    have "confined D t1 t' \<or> t' = t1"
    proof (cases "e1 = None \<and> (\<exists>l. r = Inr l)")
      case True
      then obtain l where r: "r = Inr l" by blast
      note op = open_trunc_confined [OF assms(1) cs(1) confined_safe [OF c1] o [unfolded cs(2) r]]
      have "t' = write_at l (te_Data h) t2" using assms(4) Inr TypeReg m o True r
        by (auto simp: extract_entry_def extract_reg_def split: if_splits)
      moreover have "confined D t2 (write_at l (te_Data h) t2)"
        using op put_confined [OF confined_safe [OF op(2)], of l] by (auto simp: write_at_def under_def)
      ultimately show ?thesis using op(2) confined_trans by blast
    next
      case False
      then show ?thesis using assms(4) Inr TypeReg m o
        by (auto simp: extract_entry_def extract_reg_def split: sum.splits option.splits if_splits dest: open_trunc_err)
    qed
    then show ?thesis using c1 confined_trans by blast
  qed (use assms(3,4) Inr cs mkdir_for_confined(1) [OF assms(1) cs(1) assms(2)] confined_refl [OF assms(2)] in \<open>auto simp: extract_entry_def\<close>)
qed

lemma extract_loop_confined:
  "list_all plain D \<Longrightarrow> safe_dest D t \<Longrightarrow> list_all (\<lambda>h. te_Type h \<noteq> TypeSymlink) hs \<Longrightarrow>
   extract_loop (path_of D) hs eof t = (e, t') \<Longrightarrow> confined D t t'"
proof (induction hs arbitrary: t)
  case (Cons h hs)
  obtain e1 t1 where s: "extract_entry (path_of D) h t = (e1, t1)" by (metis surj_pair)
  have c: "confined D t t1" using extract_entry_confined [OF _ _ _ s] Cons.prems by simp
  then show ?case using Cons.IH [OF _ confined_safe [OF c]] Cons.prems s confined_trans [OF c] by (auto split: option.splits)
qed (auto simp: confined_refl)


definition demo_tree :: tree where
  "demo_tree = [([''d''], FDir), ([''d'', ''ollama''], FDir), ([''d'', ''node.key''], FFile mode_0600 ''secret'')]"

definition tar_dir :: "string \<Rightarrow> tar_entry" where
  "tar_dir nm = \<lparr>te_Name = nm, te_Type = TypeDir, te_Linkname = [], te_Perm = mode_0755, te_Data = [], te_Complete = True\<rparr>"

definition tar_link :: "string \<Rightarrow> string \<Rightarrow> tar_entry" where
  "tar_link nm l = \<lparr>te_Name = nm, te_Type = TypeSymlink, te_Linkname = l, te_Perm = mode_0755, te_Data = [], te_Complete = True\<rparr>"

definition tar_reg :: "string \<Rightarrow> bytes \<Rightarrow> tar_entry" where
  "tar_reg nm data = \<lparr>te_Name = nm, te_Type = TypeReg, te_Linkname = [], te_Perm = mode_0755, te_Data = data, te_Complete = True\<rparr>"


text \<open>
  Symbolic links do escape. The check of a link is lexical, but a link below an earlier link
  is resolved from where that one points: an archive that makes x/l point to z, then x/l/m to a
  name two levels up, has put into z a link out of the destination, and a regular file of that
  name is written through it. Every entry passes, and the file beside the destination is replaced.
\<close>

theorem linked_archive_escapes:
  "case extractTarGz (Some ([tar_dir ''z'', tar_link ''x/l'' ''../z'', tar_link ''x/l/m'' ''../../node.key'', tar_reg ''z/m'' ''forged''], True))
       ''/d/ollama'' demo_tree of
     (e, t') \<Rightarrow> e = None \<and> map_get demo_tree [''d'', ''node.key''] = Some (FFile mode_0600 ''secret'') \<and>
       map_get t' [''d'', ''node.key''] = Some (FFile mode_0600 ''forged'')"
  by code_simp

end
