(* ===== verification/Http.thy ===== *)
theory Http
  imports Install Url Json
begin

text \<open>
  The server side of net/http and net/url that the node's three listeners rest on: percent-encoding
  of paths, the escaped form of a request path, ServeMux with its cleaning and redirects, and headers
  as lists of name and value under canonical names.
\<close>

section \<open>Percent-encoding\<close>

definition upperhex :: "nat \<Rightarrow> char" where
  "upperhex n = (if n < 10 then char_of (48 + n) else char_of (55 + n))"

definition pct_byte :: "char \<Rightarrow> string" where
  "pct_byte c = [CHR ''%'', upperhex (of_char c div 16), upperhex (of_char c mod 16)]"

definition pct_encode :: "(char \<Rightarrow> bool) \<Rightarrow> string \<Rightarrow> string" where
  "pct_encode keep s = concat (map (\<lambda>c. if keep c then [c] else pct_byte c) s)"

fun pct_decode :: "string \<Rightarrow> string option" where
  "pct_decode [] = Some []"
| "pct_decode (c # cs) =
     (if c = CHR ''%'' then
        (case cs of a # b # r \<Rightarrow>
           (case (hex_val a, hex_val b) of
              (Some x, Some y) \<Rightarrow> map_option ((#) (char_of (16 * x + y))) (pct_decode r) | _ \<Rightarrow> None)
         | _ \<Rightarrow> None)
      else map_option ((#) c) (pct_decode cs))"

lemma hex_val_upper: "n < 16 \<Longrightarrow> hex_val (upperhex n) = Some n"
  by (auto simp: hex_val_def upperhex_def Let_def of_char_of)

lemma pct_decode_encode:
  assumes "\<not> keep (CHR ''%'')"
  shows "pct_decode (pct_encode keep s @ r) = map_option ((@) s) (pct_decode r)"
proof (induction s)
  case (Cons c s)
  have "of_char c div 16 < (16 :: nat)" using of_char_less_256 [of c] by (simp add: less_mult_imp_div_less)
  then have "pct_decode (pct_byte c @ t) = map_option ((#) c) (pct_decode t)" for t
    by (simp add: pct_byte_def hex_val_upper split: option.splits)
  moreover have "keep c \<Longrightarrow> c \<noteq> CHR ''%''" using assms by blast
  ultimately show ?case using Cons by (simp add: pct_encode_def option.map_comp comp_def)
qed (simp add: pct_encode_def option.map_ident)

lemmas pct_roundtrip = pct_decode_encode [where r = "[]", simplified]

text \<open>The bytes a path keeps, and those it may hold unescaped.\<close>

definition unreserved :: "char \<Rightarrow> bool" where
  "unreserved c \<longleftrightarrow> is_letter c \<or> is_num c \<or> c \<in> {CHR ''-'', CHR ''_'', CHR ''.'', CHR ''~''}"

definition path_char :: "char \<Rightarrow> bool" where
  "path_char c \<longleftrightarrow> unreserved c \<or> c \<in> set ''$&+,/:;=@''"

definition escape_path :: "string \<Rightarrow> string" where
  "escape_path = pct_encode path_char"

definition valid_encoded :: "string \<Rightarrow> bool" where
  "valid_encoded s \<longleftrightarrow> list_all (\<lambda>c. path_char c \<or> c \<in> set ''!()*[]%'' \<or> c = CHR 0x27) s"

text \<open>EscapedPath of a URL whose path arrived as p and decodes to d.\<close>

definition EscapedPath :: "string \<Rightarrow> string \<Rightarrow> string" where
  "EscapedPath p d = (if valid_encoded p \<and> pct_decode p = Some d then p else if d = ''*'' then ''*'' else escape_path d)"

section \<open>Queries\<close>

text \<open>url.ParseQuery, as Query uses it: a part that does not decode, or holds a semicolon, is left out.\<close>

definition query_unescape :: "string \<Rightarrow> string option" where
  "query_unescape s = pct_decode (map (\<lambda>c. if c = CHR ''+'' then CHR '' '' else c) s)"

definition parse_query :: "string \<Rightarrow> (string \<times> string) list" where
  "parse_query s = List.map_filter (\<lambda>kv.
     if CHR '';'' \<in> set kv \<or> kv = [] then None
     else (case cut_or_all (CHR ''='') kv of (k, v) \<Rightarrow>
       (case (query_unescape k, query_unescape v) of (Some k', Some v') \<Rightarrow> Some (k', v') | _ \<Rightarrow> None))) (Split (CHR ''&'') s)"

section \<open>Requests\<close>

record http_req =
  hq_Method :: string
  hq_Host :: string
  hq_RawPath :: string    \<comment> \<open>as on the request line\<close>
  hq_RawQuery :: string
  hq_Header :: "(string \<times> string) list"
  hq_Body :: "json option"   \<comment> \<open>the first JSON value of the body, when the decoder finds one\<close>

definition hdr_get :: "string \<Rightarrow> (string \<times> string) list \<Rightarrow> string" where
  "hdr_get k h = (case map_of h k of None \<Rightarrow> [] | Some v \<Rightarrow> v)"

definition hdr_del :: "string \<Rightarrow> (string \<times> string) list \<Rightarrow> (string \<times> string) list" where
  "hdr_del k h = filter (\<lambda>(k', v). k' \<noteq> k) h"

definition hdr_set :: "string \<Rightarrow> string \<Rightarrow> (string \<times> string) list \<Rightarrow> (string \<times> string) list" where
  "hdr_set k v h = hdr_del k h @ [(k, v)]"

lemma hdr_simps:
  "(k, v) \<in> set (hdr_del k' h) \<longleftrightarrow> k \<noteq> k' \<and> (k, v) \<in> set h"
  "(k, v) \<in> set (hdr_set k' v' h) \<longleftrightarrow> (k = k' \<and> v = v' \<or> k \<noteq> k' \<and> (k, v) \<in> set h)"
  by (auto simp: hdr_del_def hdr_set_def)

section \<open>ServeMux\<close>

datatype seg = Lit string | Wild | Multi

text \<open>The names of an escaped path, and a pattern against them: the values of its wildcards.\<close>

definition segs_of :: "string \<Rightarrow> string list" where
  "segs_of p = (case p of [] \<Rightarrow> [] | c # r \<Rightarrow> Split (CHR ''/'') r)"

definition unesc :: "string \<Rightarrow> string" where
  "unesc s = (case pct_decode s of None \<Rightarrow> s | Some d \<Rightarrow> d)"

fun match_segs :: "seg list \<Rightarrow> string list \<Rightarrow> string list option" where
  "match_segs [] [] = Some []"
| "match_segs (Lit l # ps) (s # ss) = (if unesc s = l then match_segs ps ss else None)"
| "match_segs (Wild # ps) (s # ss) = (if s = [] then None else map_option ((#) (unesc s)) (match_segs ps ss))"
| "match_segs [Multi] (s # ss) = Some []"
| "match_segs _ _ = None"

type_synonym 'r routes = "(string \<times> seg list \<times> (string list \<Rightarrow> 'r)) list"

definition method_ok :: "string \<Rightarrow> string \<Rightarrow> bool" where
  "method_ok pat m \<longleftrightarrow> pat = [] \<or> pat = m \<or> pat = ''GET'' \<and> m = ''HEAD''"

text \<open>
  The route of a request: the tables list the more specific of two overlapping patterns first.
\<close>

fun mux_find :: "'r routes \<Rightarrow> string \<Rightarrow> string \<Rightarrow> (seg list \<times> 'r) option" where
  "mux_find [] m p = None"
| "mux_find ((pm, ps, h) # rs) m p =
     (if method_ok pm m then (case match_segs ps (segs_of p) of Some vs \<Rightarrow> Some (ps, h vs) | None \<Rightarrow> mux_find rs m p)
      else mux_find rs m p)"

definition cleanPath :: "string \<Rightarrow> string" where
  "cleanPath p = (if p = [] then ''/'' else
     let p' = (if HasPrefix p ''/'' then p else CHR ''/'' # p); np = Clean p' in
     if last p' = CHR ''/'' \<and> np \<noteq> ''/'' then np @ ''/'' else np)"

definition exact_match :: "(seg list \<times> 'r) option \<Rightarrow> string \<Rightarrow> bool" where
  "exact_match r p = (case r of None \<Rightarrow> False | Some (ps, _) \<Rightarrow>
     if ps = [] \<or> last ps \<noteq> Multi then True else last p = CHR ''/'' \<and> length (segs_of p) = length ps)"

datatype 'r muxed = Routed 'r | Redirected string | MethodNotAllowed | NoRoute

definition serve_mux :: "'r routes \<Rightarrow> http_req \<Rightarrow> string \<Rightarrow> 'r muxed" where
  "serve_mux rs r d =
    (let ep = EscapedPath (hq_RawPath r) d;
         p = (if hq_Method r = ''CONNECT'' then ep else cleanPath ep);
         n = mux_find rs (hq_Method r) p in
     if \<not> exact_match n p \<and> (p = [] \<or> last p \<noteq> CHR ''/'') \<and> exact_match (mux_find rs (hq_Method r) (p @ ''/'')) (p @ ''/'')
     then Redirected (cleanPath d @ ''/'')
     else if p \<noteq> ep then Redirected p
     else case n of Some (_, h) \<Rightarrow> Routed h
       | None \<Rightarrow> if list_ex (\<lambda>(pm, ps, h). match_segs ps (segs_of p) \<noteq> None) rs then MethodNotAllowed else NoRoute)"

text \<open>A request routed by a table is one of its rows, for the names its escaped path has.\<close>

lemma mux_find_row:
  "mux_find rs m p = Some (ps, h) \<Longrightarrow> \<exists>pm g vs. (pm, ps, g) \<in> set rs \<and> method_ok pm m \<and> match_segs ps (segs_of p) = Some vs \<and> h = g vs"
  by (induction rs m p rule: mux_find.induct) (auto split: if_splits option.splits)

lemma serve_mux_row:
  assumes "serve_mux rs r d = Routed h"
  obtains pm ps g vs p where "(pm, ps, g) \<in> set rs" "method_ok pm (hq_Method r)" "match_segs ps (segs_of p) = Some vs" "h = g vs"
    "p = EscapedPath (hq_RawPath r) d" "hq_Method r = ''CONNECT'' \<or> p = cleanPath p"
proof -
  let ?p = "EscapedPath (hq_RawPath r) d" and ?q = "if hq_Method r = ''CONNECT'' then EscapedPath (hq_RawPath r) d else cleanPath (EscapedPath (hq_RawPath r) d)"
  have "?q = ?p \<and> (\<exists>ps. mux_find rs (hq_Method r) ?q = Some (ps, h))"
    using assms unfolding serve_mux_def Let_def by (simp split: if_splits option.splits prod.splits)
  then obtain ps where q: "?q = ?p" "mux_find rs (hq_Method r) ?p = Some (ps, h)" by auto
  from mux_find_row [OF q(2)] obtain pm g vs where m: "(pm, ps, g) \<in> set rs" "method_ok pm (hq_Method r)" "match_segs ps (segs_of ?p) = Some vs" "h = g vs"
    by blast
  have "hq_Method r = ''CONNECT'' \<or> ?p = cleanPath ?p" using q(1) by (simp split: if_splits)
  with m show thesis using that [OF m refl] by blast
qed

end
