(* ===== verification/MemStore.thy ===== *)
theory MemStore
  imports Fs Json "HOL-Library.List_Lexorder" "HOL-Library.Char_ord" "HOL-Library.Product_Lexorder"
begin

text \<open>
  The memory store and its at-rest cipher (internal/memory/store.go, cipher.go, cipher_aead.go).
  The SQLite tables are lists of rows and every method is its SQL statements on them; a failing
  statement inside a transaction leaves the tables as they were. FTS5's matching and ranking, the
  timestamps' text and AES-256-GCM are parameters; a float32 is its 32-bit pattern.
\<close>

section \<open>Embedding vectors\<close>

type_synonym float32 = "32 word"

definition encodeVector :: "float32 list \<Rightarrow> bytes" where
  "encodeVector v = concat (map put_u32_le v)"

fun decode_floats :: "nat \<Rightarrow> bytes \<Rightarrow> float32 list" where
  "decode_floats 0 raw = []"
| "decode_floats (Suc n) raw = get_u32_le (take 4 raw) # decode_floats n (drop 4 raw)"

definition decodeVector :: "bytes \<Rightarrow> nat \<Rightarrow> float32 list option" where
  "decodeVector raw dim = (if length raw \<noteq> 4 * dim then None else Some (decode_floats dim raw))"

lemma length_encodeVector: "length (encodeVector v) = 4 * length v"
  by (induction v) (simp_all add: encodeVector_def)

lemma decode_floats_encode: "decode_floats (length v) (encodeVector v) = v"
proof (induction v)
  case (Cons w v)
  have "get_u32_le (put_u32_le w) = w" using get_put_u32_le [of w "[]"] by simp
  then show ?case using Cons by (simp add: encodeVector_def)
qed (simp add: encodeVector_def)

lemma decode_encode_vector: "decodeVector (encodeVector v) (length v) = Some v"
  by (simp add: decodeVector_def length_encodeVector decode_floats_encode)

lemma decode_wrong_dim: "dim \<noteq> length v \<Longrightarrow> decodeVector (encodeVector v) dim = None"
  by (simp add: decodeVector_def length_encodeVector)

section \<open>Match expressions\<close>

definition quote_term :: "string \<Rightarrow> string" where
  "quote_term f = CHR 0x22 # ReplaceAll f (CHR 0x22) [CHR 0x22, CHR 0x22] @ [CHR 0x22]"

definition ftsMatchExpr :: "string \<Rightarrow> string" where
  "ftsMatchExpr query = Join (map quote_term (Fields query)) '' OR ''"

text \<open>
  How FTS5 reads such an expression: a string is a double quote, text in which a quote is
  doubled, and a closing quote; strings are joined by the operator OR.
\<close>

fun fts_string :: "string \<Rightarrow> (string \<times> string) option" where
  "fts_string [] = None"
| "fts_string (c # s) =
     (if c \<noteq> CHR 0x22 then map_option (\<lambda>(t, r). (c # t, r)) (fts_string s)
      else (case s of
          [] \<Rightarrow> Some ([], [])
        | d # r \<Rightarrow> if d = CHR 0x22 then map_option (\<lambda>(t, r). (CHR 0x22 # t, r)) (fts_string r) else Some ([], s)))"

lemma fts_string_length: "fts_string s = Some (t, r) \<Longrightarrow> length r < length s"
  by (induction s arbitrary: t r rule: fts_string.induct) (fastforce split: if_splits list.splits)+

function fts_or :: "string \<Rightarrow> string list option" where
  "fts_or s =
    (case s of
       c # r \<Rightarrow>
         (if c \<noteq> CHR 0x22 then None
          else (case fts_string r of
              None \<Rightarrow> None
            | Some (t, []) \<Rightarrow> Some [t]
            | Some (t, q) \<Rightarrow> (case CutPrefix q '' OR '' of None \<Rightarrow> None | Some q' \<Rightarrow> map_option (Cons t) (fts_or q'))))
     | [] \<Rightarrow> None)"
  by pat_completeness auto

termination
  by (relation "measure length")
    (auto simp: CutPrefix_Some_iff dest!: fts_string_length)

declare fts_or.simps [simp del]

lemma fts_string_quoted: "(case rest of [] \<Rightarrow> True | d # _ \<Rightarrow> d \<noteq> CHR 0x22) \<Longrightarrow>
  fts_string (ReplaceAll f (CHR 0x22) [CHR 0x22, CHR 0x22] @ CHR 0x22 # rest) = Some (f, rest)"
  by (induction f) (auto simp: ReplaceAll_def split: list.splits)

lemma fts_or_terms: "fs \<noteq> [] \<Longrightarrow> fts_or (Join (map quote_term fs) '' OR '') = Some fs"
proof (induction fs rule: induct_list012)
  case (2 x)
  show ?case by (simp add: fts_or.simps quote_term_def fts_string_quoted [where rest = "[]"])
next
  case (3 x y xs)
  let ?rest = "'' OR '' @ Join (map quote_term (y # xs)) '' OR ''"
  have s: "fts_string (ReplaceAll x (CHR 0x22) [CHR 0x22, CHR 0x22] @ CHR 0x22 # ?rest) = Some (x, ?rest)"
    by (rule fts_string_quoted) simp
  have c: "CutPrefix ?rest '' OR '' = Some (Join (map quote_term (y # xs)) '' OR '')" by (simp only: CutPrefix_Some_iff)
  have "Join (map quote_term (x # y # xs)) '' OR '' = CHR 0x22 # ReplaceAll x (CHR 0x22) [CHR 0x22, CHR 0x22] @ CHR 0x22 # ?rest"
    by (simp add: quote_term_def)
  then show ?case using s c 3 by (subst fts_or.simps) simp
qed simp

text \<open>
  No query can inject FTS5 syntax: read back by FTS5's string and OR rules, the match
  expression of a query with at least one token is exactly the list of its white-space separated
  tokens, each as one string, whatever quotes or operators they contain.
\<close>

theorem ftsMatchExpr_literal:
  assumes "Fields query \<noteq> []"
  shows "fts_or (ftsMatchExpr query) = Some (Fields query)"
  using assms by (simp add: ftsMatchExpr_def fts_or_terms)

theorem ftsMatchExpr_literal_witness:
  "fts_or (ftsMatchExpr ''a\"* OR NEAR(b'') = Some [''a\"*'', ''OR'', ''NEAR(b'']"
proof -
  have "Fields ''a\"* OR NEAR(b'' = [''a\"*'', ''OR'', ''NEAR(b'']"
    by (simp add: Fields_def is_space_def)
  then show ?thesis using ftsMatchExpr_literal [of "''a\"* OR NEAR(b''"] by simp
qed

section \<open>The cipher\<close>

text \<open>AES-256-GCM with additional data: key, nonce, additional data, text.\<close>

record gcm =
  gcm_seal :: "bytes \<Rightarrow> bytes \<Rightarrow> bytes \<Rightarrow> bytes \<Rightarrow> bytes"
  gcm_open :: "bytes \<Rightarrow> bytes \<Rightarrow> bytes \<Rightarrow> bytes \<Rightarrow> bytes option"

text \<open>Its documented behaviour: opening is exactly the inverse of sealing.\<close>

definition gcm_law :: "gcm \<Rightarrow> bool" where
  "gcm_law g \<longleftrightarrow> (\<forall>k n a p ct. gcm_open g k n a ct = Some p \<longleftrightarrow> ct = gcm_seal g k n a p)"

datatype mem_cipher = PlaintextCipher | AEADCipher bytes

datatype mem_err = ErrNotRunning | ErrTooShort | ErrDecrypt | ErrNonce | ErrKeyMalformed | ErrKeyFile fs_err | ErrKeyRand
  | ErrDB | ErrVector | ErrNoDataDir

definition memoryKeyFile :: string where "memoryKeyFile = ''memory.key''"
definition gcmNonceSize :: nat where "gcmNonceSize = 12"

definition cipher_Seal :: "gcm \<Rightarrow> bytes option \<Rightarrow> mem_cipher \<Rightarrow> string \<Rightarrow> bytes \<Rightarrow> mem_err + bytes" where
  "cipher_Seal g nonce c siloID pt = (case c of
       PlaintextCipher \<Rightarrow> Inr pt
     | AEADCipher key \<Rightarrow> (case nonce of None \<Rightarrow> Inl ErrNonce | Some n \<Rightarrow> Inr (n @ gcm_seal g key n siloID pt)))"

definition cipher_Open :: "gcm \<Rightarrow> mem_cipher \<Rightarrow> string \<Rightarrow> bytes \<Rightarrow> mem_err + bytes" where
  "cipher_Open g c siloID ct = (case c of
       PlaintextCipher \<Rightarrow> Inr ct
     | AEADCipher key \<Rightarrow>
        if length ct < gcmNonceSize then Inl ErrTooShort
        else (case gcm_open g key (take gcmNonceSize ct) siloID (drop gcmNonceSize ct) of
                None \<Rightarrow> Inl ErrDecrypt | Some pt \<Rightarrow> Inr pt))"

text \<open>The per-node data key: read, or 32 fresh bytes written atomically.\<close>

definition loadOrCreateMemoryKey :: "bytes option \<Rightarrow> wfa_env \<Rightarrow> string \<Rightarrow> disk \<Rightarrow> (mem_err + bytes) \<times> disk" where
  "loadOrCreateMemoryKey rnd env dataDir disk =
    (let path = path_join dataDir memoryKeyFile in
     case ReadFile disk path of
       Inr raw \<Rightarrow> (case hex_decode (TrimSpace raw) of
           None \<Rightarrow> (Inl ErrKeyMalformed, disk)
         | Some key \<Rightarrow> if length key \<noteq> 32 then (Inl ErrKeyMalformed, disk) else (Inr key, disk))
     | Inl e \<Rightarrow>
        if e \<noteq> ErrNotExist then (Inl (ErrKeyFile e), disk)
        else (case rnd of None \<Rightarrow> (Inl ErrKeyRand, disk)
              | Some key \<Rightarrow> (case WriteFileAtomic env path (hex_encode key) mode_0600 disk of
                    (disk', Some e') \<Rightarrow> (Inl (ErrKeyFile e'), disk')
                  | (disk', None) \<Rightarrow> (Inr key, disk'))))"

definition NewAEADCipher :: "bytes option \<Rightarrow> wfa_env \<Rightarrow> string \<Rightarrow> disk \<Rightarrow> (mem_err + mem_cipher) \<times> disk" where
  "NewAEADCipher rnd env dataDir disk = (case loadOrCreateMemoryKey rnd env dataDir disk of
     (Inl e, d) \<Rightarrow> (Inl e, d) | (Inr key, d) \<Rightarrow> (Inr (AEADCipher key), d))"

lemma Open_Seal_cipher:
  assumes "gcm_law g" "cipher_Seal g nonce c siloID pt = Inr ct" "\<forall>n. nonce = Some n \<longrightarrow> length n = gcmNonceSize"
  shows "cipher_Open g c siloID ct = Inr pt"
proof (cases c)
  case (AEADCipher key)
  have "gcm_open g key n siloID (gcm_seal g key n siloID pt) = Some pt" for n using assms(1) by (simp add: gcm_law_def)
  then show ?thesis using AEADCipher assms(2,3) by (auto simp: cipher_Seal_def cipher_Open_def split: option.splits)
qed (use assms(2) in \<open>simp add: cipher_Seal_def cipher_Open_def\<close>)

lemma Open_other_silo:
  assumes "gcm_law g" "cipher_Seal g nonce (AEADCipher key) siloID pt = Inr ct" "\<forall>n. nonce = Some n \<longrightarrow> length n = gcmNonceSize"
    "\<And>n p. gcm_seal g key n other p \<noteq> gcm_seal g key n siloID pt"
  shows "cipher_Open g (AEADCipher key) other ct = Inl ErrDecrypt"
proof -
  obtain n where n: "nonce = Some n" "ct = n @ gcm_seal g key n siloID pt"
    using assms(2) by (auto simp: cipher_Seal_def split: option.splits)
  have "gcm_open g key n other (gcm_seal g key n siloID pt) = None"
    using assms(1,4) by (cases "gcm_open g key n other (gcm_seal g key n siloID pt)") (auto simp: gcm_law_def dest: sym)
  then show ?thesis using n assms(3) by (simp add: cipher_Open_def)
qed

section \<open>Tables\<close>

record mem_record =
  mr_rowid :: nat
  mr_ID :: string
  mr_SiloID :: string
  mr_Content :: bytes
  mr_MetadataJSON :: string
  mr_CreatedAt :: string
  mr_UpdatedAt :: string

record mem_db =
  db_rows :: "mem_record list"
  db_fts :: "(nat \<times> string) list"
  db_emb :: "((string \<times> string) \<times> nat \<times> bytes) list"   \<comment> \<open>(memory_id, model), dim, vector\<close>

definition empty_db :: mem_db where
  "empty_db = \<lparr>db_rows = [], db_fts = [], db_emb = []\<rparr>"

text \<open>SQLite's rowid for a new row: one more than the largest in the table.\<close>

definition next_rowid :: "mem_db \<Rightarrow> nat" where
  "next_rowid db = Suc (foldr max (map mr_rowid (db_rows db)) 0)"

text \<open>Insert: both statements and the commit, or nothing; an id already present violates the primary key.\<close>

definition Store_Insert :: "bool \<Rightarrow> string \<Rightarrow> string \<Rightarrow> string \<Rightarrow> bytes \<Rightarrow> string \<Rightarrow> string \<Rightarrow> mem_db \<Rightarrow> mem_db \<times> mem_err option" where
  "Store_Insert ok now i siloID content indexText metadataJSON db =
    (if \<not> ok \<or> i \<in> mr_ID ` set (db_rows db) then (db, Some ErrDB)
     else let rowid = next_rowid db in
       (db\<lparr>db_rows := db_rows db @ [\<lparr>mr_rowid = rowid, mr_ID = i, mr_SiloID = siloID, mr_Content = content,
            mr_MetadataJSON = metadataJSON, mr_CreatedAt = now, mr_UpdatedAt = now\<rparr>],
          db_fts := db_fts db @ [(rowid, indexText)]\<rparr>, None))"

definition Store_Get :: "string \<Rightarrow> string \<Rightarrow> mem_db \<Rightarrow> mem_record option" where
  "Store_Get siloID i db = find (\<lambda>r. mr_ID r = i \<and> mr_SiloID r = siloID) (db_rows db)"

definition Store_GetMany :: "string \<Rightarrow> string list \<Rightarrow> mem_db \<Rightarrow> (string \<times> mem_record) list" where
  "Store_GetMany siloID ids db = fold (\<lambda>i m. case Store_Get siloID i db of None \<Rightarrow> m | Some r \<Rightarrow> map_put i r m) ids []"

definition Store_List :: "string \<Rightarrow> mem_db \<Rightarrow> mem_record list" where
  "Store_List siloID db = sort_key (\<lambda>r. (mr_CreatedAt r, mr_ID r)) (filter (\<lambda>r. mr_SiloID r = siloID) (db_rows db))"

definition Store_Delete :: "bool \<Rightarrow> string \<Rightarrow> string \<Rightarrow> mem_db \<Rightarrow> mem_db \<times> (mem_err + bool)" where
  "Store_Delete ok siloID i db =
    (case Store_Get siloID i db of
       None \<Rightarrow> (db, if ok then Inr False else Inl ErrDB)
     | Some r \<Rightarrow>
        if \<not> ok then (db, Inl ErrDB)
        else (\<lparr>db_rows = filter (\<lambda>x. mr_rowid x \<noteq> mr_rowid r) (db_rows db),
               db_fts = filter (\<lambda>(n, t). n \<noteq> mr_rowid r) (db_fts db),
               db_emb = filter (\<lambda>((m, _), _). m \<noteq> i) (db_emb db)\<rparr>, Inr True))"

definition Store_Silos :: "mem_db \<Rightarrow> (string \<times> nat) list" where
  "Store_Silos db = map (\<lambda>s. (s, length (filter (\<lambda>r. mr_SiloID r = s) (db_rows db)))) (sort (remdups (map mr_SiloID (db_rows db))))"

text \<open>
  FTS5's answer to an expression over its index: row ids with their BM25 value, best first; the
  join, the silo filter and the limit are the query's.
\<close>

definition Store_KeywordSearch :: "(string \<Rightarrow> (nat \<times> string) list \<Rightarrow> (nat \<times> 'f) list) \<Rightarrow> ('f \<Rightarrow> 'f) \<Rightarrow> string \<Rightarrow> string \<Rightarrow> nat
    \<Rightarrow> mem_db \<Rightarrow> (string \<times> 'f) list" where
  "Store_KeywordSearch fts neg siloID query limit db =
    (let expr = ftsMatchExpr query in
     if expr = [] then []
     else take limit (concat (map (\<lambda>(n, sc). map (\<lambda>r. (mr_ID r, neg sc))
       (filter (\<lambda>r. mr_rowid r = n \<and> mr_SiloID r = siloID) (db_rows db))) (fts expr (db_fts db)))))"

definition Store_PutEmbedding :: "bool \<Rightarrow> string \<Rightarrow> string \<Rightarrow> float32 list \<Rightarrow> mem_db \<Rightarrow> mem_db \<times> mem_err option" where
  "Store_PutEmbedding ok memoryID model vector db =
    (if \<not> ok then (db, Some ErrDB)
     else (db\<lparr>db_emb := map_put (memoryID, model) (length vector, encodeVector vector) (db_emb db)\<rparr>, None))"

fun decode_all :: "(string \<times> nat \<times> bytes) list \<Rightarrow> mem_err + (string \<times> float32 list) list" where
  "decode_all [] = Inr []"
| "decode_all ((i, dim, raw) # es) = (case decodeVector raw dim of
     None \<Rightarrow> Inl ErrVector
   | Some v \<Rightarrow> (case decode_all es of Inl e \<Rightarrow> Inl e | Inr vs \<Rightarrow> Inr ((i, v) # vs)))"

definition Store_EmbeddingsBySilo :: "string \<Rightarrow> string \<Rightarrow> mem_db \<Rightarrow> mem_err + (string \<times> float32 list) list" where
  "Store_EmbeddingsBySilo siloID model db =
    decode_all (map (\<lambda>((i, _), dim, raw). (i, dim, raw))
      (filter (\<lambda>((i, m), _). m = model \<and> (\<exists>r \<in> set (db_rows db). mr_ID r = i \<and> mr_SiloID r = siloID)) (db_emb db)))"

section \<open>Invariant of the tables\<close>

definition db_inv :: "mem_db \<Rightarrow> bool" where
  "db_inv db \<longleftrightarrow> distinct (map mr_rowid (db_rows db)) \<and> distinct (map mr_ID (db_rows db)) \<and>
     map fst (db_fts db) = map mr_rowid (db_rows db) \<and> distinct (map fst (db_emb db)) \<and>
     (\<forall>(k, dim, raw) \<in> set (db_emb db). length raw = 4 * dim)"

lemma next_rowid_fresh: "r \<in> set (db_rows db) \<Longrightarrow> mr_rowid r < next_rowid db"
proof -
  have "r \<in> set rs \<Longrightarrow> mr_rowid r \<le> foldr max (map mr_rowid rs) 0" for rs by (induction rs) auto
  then show "r \<in> set (db_rows db) \<Longrightarrow> mr_rowid r < next_rowid db" by (simp add: next_rowid_def less_Suc_eq_le)
qed

lemma db_inv_empty: "db_inv empty_db"
  by (simp add: db_inv_def empty_db_def)

lemma db_inv_Insert [inv_intros]:
  assumes "db_inv db"
  shows "db_inv (fst (Store_Insert ok now i siloID content text meta db))"
proof -
  have "next_rowid db \<notin> mr_rowid ` set (db_rows db)" using next_rowid_fresh [of _ db] by fastforce
  then show ?thesis using assms by (auto simp: db_inv_def Store_Insert_def Let_def)
qed

lemma map_fst_filter: "map fst xs = map f ys \<Longrightarrow> map fst (filter (\<lambda>(n, t). P n) xs) = map f (filter (\<lambda>y. P (f y)) ys)"
  by (induction xs arbitrary: ys) (auto simp: Cons_eq_map_conv)

lemma db_inv_Delete [inv_intros]:
  assumes "db_inv db"
  shows "db_inv (fst (Store_Delete ok siloID i db))"
  using assms map_fst_filter [of "db_fts db" mr_rowid "db_rows db"]
  by (auto simp: db_inv_def Store_Delete_def distinct_map_filter split: option.splits)

lemma map_put_keys: "fst ` set (map_put k v al) = insert k (fst ` set al)"
  by (induction al) auto

lemma distinct_map_put: "distinct (map fst al) \<Longrightarrow> distinct (map fst (map_put k v al))"
proof (induction al)
  case (Cons x al)
  then show ?case using map_put_keys [of k v al] by (cases x) (force simp: image_iff)
qed simp

lemma map_put_in: "x \<in> set (map_put k v al) \<Longrightarrow> x = (k, v) \<or> x \<in> set al"
  by (induction al) (auto split: if_splits)

lemma db_inv_PutEmbedding [inv_intros]:
  "db_inv db \<Longrightarrow> db_inv (fst (Store_PutEmbedding ok m model v db))"
  by (auto simp: db_inv_def Store_PutEmbedding_def distinct_map_put length_encodeVector dest!: map_put_in)

lemma decode_all_ok: "\<forall>(i, dim, raw) \<in> set es. length raw = 4 * dim \<Longrightarrow> \<exists>vs. decode_all es = Inr vs \<and> map fst vs = map fst es"
  by (induction es rule: decode_all.induct) (auto simp: decodeVector_def)

lemma EmbeddingsBySilo_ok:
  assumes "db_inv db"
  shows "\<exists>vs. Store_EmbeddingsBySilo siloID model db = Inr vs \<and>
    (\<forall>i \<in> fst ` set vs. \<exists>r \<in> set (db_rows db). mr_ID r = i \<and> mr_SiloID r = siloID)"
proof -
  let ?es = "filter (\<lambda>((i, m), _). m = model \<and> (\<exists>r \<in> set (db_rows db). mr_ID r = i \<and> mr_SiloID r = siloID)) (db_emb db)"
  have "\<forall>(i, dim, raw) \<in> set (map (\<lambda>((i, _), dim, raw). (i, dim, raw)) ?es). length raw = 4 * dim"
    using assms by (fastforce simp: db_inv_def)
  from decode_all_ok [OF this] obtain vs where vs: "Store_EmbeddingsBySilo siloID model db = Inr vs"
    "map fst vs = map fst (map (\<lambda>((i, _), dim, raw). (i, dim, raw)) ?es)" by (auto simp: Store_EmbeddingsBySilo_def)
  have "fst ` set vs = fst ` (\<lambda>((i, _), dim, raw). (i, dim, raw)) ` set ?es" using vs(2) by (metis list.set_map)
  then show ?thesis using vs(1) by (intro exI [of _ vs]) auto
qed

lemma Get_iff:
  assumes "db_inv db"
  shows "Store_Get siloID i db = Some r \<longleftrightarrow> r \<in> set (db_rows db) \<and> mr_ID r = i \<and> mr_SiloID r = siloID"
proof
  assume r: "r \<in> set (db_rows db) \<and> mr_ID r = i \<and> mr_SiloID r = siloID"
  then have "Store_Get siloID i db \<noteq> None" by (auto simp: Store_Get_def find_None_iff)
  then obtain x where x: "Store_Get siloID i db = Some x" by blast
  then have "x \<in> set (db_rows db)" "mr_ID x = i" by (auto simp: Store_Get_def find_Some_iff)
  then have "x = r" using assms r by (auto simp: db_inv_def distinct_map inj_on_def)
  with x show "Store_Get siloID i db = Some r" by simp
qed (auto simp: Store_Get_def find_Some_iff)

end
