(* ===== verification/Recall.thy ===== *)
theory Recall
  imports MemStore "HOL-Library.Multiset"
begin

text \<open>
  Hybrid retrieval (internal/memory/recall.go): keyword and vector hits, their fusion, and the
  fetch of the records. Machine floats are a type with a record of the operations used; sorting
  is Go's stable sort; the order in which a Go map is ranged over is an argument.
\<close>

record 'f flops =
  fl_zero :: 'f
  fl_one :: 'f
  fl_of_nat :: "nat \<Rightarrow> 'f"
  fl_neg :: "'f \<Rightarrow> 'f"
  fl_add :: "'f \<Rightarrow> 'f \<Rightarrow> 'f"
  fl_mul :: "'f \<Rightarrow> 'f \<Rightarrow> 'f"
  fl_div :: "'f \<Rightarrow> 'f \<Rightarrow> 'f"
  fl_sqrt :: "'f \<Rightarrow> 'f"
  fl_lt :: "'f \<Rightarrow> 'f \<Rightarrow> bool"
  fl_eq :: "'f \<Rightarrow> 'f \<Rightarrow> bool"
  fl_wide :: "float32 \<Rightarrow> 'f"
  fl_narrow :: "'f \<Rightarrow> float32"

section \<open>Stable sorting by a comparison\<close>

fun insert_by :: "('a \<Rightarrow> 'a \<Rightarrow> bool) \<Rightarrow> 'a \<Rightarrow> 'a list \<Rightarrow> 'a list" where
  "insert_by lt x [] = [x]"
| "insert_by lt x (y # ys) = (if lt y x then y # insert_by lt x ys else x # y # ys)"

definition SliceStable :: "('a \<Rightarrow> 'a \<Rightarrow> bool) \<Rightarrow> 'a list \<Rightarrow> 'a list" where
  "SliceStable lt xs = foldr (insert_by lt) xs []"

lemma mset_insert_by: "mset (insert_by lt x xs) = add_mset x (mset xs)"
  by (induction xs) auto

lemma mset_SliceStable: "mset (SliceStable lt xs) = mset xs"
  by (induction xs) (simp_all add: SliceStable_def mset_insert_by)

lemma set_SliceStable: "set (SliceStable lt xs) = set xs"
  by (metis mset_SliceStable set_mset_mset)

definition strict_total_on :: "('a \<Rightarrow> 'a \<Rightarrow> bool) \<Rightarrow> 'a set \<Rightarrow> bool" where
  "strict_total_on lt A \<longleftrightarrow> (\<forall>x \<in> A. \<not> lt x x) \<and> (\<forall>x \<in> A. \<forall>y \<in> A. \<forall>z \<in> A. lt x y \<longrightarrow> lt y z \<longrightarrow> lt x z) \<and>
     (\<forall>x \<in> A. \<forall>y \<in> A. x \<noteq> y \<longrightarrow> lt x y \<or> lt y x)"

lemma strict_total_on_subset: "strict_total_on lt A \<Longrightarrow> B \<subseteq> A \<Longrightarrow> strict_total_on lt B"
  unfolding strict_total_on_def subset_iff by meson

lemma strict_total_asym: "strict_total_on lt A \<Longrightarrow> a \<in> A \<Longrightarrow> b \<in> A \<Longrightarrow> lt a b \<Longrightarrow> \<not> lt b a"
  unfolding strict_total_on_def by meson

lemma strict_total_trans: "strict_total_on lt A \<Longrightarrow> a \<in> A \<Longrightarrow> b \<in> A \<Longrightarrow> c \<in> A \<Longrightarrow> lt a b \<Longrightarrow> lt b c \<Longrightarrow> lt a c"
  unfolding strict_total_on_def by meson

lemma strict_total_linear: "strict_total_on lt A \<Longrightarrow> a \<in> A \<Longrightarrow> b \<in> A \<Longrightarrow> a \<noteq> b \<Longrightarrow> lt a b \<or> lt b a"
  unfolding strict_total_on_def by meson

lemma sorted_insert_by:
  "sorted_wrt lt xs \<Longrightarrow> strict_total_on lt (insert x (set xs)) \<Longrightarrow> x \<notin> set xs \<Longrightarrow> sorted_wrt lt (insert_by lt x xs)"
proof (induction xs)
  case (Cons y ys)
  have set_ins: "set (insert_by lt x ys) = insert x (set ys)" by (metis mset_insert_by set_mset_add_mset_insert set_mset_mset)
  have sub: "strict_total_on lt (insert x (set ys))" by (rule strict_total_on_subset [OF Cons.prems(2)]) auto
  show ?case
  proof (cases "lt y x")
    case True
    then show ?thesis using Cons.IH [OF _ sub] Cons.prems by (simp add: set_ins)
  next
    case False
    then have xy: "lt x y" using strict_total_linear [OF Cons.prems(2), of x y] Cons.prems(3) by auto
    have "lt x z" if "z \<in> set ys" for z
    proof -
      have "lt y z" using Cons.prems(1) that by simp
      then show ?thesis using strict_total_trans [OF Cons.prems(2), of x y z] xy that by simp
    qed
    then show ?thesis using False xy Cons.prems(1) by simp
  qed
qed simp

lemma sorted_SliceStable: "distinct xs \<Longrightarrow> strict_total_on lt (set xs) \<Longrightarrow> sorted_wrt lt (SliceStable lt xs)"
proof (induction xs)
  case (Cons x xs)
  have "strict_total_on lt (set xs)" by (rule strict_total_on_subset [OF Cons.prems(2)]) auto
  with Cons have s: "sorted_wrt lt (SliceStable lt xs)" by simp
  have "SliceStable lt (x # xs) = insert_by lt x (SliceStable lt xs)" by (simp add: SliceStable_def)
  then show ?case using sorted_insert_by [OF s, of x] Cons.prems by (simp add: set_SliceStable)
qed (simp add: SliceStable_def)

lemma sorted_unique:
  "sorted_wrt lt xs \<Longrightarrow> sorted_wrt lt ys \<Longrightarrow> set xs = set ys \<Longrightarrow> strict_total_on lt (set xs) \<Longrightarrow> xs = ys"
proof (induction xs arbitrary: ys)
  case (Cons x xs)
  from Cons.prems(3) obtain y ys' where ys: "ys = y # ys'" by (cases ys) auto
  note irr = strict_total_asym [OF Cons.prems(4)]
  have nx: "x \<notin> set xs" using Cons.prems(1) irr [of x x] by auto
  have y: "y \<in> set (x # xs)" using Cons.prems(3) ys by simp
  have ny: "y \<notin> set ys'" using Cons.prems(2) irr [OF y y] ys by auto
  have "x = y"
  proof (rule ccontr)
    assume "x \<noteq> y"
    then have "y \<in> set xs" "x \<in> set ys'" using Cons.prems(3) ys by auto
    then have "lt x y" "lt y x" using Cons.prems(1,2) ys by auto
    then show False using irr [of x y] y by simp
  qed
  moreover have "set xs = set ys'" using Cons.prems(3) ys nx ny \<open>x = y\<close> by auto
  moreover have "strict_total_on lt (set xs)" by (rule strict_total_on_subset [OF Cons.prems(4)]) auto
  ultimately show ?case using Cons.IH [of ys'] Cons.prems(1,2) ys by simp
qed simp

section \<open>Similarity and fusion\<close>

definition toFloat32 :: "'f flops \<Rightarrow> 'f list \<Rightarrow> float32 list" where
  "toFloat32 o32 v = map (fl_narrow o32) v"

definition cosine :: "'f flops \<Rightarrow> float32 list \<Rightarrow> float32 list \<Rightarrow> 'f option" where
  "cosine fo a b =
    (if length a \<noteq> length b \<or> a = [] then None
     else let (dot, na, nb) = foldl (\<lambda>(dot, na, nb) (x, y).
            (fl_add fo dot (fl_mul fo (fl_wide fo x) (fl_wide fo y)), fl_add fo na (fl_mul fo (fl_wide fo x) (fl_wide fo x)),
             fl_add fo nb (fl_mul fo (fl_wide fo y) (fl_wide fo y)))) (fl_zero fo, fl_zero fo, fl_zero fo) (zip a b)
       in if fl_eq fo na (fl_zero fo) \<or> fl_eq fo nb (fl_zero fo) then None
          else let sim = fl_div fo dot (fl_mul fo (fl_sqrt fo na) (fl_sqrt fo nb))
               in Some (if fl_lt fo sim (fl_zero fo) then fl_zero fo else sim))"

definition add_total :: "'f flops \<Rightarrow> string \<Rightarrow> 'f \<Rightarrow> (string \<times> 'f) list \<Rightarrow> (string \<times> 'f) list" where
  "add_total fo i v m = map_put i (fl_add fo (case map_get m i of None \<Rightarrow> fl_zero fo | Some x \<Rightarrow> x) v) m"

definition max_score :: "'f flops \<Rightarrow> (string \<times> 'f) list \<Rightarrow> 'f" where
  "max_score fo hits = foldl (\<lambda>m (i, s). if fl_lt fo m s then s else m) (fl_zero fo) hits"

definition fuse_list :: "'f flops \<Rightarrow> (string \<times> 'f) list \<Rightarrow> (string \<times> 'f) list \<Rightarrow> (string \<times> 'f) list" where
  "fuse_list fo hits m =
    (let mx = max_score fo hits in
     if \<not> fl_lt fo (fl_zero fo) mx
     then foldl (\<lambda>m (i, s). add_total fo i (fl_div fo (fl_one fo) (fl_of_nat fo (length hits))) m) m hits
     else foldl (\<lambda>m (i, s). if fl_lt fo (fl_zero fo) s then add_total fo i (fl_div fo s mx) m else m) m hits)"

definition totals :: "'f flops \<Rightarrow> (string \<times> 'f) list list \<Rightarrow> (string \<times> 'f) list" where
  "totals fo rankings = foldl (\<lambda>m hits. fuse_list fo hits m) [] rankings"

definition better :: "'f flops \<Rightarrow> string \<times> 'f \<Rightarrow> string \<times> 'f \<Rightarrow> bool" where
  "better fo a b = (if \<not> fl_eq fo (snd a) (snd b) then fl_lt fo (snd b) (snd a) else fst a < fst b)"

definition fuseScores :: "'f flops \<Rightarrow> ((string \<times> 'f) list \<Rightarrow> (string \<times> 'f) list) \<Rightarrow> (string \<times> 'f) list list \<Rightarrow> (string \<times> 'f) list" where
  "fuseScores fo iter rankings = SliceStable (better fo) (iter (totals fo rankings))"

lemma go_map_add_total: "go_map m \<Longrightarrow> go_map (add_total fo i v m)"
  by (simp add: add_total_def)

lemma add_total_keys: "fst ` set (add_total fo i v m) = insert i (fst ` set m)"
  by (simp add: add_total_def map_put_keys)

lemma fuse_list_map: "go_map m \<Longrightarrow> go_map (fuse_list fo hits m)"
proof -
  have "go_map m \<Longrightarrow> go_map (foldl (\<lambda>m (i, s). add_total fo i d m) m hits)" for d
    by (induction hits arbitrary: m) (auto simp: go_map_add_total)
  moreover have "go_map m \<Longrightarrow> go_map (foldl (\<lambda>m (i, s). if fl_lt fo (fl_zero fo) s then add_total fo i (fl_div fo s mx) m else m) m hits)" for mx
    by (induction hits arbitrary: m) (auto simp: go_map_add_total)
  ultimately show "go_map m \<Longrightarrow> go_map (fuse_list fo hits m)" by (simp add: fuse_list_def Let_def)
qed

lemma foldl_keys:
  assumes "\<And>m h. fst ` set (f m h) \<subseteq> insert (fst h) (fst ` set m)"
  shows "fst ` set (foldl f m hits) \<subseteq> fst ` set m \<union> fst ` set hits"
proof (induction hits arbitrary: m)
  case (Cons h hits)
  from Cons [of "f m h"] assms [of m h] show ?case by (simp only: foldl_Cons list.set image_insert) blast
qed simp

lemma fuse_list_keys: "fst ` set (fuse_list fo hits m) \<subseteq> fst ` set m \<union> fst ` set hits"
proof (cases "fl_lt fo (fl_zero fo) (max_score fo hits)")
  case True
  have "fst ` set ((\<lambda>m (i, s). if fl_lt fo (fl_zero fo) s then add_total fo i (fl_div fo s mx) m else m) m h) \<subseteq> insert (fst h) (fst ` set m)"
    for mx m h using add_total_keys [of fo "fst h" "fl_div fo (snd h) mx" m] by (cases h) auto
  from foldl_keys [OF this] True show ?thesis by (simp add: fuse_list_def)
next
  case False
  have "fst ` set ((\<lambda>m (i, s). add_total fo i d m) m h) \<subseteq> insert (fst h) (fst ` set m)" for d m h
    using add_total_keys [of fo "fst h" d m] by (cases h) auto
  from foldl_keys [OF this] False show ?thesis by (simp add: fuse_list_def)
qed

lemma totals_map: "go_map (totals fo rankings)"
proof -
  have "go_map m \<Longrightarrow> go_map (foldl (\<lambda>m hits. fuse_list fo hits m) m rankings)" for m
    by (induction rankings arbitrary: m) (simp_all add: fuse_list_map)
  then show ?thesis by (simp add: totals_def)
qed

lemma totals_keys: "fst ` set (totals fo rankings) \<subseteq> (\<Union>hits \<in> set rankings. fst ` set hits)"
proof -
  have "fst ` set (foldl (\<lambda>m hits. fuse_list fo hits m) m rankings) \<subseteq> fst ` set m \<union> (\<Union>hits \<in> set rankings. fst ` set hits)" for m
  proof (induction rankings arbitrary: m)
    case (Cons hits rankings)
    then show ?case using fuse_list_keys [of fo hits m] Cons [of "fuse_list fo hits m"] by (simp, blast)
  qed simp
  from this [of "[]"] show ?thesis by (simp add: totals_def)
qed

text \<open>The comparison of floats without NaN: equality is an equivalence and less-than totally orders its classes.\<close>

definition ordered_scores :: "'f flops \<Rightarrow> 'f set \<Rightarrow> bool" where
  "ordered_scores fo A \<longleftrightarrow> (\<forall>x \<in> A. \<forall>y \<in> A. (fl_lt fo x y \<or> fl_eq fo x y \<or> fl_lt fo y x) \<and> (fl_lt fo x y \<longrightarrow> \<not> fl_eq fo x y \<and> \<not> fl_lt fo y x)) \<and>
     (\<forall>x \<in> A. fl_eq fo x x) \<and> (\<forall>x \<in> A. \<forall>y \<in> A. fl_eq fo x y \<longrightarrow> fl_eq fo y x) \<and>
     (\<forall>x \<in> A. \<forall>y \<in> A. \<forall>z \<in> A. (fl_eq fo x y \<longrightarrow> fl_eq fo y z \<longrightarrow> fl_eq fo x z) \<and> (fl_lt fo x y \<longrightarrow> fl_lt fo y z \<longrightarrow> fl_lt fo x z) \<and>
        (fl_lt fo x y \<longrightarrow> fl_eq fo y z \<longrightarrow> fl_lt fo x z) \<and> (fl_eq fo x y \<longrightarrow> fl_lt fo y z \<longrightarrow> fl_lt fo x z))"

lemma better_total:
  assumes "go_map m" "ordered_scores fo (snd ` set m)"
  shows "strict_total_on (better fo) (set m)"
proof -
  have cmp: "fl_lt fo s t \<or> fl_eq fo s t \<or> fl_lt fo t s" "fl_lt fo s t \<Longrightarrow> \<not> fl_eq fo s t" "fl_eq fo s s" "fl_eq fo s t \<Longrightarrow> fl_eq fo t s"
    if "s \<in> snd ` set m" "t \<in> snd ` set m" for s t using assms(2) that unfolding ordered_scores_def by meson+
  have tr: "fl_eq fo s t \<Longrightarrow> fl_eq fo t u \<Longrightarrow> fl_eq fo s u" "fl_lt fo s t \<Longrightarrow> fl_lt fo t u \<Longrightarrow> fl_lt fo s u"
    "fl_lt fo s t \<Longrightarrow> fl_eq fo t u \<Longrightarrow> fl_lt fo s u" "fl_eq fo s t \<Longrightarrow> fl_lt fo t u \<Longrightarrow> fl_lt fo s u"
    if "s \<in> snd ` set m" "t \<in> snd ` set m" "u \<in> snd ` set m" for s t u using assms(2) that unfolding ordered_scores_def by meson+
  have snd: "x \<in> set m \<Longrightarrow> snd x \<in> snd ` set m" for x by simp
  have keys: "fst x = fst y \<Longrightarrow> x = y" if "x \<in> set m" "y \<in> set m" for x y
    using assms(1) that by (auto simp: distinct_map inj_on_def)
  show ?thesis
    unfolding strict_total_on_def
  proof (intro conjI ballI impI)
    fix x assume "x \<in> set m"
    then show "\<not> better fo x x" using cmp(3) [OF snd snd] by (simp add: better_def)
  next
    fix x y z assume m: "x \<in> set m" "y \<in> set m" "z \<in> set m" and b: "better fo x y" "better fo y z"
    note s = snd [OF m(1)] snd [OF m(2)] snd [OF m(3)]
    show "better fo x z"
    proof (cases "fl_eq fo (snd x) (snd y)")
      case xy: True
      show ?thesis
      proof (cases "fl_eq fo (snd y) (snd z)")
        case True
        then show ?thesis using xy b tr(1) [OF s] by (auto simp: better_def)
      next
        case False
        then have "fl_lt fo (snd z) (snd y)" using b(2) by (simp add: better_def)
        then have "fl_lt fo (snd z) (snd x)" using tr(3) [OF s(3,2,1)] cmp(4) [OF s(1,2)] xy by blast
        then show ?thesis using cmp(2) [OF s(3,1)] cmp(4) [OF s(1,3)] by (auto simp: better_def)
      qed
    next
      case xy: False
      then have lt: "fl_lt fo (snd y) (snd x)" using b(1) by (simp add: better_def)
      have "fl_lt fo (snd z) (snd x)"
      proof (cases "fl_eq fo (snd y) (snd z)")
        case True
        then show ?thesis using tr(4) [OF s(3,2,1)] cmp(4) [OF s(2,3)] lt by blast
      next
        case False
        then have "fl_lt fo (snd z) (snd y)" using b(2) by (simp add: better_def)
        then show ?thesis using tr(2) [OF s(3,2,1)] lt by blast
      qed
      then show ?thesis using cmp(2) [OF s(3,1)] cmp(4) [OF s(1,3)] by (auto simp: better_def)
    qed
  next
    fix x y assume m: "x \<in> set m" "y \<in> set m" and "x \<noteq> y"
    then have "fst x \<noteq> fst y" using keys by blast
    then show "better fo x y \<or> better fo y x"
      using cmp(1) [OF snd [OF m(1)] snd [OF m(2)]] cmp(4) [OF snd [OF m(1)] snd [OF m(2)]] cmp(4) [OF snd [OF m(2)] snd [OF m(1)]]
      by (auto simp: better_def)
  qed
qed

lemma fuse_sorted:
  assumes "mset (iter (totals fo rankings)) = mset (totals fo rankings)" "ordered_scores fo (snd ` set (totals fo rankings))"
  shows "sorted_wrt (better fo) (fuseScores fo iter rankings)" "set (fuseScores fo iter rankings) = set (totals fo rankings)"
proof -
  have set: "set (iter (totals fo rankings)) = set (totals fo rankings)" using assms(1) by (metis set_mset_mset)
  have "distinct (totals fo rankings)" using totals_map [of fo rankings] by (simp add: distinct_map)
  then have "distinct (iter (totals fo rankings))" using assms(1) by (metis mset_eq_imp_distinct_iff)
  then show "sorted_wrt (better fo) (fuseScores fo iter rankings)"
    using better_total [OF totals_map assms(2)] by (simp add: fuseScores_def sorted_SliceStable set)
  show "set (fuseScores fo iter rankings) = set (totals fo rankings)" by (simp add: fuseScores_def set_SliceStable set)
qed

text \<open>
  Fusion is deterministic although Go ranges over maps in random order: whatever the
  iteration order, fuseScores returns the same list, each id once, best score first with ties by
  id, and only ids that one of the rankings ranked.
\<close>

theorem fuseScores_deterministic:
  assumes "mset (iter (totals fo rankings)) = mset (totals fo rankings)" "mset (iter' (totals fo rankings)) = mset (totals fo rankings)"
    "ordered_scores fo (snd ` set (totals fo rankings))"
  shows "fuseScores fo iter rankings = fuseScores fo iter' rankings \<and> sorted_wrt (better fo) (fuseScores fo iter rankings) \<and>
    distinct (map fst (fuseScores fo iter rankings)) \<and>
    fst ` set (fuseScores fo iter rankings) \<subseteq> (\<Union>hits \<in> set rankings. fst ` set hits)"
proof -
  note a = fuse_sorted [of iter, OF assms(1,3)] and b = fuse_sorted [of iter', OF assms(2,3)]
  have "fuseScores fo iter rankings = fuseScores fo iter' rankings"
    using sorted_unique [OF a(1) b(1)] a(2) b(2) better_total [OF totals_map assms(3)] by simp
  moreover have "mset (fuseScores fo iter rankings) = mset (totals fo rankings)"
    using assms(1) by (simp add: fuseScores_def mset_SliceStable)
  then have "distinct (map fst (fuseScores fo iter rankings))"
    using totals_map [of fo rankings] by (metis mset_eq_imp_distinct_iff mset_map)
  ultimately show ?thesis using a totals_keys [of fo rankings] by simp
qed

definition int_flops :: "int flops" where
  "int_flops = \<lparr>fl_zero = 0, fl_one = 100, fl_of_nat = int, fl_neg = uminus, fl_add = (+), fl_mul = (*), fl_div = (\<lambda>a b. 100 * a div b),
     fl_sqrt = id, fl_lt = (<), fl_eq = (=), fl_wide = uint, fl_narrow = of_int\<rparr>"

lemma int_ordered: "ordered_scores int_flops A"
  by (auto simp: ordered_scores_def int_flops_def)

theorem fuseScores_deterministic_witness:
  "fuseScores int_flops rev [[(''a'', 4), (''b'', 2)], [(''b'', 9), (''c'', 9)]] = [(''b'', 150), (''a'', 100), (''c'', 100)] \<and>
   fuseScores int_flops id [[(''a'', 4), (''b'', 2)], [(''b'', 9), (''c'', 9)]] = [(''b'', 150), (''a'', 100), (''c'', 100)]"
proof -
  have "fuseScores int_flops id [[(''a'', 4), (''b'', 2)], [(''b'', 9), (''c'', 9)]] = [(''b'', 150), (''a'', 100), (''c'', 100)]"
    by (simp add: fuseScores_def totals_def fuse_list_def max_score_def add_total_def int_flops_def SliceStable_def better_def)
  then show ?thesis
    using fuseScores_deterministic [of rev int_flops "[[(''a'', 4), (''b'', 2)], [(''b'', 9), (''c'', 9)]]" id] int_ordered by simp
qed

section \<open>Recall\<close>

definition candidateFactor :: nat where "candidateFactor = 4"

text \<open>What the embedder source says: off, or a model and the answer of Embed (None on an error).\<close>

type_synonym 'f embed_answer = "(string \<times> 'f list list option) option"

definition vectorSearch :: "'f flops \<Rightarrow> string \<Rightarrow> 'f list list option \<Rightarrow> string \<Rightarrow> nat \<Rightarrow> mem_db \<Rightarrow> (string \<times> 'f) list" where
  "vectorSearch fo model answer siloID limit db =
    (case answer of None \<Rightarrow> [] | Some [] \<Rightarrow> []
     | Some (v # _) \<Rightarrow>
       (let queryVec = toFloat32 fo v in
        case Store_EmbeddingsBySilo siloID model db of
          Inl _ \<Rightarrow> []
        | Inr stored \<Rightarrow>
           take limit (SliceStable (\<lambda>a b. fl_lt fo (snd b) (snd a))
             (List.map_filter (\<lambda>(i, w). map_option (\<lambda>s. (i, s)) (cosine fo queryVec w)) stored))))"

record 'f RecallResult =
  rr_ID :: string
  rr_Content :: string
  rr_Score :: 'f
  rr_Metadata :: "(string \<times> json) list option"

fun put_members :: "(string \<times> json) list \<Rightarrow> (string \<times> json) list \<Rightarrow> (string \<times> json) list" where
  "put_members [] m = m"
| "put_members ((k, v) # kvs) m = put_members kvs (map_put k v m)"

text \<open>Unmarshal into a map: null and objects succeed, anything else leaves nothing.\<close>

definition meta_of_text :: "string \<Rightarrow> (string \<times> json) list option" where
  "meta_of_text s = (if s = [] then None else case json_parse s of Some (JObj kvs) \<Rightarrow> Some (put_members kvs []) | _ \<Rightarrow> None)"

text \<open>The fetch of the fused hits; a record deleted between the search and the fetch is skipped.\<close>

fun fetch_hits :: "gcm \<Rightarrow> mem_cipher \<Rightarrow> string \<Rightarrow> mem_db \<Rightarrow> (string \<times> 'f) list \<Rightarrow> mem_err + 'f RecallResult list" where
  "fetch_hits g c siloID db [] = Inr []"
| "fetch_hits g c siloID db ((i, score) # hits) =
     (case Store_Get siloID i db of
        None \<Rightarrow> fetch_hits g c siloID db hits
      | Some r \<Rightarrow> (case cipher_Open g c siloID (mr_Content r) of
          Inl e \<Rightarrow> Inl e
        | Inr pt \<Rightarrow> (case fetch_hits g c siloID db hits of
            Inl e \<Rightarrow> Inl e
          | Inr rs \<Rightarrow> Inr (\<lparr>rr_ID = mr_ID r, rr_Content = pt, rr_Score = score, rr_Metadata = meta_of_text (mr_MetadataJSON r)\<rparr> # rs))))"

text \<open>
  The environment of one recall: FTS5, the map iteration order, the embedder's answer, whether
  the queries succeed, and the tables as they are when the records are fetched.
\<close>

record 'f recall_env =
  re_fts :: "string \<Rightarrow> (nat \<times> string) list \<Rightarrow> (nat \<times> 'f) list"
  re_iter :: "(string \<times> 'f) list \<Rightarrow> (string \<times> 'f) list"
  re_embed :: "'f embed_answer"
  re_kw_ok :: bool
  re_vec_ok :: bool
  re_get_ok :: bool
  re_later :: mem_db

definition recall_limit :: "int \<Rightarrow> nat" where
  "recall_limit limit = (if limit \<le> 0 then 10 else nat limit)"

definition recall :: "'f flops \<Rightarrow> gcm \<Rightarrow> 'f recall_env \<Rightarrow> mem_cipher \<Rightarrow> string \<Rightarrow> string \<Rightarrow> int \<Rightarrow> mem_db \<Rightarrow> mem_err + 'f RecallResult list" where
  "recall fo g e c siloID query limit db =
    (let lim = recall_limit limit; fetch = lim * candidateFactor in
     if \<not> re_kw_ok e then Inl ErrDB
     else let keyword = Store_KeywordSearch (re_fts e) (fl_neg fo) siloID query fetch db;
              vector = (case re_embed e of None \<Rightarrow> []
                        | Some (model, answer) \<Rightarrow> if re_vec_ok e then vectorSearch fo model answer siloID fetch db else []);
              fused = take lim (fuseScores fo (re_iter e) [keyword, vector])
          in if \<not> re_get_ok e \<and> fused \<noteq> [] then Inl ErrDB else fetch_hits g c siloID (re_later e) fused)"

text \<open>Every stored blob opens under its own silo, to the text its index entry was fed.\<close>

definition sealed :: "gcm \<Rightarrow> mem_cipher \<Rightarrow> mem_db \<Rightarrow> bool" where
  "sealed g c db \<longleftrightarrow> (\<forall>r \<in> set (db_rows db). \<exists>pt. cipher_Open g c (mr_SiloID r) (mr_Content r) = Inr pt \<and> (mr_rowid r, pt) \<in> set (db_fts db))"

lemma fetch_hits_ok:
  assumes "sealed g c db" "db_inv db"
  shows "\<exists>rs. fetch_hits g c siloID db hits = Inr rs \<and> length rs \<le> length hits \<and>
    map rr_ID rs = filter (\<lambda>i. Store_Get siloID i db \<noteq> None) (map fst hits) \<and>
    (\<forall>r \<in> set rs. \<exists>m. Store_Get siloID (rr_ID r) db = Some m \<and> cipher_Open g c siloID (mr_Content m) = Inr (rr_Content r))"
proof (induction hits)
  case (Cons h hits)
  obtain i score where h: "h = (i, score)" by (cases h)
  from Cons obtain rs where rs: "fetch_hits g c siloID db hits = Inr rs" "length rs \<le> length hits"
    "map rr_ID rs = filter (\<lambda>i. Store_Get siloID i db \<noteq> None) (map fst hits)"
    "\<forall>r \<in> set rs. \<exists>m. Store_Get siloID (rr_ID r) db = Some m \<and> cipher_Open g c siloID (mr_Content m) = Inr (rr_Content r)" by blast
  show ?case
  proof (cases "Store_Get siloID i db")
    case None
    then show ?thesis using rs h by simp
  next
    case (Some m)
    then have m: "m \<in> set (db_rows db)" "mr_ID m = i" "mr_SiloID m = siloID" using Get_iff [OF assms(2)] by auto
    then obtain pt where "cipher_Open g c siloID (mr_Content m) = Inr pt" using assms(1) by (auto simp: sealed_def)
    then show ?thesis using rs h Some m by auto
  qed
qed simp

lemma cosine_hit: "(i, s) \<in> set (List.map_filter (\<lambda>(i, w). map_option (Pair i) (cosine fo q w)) stored) \<Longrightarrow> i \<in> fst ` set stored"
  by (auto simp: List.map_filter_def image_iff) force

lemma vectorSearch_ids:
  assumes "db_inv db" "i \<in> fst ` set (vectorSearch fo model answer siloID limit db)"
  shows "\<exists>r \<in> set (db_rows db). mr_ID r = i \<and> mr_SiloID r = siloID"
proof -
  obtain v vs where a: "answer = Some (v # vs)" using assms(2) by (auto simp: vectorSearch_def split: option.splits list.splits)
  obtain stored where st: "Store_EmbeddingsBySilo siloID model db = Inr stored"
    "\<forall>i \<in> fst ` set stored. \<exists>r \<in> set (db_rows db). mr_ID r = i \<and> mr_SiloID r = siloID"
    using EmbeddingsBySilo_ok [OF assms(1)] by blast
  have "i \<in> fst ` set stored"
    using assms(2) a st(1) by (auto simp: vectorSearch_def set_SliceStable dest!: in_set_takeD dest: cosine_hit)
  then show ?thesis using st(2) by blast
qed

lemma keyword_ids:
  "i \<in> fst ` set (Store_KeywordSearch fts neg siloID query limit db) \<Longrightarrow> \<exists>r \<in> set (db_rows db). mr_ID r = i \<and> mr_SiloID r = siloID"
  by (auto simp: Store_KeywordSearch_def Let_def split: if_splits dest!: in_set_takeD)

text \<open>
  C27. Recall is confined to its silo and never fails on stored data: over well-formed tables
  whose blobs are sealed, with the queries succeeding, it returns at most limit results (ten when
  the limit is not positive), each a memory that is in this silo when it is fetched, with exactly
  its decrypted content, whatever FTS5, the embedder and concurrent deletions do.
\<close>

theorem recall_confined:
  assumes "db_inv (re_later e)" "sealed g c (re_later e)" "re_kw_ok e" "re_get_ok e"
  shows "\<exists>rs. recall fo g e c siloID query limit db = Inr rs \<and> length rs \<le> recall_limit limit \<and>
    (\<forall>r \<in> set rs. \<exists>m \<in> set (db_rows (re_later e)). mr_ID m = rr_ID r \<and> mr_SiloID m = siloID \<and>
       cipher_Open g c siloID (mr_Content m) = Inr (rr_Content r) \<and> (mr_rowid m, rr_Content r) \<in> set (db_fts (re_later e)))"
proof -
  let ?kw = "Store_KeywordSearch (re_fts e) (fl_neg fo) siloID query (recall_limit limit * candidateFactor) db"
  let ?vec = "case re_embed e of None \<Rightarrow> [] | Some (model, answer) \<Rightarrow>
    if re_vec_ok e then vectorSearch fo model answer siloID (recall_limit limit * candidateFactor) db else []"
  let ?hits = "take (recall_limit limit) (fuseScores fo (re_iter e) [?kw, ?vec])"
  from fetch_hits_ok [OF assms(2,1), of siloID ?hits] obtain rs where rs: "fetch_hits g c siloID (re_later e) ?hits = Inr rs"
    "length rs \<le> length ?hits"
    "\<forall>r \<in> set rs. \<exists>m. Store_Get siloID (rr_ID r) (re_later e) = Some m \<and> cipher_Open g c siloID (mr_Content m) = Inr (rr_Content r)" by blast
  have "recall fo g e c siloID query limit db = Inr rs" using rs(1) assms(3,4) by (simp add: recall_def Let_def)
  moreover have "length rs \<le> recall_limit limit" using rs(2) by simp
  moreover have "\<exists>m \<in> set (db_rows (re_later e)). mr_ID m = rr_ID r \<and> mr_SiloID m = siloID \<and>
      cipher_Open g c siloID (mr_Content m) = Inr (rr_Content r) \<and> (mr_rowid m, rr_Content r) \<in> set (db_fts (re_later e))"
    if r: "r \<in> set rs" for r
  proof -
    from rs(3) r obtain m where m: "Store_Get siloID (rr_ID r) (re_later e) = Some m" "cipher_Open g c siloID (mr_Content m) = Inr (rr_Content r)" by blast
    then have "m \<in> set (db_rows (re_later e))" "mr_ID m = rr_ID r" "mr_SiloID m = siloID" using Get_iff [OF assms(1)] by auto
    then show ?thesis using m(2) assms(2) by (auto simp: sealed_def) (metis sum.inject(2))
  qed
  ultimately show ?thesis by blast
qed

definition demo_gcm :: gcm where
  "demo_gcm = \<lparr>gcm_seal = (\<lambda>k n a p. a @ CHR 0x00 # p),
     gcm_open = (\<lambda>k n a ct. if HasPrefix ct (a @ [CHR 0x00]) then Some (drop (length a + 1) ct) else None)\<rparr>"

lemma demo_gcm_law: "gcm_law demo_gcm"
  by (auto simp: gcm_law_def demo_gcm_def HasPrefix_def) (metis append.assoc append_Cons append_Nil append_take_drop_id)

definition demo_prefix :: bytes where
  "demo_prefix = replicate 12 (CHR ''n'')"

lemma length_demo_prefix [simp]: "length demo_prefix = 12"
  by (simp add: demo_prefix_def)

definition demo_row :: "nat \<Rightarrow> string \<Rightarrow> string \<Rightarrow> string \<Rightarrow> mem_record" where
  "demo_row n i s p = \<lparr>mr_rowid = n, mr_ID = i, mr_SiloID = s, mr_Content = demo_prefix @ s @ CHR 0x00 # p,
     mr_MetadataJSON = [], mr_CreatedAt = ''t'', mr_UpdatedAt = ''t''\<rparr>"

definition demo_db :: mem_db where
  "demo_db = \<lparr>db_rows = [demo_row 1 ''a'' ''s1'' ''tea'', demo_row 2 ''b'' ''s2'' ''tea''], db_fts = [(1, ''tea''), (2, ''tea'')], db_emb = []\<rparr>"

definition demo_recall :: "int recall_env" where
  "demo_recall = \<lparr>re_fts = (\<lambda>expr docs. map (\<lambda>(n, t). (n, - int n)) docs), re_iter = id, re_embed = None, re_kw_ok = True, re_vec_ok = True,
     re_get_ok = True, re_later = demo_db\<rparr>"

lemma demo_open: "cipher_Open demo_gcm (AEADCipher k) s (demo_prefix @ x) = (if HasPrefix x (s @ [CHR 0x00]) then Inr (drop (length s + 1) x) else Inl ErrDecrypt)"
  by (simp add: cipher_Open_def gcmNonceSize_def demo_gcm_def)

lemma demo_sealed: "db_inv demo_db" "sealed demo_gcm (AEADCipher k) demo_db"
  by (simp_all add: db_inv_def sealed_def demo_db_def demo_row_def demo_open HasPrefix_def)

theorem recall_confined_witness:
  "\<exists>rs. recall int_flops demo_gcm demo_recall (AEADCipher ''k'') ''s2'' ''tea'' 0 demo_db = Inr rs \<and>
     map (\<lambda>r. (rr_ID r, rr_Content r)) rs = [(''b'', ''tea'')]"
proof -
  have fields: "ftsMatchExpr ''tea'' \<noteq> []" by (simp add: ftsMatchExpr_def Fields_def is_space_def quote_term_def)
  have "Store_KeywordSearch (re_fts demo_recall) uminus ''s2'' ''tea'' n demo_db = take n [(''b'', 2)]" for n
    using fields by (simp add: Store_KeywordSearch_def demo_recall_def demo_db_def demo_row_def)
  then have "recall int_flops demo_gcm demo_recall (AEADCipher ''k'') ''s2'' ''tea'' 0 demo_db =
      fetch_hits demo_gcm (AEADCipher ''k'') ''s2'' demo_db [(''b'', 100)]"
    by (simp add: recall_def Let_def demo_recall_def recall_limit_def candidateFactor_def fuseScores_def totals_def fuse_list_def max_score_def
        add_total_def int_flops_def SliceStable_def)
  moreover have "db_inv (re_later demo_recall)" "sealed demo_gcm (AEADCipher ''k'') (re_later demo_recall)" "re_kw_ok demo_recall" "re_get_ok demo_recall"
    using demo_sealed by (simp_all add: demo_recall_def)
  from recall_confined [OF this, of int_flops "''s2''" "''tea''" 0 demo_db]
  obtain rs where "recall int_flops demo_gcm demo_recall (AEADCipher ''k'') ''s2'' ''tea'' 0 demo_db = Inr rs" by blast
  ultimately show ?thesis by (auto simp: demo_db_def demo_row_def Store_Get_def demo_open HasPrefix_def)
qed

end
