(* ===== verification/Memory.thy ===== *)
theory Memory
  imports Recall Config
begin

text \<open>
  The memory capability and its HTTP surface (internal/memory/capability.go, list.go, api.go).
  The world is the capability, the database file and the rest of the disk, so that a process
  restart is a step. The specification is a map from silo and id to the remembered text and its
  metadata; the lemmas show that every operation implements it, across restarts and failures.
\<close>

section \<open>The capability\<close>

record mem_cap =
  mc_cipher :: mem_cipher
  mc_open :: bool   \<comment> \<open>the store handle is not nil\<close>

record mem_world =
  mw_cap :: mem_cap
  mw_db :: mem_db
  mw_disk :: disk

definition NewMemory :: mem_cap where
  "NewMemory = \<lparr>mc_cipher = PlaintextCipher, mc_open = False\<rparr>"

definition MemCap_Enabled :: "Config \<Rightarrow> bool" where
  "MemCap_Enabled cfg \<longleftrightarrow> cap_Memory (c_Capabilities cfg)"

text \<open>What a start meets: the resolved data directory, randomness for a new key, its file write, the database.\<close>

record start_env =
  se_dir :: "string option"
  se_rnd :: "bytes option"
  se_write :: wfa_env
  se_db_ok :: bool

definition MemCap_Start :: "start_env \<Rightarrow> mem_world \<Rightarrow> mem_world \<times> mem_err option" where
  "MemCap_Start e w =
    (if mc_open (mw_cap w) then (w, None)
     else case se_dir e of
       None \<Rightarrow> (w, Some ErrNoDataDir)
     | Some dataDir \<Rightarrow>
        (case (case mc_cipher (mw_cap w) of
                 AEADCipher k \<Rightarrow> (Inr (AEADCipher k), mw_disk w)
               | PlaintextCipher \<Rightarrow> NewAEADCipher (se_rnd e) (se_write e) dataDir (mw_disk w)) of
           (Inl err, d) \<Rightarrow> (w\<lparr>mw_disk := d\<rparr>, Some err)
         | (Inr c, d) \<Rightarrow>
            let w1 = w\<lparr>mw_disk := d, mw_cap := (mw_cap w)\<lparr>mc_cipher := c\<rparr>\<rparr>
            in if \<not> se_db_ok e then (w1, Some ErrDB)
               else (w1\<lparr>mw_cap := (mw_cap w1)\<lparr>mc_open := True\<rparr>\<rparr>, None)))"

definition MemCap_Stop :: "bool \<Rightarrow> mem_world \<Rightarrow> mem_world \<times> mem_err option" where
  "MemCap_Stop close_ok w =
    (let w1 = w\<lparr>mw_cap := (mw_cap w)\<lparr>mc_open := False\<rparr>\<rparr>
     in (w1, if mc_open (mw_cap w) \<and> \<not> close_ok then Some ErrDB else None))"

text \<open>A new process over the same files.\<close>

definition Restart :: "mem_world \<Rightarrow> mem_world" where
  "Restart w = w\<lparr>mw_cap := NewMemory\<rparr>"

definition DefaultEmbedModel :: string where "DefaultEmbedModel = ''nomic-embed-text''"

definition embedModel :: "Config \<Rightarrow> string" where
  "embedModel cfg = (if c_EmbedModel cfg \<noteq> [] then c_EmbedModel cfg else DefaultEmbedModel)"

definition embedderSource :: "Config \<Rightarrow> 'f embed_answer \<Rightarrow> 'f embed_answer" where
  "embedderSource cfg src = map_option (\<lambda>(model, a). (if model = [] then embedModel cfg else model, a)) src"

definition metadata_json :: "(string \<times> json) list \<Rightarrow> string" where
  "metadata_json metadata = (if metadata = [] then [] else json_text (JObj metadata))"

record 'f remember_env =
  rm_nonce :: "bytes option"
  rm_id :: string
  rm_now :: string
  rm_insert_ok :: bool
  rm_embed :: "'f embed_answer"
  rm_put_ok :: bool

definition best_effort_embed :: "'f flops \<Rightarrow> 'f remember_env \<Rightarrow> Config \<Rightarrow> mem_db \<Rightarrow> mem_db" where
  "best_effort_embed fo e cfg db =
    (case embedderSource cfg (rm_embed e) of
       Some (model, Some [v]) \<Rightarrow> fst (Store_PutEmbedding (rm_put_ok e) (rm_id e) model (toFloat32 fo v) db)
     | _ \<Rightarrow> db)"

definition Remember :: "'f flops \<Rightarrow> gcm \<Rightarrow> 'f remember_env \<Rightarrow> Config \<Rightarrow> string \<Rightarrow> string \<Rightarrow> (string \<times> json) list \<Rightarrow> mem_world
    \<Rightarrow> (mem_err + string) \<times> mem_world" where
  "Remember fo g e cfg siloID content metadata w =
    (if \<not> mc_open (mw_cap w) then (Inl ErrNotRunning, w)
     else case cipher_Seal g (rm_nonce e) (mc_cipher (mw_cap w)) siloID content of
       Inl err \<Rightarrow> (Inl err, w)
     | Inr blob \<Rightarrow>
        (case Store_Insert (rm_insert_ok e) (rm_now e) (rm_id e) siloID blob content (metadata_json metadata) (mw_db w) of
           (db, Some err) \<Rightarrow> (Inl err, w\<lparr>mw_db := db\<rparr>)
         | (db, None) \<Rightarrow> (Inr (rm_id e), w\<lparr>mw_db := best_effort_embed fo e cfg db\<rparr>)))"

definition Recall_op :: "'f flops \<Rightarrow> gcm \<Rightarrow> 'f recall_env \<Rightarrow> Config \<Rightarrow> string \<Rightarrow> string \<Rightarrow> int \<Rightarrow> mem_world \<Rightarrow> mem_err + 'f RecallResult list" where
  "Recall_op fo g e cfg siloID query limit w =
    (if \<not> mc_open (mw_cap w) then Inl ErrNotRunning
     else recall fo g (e\<lparr>re_embed := embedderSource cfg (re_embed e)\<rparr>) (mc_cipher (mw_cap w)) siloID query limit (mw_db w))"

definition Forget :: "bool \<Rightarrow> string \<Rightarrow> string \<Rightarrow> mem_world \<Rightarrow> (mem_err + bool) \<times> mem_world" where
  "Forget ok siloID i w =
    (if \<not> mc_open (mw_cap w) then (Inl ErrNotRunning, w)
     else case Store_Delete ok siloID i (mw_db w) of (db, r) \<Rightarrow> (r, w\<lparr>mw_db := db\<rparr>))"

definition Silos :: "mem_world \<Rightarrow> mem_err + (string \<times> nat) list" where
  "Silos w = (if \<not> mc_open (mw_cap w) then Inl ErrNotRunning else Inr (Store_Silos (mw_db w)))"

record mem_item =
  it_ID :: string
  it_Content :: string
  it_Metadata :: "(string \<times> json) list option"
  it_CreatedAt :: string
  it_UpdatedAt :: string

fun open_items :: "gcm \<Rightarrow> mem_cipher \<Rightarrow> string \<Rightarrow> mem_record list \<Rightarrow> mem_err + mem_item list" where
  "open_items g c siloID [] = Inr []"
| "open_items g c siloID (r # rs) = (case cipher_Open g c siloID (mr_Content r) of
     Inl e \<Rightarrow> Inl e
   | Inr pt \<Rightarrow> (case open_items g c siloID rs of Inl e \<Rightarrow> Inl e
       | Inr items \<Rightarrow> Inr (\<lparr>it_ID = mr_ID r, it_Content = pt, it_Metadata = meta_of_text (mr_MetadataJSON r),
           it_CreatedAt = mr_CreatedAt r, it_UpdatedAt = mr_UpdatedAt r\<rparr> # items)))"

definition List_op :: "gcm \<Rightarrow> string \<Rightarrow> mem_world \<Rightarrow> mem_err + mem_item list" where
  "List_op g siloID w =
    (if \<not> mc_open (mw_cap w) then Inl ErrNotRunning
     else open_items g (mc_cipher (mw_cap w)) siloID (Store_List siloID (mw_db w)))"

definition MemCap_Healthy :: "bool \<Rightarrow> bool \<Rightarrow> mem_world \<Rightarrow> bool \<times> string" where
  "MemCap_Healthy quick_ok silos_ok w =
    (if \<not> mc_open (mw_cap w) then (False, ''not started'')
     else if \<not> quick_ok then (False, ''quick_check failed'')
     else if \<not> silos_ok then (False, ''query failed'')
     else (True, show_nat (sum_list (map snd (Store_Silos (mw_db w)))) @ '' memories in '' @ show_nat (length (Store_Silos (mw_db w))) @ '' silos''))"

section \<open>Specification and invariant\<close>

type_synonym memories = "string \<times> string \<Rightarrow> (string \<times> string) option"

definition view :: "gcm \<Rightarrow> mem_cipher \<Rightarrow> mem_db \<Rightarrow> memories" where
  "view g c db = (\<lambda>(siloID, i). case Store_Get siloID i db of None \<Rightarrow> None
     | Some r \<Rightarrow> (case cipher_Open g c siloID (mr_Content r) of Inl _ \<Rightarrow> None | Inr pt \<Rightarrow> Some (pt, mr_MetadataJSON r)))"

definition key_on_disk :: "string \<Rightarrow> bytes \<Rightarrow> disk \<Rightarrow> bool" where
  "key_on_disk dataDir k d \<longleftrightarrow> (\<exists>raw. read_path (path_join dataDir memoryKeyFile) d = Some raw \<and> hex_decode (TrimSpace raw) = Some k \<and> length k = 32)"

text \<open>The world of a node whose data key is k.\<close>

definition mem_inv :: "gcm \<Rightarrow> string \<Rightarrow> bytes \<Rightarrow> mem_world \<Rightarrow> bool" where
  "mem_inv g dataDir k w \<longleftrightarrow> db_inv (mw_db w) \<and> sealed g (AEADCipher k) (mw_db w) \<and> key_on_disk dataDir k (mw_disk w) \<and>
     mc_cipher (mw_cap w) \<in> {PlaintextCipher, AEADCipher k} \<and> (mc_open (mw_cap w) \<longrightarrow> mc_cipher (mw_cap w) = AEADCipher k)"

lemma load_key: "key_on_disk dataDir k d \<Longrightarrow> NewAEADCipher rnd env dataDir d = (Inr (AEADCipher k), d)"
  by (auto simp: key_on_disk_def NewAEADCipher_def loadOrCreateMemoryKey_def ReadFile_def read_path_def)

lemma Start_inv:
  assumes "mem_inv g dataDir k w" "se_dir e = Some dataDir"
  shows "mem_inv g dataDir k (fst (MemCap_Start e w)) \<and> mw_db (fst (MemCap_Start e w)) = mw_db w"
  using assms load_key [of dataDir k "mw_disk w" "se_rnd e" "se_write e"]
  by (auto simp: mem_inv_def MemCap_Start_def Let_def split: mem_cipher.splits)

lemma Start_runs:
  assumes "mem_inv g dataDir k w" "se_dir e = Some dataDir" "se_db_ok e"
  shows "snd (MemCap_Start e w) = None \<and> mc_open (mw_cap (fst (MemCap_Start e w)))"
  using assms load_key [of dataDir k "mw_disk w" "se_rnd e" "se_write e"]
  by (auto simp: mem_inv_def MemCap_Start_def Let_def split: mem_cipher.splits)

lemma Stop_inv: "mem_inv g dataDir k w \<Longrightarrow> mem_inv g dataDir k (fst (MemCap_Stop ok w)) \<and> mw_db (fst (MemCap_Stop ok w)) = mw_db w"
  by (simp add: mem_inv_def MemCap_Stop_def Let_def)

lemma Restart_inv: "mem_inv g dataDir k w \<Longrightarrow> mem_inv g dataDir k (Restart w) \<and> mw_db (Restart w) = mw_db w"
  by (simp add: mem_inv_def Restart_def NewMemory_def)

lemma embed_frame: "db_rows (best_effort_embed fo e cfg db) = db_rows db \<and> db_fts (best_effort_embed fo e cfg db) = db_fts db"
  by (auto simp: best_effort_embed_def Store_PutEmbedding_def split: option.splits list.splits)

lemma embed_inv: "db_inv db \<Longrightarrow> db_inv (best_effort_embed fo e cfg db)"
  by (auto simp: best_effort_embed_def db_inv_PutEmbedding split: option.splits list.splits)

lemma view_cong: "db_rows db' = db_rows db \<Longrightarrow> view g c db' = view g c db"
  by (simp add: view_def Store_Get_def)

lemma sealed_cong: "db_rows db' = db_rows db \<Longrightarrow> db_fts db' = db_fts db \<Longrightarrow> sealed g c db' = sealed g c db"
  by (simp add: sealed_def)

lemma view_Some: "db_inv db \<Longrightarrow> view g c db (siloID, i) = Some (pt, m) \<longleftrightarrow>
  (\<exists>r \<in> set (db_rows db). mr_ID r = i \<and> mr_SiloID r = siloID \<and> mr_MetadataJSON r = m \<and> cipher_Open g c siloID (mr_Content r) = Inr pt)"
proof -
  assume inv: "db_inv db"
  have "view g c db (siloID, i) = Some (pt, m) \<longleftrightarrow>
      (\<exists>r. Store_Get siloID i db = Some r \<and> mr_MetadataJSON r = m \<and> cipher_Open g c siloID (mr_Content r) = Inr pt)"
    by (auto simp: view_def split: option.splits sum.splits)
  then show "view g c db (siloID, i) = Some (pt, m) \<longleftrightarrow>
      (\<exists>r \<in> set (db_rows db). mr_ID r = i \<and> mr_SiloID r = siloID \<and> mr_MetadataJSON r = m \<and> cipher_Open g c siloID (mr_Content r) = Inr pt)"
    unfolding Get_iff [OF inv] by blast
qed

lemma view_eqI:
  assumes "\<And>x y. v x = Some y \<longleftrightarrow> v' x = Some y"
  shows "v = v'"
proof
  fix x show "v x = v' x" by (metis assms not_Some_eq)
qed

lemma view_Insert:
  assumes "db_inv db" "Store_Insert ok now i siloID blob plain meta db = (db', None)" "cipher_Open g c siloID blob = Inr pt"
  shows "view g c db' = (view g c db)((siloID, i) \<mapsto> (pt, meta)) \<and> (\<forall>s. view g c db (s, i) = None)"
proof -
  have fresh: "i \<notin> mr_ID ` set (db_rows db)" using assms(2) by (auto simp: Store_Insert_def Let_def split: if_splits)
  have rows: "db_rows db' = db_rows db @ [\<lparr>mr_rowid = next_rowid db, mr_ID = i, mr_SiloID = siloID, mr_Content = blob,
            mr_MetadataJSON = meta, mr_CreatedAt = now, mr_UpdatedAt = now\<rparr>]"
    using assms(2) by (auto simp: Store_Insert_def Let_def split: if_splits)
  have inv': "db_inv db'" using db_inv_Insert [OF assms(1), of ok now i siloID blob plain meta] assms(2) by simp
  have none: "view g c db (s, i) = None" for s
    using fresh by (auto simp: view_def Store_Get_def find_Some_iff image_iff split: option.splits)
  have "view g c db' = (view g c db)((siloID, i) \<mapsto> (pt, meta))"
  proof (rule view_eqI)
    fix x y :: "string \<times> string"
    obtain s j where x: "x = (s, j)" by (cases x)
    obtain p m where y: "y = (p, m)" by (cases y)
    show "view g c db' x = Some y \<longleftrightarrow> ((view g c db)((siloID, i) \<mapsto> (pt, meta))) x = Some y"
      unfolding x y view_Some [OF inv'] fun_upd_apply using assms(3) none [of s] fresh view_Some [OF assms(1), of g c s j p m]
      by (auto simp: rows)
  qed
  with none show ?thesis by blast
qed

lemma sealed_Insert:
  assumes "sealed g c db" "Store_Insert ok now i siloID blob plain meta db = (db', None)" "cipher_Open g c siloID blob = Inr plain"
  shows "sealed g c db'"
  using assms by (fastforce simp: sealed_def Store_Insert_def Let_def split: if_splits)

lemma Insert_err: "Store_Insert ok now i siloID blob plain meta db = (db', Some e) \<Longrightarrow> db' = db"
  by (auto simp: Store_Insert_def Let_def split: if_splits)

lemma view_Delete:
  assumes "db_inv db" "Store_Delete ok siloID i db = (db', r)"
  shows "view g c db' = (if r = Inr True then (view g c db)((siloID, i) := None) else view g c db)"
    "r = Inr False \<Longrightarrow> view g c db (siloID, i) = None"
proof -
  have inv': "db_inv db'" using db_inv_Delete [OF assms(1), of ok siloID i] assms(2) by simp
  show "r = Inr False \<Longrightarrow> view g c db (siloID, i) = None"
    using assms(2) by (auto simp: Store_Delete_def view_def split: option.splits if_splits)
  show "view g c db' = (if r = Inr True then (view g c db)((siloID, i) := None) else view g c db)"
  proof (cases "r = Inr True")
    case False
    then have "db' = db" using assms(2) by (auto simp: Store_Delete_def split: option.splits if_splits)
    with False show ?thesis by simp
  next
    case True
    then obtain x where x: "Store_Get siloID i db = Some x" and rows: "db_rows db' = filter (\<lambda>y. mr_rowid y \<noteq> mr_rowid x) (db_rows db)"
      using assms(2) by (auto simp: Store_Delete_def split: option.splits if_splits)
    then have mem: "x \<in> set (db_rows db)" "mr_ID x = i" "mr_SiloID x = siloID" using Get_iff [OF assms(1)] by auto
    have only: "y = x" if "y \<in> set (db_rows db)" "mr_rowid y = mr_rowid x \<or> mr_ID y = i" for y
      using assms(1) mem that by (auto simp: db_inv_def distinct_map inj_on_def)
    have "view g c db' = (view g c db)((siloID, i) := None)"
    proof (rule view_eqI)
      fix z y :: "string \<times> string"
      obtain s j where z: "z = (s, j)" by (cases z)
      obtain p m where y: "y = (p, m)" by (cases y)
      show "view g c db' z = Some y \<longleftrightarrow> ((view g c db)((siloID, i) := None)) z = Some y"
        unfolding z y view_Some [OF inv'] fun_upd_apply rows using view_Some [OF assms(1), of g c s j p m] mem only by auto
    qed
    with True show ?thesis by simp
  qed
qed

lemma sealed_Delete:
  assumes "sealed g c db" "Store_Delete ok siloID i db = (db', r)"
  shows "sealed g c db'"
  using assms by (fastforce simp: sealed_def Store_Delete_def split: option.splits if_splits)

lemma open_items_ok:
  "\<forall>r \<in> set rs. \<exists>pt. cipher_Open g c siloID (mr_Content r) = Inr pt \<Longrightarrow>
   \<exists>items. open_items g c siloID rs = Inr items \<and> map it_ID items = map mr_ID rs \<and>
     (\<lambda>it. (it_ID it, it_Content it)) ` set items = {(mr_ID r, pt) |r pt. r \<in> set rs \<and> cipher_Open g c siloID (mr_Content r) = Inr pt}"
proof (induction rs)
  case (Cons r rs)
  then obtain items pt where "open_items g c siloID rs = Inr items" "map it_ID items = map mr_ID rs" "cipher_Open g c siloID (mr_Content r) = Inr pt"
    "(\<lambda>it. (it_ID it, it_Content it)) ` set items = {(mr_ID r, pt) |r pt. r \<in> set rs \<and> cipher_Open g c siloID (mr_Content r) = Inr pt}"
    by auto
  then show ?case by auto
qed simp

lemma set_Store_List: "set (Store_List siloID db) = {r \<in> set (db_rows db). mr_SiloID r = siloID}"
  by (simp add: Store_List_def)

lemma List_view:
  assumes "mem_inv g dataDir k w" "mc_open (mw_cap w)"
  shows "\<exists>items. List_op g siloID w = Inr items \<and> distinct (map it_ID items) \<and>
    (\<lambda>it. (it_ID it, it_Content it)) ` set items = {(i, p). \<exists>m. view g (AEADCipher k) (mw_db w) (siloID, i) = Some (p, m)}"
proof -
  have inv: "db_inv (mw_db w)" and se: "sealed g (AEADCipher k) (mw_db w)" and c: "mc_cipher (mw_cap w) = AEADCipher k"
    using assms by (auto simp: mem_inv_def)
  have "\<forall>r \<in> set (Store_List siloID (mw_db w)). \<exists>pt. cipher_Open g (AEADCipher k) siloID (mr_Content r) = Inr pt"
    using se by (auto simp: set_Store_List sealed_def)
  from open_items_ok [OF this] obtain items where items: "open_items g (AEADCipher k) siloID (Store_List siloID (mw_db w)) = Inr items"
    "map it_ID items = map mr_ID (Store_List siloID (mw_db w))"
    "(\<lambda>it. (it_ID it, it_Content it)) ` set items =
      {(mr_ID r, pt) |r pt. r \<in> set (Store_List siloID (mw_db w)) \<and> cipher_Open g (AEADCipher k) siloID (mr_Content r) = Inr pt}" by blast
  have "distinct (map mr_ID (Store_List siloID (mw_db w)))"
    using inv unfolding db_inv_def distinct_map Store_List_def by (simp add: inj_on_def)
  then have "distinct (map it_ID items)" unfolding items(2) .
  moreover have "{(mr_ID r, pt) |r pt. r \<in> set (Store_List siloID (mw_db w)) \<and> cipher_Open g (AEADCipher k) siloID (mr_Content r) = Inr pt}
      = {(i, p). \<exists>m. view g (AEADCipher k) (mw_db w) (siloID, i) = Some (p, m)}"
    unfolding view_Some [OF inv] set_Store_List by auto
  ultimately show ?thesis using items assms(2) c by (intro exI [of _ items]) (simp add: List_op_def)
qed

text \<open>
  C6. The memory capability implements a map from silo and id to text and metadata, whatever
  fails and across restarts. Remember either adds exactly one new entry or changes nothing;
  Forget removes exactly its entry, and only from the silo it names; starting, stopping and
  restarting change nothing; List returns exactly the silo's entries, decrypted.
\<close>

theorem memory_refines_map:
  assumes "gcm_law g" "mem_inv g dataDir k w" "\<forall>n. rm_nonce e = Some n \<longrightarrow> length n = gcmNonceSize" "se_dir st = Some dataDir"
  shows "(case Remember fo g e cfg siloID content meta w of (r, w') \<Rightarrow> mem_inv g dataDir k w' \<and>
      view g (AEADCipher k) (mw_db w') = (case r of Inl _ \<Rightarrow> view g (AEADCipher k) (mw_db w)
         | Inr i \<Rightarrow> (view g (AEADCipher k) (mw_db w))((siloID, i) \<mapsto> (content, metadata_json meta))) \<and>
      (case r of Inl _ \<Rightarrow> True | Inr i \<Rightarrow> \<forall>s. view g (AEADCipher k) (mw_db w) (s, i) = None)) \<and>
    (case Forget ok siloID i w of (r, w') \<Rightarrow> mem_inv g dataDir k w' \<and>
      view g (AEADCipher k) (mw_db w') = (if r = Inr True then (view g (AEADCipher k) (mw_db w))((siloID, i) := None) else view g (AEADCipher k) (mw_db w))) \<and>
    (\<forall>w' \<in> {fst (MemCap_Start st w), fst (MemCap_Stop ok w), Restart w}. mem_inv g dataDir k w' \<and>
      view g (AEADCipher k) (mw_db w') = view g (AEADCipher k) (mw_db w)) \<and>
    (mc_open (mw_cap w) \<longrightarrow> (\<exists>items. List_op g siloID w = Inr items \<and> distinct (map it_ID items) \<and>
      (\<lambda>it. (it_ID it, it_Content it)) ` set items = {(i, p). \<exists>m. view g (AEADCipher k) (mw_db w) (siloID, i) = Some (p, m)}))"
proof (intro conjI impI)
  note inv = assms(2) [unfolded mem_inv_def]
  let ?c = "AEADCipher k"
  show "case Remember fo g e cfg siloID content meta w of (r, w') \<Rightarrow> mem_inv g dataDir k w' \<and>
      view g ?c (mw_db w') = (case r of Inl _ \<Rightarrow> view g ?c (mw_db w)
         | Inr i \<Rightarrow> (view g ?c (mw_db w))((siloID, i) \<mapsto> (content, metadata_json meta))) \<and>
      (case r of Inl _ \<Rightarrow> True | Inr i \<Rightarrow> \<forall>s. view g ?c (mw_db w) (s, i) = None)"
  proof (cases "\<exists>blob db'. mc_open (mw_cap w) \<and> cipher_Seal g (rm_nonce e) ?c siloID content = Inr blob \<and>
      Store_Insert (rm_insert_ok e) (rm_now e) (rm_id e) siloID blob content (metadata_json meta) (mw_db w) = (db', None)")
    case False
    then have "\<exists>err. Remember fo g e cfg siloID content meta w = (Inl err, w)"
      using inv by (auto simp: Remember_def split: sum.splits prod.splits option.splits dest: Insert_err)
    then show ?thesis using assms(2) by auto
  next
    case True
    then obtain blob db' where b: "mc_open (mw_cap w)" "cipher_Seal g (rm_nonce e) ?c siloID content = Inr blob"
      "Store_Insert (rm_insert_ok e) (rm_now e) (rm_id e) siloID blob content (metadata_json meta) (mw_db w) = (db', None)" by blast
    have op: "cipher_Open g ?c siloID blob = Inr content" using Open_Seal_cipher [OF assms(1) b(2) assms(3)] .
    let ?db = "best_effort_embed fo e cfg db'"
    have r: "Remember fo g e cfg siloID content meta w = (Inr (rm_id e), w\<lparr>mw_db := ?db\<rparr>)"
      using b inv by (simp add: Remember_def)
    have "db_inv db'" using inv db_inv_Insert [of "mw_db w" "rm_insert_ok e" "rm_now e" "rm_id e" siloID blob content "metadata_json meta"] b(3) by simp
    then have "db_inv ?db" by (rule embed_inv)
    moreover have "sealed g ?c ?db"
      using sealed_Insert [OF _ b(3) op] inv sealed_cong [of ?db db' g ?c] embed_frame [of fo e cfg db'] by simp
    moreover have "view g ?c ?db = view g ?c db'" using view_cong embed_frame by metis
    ultimately show ?thesis using r inv view_Insert [OF _ b(3) op] by (auto simp: mem_inv_def)
  qed
  show "case Forget ok siloID i w of (r, w') \<Rightarrow> mem_inv g dataDir k w' \<and>
      view g ?c (mw_db w') = (if r = Inr True then (view g ?c (mw_db w))((siloID, i) := None) else view g ?c (mw_db w))"
  proof (cases "mc_open (mw_cap w)")
    case True
    obtain db' r where d: "Store_Delete ok siloID i (mw_db w) = (db', r)" by (metis surj_pair)
    then have "db_inv db'" "sealed g ?c db'"
      using inv db_inv_Delete [of "mw_db w" ok siloID i] sealed_Delete [of g ?c "mw_db w"] by auto
    then show ?thesis using d inv True view_Delete(1) [OF _ d, of g ?c] by (simp add: Forget_def mem_inv_def)
  qed (use assms(2) in \<open>simp add: Forget_def\<close>)
  show "\<forall>w' \<in> {fst (MemCap_Start st w), fst (MemCap_Stop ok w), Restart w}. mem_inv g dataDir k w' \<and> view g ?c (mw_db w') = view g ?c (mw_db w)"
    using Start_inv [OF assms(2,4)] Stop_inv [OF assms(2), of ok] Restart_inv [OF assms(2)] by auto
  show "\<exists>items. List_op g siloID w = Inr items \<and> distinct (map it_ID items) \<and>
      (\<lambda>it. (it_ID it, it_Content it)) ` set items = {(i, p). \<exists>m. view g ?c (mw_db w) (siloID, i) = Some (p, m)}" if "mc_open (mw_cap w)"
    using List_view [OF assms(2) that] .
qed

definition demo_world :: mem_world where
  "demo_world = \<lparr>mw_cap = \<lparr>mc_cipher = AEADCipher (replicate 32 (CHR ''k'')), mc_open = True\<rparr>, mw_db = empty_db,
     mw_disk = [(''d/memory.key'', \<lparr>f_mode = mode_0600, f_data = hex_encode (replicate 32 (CHR ''k''))\<rparr>)]\<rparr>"

definition demo_remember :: "int remember_env" where
  "demo_remember = \<lparr>rm_nonce = Some demo_prefix, rm_id = ''m1'', rm_now = ''t'', rm_insert_ok = True,
     rm_embed = Some ([], Some [[3, 4]]), rm_put_ok = True\<rparr>"

lemma demo_world_inv: "mem_inv demo_gcm ''d'' (replicate 32 (CHR ''k'')) demo_world"
  by (simp add: mem_inv_def demo_world_def db_inv_empty sealed_def key_on_disk_def read_path_def path_join_def memoryKeyFile_def)
    (simp add: empty_db_def)

theorem memory_refines_map_witness:
  "case Remember int_flops demo_gcm demo_remember Default ''s'' ''tea'' [] demo_world of (r, w') \<Rightarrow> r = Inr ''m1'' \<and>
     view demo_gcm (AEADCipher (replicate 32 (CHR ''k''))) (mw_db w') (''s'', ''m1'') = Some (''tea'', [])"
proof -
  let ?k = "replicate 32 (CHR ''k'')"
  have nonce: "\<forall>n. rm_nonce demo_remember = Some n \<longrightarrow> length n = gcmNonceSize" by (simp add: demo_remember_def gcmNonceSize_def)
  have st: "se_dir \<lparr>se_dir = Some ''d'', se_rnd = None, se_write = (NoFault, ''t''), se_db_ok = True\<rparr> = Some ''d''" by simp
  note m = memory_refines_map [OF demo_gcm_law demo_world_inv nonce st, where fo = int_flops and cfg = Default and siloID = "''s''"
      and content = "''tea''" and meta = "[]" and ok = True and i = "''m1''"]
  have "fst (Remember int_flops demo_gcm demo_remember Default ''s'' ''tea'' [] demo_world) = Inr ''m1''"
    by (simp add: Remember_def demo_world_def cipher_Seal_def demo_remember_def Store_Insert_def empty_db_def Let_def)
  then obtain w' where r: "Remember int_flops demo_gcm demo_remember Default ''s'' ''tea'' [] demo_world = (Inr ''m1'', w')"
    by (metis prod.collapse)
  from conjunct1 [OF m] show ?thesis unfolding r by (simp add: metadata_json_def)
qed

section \<open>The order of List\<close>

text \<open>
  time.RFC3339Nano: the text up to the seconds, then the fraction without its trailing zeros.
\<close>

definition nine_digits :: "nat \<Rightarrow> string" where
  "nine_digits ns = map (\<lambda>i. char_of (48 + ns div 10 ^ i mod 10)) [8, 7, 6, 5, 4, 3, 2, 1, 0]"

definition RFC3339Nano :: "string \<Rightarrow> nat \<Rightarrow> string" where
  "RFC3339Nano to_seconds ns = to_seconds @ (if ns = 0 then [] else CHR ''.'' # TrimRight (nine_digits ns) (CHR ''0'')) @ ''Z''"

lemma lexi: "x < y \<Longrightarrow> p @ x # u < p @ y # (v :: string)"
  by (induction p) auto

lemma nano_order: "RFC3339Nano base 123000000 < RFC3339Nano base 120000000" "RFC3339Nano base 123000000 \<noteq> []" "RFC3339Nano base 120000000 \<noteq> []"
proof -
  have digits: "TrimRight (nine_digits 120000000) (CHR ''0'') = ''12''" "TrimRight (nine_digits 123000000) (CHR ''0'') = ''123''"
    by (simp_all add: nine_digits_def TrimRight_def char_of_eq_iff)
  have t: "RFC3339Nano base 120000000 = (base @ ''.12'') @ CHR ''Z'' # []" "RFC3339Nano base 123000000 = (base @ ''.12'') @ CHR ''3'' # ''Z''"
    by (simp_all add: RFC3339Nano_def digits)
  moreover have "CHR ''3'' < CHR ''Z''" by (simp add: less_char_def)
  ultimately show "RFC3339Nano base 123000000 < RFC3339Nano base 120000000" by (metis lexi)
  show "RFC3339Nano base 123000000 \<noteq> []" "RFC3339Nano base 120000000 \<noteq> []" using t by simp_all
qed

text \<open>
  List is not oldest first, as its comment and the method's promise say: it sorts the
  timestamps as text, and their trailing zeros are trimmed, so of two memories stored within
  the same second at .12 s and .123 s the later one is listed first.
\<close>

theorem List_not_oldest_first:
  assumes "i \<noteq> j" "i \<notin> mr_ID ` set (db_rows db)" "j \<notin> mr_ID ` set (db_rows db)" "\<forall>r \<in> set (db_rows db). mr_SiloID r \<noteq> siloID"
  shows "map mr_ID (Store_List siloID (fst (Store_Insert True (RFC3339Nano base 123000000) j siloID b2 p2 m2
      (fst (Store_Insert True (RFC3339Nano base 120000000) i siloID b1 p1 m1 db))))) = [j, i]"
proof -
  note lt = nano_order(1) [of base]
  have "filter (\<lambda>r. mr_SiloID r = siloID) (db_rows db) = []" using assms(4) by (simp add: filter_empty_conv)
  then show ?thesis using assms(1-3) lt
    by (simp add: Store_List_def Store_Insert_def Let_def less_prod_def less_eq_prod_def) (auto simp: less_le)
qed

theorem List_not_oldest_first_witness:
  "map mr_ID (Store_List ''s'' (fst (Store_Insert True (RFC3339Nano ''2026-01-01T00:00:05'' 123000000) ''new'' ''s'' [] [] []
      (fst (Store_Insert True (RFC3339Nano ''2026-01-01T00:00:05'' 120000000) ''old'' ''s'' [] [] [] empty_db))))) = [''new'', ''old'']"
  by (rule List_not_oldest_first) (simp_all add: empty_db_def)

section \<open>The HTTP API\<close>

definition NodeKeyHeader :: string where "NodeKeyHeader = ''X-Silo-Node-Key''"
definition maxRecallLimit :: int where "maxRecallLimit = 100"

definition LoadOrCreateNodeKey :: "bytes option \<Rightarrow> wf_fault \<Rightarrow> string \<Rightarrow> disk \<Rightarrow> (fs_err + string) \<times> disk" where
  "LoadOrCreateNodeKey rnd fault dataDir disk =
    (let path = path_join dataDir ''node.key'';
         create = (case rnd of None \<Rightarrow> (Inl (ErrPath ''rand''), disk)
           | Some buf \<Rightarrow> (case WriteFile fault path (hex_encode buf) mode_0600 disk of
               (d, Some e) \<Rightarrow> (Inl e, d) | (d, None) \<Rightarrow> (Inr (hex_encode buf), d)))
     in case ReadFile disk path of
          Inr raw \<Rightarrow> if TrimSpace raw \<noteq> [] then (Inr (TrimSpace raw), disk) else create
        | Inl e \<Rightarrow> if e \<noteq> ErrNotExist then (Inl e, disk) else create)"

definition constantTimeEqual :: "(bytes \<Rightarrow> bytes) \<Rightarrow> string \<Rightarrow> string \<Rightarrow> bool" where
  "constantTimeEqual sha256 a b \<longleftrightarrow> sha256 a = sha256 b"

record response =
  rs_status :: nat
  rs_body :: json

definition writeError :: "nat \<Rightarrow> string \<Rightarrow> response" where
  "writeError code msg = \<lparr>rs_status = code, rs_body = JObj [(''error'', JStr msg)]\<rparr>"

definition writeMemErr :: "mem_err \<Rightarrow> response" where
  "writeMemErr e = (if e = ErrNotRunning then writeError 503 ''memory capability is not running'' else writeError 500 ''memory error'')"

definition dec_object :: "json \<Rightarrow> (string \<times> json) list \<Rightarrow> (string \<times> json) list option" where
  "dec_object v cur = (case v of JObj kvs \<Rightarrow> Some (sort_key fst (put_members kvs cur)) | JNull \<Rightarrow> Some [] | _ \<Rightarrow> None)"

text \<open>The request: the header, the route's path values and the first JSON value of the body, when the decoder finds one within the limit.\<close>

datatype mem_route = RSilos | RRemember string | RRecall string | RForget string string

definition api_remember :: "'f flops \<Rightarrow> gcm \<Rightarrow> 'f remember_env \<Rightarrow> Config \<Rightarrow> string \<Rightarrow> json option \<Rightarrow> mem_world \<Rightarrow> response \<times> mem_world" where
  "api_remember fo g e cfg siloID body w =
    (case do { v \<leftarrow> body; kvs \<leftarrow> struct_fields v; content \<leftarrow> get_str ''content'' kvs; meta \<leftarrow> get_field dec_object ''metadata'' [] kvs;
               Some (content, meta)} of
       None \<Rightarrow> (writeError 400 ''expected JSON body'', w)
     | Some (content, meta) \<Rightarrow>
        if TrimSpace content = [] then (writeError 400 ''expected JSON body'', w)
        else (case Remember fo g e cfg siloID content meta w of
            (Inl err, w') \<Rightarrow> (writeMemErr err, w')
          | (Inr i, w') \<Rightarrow> (\<lparr>rs_status = 200, rs_body = JObj [(''id'', JStr i)]\<rparr>, w')))"

definition result_json :: "('f \<Rightarrow> string) \<Rightarrow> 'f RecallResult \<Rightarrow> json" where
  "result_json ftext r = JObj ([(''id'', JStr (rr_ID r)), (''content'', JStr (rr_Content r)), (''score'', JNum (ftext (rr_Score r)))] @
     (case rr_Metadata r of None \<Rightarrow> [] | Some m \<Rightarrow> if m = [] then [] else [(''metadata'', JObj m)]))"

definition api_recall :: "'f flops \<Rightarrow> ('f \<Rightarrow> string) \<Rightarrow> gcm \<Rightarrow> 'f recall_env \<Rightarrow> Config \<Rightarrow> string \<Rightarrow> json option \<Rightarrow> mem_world \<Rightarrow> response" where
  "api_recall fo ftext g e cfg siloID body w =
    (case do { v \<leftarrow> body; kvs \<leftarrow> struct_fields v; query \<leftarrow> get_str ''query'' kvs; limit \<leftarrow> get_int ''limit'' kvs; Some (query, limit)} of
       None \<Rightarrow> writeError 400 ''expected JSON body''
     | Some (query, limit) \<Rightarrow>
        if TrimSpace query = [] then writeError 400 ''expected JSON body''
        else (case Recall_op fo g e cfg siloID query (if limit > maxRecallLimit then maxRecallLimit else limit) w of
            Inl err \<Rightarrow> writeMemErr err
          | Inr results \<Rightarrow> \<lparr>rs_status = 200, rs_body = JObj [(''results'', JArr (map (result_json ftext) results))]\<rparr>))"

definition api_forget :: "bool \<Rightarrow> string \<Rightarrow> string \<Rightarrow> mem_world \<Rightarrow> response \<times> mem_world" where
  "api_forget ok siloID i w = (case Forget ok siloID i w of
     (Inl err, w') \<Rightarrow> (writeMemErr err, w')
   | (Inr False, w') \<Rightarrow> (writeError 404 ''memory not found'', w')
   | (Inr True, w') \<Rightarrow> (\<lparr>rs_status = 200, rs_body = JObj [(''deleted'', JBool True)]\<rparr>, w'))"

definition api_silos :: "mem_world \<Rightarrow> response" where
  "api_silos w = (case Silos w of
     Inl err \<Rightarrow> writeMemErr err
   | Inr silos \<Rightarrow> \<lparr>rs_status = 200, rs_body = JArr (map (\<lambda>(s, n). JObj [(''silo_id'', JStr s), (''count'', JNum (show_nat n))]) silos)\<rparr>)"

text \<open>The key check shared by every node-key surface: what is behind it runs only for the right key.\<close>

definition RequireNodeKey :: "(bytes \<Rightarrow> bytes) \<Rightarrow> string \<Rightarrow> string \<Rightarrow> ('w \<Rightarrow> response \<times> 'w) \<Rightarrow> 'w \<Rightarrow> response \<times> 'w" where
  "RequireNodeKey sha256 want got next_handler w =
    (if want = [] \<or> got = [] \<or> \<not> constantTimeEqual sha256 want got
     then (writeError 401 (''missing or invalid '' @ NodeKeyHeader), w) else next_handler w)"

definition Memory_Handler :: "(bytes \<Rightarrow> bytes) \<Rightarrow> 'f flops \<Rightarrow> ('f \<Rightarrow> string) \<Rightarrow> gcm \<Rightarrow> 'f remember_env \<Rightarrow> 'f recall_env \<Rightarrow> bool \<Rightarrow> Config
    \<Rightarrow> string \<Rightarrow> string \<Rightarrow> mem_route \<Rightarrow> json option \<Rightarrow> mem_world \<Rightarrow> response \<times> mem_world" where
  "Memory_Handler sha256 fo ftext g re qe ok cfg nodeKey header route body w =
    RequireNodeKey sha256 nodeKey header (\<lambda>w. case route of
        RSilos \<Rightarrow> (api_silos w, w)
      | RRemember s \<Rightarrow> api_remember fo g re cfg s body w
      | RRecall s \<Rightarrow> (api_recall fo ftext g qe cfg s body w, w)
      | RForget s i \<Rightarrow> api_forget ok s i w) w"

lemma handler_unauthorized:
  "nodeKey = [] \<or> header = [] \<or> sha256 nodeKey \<noteq> sha256 header \<Longrightarrow>
   Memory_Handler sha256 fo ftext g re qe ok cfg nodeKey header route body w = (writeError 401 (''missing or invalid '' @ NodeKeyHeader), w)"
  by (auto simp: Memory_Handler_def RequireNodeKey_def constantTimeEqual_def)

lemma handler_forget:
  "nodeKey \<noteq> [] \<Longrightarrow> Memory_Handler sha256 fo ftext g re qe ok cfg nodeKey nodeKey (RForget s i) body w = api_forget ok s i w"
  by (simp add: Memory_Handler_def RequireNodeKey_def constantTimeEqual_def)

end
