(* ===== verification/KeyStore.thy ===== *)
theory KeyStore
  imports PinStore Crypto Config
begin

text \<open>
  The API keys of the OpenAI-compatible surface (internal/openaiapi/keys.go) and the provider that
  mints the control plane's key at registration (internal/node/inference_key.go). Random bytes,
  the clock and the outcome of each file write are arguments; SHA-256 is the crypto record's. The
  lemmas show that memory and the file never disagree, what a presented secret is checked
  against, and that rotation retires the control plane's own keys only.
\<close>

section \<open>The store\<close>

definition keyPrefix :: string where "keyPrefix = ''silo_sk_''"
definition keysFile :: string where "keysFile = ''openai_keys.json''"
definition ControlPlaneKeyScope :: string where "ControlPlaneKeyScope = ''control-plane''"
definition ControlPlaneKeyName :: string where "ControlPlaneKeyName = ''control-plane''"

record api_key =
  ak_ID :: string
  ak_Name :: string
  ak_SHA256 :: string
  ak_Last4 :: string
  ak_CreatedAt :: time
  ak_Scope :: string

record key_store =
  kt_path :: string
  kt_keys :: "api_key list"

datatype key_err = ErrKeyNotFound | ErrKeyRandom | ErrKeyEncode | ErrKeyWrite fs_err | ErrKeyRead fs_err | ErrKeyParse

definition key_json :: "timefmt \<Rightarrow> api_key \<Rightarrow> json option" where
  "key_json tf k = do {
     created \<leftarrow> tf_fmt tf (ak_CreatedAt k);
     Some (JObj ([(''id'', JStr (ak_ID k)), (''name'', JStr (ak_Name k)), (''sha256'', JStr (ak_SHA256 k)),
       (''last4'', JStr (ak_Last4 k)), (''created_at'', JStr created)] @
       (if ak_Scope k = [] then [] else [(''scope'', JStr (ak_Scope k))])))}"

definition key_of_json :: "timefmt \<Rightarrow> json \<Rightarrow> api_key option" where
  "key_of_json tf v = do {
     kvs \<leftarrow> struct_fields v;
     i \<leftarrow> get_str ''id'' kvs;
     n \<leftarrow> get_str ''name'' kvs;
     h \<leftarrow> get_str ''sha256'' kvs;
     l \<leftarrow> get_str ''last4'' kvs;
     t \<leftarrow> get_field (dec_time tf) ''created_at'' zero_time kvs;
     sc \<leftarrow> get_str ''scope'' kvs;
     Some \<lparr>ak_ID = i, ak_Name = n, ak_SHA256 = h, ak_Last4 = l, ak_CreatedAt = t, ak_Scope = sc\<rparr>}"

definition LoadKeyStore :: "timefmt \<Rightarrow> string \<Rightarrow> disk \<Rightarrow> key_err + key_store" where
  "LoadKeyStore tf dataDir disk =
    (let path = path_join dataDir keysFile; s = \<lparr>kt_path = path, kt_keys = []\<rparr>
     in case ReadFile disk path of
          Inl ErrNotExist \<Rightarrow> Inr s
        | Inl e \<Rightarrow> Inl (ErrKeyRead e)
        | Inr raw \<Rightarrow> (case Option.bind (json_parse raw) (\<lambda>v. dec_slice (key_of_json tf) v []) of
            None \<Rightarrow> Inl ErrKeyParse | Some ks \<Rightarrow> Inr (s\<lparr>kt_keys := ks\<rparr>)))"

definition persistLocked :: "timefmt \<Rightarrow> wfa_env \<Rightarrow> key_store \<Rightarrow> disk \<Rightarrow> disk \<times> key_err option" where
  "persistLocked tf env s disk =
    (case those (map (key_json tf) (kt_keys s)) of
       None \<Rightarrow> (disk, Some ErrKeyEncode)
     | Some vs \<Rightarrow> (case WriteFileAtomic env (kt_path s) (json_indent 0 (JArr vs)) mode_0600 disk of
         (disk', None) \<Rightarrow> (disk', None) | (disk', Some e) \<Rightarrow> (disk', Some (ErrKeyWrite e))))"

section \<open>Operations\<close>

text \<open>What one mint draws: 24 secret bytes and 8 id bytes, each unless the random source fails, and the time.\<close>

record mint_env =
  me_secret :: "bytes option"
  me_id :: "bytes option"
  me_now :: time
  me_write :: wfa_env

definition new_key :: "crypto \<Rightarrow> string \<Rightarrow> bytes \<Rightarrow> time \<Rightarrow> string \<Rightarrow> string \<Rightarrow> api_key" where
  "new_key c plaintext idBytes now name scope =
    \<lparr>ak_ID = ''key_'' @ hex_encode idBytes, ak_Name = TrimSpace name, ak_SHA256 = hex_encode (c_sha256 c plaintext),
     ak_Last4 = drop (length plaintext - 4) plaintext, ak_CreatedAt = now, ak_Scope = scope\<rparr>"

definition KeyStore_mint :: "crypto \<Rightarrow> timefmt \<Rightarrow> mint_env \<Rightarrow> string \<Rightarrow> string \<Rightarrow> key_store \<Rightarrow> disk
    \<Rightarrow> (key_err + string \<times> api_key) \<times> key_store \<times> disk" where
  "KeyStore_mint c tf me name scope s disk =
    (case me_secret me of
       None \<Rightarrow> (Inl ErrKeyRandom, s, disk)
     | Some secret \<Rightarrow>
        let plaintext = keyPrefix @ hex_encode secret in
        (case me_id me of
           None \<Rightarrow> (Inl ErrKeyRandom, s, disk)
         | Some idBytes \<Rightarrow>
            let key = new_key c plaintext idBytes (me_now me) name scope;
                s' = s\<lparr>kt_keys := kt_keys s @ [key]\<rparr> in
            (case persistLocked tf (me_write me) s' disk of
               (disk', Some e) \<Rightarrow> (Inl e, s'\<lparr>kt_keys := take (length (kt_keys s') - 1) (kt_keys s')\<rparr>, disk')
             | (disk', None) \<Rightarrow> (Inr (plaintext, key), s', disk'))))"

definition KeyStore_Mint :: "crypto \<Rightarrow> timefmt \<Rightarrow> mint_env \<Rightarrow> string \<Rightarrow> key_store \<Rightarrow> disk
    \<Rightarrow> (key_err + string \<times> api_key) \<times> key_store \<times> disk" where
  "KeyStore_Mint c tf me name s disk = KeyStore_mint c tf me name [] s disk"

text \<open>The position of the first key with an id, and the slice without that position.\<close>

fun find_id :: "string \<Rightarrow> api_key list \<Rightarrow> nat option" where
  "find_id i [] = None"
| "find_id i (k # ks) = (if ak_ID k = i then Some 0 else map_option Suc (find_id i ks))"

definition KeyStore_Revoke :: "timefmt \<Rightarrow> wfa_env \<Rightarrow> string \<Rightarrow> key_store \<Rightarrow> disk \<Rightarrow> key_err option \<times> key_store \<times> disk" where
  "KeyStore_Revoke tf env i s disk =
    (case find_id i (kt_keys s) of
       None \<Rightarrow> (Some ErrKeyNotFound, s, disk)
     | Some n \<Rightarrow>
        let s' = s\<lparr>kt_keys := take n (kt_keys s) @ drop (Suc n) (kt_keys s)\<rparr> in
        (case persistLocked tf env s' disk of
           (disk', Some e) \<Rightarrow> (Some e, s, disk')
         | (disk', None) \<Rightarrow> (None, s', disk')))"

definition KeyStore_List :: "key_store \<Rightarrow> api_key list" where
  "KeyStore_List s = sort_key ak_CreatedAt (kt_keys s)"

definition KeyStore_Count :: "key_store \<Rightarrow> nat" where
  "KeyStore_Count s = length (kt_keys s)"

definition KeyStore_Verify :: "crypto \<Rightarrow> key_store \<Rightarrow> string \<Rightarrow> bool" where
  "KeyStore_Verify c s presented =
    (if \<not> HasPrefix presented keyPrefix then False
     else let presentedHex = hex_encode (c_sha256 c presented)
          in foldl (\<lambda>m k. m \<or> presentedHex = ak_SHA256 k) False (kt_keys s))"

definition superseded_ids :: "key_store \<Rightarrow> string list" where
  "superseded_ids s = map ak_ID (filter (\<lambda>k. ak_Scope k = ControlPlaneKeyScope) (kt_keys s))"

definition MintForControlPlane :: "crypto \<Rightarrow> timefmt \<Rightarrow> mint_env \<Rightarrow> key_store \<Rightarrow> disk
    \<Rightarrow> (key_err + string \<times> string list) \<times> key_store \<times> disk" where
  "MintForControlPlane c tf me s disk =
    (let superseded = superseded_ids s in
     case KeyStore_mint c tf me ControlPlaneKeyName ControlPlaneKeyScope s disk of
       (Inl e, s', disk') \<Rightarrow> (Inl e, s', disk')
     | (Inr (plaintext, _), s', disk') \<Rightarrow> (Inr (plaintext, superseded), s', disk'))"

text \<open>RevokeAll over ids, each with the environment of its write.\<close>

fun RevokeAll :: "timefmt \<Rightarrow> (wfa_env \<times> string) list \<Rightarrow> key_store \<Rightarrow> disk \<Rightarrow> key_err option \<times> key_store \<times> disk" where
  "RevokeAll tf [] s disk = (None, s, disk)"
| "RevokeAll tf ((env, i) # ids) s disk =
     (case KeyStore_Revoke tf env i s disk of (e, s', disk') \<Rightarrow>
       (case RevokeAll tf ids s' disk' of (e', s'', disk'') \<Rightarrow>
         (case e of None \<Rightarrow> e' | Some ErrKeyNotFound \<Rightarrow> e' | Some x \<Rightarrow> Some x, s'', disk'')))"

section \<open>The provider\<close>

text \<open>
  Mint of the provider: nothing when publishing is off or the surface does not serve, otherwise
  the plaintext and the ids its commit will revoke. The commit runs only when there is one.
\<close>

datatype provided = NoKey | KeyErr key_err | Provided string "string list"

definition provider_Mint :: "crypto \<Rightarrow> timefmt \<Rightarrow> mint_env \<Rightarrow> Config \<Rightarrow> key_store \<Rightarrow> disk \<Rightarrow> provided \<times> key_store \<times> disk" where
  "provider_Mint c tf me cfg s disk =
    (if \<not> oa_PublishKeyToControlPlane (c_OpenAI cfg) \<or> \<not> oa_Enabled (c_OpenAI cfg) \<or> \<not> cap_Compute (c_Capabilities cfg)
     then (NoKey, s, disk)
     else case MintForControlPlane c tf me s disk of
       (Inl e, s', disk') \<Rightarrow> (KeyErr e, s', disk')
     | (Inr (plaintext, superseded), s', disk') \<Rightarrow> (Provided plaintext superseded, s', disk'))"

definition provider_commit :: "timefmt \<Rightarrow> (wfa_env \<times> string) list \<Rightarrow> key_store \<Rightarrow> disk \<Rightarrow> key_store \<times> disk" where
  "provider_commit tf superseded s disk =
    (if superseded = [] then (s, disk) else snd (RevokeAll tf superseded s disk))"

section \<open>Memory and file\<close>

lemma key_json_roundtrip:
  assumes "tf_laws tf" "key_json tf k = Some v"
  shows "key_of_json tf v = Some k \<and> wf_json v"
proof -
  from assms obtain created where c: "tf_fmt tf (ak_CreatedAt k) = Some created"
    and v: "v = JObj ([(''id'', JStr (ak_ID k)), (''name'', JStr (ak_Name k)), (''sha256'', JStr (ak_SHA256 k)),
       (''last4'', JStr (ak_Last4 k)), (''created_at'', JStr created)] @
       (if ak_Scope k = [] then [] else [(''scope'', JStr (ak_Scope k))]))"
    by (auto simp: key_json_def split: bind_splits)
  have "tf_parse tf created = Some (ak_CreatedAt k)" using c assms(1) by (simp add: tf_laws_def)
  then show ?thesis
    by (cases "ak_Scope k = []")
      (simp_all add: v key_of_json_def struct_fields_def EqualFold_def ToLower_def lower_char_def dec_str_def dec_time_def)
qed

lemma keys_roundtrip:
  "tf_laws tf \<Longrightarrow> those (map (key_json tf) ks) = Some vs \<Longrightarrow> dec_all (key_of_json tf) vs = Some ks \<and> list_all wf_json vs"
  by (induction ks arbitrary: vs) (auto split: option.splits dest: key_json_roundtrip)

text \<open>The file, read back, is the store.\<close>

definition synced_keys :: "timefmt \<Rightarrow> string \<Rightarrow> key_store \<Rightarrow> disk \<Rightarrow> bool" where
  "synced_keys tf dataDir s disk \<longleftrightarrow> LoadKeyStore tf dataDir disk = Inr s"

lemma synced_path: "synced_keys tf dataDir s disk \<Longrightarrow> kt_path s = path_join dataDir keysFile"
  by (auto simp: synced_keys_def LoadKeyStore_def Let_def split: sum.splits fs_err.splits option.splits)

lemma Load_by_path: "LoadKeyStore tf dataDir d = (case read_path (path_join dataDir keysFile) d of
    None \<Rightarrow> Inr \<lparr>kt_path = path_join dataDir keysFile, kt_keys = []\<rparr>
  | Some raw \<Rightarrow> (case Option.bind (json_parse raw) (\<lambda>v. dec_slice (key_of_json tf) v []) of
      None \<Rightarrow> Inl ErrKeyParse | Some ks \<Rightarrow> Inr \<lparr>kt_path = path_join dataDir keysFile, kt_keys = ks\<rparr>))"
  by (cases "map_get d (path_join dataDir keysFile)") (simp_all add: LoadKeyStore_def Let_def ReadFile_def read_path_def cong: option.case_cong)

lemma persist_outcome:
  assumes "tf_laws tf" "kt_path s' = path_join dataDir keysFile" "snd env \<noteq> path_join dataDir keysFile"
  shows "persistLocked tf env s' disk = (disk', None) \<Longrightarrow> synced_keys tf dataDir s' disk'"
    "persistLocked tf env s' disk = (disk', Some e) \<Longrightarrow> synced_keys tf dataDir s disk \<Longrightarrow> synced_keys tf dataDir s disk'"
proof -
  note disk_file = atomic_file.write_ok [of env "kt_path s'" _ mode_0600 disk disk'] atomic_file.write_err [of env "kt_path s'" _ mode_0600 disk disk']
  have ok: "snd env \<noteq> kt_path s'" using assms(2,3) by simp
  show "synced_keys tf dataDir s' disk'" if "persistLocked tf env s' disk = (disk', None)"
  proof -
    from that obtain vs where vs: "those (map (key_json tf) (kt_keys s')) = Some vs"
      and w: "WriteFileAtomic env (kt_path s') (json_indent 0 (JArr vs)) mode_0600 disk = (disk', None)"
      by (auto simp: persistLocked_def split: option.splits prod.splits)
    from keys_roundtrip [OF assms(1) vs] have dec: "dec_all (key_of_json tf) vs = Some (kt_keys s')" "wf_json (JArr vs)" by simp_all
    have "json_parse (json_indent 0 (JArr vs)) = Some (JArr vs)" using dec(2) by (rule json_parse_indent)
    moreover have "read_path (kt_path s') disk' = Some (json_indent 0 (JArr vs))" using disk_file(1) ok w by simp
    ultimately show ?thesis using dec(1) assms(2)
      by (simp add: synced_keys_def Load_by_path dec_slice_def)
  qed
  show "synced_keys tf dataDir s disk'" if "persistLocked tf env s' disk = (disk', Some e)" "synced_keys tf dataDir s disk"
  proof -
    have "read_path (kt_path s') disk' = read_path (kt_path s') disk"
      using that(1) disk_file(2) ok by (auto simp: persistLocked_def split: option.splits prod.splits)
    then show ?thesis using that(2) assms(2) by (simp add: synced_keys_def Load_by_path)
  qed
qed

lemma mint_synced:
  assumes "tf_laws tf" "synced_keys tf dataDir s disk" "snd (me_write me) \<noteq> path_join dataDir keysFile"
    "KeyStore_mint c tf me name scope s disk = (r, s', disk')"
  shows "synced_keys tf dataDir s' disk'"
  using assms(4) persist_outcome [OF assms(1) _ assms(3), of "s\<lparr>kt_keys := kt_keys s @ [k]\<rparr>" for k]
    synced_path [OF assms(2)] assms(2)
  by (auto simp: KeyStore_mint_def Let_def split: option.splits prod.splits)

lemma revoke_synced:
  assumes "tf_laws tf" "synced_keys tf dataDir s disk" "snd env \<noteq> path_join dataDir keysFile"
    "KeyStore_Revoke tf env i s disk = (e, s', disk')"
  shows "synced_keys tf dataDir s' disk'"
  using assms(4) persist_outcome [OF assms(1) _ assms(3), of "s\<lparr>kt_keys := ks\<rparr>" for ks] synced_path [OF assms(2)] assms(2)
  by (auto simp: KeyStore_Revoke_def Let_def split: option.splits prod.splits)

lemma revoke_all_synced:
  assumes "tf_laws tf" "synced_keys tf dataDir s disk" "\<forall>(env, i) \<in> set ids. snd env \<noteq> path_join dataDir keysFile"
    "RevokeAll tf ids s disk = (e, s', disk')"
  shows "synced_keys tf dataDir s' disk'"
  using assms(2-4)
proof (induction ids arbitrary: s disk e)
  case (Cons x ids)
  obtain env i where x: "x = (env, i)" by (cases x)
  obtain e1 s1 d1 where r: "KeyStore_Revoke tf env i s disk = (e1, s1, d1)" by (metis surj_pair)
  have "synced_keys tf dataDir s1 d1" using revoke_synced [OF assms(1) Cons.prems(1) _ r] Cons.prems(2) x by simp
  then show ?case using Cons.IH [of s1 d1] Cons.prems(2,3) x r by (auto split: prod.splits)
qed simp

text \<open>
  What the node does with its store: the admin API's mint and revoke, and a registration round,
  whose commit runs when the control plane accepted the new key.
\<close>

datatype key_op = KMint mint_env string | KRevoke wfa_env string | KRegister mint_env Config "wfa_env list" bool

fun key_step :: "crypto \<Rightarrow> timefmt \<Rightarrow> key_op \<Rightarrow> key_store \<times> disk \<Rightarrow> key_store \<times> disk" where
  "key_step c tf (KMint me name) (s, disk) = snd (KeyStore_Mint c tf me name s disk)"
| "key_step c tf (KRevoke env i) (s, disk) = snd (KeyStore_Revoke tf env i s disk)"
| "key_step c tf (KRegister me cfg envs accepted) (s, disk) =
     (case provider_Mint c tf me cfg s disk of
        (Provided p ids, s1, d1) \<Rightarrow> if accepted then provider_commit tf (zip envs ids) s1 d1 else (s1, d1)
      | (_, s1, d1) \<Rightarrow> (s1, d1))"

fun key_run :: "crypto \<Rightarrow> timefmt \<Rightarrow> key_op list \<Rightarrow> key_store \<times> disk \<Rightarrow> key_store \<times> disk" where
  "key_run c tf [] w = w"
| "key_run c tf (op # ops) w = key_run c tf ops (key_step c tf op w)"

fun op_envs :: "key_op \<Rightarrow> wfa_env list" where
  "op_envs (KMint me name) = [me_write me]"
| "op_envs (KRevoke env i) = [env]"
| "op_envs (KRegister me cfg envs accepted) = me_write me # envs"

definition temp_ok :: "string \<Rightarrow> key_op \<Rightarrow> bool" where
  "temp_ok dataDir op \<longleftrightarrow> (\<forall>env \<in> set (op_envs op). snd env \<noteq> path_join dataDir keysFile)"

lemma provider_cases:
  "(fst (provider_Mint c tf me cfg s disk) = NoKey \<and> snd (provider_Mint c tf me cfg s disk) = (s, disk)) \<or>
   (\<exists>r s' d'. KeyStore_mint c tf me ControlPlaneKeyName ControlPlaneKeyScope s disk = (r, s', d') \<and>
     provider_Mint c tf me cfg s disk = (case r of Inl e \<Rightarrow> KeyErr e | Inr (p, k) \<Rightarrow> Provided p (superseded_ids s), s', d'))"
  by (auto simp: provider_Mint_def MintForControlPlane_def Let_def split: prod.splits sum.splits)

lemma provider_Provided: "provider_Mint c tf me cfg s disk = (Provided p ids, s', d') \<Longrightarrow>
  ids = superseded_ids s \<and> (\<exists>k. KeyStore_mint c tf me ControlPlaneKeyName ControlPlaneKeyScope s disk = (Inr (p, k), s', d'))"
  by (auto simp: provider_Mint_def MintForControlPlane_def Let_def split: prod.splits sum.splits if_splits)

lemma key_step_synced:
  assumes "tf_laws tf" "synced_keys tf dataDir s disk" "temp_ok dataDir op" "key_step c tf op (s, disk) = (s', disk')"
  shows "synced_keys tf dataDir s' disk'"
proof (cases op)
  case (KMint me name)
  obtain r where "KeyStore_mint c tf me name [] s disk = (r, s', disk')"
    using assms(4) KMint by (cases "KeyStore_mint c tf me name [] s disk") (simp add: KeyStore_Mint_def)
  from mint_synced [OF assms(1,2) _ this] show ?thesis using assms(3) KMint by (simp add: temp_ok_def)
next
  case (KRevoke env i)
  obtain r where "KeyStore_Revoke tf env i s disk = (r, s', disk')"
    using assms(4) KRevoke by (cases "KeyStore_Revoke tf env i s disk") simp
  from revoke_synced [OF assms(1,2) _ this] show ?thesis using assms(3) KRevoke by (simp add: temp_ok_def)
next
  case (KRegister me cfg envs accepted)
  from provider_cases [of c tf me cfg s disk] show ?thesis
  proof (elim disjE exE conjE)
    assume "fst (provider_Mint c tf me cfg s disk) = NoKey" "snd (provider_Mint c tf me cfg s disk) = (s, disk)"
    then have "provider_Mint c tf me cfg s disk = (NoKey, s, disk)" by (metis prod.collapse)
    then show ?thesis using assms(2,4) KRegister by simp
  next
    fix r s1 d1
    assume m: "KeyStore_mint c tf me ControlPlaneKeyName ControlPlaneKeyScope s disk = (r, s1, d1)"
      and p: "provider_Mint c tf me cfg s disk = (case r of Inl e \<Rightarrow> KeyErr e | Inr (p, k) \<Rightarrow> Provided p (superseded_ids s), s1, d1)"
    have s1: "synced_keys tf dataDir s1 d1" using mint_synced [OF assms(1,2) _ m] assms(3) KRegister by (simp add: temp_ok_def)
    let ?ids = "zip envs (superseded_ids s)"
    have temps: "\<forall>(env, i) \<in> set ?ids. snd env \<noteq> path_join dataDir keysFile"
      using assms(3) KRegister by (auto simp: temp_ok_def dest!: set_zip_leftD)
    obtain e s2 d2 where ra: "RevokeAll tf ?ids s1 d1 = (e, s2, d2)" by (metis surj_pair)
    have "synced_keys tf dataDir s2 d2" by (rule revoke_all_synced [OF assms(1) s1 temps ra])
    then show ?thesis using s1 assms(4) KRegister p ra
      by (cases r) (auto simp: provider_commit_def split: if_splits prod.splits)
  qed
qed

lemma key_run_synced:
  "tf_laws tf \<Longrightarrow> synced_keys tf dataDir s disk \<Longrightarrow> list_all (temp_ok dataDir) ops \<Longrightarrow>
   key_run c tf ops (s, disk) = (s', disk') \<Longrightarrow> synced_keys tf dataDir s' disk'"
proof (induction ops arbitrary: s disk)
  case (Cons op ops)
  obtain s1 d1 where st: "key_step c tf op (s, disk) = (s1, d1)" by (metis surj_pair)
  then show ?case using Cons.IH [of s1 d1] Cons.prems key_step_synced [OF Cons.prems(1,2) _ st] by simp
qed simp

text \<open>
  C9. Memory and disk never disagree: starting from a loaded store, after any sequence of mints,
  revocations and registration rounds, with any of their file writes failing at any step, loading
  the file gives back exactly the keys in memory.
\<close>

theorem KeyStore_never_diverges:
  assumes "tf_laws tf" "LoadKeyStore tf dataDir disk = Inr s" "list_all (temp_ok dataDir) ops"
    "key_run c tf ops (s, disk) = (s', disk')"
  shows "LoadKeyStore tf dataDir disk' = Inr s'"
  using key_run_synced [OF assms(1) _ assms(3,4)] assms(2) by (simp add: synced_keys_def)

definition demo_mint :: "string \<Rightarrow> wfa_fault \<Rightarrow> mint_env" where
  "demo_mint i f = \<lparr>me_secret = Some ''s'', me_id = Some i, me_now = 1, me_write = (f, ''t'')\<rparr>"

definition unit_tf :: timefmt where
  "unit_tf = \<lparr>tf_fmt = (\<lambda>t. if t = 1 then Some ''A'' else None), tf_parse = (\<lambda>s. if s = ''A'' then Some 1 else None)\<rparr>"

lemma unit_tf_laws: "tf_laws unit_tf"
  by (auto simp: tf_laws_def unit_tf_def)

definition demo_keys :: key_store where
  "demo_keys = \<lparr>kt_path = path_join ''d'' keysFile, kt_keys = []\<rparr>"

lemma demo_keys_load: "LoadKeyStore unit_tf ''d'' [] = Inr demo_keys"
  by (simp add: LoadKeyStore_def ReadFile_def Let_def demo_keys_def)

theorem KeyStore_never_diverges_witness:
  "case key_run demo_crypto unit_tf [KMint (demo_mint ''i'' NoFault) ''laptop'', KMint (demo_mint ''j'' FailRename) ''x''] (demo_keys, []) of
     (s', disk') \<Rightarrow> LoadKeyStore unit_tf ''d'' disk' = Inr s' \<and> map ak_Name (kt_keys s') = [''laptop'']"
proof -
  let ?ops = "[KMint (demo_mint ''i'' NoFault) ''laptop'', KMint (demo_mint ''j'' FailRename) ''x'']"
  obtain s' disk' where run: "key_run demo_crypto unit_tf ?ops (demo_keys, []) = (s', disk')" by (metis surj_pair)
  have "map ak_Name (kt_keys (fst (key_run demo_crypto unit_tf ?ops (demo_keys, [])))) = [''laptop'']"
    by (simp add: KeyStore_Mint_def KeyStore_mint_def Let_def demo_mint_def demo_keys_def persistLocked_def key_json_def new_key_def
        unit_tf_def WriteFileAtomic_def WriteFileAtomic_trace_def TrimSpace_def is_space_def)
  moreover have "list_all (temp_ok ''d'') ?ops"
    by (simp add: temp_ok_def demo_mint_def path_join_def)
  ultimately show ?thesis using KeyStore_never_diverges [OF unit_tf_laws demo_keys_load _ run] run by simp
qed

section \<open>Who is let in\<close>

lemma foldl_or: "foldl (\<lambda>m k. m \<or> P k) b ks = (b \<or> (\<exists>k \<in> set ks. P k))"
  by (induction ks arbitrary: b) auto

lemma Verify_iff: "KeyStore_Verify c s p \<longleftrightarrow> HasPrefix p keyPrefix \<and> (\<exists>k \<in> set (kt_keys s). ak_SHA256 k = hex_encode (c_sha256 c p))"
  by (auto simp: KeyStore_Verify_def Let_def foldl_or eq_commute [of "hex_encode _"])

lemma mint_ok:
  assumes "KeyStore_mint c tf me name scope s disk = (Inr (p, k), s', disk')"
  shows "kt_keys s' = kt_keys s @ [k] \<and> kt_path s' = kt_path s \<and> ak_Scope k = scope \<and> HasPrefix p keyPrefix \<and>
    ak_SHA256 k = hex_encode (c_sha256 c p) \<and> (\<exists>i. me_id me = Some i \<and> ak_ID k = ''key_'' @ hex_encode i)"
  using assms by (auto simp: KeyStore_mint_def new_key_def Let_def split: option.splits prod.splits)

lemma mint_keys: "KeyStore_mint c tf me name scope s disk = (r, s', disk') \<Longrightarrow>
  (\<exists>e. r = Inl e \<and> kt_keys s' = kt_keys s) \<or> (\<exists>p k. r = Inr (p, k) \<and> kt_keys s' = kt_keys s @ [k])"
  by (auto simp: KeyStore_mint_def Let_def split: option.splits prod.splits)

lemma find_id_None: "find_id i ks = None \<longleftrightarrow> i \<notin> ak_ID ` set ks"
  by (induction ks) auto

lemma find_id_filter: "find_id i ks = Some n \<Longrightarrow> distinct (map ak_ID ks) \<Longrightarrow>
  take n ks @ drop (Suc n) ks = filter (\<lambda>k. ak_ID k \<noteq> i) ks"
proof (induction ks arbitrary: n)
  case (Cons k ks)
  show ?case
  proof (cases "ak_ID k = i")
    case True
    then have "filter (\<lambda>k. ak_ID k \<noteq> i) ks = ks" using Cons.prems(2) by (auto simp: filter_id_conv image_iff)
    then show ?thesis using True Cons.prems(1) by simp
  next
    case False
    then show ?thesis using Cons by auto
  qed
qed simp

lemma revoke_keys:
  assumes "distinct (map ak_ID (kt_keys s))" "KeyStore_Revoke tf env i s disk = (e, s', disk')"
  shows "kt_keys s' = kt_keys s \<or> e = None \<and> kt_keys s' = filter (\<lambda>k. ak_ID k \<noteq> i) (kt_keys s)"
    "e = None \<Longrightarrow> kt_keys s' = filter (\<lambda>k. ak_ID k \<noteq> i) (kt_keys s)"
  using assms find_id_filter [of i "kt_keys s"]
  by (auto simp: KeyStore_Revoke_def Let_def split: option.splits prod.splits)

text \<open>
  A freshly minted key is accepted, whatever its name; revoking its id makes the store
  refuse it and leaves every other key in place, as long as ids are distinct and no other stored
  key has its hash. Nothing without the prefix, or hashing to no stored key, is ever accepted.
\<close>

theorem minted_key_lifecycle:
  assumes "KeyStore_Mint c tf me name s disk = (Inr (p, k), s1, d1)" "distinct (map ak_ID (kt_keys s1))"
    "ak_SHA256 k \<notin> ak_SHA256 ` set (kt_keys s)" "KeyStore_Revoke tf env (ak_ID k) s1 d1 = (None, s2, d2)"
  shows "KeyStore_Verify c s1 p \<and> \<not> KeyStore_Verify c s2 p \<and> kt_keys s2 = kt_keys s \<and>
    (KeyStore_Verify c s1 q \<longrightarrow> HasPrefix q keyPrefix \<and> (\<exists>k' \<in> set (kt_keys s1). ak_SHA256 k' = hex_encode (c_sha256 c q)))"
proof -
  note m = mint_ok [OF assms(1) [unfolded KeyStore_Mint_def]]
  have "kt_keys s2 = filter (\<lambda>k'. ak_ID k' \<noteq> ak_ID k) (kt_keys s1)" using revoke_keys [OF assms(2,4)] by blast
  then have keys: "kt_keys s2 = kt_keys s" using m assms(2) by (force simp: filter_id_conv)
  have "\<not> KeyStore_Verify c s2 p" using m assms(3) by (auto simp: Verify_iff keys image_iff)
  then show ?thesis using m keys by (auto simp: Verify_iff)
qed

theorem minted_key_lifecycle_witness:
  "\<exists>p k s1 d1 s2 d2. KeyStore_Mint demo_crypto unit_tf (demo_mint ''i'' NoFault) ''laptop'' demo_keys [] = (Inr (p, k), s1, d1) \<and>
     KeyStore_Revoke unit_tf (NoFault, ''t'') (ak_ID k) s1 d1 = (None, s2, d2) \<and> KeyStore_Verify demo_crypto s1 p \<and> \<not> KeyStore_Verify demo_crypto s2 p"
proof -
  let ?p = "keyPrefix @ hex_encode ''s''"
  let ?k = "new_key demo_crypto ?p ''i'' 1 ''laptop'' []"
  obtain s1 d1 where m: "KeyStore_Mint demo_crypto unit_tf (demo_mint ''i'' NoFault) ''laptop'' demo_keys [] = (Inr (?p, ?k), s1, d1)"
    by (simp add: KeyStore_Mint_def KeyStore_mint_def Let_def demo_mint_def demo_keys_def persistLocked_def key_json_def new_key_def
        unit_tf_def WriteFileAtomic_def WriteFileAtomic_trace_def)
  then have keys: "kt_keys s1 = [?k]" using mint_ok [OF m [unfolded KeyStore_Mint_def]] by (simp add: demo_keys_def)
  obtain s2 d2 where r: "KeyStore_Revoke unit_tf (NoFault, ''t'') (ak_ID ?k) s1 d1 = (None, s2, d2)"
    using keys by (simp add: KeyStore_Revoke_def Let_def persistLocked_def WriteFileAtomic_def WriteFileAtomic_trace_def)
  have "KeyStore_Verify demo_crypto s1 ?p \<and> \<not> KeyStore_Verify demo_crypto s2 ?p"
    using minted_key_lifecycle [OF m _ _ r] keys by (simp add: demo_keys_def)
  then show ?thesis using m r by blast
qed

section \<open>Rotation\<close>

lemma those_Some_iff: "(\<exists>ys. those xs = Some ys) \<longleftrightarrow> None \<notin> set xs"
  by (induction xs) (auto split: option.splits)

definition encodable :: "timefmt \<Rightarrow> api_key list \<Rightarrow> bool" where
  "encodable tf ks \<longleftrightarrow> (\<forall>k \<in> set ks. key_json tf k \<noteq> None)"

lemma persist_ok_iff: "(\<exists>d'. persistLocked tf env s disk = (d', None)) \<longleftrightarrow> fst env = NoFault \<and> encodable tf (kt_keys s)"
proof (cases "those (map (key_json tf) (kt_keys s))")
  case None
  then show ?thesis using those_Some_iff [of "map (key_json tf) (kt_keys s)"] by (force simp: persistLocked_def encodable_def)
next
  case (Some vs)
  then have "encodable tf (kt_keys s)"
    using those_Some_iff [of "map (key_json tf) (kt_keys s)"] by (force simp: encodable_def)
  moreover have "(\<exists>d'. persistLocked tf env s disk = (d', None)) \<longleftrightarrow>
      snd (WriteFileAtomic env (kt_path s) (json_indent 0 (JArr vs)) mode_0600 disk) = None"
    using Some by (auto simp: persistLocked_def split: prod.splits option.splits)
  ultimately show ?thesis by (simp add: WriteFileAtomic_ok_iff)
qed

lemma encodable_filter: "encodable tf ks \<Longrightarrow> encodable tf (filter P ks)"
  by (simp add: encodable_def)

lemma revoke_no_fault:
  assumes "distinct (map ak_ID (kt_keys s))" "encodable tf (kt_keys s)" "fst env = NoFault"
    "KeyStore_Revoke tf env i s disk = (e, s', disk')"
  shows "kt_keys s' = filter (\<lambda>k. ak_ID k \<noteq> i) (kt_keys s)"
proof (cases "find_id i (kt_keys s)")
  case None
  then have "s' = s" using assms(4) by (simp add: KeyStore_Revoke_def)
  moreover have "filter (\<lambda>k. ak_ID k \<noteq> i) (kt_keys s) = kt_keys s" using None by (auto simp: find_id_None filter_id_conv)
  ultimately show ?thesis by simp
next
  case (Some n)
  let ?s = "s\<lparr>kt_keys := take n (kt_keys s) @ drop (Suc n) (kt_keys s)\<rparr>"
  have keys: "kt_keys ?s = filter (\<lambda>k. ak_ID k \<noteq> i) (kt_keys s)" using find_id_filter [OF Some assms(1)] by simp
  then have "encodable tf (kt_keys ?s)" using encodable_filter [OF assms(2)] by simp
  then obtain d' where "persistLocked tf env ?s disk = (d', None)" using persist_ok_iff assms(3) by blast
  then show ?thesis using assms(4) Some keys by (simp add: KeyStore_Revoke_def Let_def)
qed

lemma revoke_all_keys:
  assumes "distinct (map ak_ID (kt_keys s))" "RevokeAll tf ids s disk = (e, s', disk')"
  shows "\<exists>R \<subseteq> snd ` set ids. kt_keys s' = filter (\<lambda>k. ak_ID k \<notin> R) (kt_keys s) \<and>
    (encodable tf (kt_keys s) \<and> (\<forall>x \<in> set ids. fst (fst x) = NoFault) \<longrightarrow> R = snd ` set ids)"
  using assms
proof (induction ids arbitrary: s disk e)
  case (Cons x ids)
  obtain env i where x: "x = (env, i)" by (cases x)
  obtain e1 s1 d1 where r: "KeyStore_Revoke tf env i s disk = (e1, s1, d1)" by (metis surj_pair)
  obtain e2 where ra: "RevokeAll tf ids s1 d1 = (e2, s', disk')" using Cons.prems(2) x r by (auto split: prod.splits)
  have s1: "kt_keys s1 = kt_keys s \<or> kt_keys s1 = filter (\<lambda>k. ak_ID k \<noteq> i) (kt_keys s)"
    using revoke_keys(1) [OF Cons.prems(1) r] by blast
  then have "distinct (map ak_ID (kt_keys s1))" using Cons.prems(1) by (auto simp: distinct_map_filter)
  from Cons.IH [OF this ra] obtain R where R: "R \<subseteq> snd ` set ids" "kt_keys s' = filter (\<lambda>k. ak_ID k \<notin> R) (kt_keys s1)"
    "encodable tf (kt_keys s1) \<and> (\<forall>x \<in> set ids. fst (fst x) = NoFault) \<longrightarrow> R = snd ` set ids" by blast
  let ?R = "if kt_keys s1 = filter (\<lambda>k. ak_ID k \<noteq> i) (kt_keys s) then insert i R else R"
  have keys: "kt_keys s' = filter (\<lambda>k. ak_ID k \<notin> ?R) (kt_keys s)"
    using s1 R(2) by (auto simp: conj_commute)
  have all: "?R = snd ` set (x # ids)" if "encodable tf (kt_keys s)" "\<forall>x \<in> set (x # ids). fst (fst x) = NoFault"
  proof -
    have "kt_keys s1 = filter (\<lambda>k. ak_ID k \<noteq> i) (kt_keys s)"
      using revoke_no_fault [OF Cons.prems(1) that(1) _ r] that(2) x by simp
    then show ?thesis using R(3) that x encodable_filter [OF that(1)] by simp
  qed
  have "?R \<subseteq> snd ` set (x # ids)" using R(1) x by auto
  with keys all show ?case by (intro exI [of _ ?R]) simp
qed simp

lemma commit_subset:
  assumes "distinct (map ak_ID (kt_keys s))" "provider_commit tf ids s disk = (s', disk')"
  shows "set (kt_keys s') \<subseteq> set (kt_keys s)"
proof (cases "ids = []")
  case False
  then obtain e where "RevokeAll tf ids s disk = (e, s', disk')"
    using assms(2) by (cases "RevokeAll tf ids s disk") (simp add: provider_commit_def)
  from revoke_all_keys [OF assms(1) this] show ?thesis by auto
qed (use assms(2) in \<open>simp add: provider_commit_def\<close>)

lemma rotation_outcome:
  assumes "provider_Mint c tf me cfg s disk = (Provided p ids, s1, d1)" "distinct (map ak_ID (kt_keys s1))"
    "length envs = length ids" "provider_commit tf (zip envs ids) s1 d1 = (s2, d2)"
  shows "(\<forall>k \<in> set (kt_keys s). ak_Scope k \<noteq> ControlPlaneKeyScope \<longrightarrow> k \<in> set (kt_keys s2)) \<and> KeyStore_Verify c s2 p \<and>
    (list_all (\<lambda>e. fst e = NoFault) envs \<longrightarrow>
       (\<exists>k. ak_Scope k = ControlPlaneKeyScope \<and> k \<notin> set (kt_keys s) \<and>
          kt_keys s2 = filter (\<lambda>k. ak_Scope k \<noteq> ControlPlaneKeyScope) (kt_keys s) @ [k]))"
proof -
  from provider_Provided [OF assms(1)] obtain k where
    m: "KeyStore_mint c tf me ControlPlaneKeyName ControlPlaneKeyScope s disk = (Inr (p, k), s1, d1)"
    and ids: "ids = superseded_ids s" by blast
  note mk = mint_ok [OF m]
  have enc: "encodable tf (kt_keys s1)"
  proof -
    from m obtain s' where "persistLocked tf (me_write me) s' disk = (d1, None)" "s' = s1"
      by (auto simp: KeyStore_mint_def Let_def split: option.splits prod.splits)
    then show ?thesis using persist_ok_iff by blast
  qed
  have ids_zip: "snd ` set (zip envs ids) = set ids" using assms(3) by (metis map_snd_zip set_map)
  have env_zip: "\<forall>x \<in> set (zip envs ids). fst (fst x) = NoFault" if "list_all (\<lambda>e. fst e = NoFault) envs"
    using that by (auto simp: list_all_iff dest!: set_zip_leftD)
  obtain R where R: "R \<subseteq> set ids" "kt_keys s2 = filter (\<lambda>k. ak_ID k \<notin> R) (kt_keys s1)"
    "list_all (\<lambda>e. fst e = NoFault) envs \<longrightarrow> R = set ids"
  proof (cases "zip envs ids = []")
    case True
    then show ?thesis using that [of "{}"] assms(3,4) by (cases ids; cases envs) (simp_all add: provider_commit_def)
  next
    case False
    then obtain e where "RevokeAll tf (zip envs ids) s1 d1 = (e, s2, d2)"
      using assms(4) by (cases "RevokeAll tf (zip envs ids) s1 d1") (simp add: provider_commit_def)
    from revoke_all_keys [OF assms(2) this] show ?thesis using that enc ids_zip env_zip by metis
  qed
  have scoped: "ak_ID k' \<in> set ids \<longleftrightarrow> ak_Scope k' = ControlPlaneKeyScope" if "k' \<in> set (kt_keys s)" for k'
    using that assms(2) mk ids by (auto simp: superseded_ids_def distinct_map inj_on_def)
  have new: "ak_ID k \<notin> set ids" using assms(2) mk ids by (auto simp: superseded_ids_def)
  have keep: "\<forall>k' \<in> set (kt_keys s). ak_Scope k' \<noteq> ControlPlaneKeyScope \<longrightarrow> k' \<in> set (kt_keys s2)"
    using scoped R(1,2) mk by auto
  have "k \<in> set (kt_keys s2)" using R(1,2) mk new by auto
  then have ver: "KeyStore_Verify c s2 p" using mk by (auto simp: Verify_iff)
  have "kt_keys s2 = filter (\<lambda>k. ak_Scope k \<noteq> ControlPlaneKeyScope) (kt_keys s) @ [k]" if "R = set ids"
    using R(2) that mk new scoped by (simp cong: filter_cong)
  moreover have "k \<notin> set (kt_keys s)" using assms(2) mk by auto
  ultimately show ?thesis using keep ver R(3) mk by blast
qed

text \<open>
  A registration round that published a key and committed it never removes a key that does
  not carry the control plane's scope, whatever it is called; the new key is accepted; and when
  the writes succeed the store holds exactly the operator's keys and the new one.
\<close>

theorem rotation_retires_own_keys:
  assumes "provider_Mint c tf me cfg s disk = (Provided p ids, s1, d1)" "distinct (map ak_ID (kt_keys s1))"
    "length envs = length ids" "provider_commit tf (zip envs ids) s1 d1 = (s2, d2)"
  shows "(\<forall>k \<in> set (kt_keys s). ak_Scope k \<noteq> ControlPlaneKeyScope \<longrightarrow> k \<in> set (kt_keys s2)) \<and> KeyStore_Verify c s2 p \<and>
    (list_all (\<lambda>e. fst e = NoFault) envs \<longrightarrow>
       (\<exists>k. ak_Scope k = ControlPlaneKeyScope \<and> k \<notin> set (kt_keys s) \<and>
          kt_keys s2 = filter (\<lambda>k. ak_Scope k \<noteq> ControlPlaneKeyScope) (kt_keys s) @ [k]))"
  by (rule rotation_outcome [OF assms])

definition demo_publishing :: Config where
  "demo_publishing = Default\<lparr>c_Capabilities := \<lparr>cap_Memory = False, cap_Compute = True\<rparr>,
     c_OpenAI := \<lparr>oa_Enabled = True, oa_PublishKeyToControlPlane = True\<rparr>\<rparr>"

definition stored_key :: "string \<Rightarrow> string \<Rightarrow> api_key" where
  "stored_key i scope = \<lparr>ak_ID = i, ak_Name = ''control-plane'', ak_SHA256 = i, ak_Last4 = [], ak_CreatedAt = 1, ak_Scope = scope\<rparr>"

theorem rotation_retires_own_keys_witness:
  "\<exists>p s1 d1 s2 d2. provider_Mint demo_crypto unit_tf (demo_mint ''i'' NoFault) demo_publishing
       (demo_keys\<lparr>kt_keys := [stored_key ''a'' [], stored_key ''b'' ControlPlaneKeyScope]\<rparr>) [] = (Provided p [''b''], s1, d1) \<and>
     provider_commit unit_tf [((NoFault, ''t''), ''b'')] s1 d1 = (s2, d2) \<and>
     stored_key ''a'' [] \<in> set (kt_keys s2) \<and> KeyStore_Verify demo_crypto s2 p"
proof -
  let ?s = "demo_keys\<lparr>kt_keys := [stored_key ''a'' [], stored_key ''b'' ControlPlaneKeyScope]\<rparr>"
  let ?p = "keyPrefix @ hex_encode ''s''"
  obtain s1 d1 where m: "provider_Mint demo_crypto unit_tf (demo_mint ''i'' NoFault) demo_publishing ?s [] = (Provided ?p [''b''], s1, d1)"
    and keys: "map ak_ID (kt_keys s1) = [''a'', ''b'', ''key_'' @ hex_encode ''i'']"
    by (simp add: provider_Mint_def MintForControlPlane_def KeyStore_mint_def Let_def demo_mint_def demo_keys_def persistLocked_def
        key_json_def new_key_def unit_tf_def WriteFileAtomic_def WriteFileAtomic_trace_def demo_publishing_def stored_key_def
        superseded_ids_def ControlPlaneKeyScope_def)
  have "distinct (map ak_ID (kt_keys s1))" unfolding keys by simp
  moreover obtain s2 d2 where r: "provider_commit unit_tf (zip [(NoFault, ''t'')] [''b'']) s1 d1 = (s2, d2)" by (metis surj_pair)
  ultimately show ?thesis using m rotation_retires_own_keys [OF m, of "[(NoFault, ''t'')]" s2 d2]
    by (auto simp: stored_key_def ControlPlaneKeyScope_def demo_keys_def)
qed

end
