(* ===== verification/Relay.thy ===== *)
theory Relay
  imports Http Memory KeyStore
begin

text \<open>
  The HTTP surfaces of the LAN port: the relay to the control plane (gateway/gateway.go), the
  OpenAI-shaped inference proxy (openaiapi/capability.go), the routes of the memory API, and the two
  muxes in front of them (lanserve/server.go, node/node.go). A reverse proxy's request goes to the
  list of requests sent; what came back is the environment's. Of httputil.ReverseProxy the header
  treatment before Rewrite and the cleaning of unparsable query parameters are parameters.
\<close>

section \<open>Requests that leave the node\<close>

record upstream =
  up_Method :: string
  up_Scheme :: string
  up_Host :: string
  up_Path :: string   \<comment> \<open>decoded; escape_path of it goes on the wire\<close>
  up_RawQuery :: string
  up_Header :: "(string \<times> string) list"

record lan_world =
  lw_mem :: mem_world
  lw_keys :: key_store
  lw_gateway :: bool   \<comment> \<open>the running flags\<close>
  lw_openai :: bool
  lw_sent :: "upstream list"

record 'f lan_env =
  le_cfg :: Config
  le_nodeKey :: string
  le_token :: "string option"
  le_agent :: string
  le_strip :: "(string \<times> string) list \<Rightarrow> (string \<times> string) list"
  le_query :: "string \<Rightarrow> string"
  le_reply :: "upstream \<Rightarrow> string + response"   \<comment> \<open>the text of the error when the transport fails\<close>
  le_remember :: "'f remember_env"
  le_recall :: "'f recall_env"
  le_db_ok :: bool

text \<open>A plain-text body is its string. The proxy's round trip: the request is sent, the reply relayed.\<close>

definition text_resp :: "nat \<Rightarrow> string \<Rightarrow> response" where
  "text_resp code s = \<lparr>rs_status = code, rs_body = JStr s\<rparr>"

definition forward :: "'f lan_env \<Rightarrow> (string \<Rightarrow> response) \<Rightarrow> upstream \<Rightarrow> lan_world \<Rightarrow> response \<times> lan_world" where
  "forward e unavailable u w = ((case le_reply e u of Inr r \<Rightarrow> r | Inl err \<Rightarrow> unavailable err), w\<lparr>lw_sent := lw_sent w @ [u]\<rparr>)"

section \<open>The relay\<close>

definition RoutePrefix :: string where "RoutePrefix = ''/v1/cloud''"

definition Gateway_Start :: "lan_world \<Rightarrow> lan_world" where "Gateway_Start w = w\<lparr>lw_gateway := True\<rparr>"
definition Gateway_Stop :: "lan_world \<Rightarrow> lan_world" where "Gateway_Stop w = w\<lparr>lw_gateway := False\<rparr>"

definition noCredentialsHint :: string where
  "noCredentialsHint = ''sign in with `onesilo-node setup`, set SILO_API_KEY, or push a JWT''"

datatype probe = ProbeBadURL string | ProbeUnreachable string | ProbeAnswered

definition Gateway_Healthy :: "'f lan_env \<Rightarrow> probe \<Rightarrow> lan_world \<Rightarrow> bool \<times> string" where
  "Gateway_Healthy e p w =
    (if \<not> lw_gateway w then (False, ''not started'')
     else if le_token e = None then (False, ''no control-plane credentials ('' @ noCredentialsHint @ '')'')
     else case p of
       ProbeBadURL err \<Rightarrow> (False, ''invalid control plane URL: '' @ err)
     | ProbeUnreachable err \<Rightarrow> (False, ''control plane unreachable: '' @ err)
     | ProbeAnswered \<Rightarrow> (True, ''relaying '' @ RoutePrefix @ '' to '' @ cp_URL (c_ControlPlane (le_cfg e))))"

definition allowedPath :: "string \<Rightarrow> bool" where
  "allowedPath p \<longleftrightarrow> HasPrefix p ''/api/'' \<or> p = ''/mcp'' \<or> HasPrefix p ''/mcp/''"

definition allowedMethod :: "string \<Rightarrow> bool" where
  "allowedMethod m \<longleftrightarrow> m \<in> {''GET'', ''HEAD'', ''POST'', ''PUT'', ''PATCH'', ''DELETE'', ''OPTIONS''}"

definition strippedRelayHeaders :: "string list" where
  "strippedRelayHeaders = [''Cookie'', ''X-Forwarded-For'', ''X-Forwarded-Host'', ''X-Forwarded-Proto'', ''X-Real-Ip'', ''Forwarded'']"

definition relay_headers :: "string \<Rightarrow> string \<Rightarrow> (string \<times> string) list \<Rightarrow> (string \<times> string) list" where
  "relay_headers agent token h =
    hdr_set ''User-Agent'' agent (hdr_set ''Authorization'' (''Bearer '' @ token) (fold hdr_del strippedRelayHeaders (hdr_del NodeKeyHeader h)))"

definition relay_upstream :: "'f lan_env \<Rightarrow> http_req \<Rightarrow> url \<Rightarrow> string \<Rightarrow> string \<Rightarrow> upstream" where
  "relay_upstream e r base rest token =
    \<lparr>up_Method = hq_Method r, up_Scheme = u_Scheme base, up_Host = u_Host base, up_Path = unesc (u_Path base) @ rest,
     up_RawQuery = hq_RawQuery r, up_Header = relay_headers (le_agent e) token (le_strip e (hq_Header r))\<rparr>"

text \<open>The relay behind the node key: d is the decoded path of the request.\<close>

definition relay_inner :: "'f lan_env \<Rightarrow> http_req \<Rightarrow> string \<Rightarrow> lan_world \<Rightarrow> response \<times> lan_world" where
  "relay_inner e r d w =
    (if \<not> lw_gateway w then (writeError 503 ''gateway capability is not running (node mode is not \"gateway\")'', w)
     else if \<not> allowedMethod (hq_Method r) then (writeError 405 ''method not relayed'', w)
     else case CutPrefix d RoutePrefix of
       None \<Rightarrow> (writeError 404 ''unknown relay path'', w)
     | Some rest \<Rightarrow>
        if rest = [] \<or> \<not> HasPrefix rest ''/'' then (writeError 404 ''unknown relay path'', w)
        else if \<not> allowedPath rest then (writeError 403 ''path is not relayed (allowed: /api/*, /mcp)'', w)
        else case le_token e of
          None \<Rightarrow> (writeError 503 (''no control-plane credentials ('' @ noCredentialsHint @ '')''), w)
        | Some token \<Rightarrow>
           (case url_parse (TrimRight (cp_URL (c_ControlPlane (le_cfg e))) (CHR ''/'')) of
              None \<Rightarrow> (writeError 502 ''invalid control plane URL'', w)
            | Some base \<Rightarrow>
                if u_Scheme base = [] \<or> u_Host base = [] then (writeError 502 ''invalid control plane URL'', w)
                else forward e (\<lambda>err. writeError 502 (''control plane unreachable: '' @ err)) (relay_upstream e r base rest token) w))"

section \<open>The OpenAI surface\<close>

definition openai_routes :: "string list" where
  "openai_routes = [''/v1/chat/completions'', ''/v1/completions'', ''/v1/models'', ''/v1/embeddings'']"

definition OpenAI_Start :: "lan_world \<Rightarrow> lan_world" where "OpenAI_Start w = w\<lparr>lw_openai := True\<rparr>"
definition OpenAI_Stop :: "lan_world \<Rightarrow> lan_world" where "OpenAI_Stop w = w\<lparr>lw_openai := False\<rparr>"

definition OpenAI_Healthy :: "lan_world \<Rightarrow> bool \<times> string" where
  "OpenAI_Healthy w =
    (if \<not> lw_openai w then (False, ''not running'')
     else if KeyStore_Count (lw_keys w) = 0 then (True, ''serving (no API keys minted yet)'')
     else (True, ''serving, '' @ show_nat (KeyStore_Count (lw_keys w)) @ '' API key(s)''))"

definition bearerToken :: "(string \<times> string) list \<Rightarrow> string option" where
  "bearerToken h = (let auth = hdr_get ''Authorization'' h in
     if length auth \<le> length ''Bearer '' \<or> \<not> EqualFold (take (length ''Bearer '') auth) ''Bearer '' then None
     else Some (TrimSpace (drop (length ''Bearer '') auth)))"

definition writeOpenAIError :: "nat \<Rightarrow> string \<Rightarrow> response" where
  "writeOpenAIError status message = \<lparr>rs_status = status, rs_body = JObj [(''error'', JObj [(''message'', JStr message),
     (''type'', JStr (if status = 401 then ''authentication_error'' else ''invalid_request_error''))])]\<rparr>"

definition openai_upstream :: "'f lan_env \<Rightarrow> http_req \<Rightarrow> url \<Rightarrow> string \<Rightarrow> upstream" where
  "openai_upstream e r target d =
    (let q = le_query e (hq_RawQuery r) in
     \<lparr>up_Method = hq_Method r, up_Scheme = u_Scheme target, up_Host = u_Host target, up_Path = d,
      up_RawQuery = (if u_RawQuery target = [] \<or> q = [] then u_RawQuery target @ q else u_RawQuery target @ ''&'' @ q),
      up_Header = hdr_del ''Authorization'' (le_strip e (hq_Header r))\<rparr>)"

definition openai_handler :: "crypto \<Rightarrow> 'f lan_env \<Rightarrow> http_req \<Rightarrow> string \<Rightarrow> lan_world \<Rightarrow> response \<times> lan_world" where
  "openai_handler c e r d w =
    (if \<not> oa_Enabled (c_OpenAI (le_cfg e)) \<or> \<not> cap_Compute (c_Capabilities (le_cfg e)) \<or> \<not> lw_openai w
     then (text_resp 404 ''404 page not found'', w)
     else case bearerToken (hq_Header r) of
       None \<Rightarrow> (writeOpenAIError 401 ''invalid or missing API key; mint one with `onesilo-node` admin API or the desktop app'', w)
     | Some presented \<Rightarrow>
        if \<not> KeyStore_Verify c (lw_keys w) presented
        then (writeOpenAIError 401 ''invalid or missing API key; mint one with `onesilo-node` admin API or the desktop app'', w)
        else (case url_parse (ol_Host (c_Ollama (le_cfg e))) of
            None \<Rightarrow> (writeOpenAIError 502 ''local inference backend is misconfigured'', w)
          | Some target \<Rightarrow>
              if u_Host target = [] then (writeOpenAIError 502 ''local inference backend is misconfigured'', w)
              else forward e (\<lambda>_. writeOpenAIError 502 ''local inference backend is unavailable'') (openai_upstream e r target d) w))"

section \<open>The muxes of the LAN port\<close>

definition mem_routes :: "mem_route routes" where
  "mem_routes = [
     (''GET'', [Lit ''v1'', Lit ''memory'', Lit ''silos''], \<lambda>_. RSilos),
     (''POST'', [Lit ''v1'', Lit ''memory'', Wild, Lit ''remember''], \<lambda>vs. RRemember (vs ! 0)),
     (''POST'', [Lit ''v1'', Lit ''memory'', Wild, Lit ''recall''], \<lambda>vs. RRecall (vs ! 0)),
     (''DELETE'', [Lit ''v1'', Lit ''memory'', Wild, Wild], \<lambda>vs. RForget (vs ! 0) (vs ! 1))]"

datatype api_surface = SMemory | SRelay | SOpenAI

definition api_mux :: "api_surface routes" where
  "api_mux = map (\<lambda>p. ([], map Lit (segs_of p), \<lambda>_. SOpenAI)) openai_routes @
     [([], [Lit ''v1'', Lit ''memory'', Multi], \<lambda>_. SMemory), ([], [Lit ''v1'', Lit ''cloud'', Multi], \<lambda>_. SRelay)]"

datatype lan_surface = LanHealthz | LanAPI | LanWebSocket

definition lan_mux :: "lan_surface routes" where
  "lan_mux = [(''GET'', [Lit ''healthz''], \<lambda>_. LanHealthz), ([], [Lit ''v1'', Multi], \<lambda>_. LanAPI), ([], [Multi], \<lambda>_. LanWebSocket)]"

text \<open>How a mux answers without a route.\<close>

definition mux_answer :: "'r muxed \<Rightarrow> response" where
  "mux_answer m = (case m of Redirected l \<Rightarrow> text_resp 301 l | MethodNotAllowed \<Rightarrow> text_resp 405 ''Method Not Allowed'' | _ \<Rightarrow> text_resp 404 ''404 page not found'')"

definition memory_surface :: "crypto \<Rightarrow> 'f flops \<Rightarrow> ('f \<Rightarrow> string) \<Rightarrow> gcm \<Rightarrow> 'f lan_env \<Rightarrow> http_req \<Rightarrow> string \<Rightarrow> lan_world \<Rightarrow> response \<times> lan_world" where
  "memory_surface c fo ftext g e r d w =
    (let header = hdr_get NodeKeyHeader (hq_Header r) in
     case serve_mux mem_routes r d of
       Routed route \<Rightarrow>
         (case Memory_Handler (c_sha256 c) fo ftext g (le_remember e) (le_recall e) (le_db_ok e) (le_cfg e) (le_nodeKey e) header route (hq_Body r) (lw_mem w) of
            (resp, m) \<Rightarrow> (resp, w\<lparr>lw_mem := m\<rparr>))
     | other \<Rightarrow> RequireNodeKey (c_sha256 c) (le_nodeKey e) header (\<lambda>w. (mux_answer other, w)) w)"

definition api_handler :: "crypto \<Rightarrow> 'f flops \<Rightarrow> ('f \<Rightarrow> string) \<Rightarrow> gcm \<Rightarrow> 'f lan_env \<Rightarrow> http_req \<Rightarrow> string \<Rightarrow> lan_world \<Rightarrow> response \<times> lan_world" where
  "api_handler c fo ftext g e r d w =
    (case serve_mux api_mux r d of
       Routed SMemory \<Rightarrow> memory_surface c fo ftext g e r d w
     | Routed SRelay \<Rightarrow> RequireNodeKey (c_sha256 c) (le_nodeKey e) (hdr_get NodeKeyHeader (hq_Header r)) (relay_inner e r d) w
     | Routed SOpenAI \<Rightarrow> openai_handler c e r d w
     | other \<Rightarrow> (mux_answer other, w))"

text \<open>A request on the LAN port: an HTTP answer, or the WebSocket upgrade.\<close>

definition LAN_request :: "crypto \<Rightarrow> 'f flops \<Rightarrow> ('f \<Rightarrow> string) \<Rightarrow> gcm \<Rightarrow> 'f lan_env \<Rightarrow> http_req \<Rightarrow> lan_world \<Rightarrow> response option \<times> lan_world" where
  "LAN_request c fo ftext g e r w =
    (case pct_decode (hq_RawPath r) of
       None \<Rightarrow> (Some (text_resp 400 ''400 Bad Request''), w)
     | Some d \<Rightarrow>
        (case serve_mux lan_mux r d of
           Routed LanHealthz \<Rightarrow> (Some \<lparr>rs_status = 200, rs_body = JObj [(''ok'', JBool True)]\<rparr>, w)
         | Routed LanAPI \<Rightarrow> (case api_handler c fo ftext g e r d w of (resp, w') \<Rightarrow> (Some resp, w'))
         | Routed LanWebSocket \<Rightarrow> (None, w)
         | other \<Rightarrow> (Some (mux_answer other), w)))"


section \<open>Gates\<close>

lemma forward_simps:
  "lw_mem (snd (forward e f u w)) = lw_mem w" "lw_sent (snd (forward e f u w)) = lw_sent w @ [u]" "lw_keys (snd (forward e f u w)) = lw_keys w"
  "forward e f u (w\<lparr>lw_mem := m\<rparr>) = (fst (forward e f u w), snd (forward e f u w)\<lparr>lw_mem := m\<rparr>)"
  by (simp_all add: forward_def)

definition keyed :: "crypto \<Rightarrow> 'f lan_env \<Rightarrow> http_req \<Rightarrow> bool" where
  "keyed c e r \<longleftrightarrow> le_nodeKey e \<noteq> [] \<and> hdr_get NodeKeyHeader (hq_Header r) \<noteq> [] \<and>
     c_sha256 c (le_nodeKey e) = c_sha256 c (hdr_get NodeKeyHeader (hq_Header r))"

text \<open>What a request may do with the memories left alone: nothing is sent, or one request passed the API key check.\<close>

definition harmless :: "crypto \<Rightarrow> 'f lan_env \<Rightarrow> http_req \<Rightarrow> (lan_world \<Rightarrow> 'a \<times> lan_world) \<Rightarrow> lan_world \<Rightarrow> bool" where
  "harmless c e r h w \<longleftrightarrow> lw_mem (snd (h w)) = lw_mem w \<and>
     (\<forall>m. h (w\<lparr>lw_mem := m\<rparr>) = (fst (h w), snd (h w)\<lparr>lw_mem := m\<rparr>)) \<and>
     (lw_sent (snd (h w)) = lw_sent w \<or>
      (\<exists>u p target. lw_sent (snd (h w)) = lw_sent w @ [u] \<and> bearerToken (hq_Header r) = Some p \<and> KeyStore_Verify c (lw_keys w) p \<and>
         oa_Enabled (c_OpenAI (le_cfg e)) \<and> url_parse (ol_Host (c_Ollama (le_cfg e))) = Some target \<and> up_Host u = u_Host target \<and>
         (\<forall>v. (''Authorization'', v) \<notin> set (up_Header u))))"

lemma harmless_const: "harmless c e r (\<lambda>w. (a, w)) w"
  by (simp add: harmless_def)

lemma unkeyed_require:
  "\<not> keyed c e r \<Longrightarrow> RequireNodeKey (c_sha256 c) (le_nodeKey e) (hdr_get NodeKeyHeader (hq_Header r)) h w = (writeError 401 (''missing or invalid '' @ NodeKeyHeader), w)"
  by (auto simp: keyed_def RequireNodeKey_def constantTimeEqual_def)

lemma harmless_memory:
  assumes "\<not> keyed c e r"
  shows "harmless c e r (memory_surface c fo ftext g e r d) w"
proof -
  have "memory_surface c fo ftext g e r d = (\<lambda>w. (writeError 401 (''missing or invalid '' @ NodeKeyHeader), w))"
    by (rule ext) (cases "serve_mux mem_routes r d"; simp add: memory_surface_def Memory_Handler_def Let_def unkeyed_require [OF assms])
  then show ?thesis by (simp only: harmless_const)
qed

lemma harmless_openai: "harmless c e r (openai_handler c e r d) w"
proof (cases "\<exists>p target. bearerToken (hq_Header r) = Some p \<and> KeyStore_Verify c (lw_keys w) p \<and>
    url_parse (ol_Host (c_Ollama (le_cfg e))) = Some target \<and> u_Host target \<noteq> [] \<and> oa_Enabled (c_OpenAI (le_cfg e)) \<and> cap_Compute (c_Capabilities (le_cfg e)) \<and> lw_openai w")
  case True
  then obtain p target where p: "bearerToken (hq_Header r) = Some p" "KeyStore_Verify c (lw_keys w) p"
    "url_parse (ol_Host (c_Ollama (le_cfg e))) = Some target" "u_Host target \<noteq> []" "oa_Enabled (c_OpenAI (le_cfg e))"
    "cap_Compute (c_Capabilities (le_cfg e))" "lw_openai w" by blast
  show ?thesis unfolding harmless_def openai_handler_def by (simp add: p forward_simps openai_upstream_def hdr_simps Let_def)
next
  case False
  then show ?thesis unfolding harmless_def openai_handler_def by (auto split: option.splits)
qed

lemma harmless_api:
  assumes "\<not> keyed c e r"
  shows "harmless c e r (api_handler c fo ftext g e r d) w"
proof (cases "serve_mux api_mux r d")
  case (Routed s)
  show ?thesis
  proof (cases s)
    case SRelay
    with Routed show ?thesis by (simp add: api_handler_def [abs_def] unkeyed_require [OF assms] harmless_const)
  qed (use Routed harmless_memory [OF assms] harmless_openai in \<open>simp_all add: api_handler_def [abs_def]\<close>)
qed (simp_all add: api_handler_def [abs_def] harmless_const)

text \<open>
  C3. A LAN request without the node key neither changes the memories nor learns anything of them,
  whatever its method and however its path is spelled: the memories stay, and the answer is the same
  over any others. It makes the node send nothing, except that a request which presents a minted
  API key may be forwarded to the local Ollama, and then without its Authorization header.
\<close>

theorem LAN_request_gated:
  assumes "\<not> keyed c e r" "LAN_request c fo ftext g e r w = (answer, w')"
  shows "lw_mem w' = lw_mem w \<and> (\<forall>m. LAN_request c fo ftext g e r (w\<lparr>lw_mem := m\<rparr>) = (answer, w'\<lparr>lw_mem := m\<rparr>)) \<and>
    (lw_sent w' = lw_sent w \<or>
     (\<exists>u p target. lw_sent w' = lw_sent w @ [u] \<and> bearerToken (hq_Header r) = Some p \<and> KeyStore_Verify c (lw_keys w) p \<and>
        oa_Enabled (c_OpenAI (le_cfg e)) \<and> url_parse (ol_Host (c_Ollama (le_cfg e))) = Some target \<and> up_Host u = u_Host target \<and>
        (\<forall>v. (''Authorization'', v) \<notin> set (up_Header u))))"
proof -
  have "harmless c e r (LAN_request c fo ftext g e r) w"
  proof (cases "pct_decode (hq_RawPath r)")
    case (Some d)
    note api = harmless_api [OF assms(1), of fo ftext g d w]
    show ?thesis
    proof (cases "serve_mux lan_mux r d")
      case (Routed s)
      then show ?thesis using Some api
        by (cases s) (simp_all add: LAN_request_def [abs_def] harmless_def split_beta)
    qed (simp_all add: Some LAN_request_def [abs_def] harmless_const)
  qed (simp add: LAN_request_def [abs_def] harmless_const)
  then show ?thesis unfolding harmless_def assms(2) by simp
qed

section \<open>What the relay sends\<close>

lemma fold_hdr_del: "(k, v) \<in> set (fold hdr_del ks h) \<longleftrightarrow> k \<notin> set ks \<and> (k, v) \<in> set h"
  by (induction ks arbitrary: h) (auto simp: hdr_simps)

lemma relay_headers_ok:
  "(''Authorization'', v) \<in> set (relay_headers agent token h) \<longleftrightarrow> v = ''Bearer '' @ token"
  "k \<in> set (NodeKeyHeader # strippedRelayHeaders) \<Longrightarrow> (k, v) \<notin> set (relay_headers agent token h)"
  by (auto simp: relay_headers_def hdr_simps fold_hdr_del strippedRelayHeaders_def NodeKeyHeader_def)



section \<open>Dot segments\<close>

lemma pct_decode_id: "CHR ''%'' \<notin> set s \<Longrightarrow> pct_decode s = Some s"
  by (induction s) auto

definition plain_name :: "string \<Rightarrow> bool" where
  "plain_name n \<longleftrightarrow> plain n \<and> list_all unreserved n"

text \<open>A request for the relay whose path climbs out of the API with an encoded dot-dot.\<close>

definition climbing :: "string list \<Rightarrow> string" where
  "climbing ns = path_of ([''v1'', ''cloud'', ''api'', ''%2e%2e''] @ ns)"

lemma climbing_prefix: "ns \<noteq> [] \<Longrightarrow> climbing ns = ''/v1/cloud/api/%2e%2e/'' @ Join ns ''/''"
  by (cases ns) (simp_all add: climbing_def path_of_def)

lemma unreserved_plain: "unreserved c \<Longrightarrow> c \<noteq> CHR ''%'' \<and> c \<noteq> CHR ''/'' \<and> path_char c"
  by (auto simp: unreserved_def path_char_def is_letter_def is_num_def)

lemma Join_chars: "set (Join ns [c]) \<subseteq> {c} \<union> \<Union> (set ` set ns)"
  by (induction ns "[c]" rule: Join.induct) auto

lemma joined_chars:
  assumes "list_all plain_name ns"
  shows "\<forall>c \<in> set (Join ns ''/''). c \<noteq> CHR ''%'' \<and> path_char c"
proof
  fix c assume "c \<in> set (Join ns ''/'')"
  then have "c = CHR ''/'' \<or> (\<exists>n \<in> set ns. c \<in> set n)" using Join_chars [of ns "CHR ''/''"] by blast
  then show "c \<noteq> CHR ''%'' \<and> path_char c"
  proof
    assume "\<exists>n \<in> set ns. c \<in> set n"
    then show ?thesis using assms unreserved_plain by (auto simp: list_all_iff plain_name_def)
  qed (simp add: path_char_def)
qed

lemma dot_char: "char_of (46 :: nat) = CHR ''.''"
  by (simp add: char_of_eq_iff)

lemma hex_2e: "hex_val (CHR ''2'') = Some 2" "hex_val (CHR ''e'') = Some 14"
  by (simp_all add: hex_val_def)

lemma pct_climb: "pct_decode (''/v1/cloud/api/%2e%2e/'' @ t) = map_option ((@) ''/v1/cloud/api/../'') (pct_decode t)"
  by (cases "pct_decode t") (simp_all add: hex_2e dot_char)

lemma api_mux_rows: "api_mux =
  [([], [Lit ''v1'', Lit ''chat'', Lit ''completions''], \<lambda>_. SOpenAI), ([], [Lit ''v1'', Lit ''completions''], \<lambda>_. SOpenAI),
   ([], [Lit ''v1'', Lit ''models''], \<lambda>_. SOpenAI), ([], [Lit ''v1'', Lit ''embeddings''], \<lambda>_. SOpenAI),
   ([], [Lit ''v1'', Lit ''memory'', Multi], \<lambda>_. SMemory), ([], [Lit ''v1'', Lit ''cloud'', Multi], \<lambda>_. SRelay)]"
  by (simp add: api_mux_def openai_routes_def segs_of_def)

lemma climbing_decoded:
  assumes "list_all plain_name ns" "ns \<noteq> []"
  shows "pct_decode (climbing ns) = Some (path_of ([''v1'', ''cloud'', ''api'', ''..''] @ ns))"
    "EscapedPath (climbing ns) d' = climbing ns \<or> d' \<noteq> path_of ([''v1'', ''cloud'', ''api'', ''..''] @ ns)"
proof -
  have "pct_decode (Join ns ''/'') = Some (Join ns ''/'')" using joined_chars [OF assms(1)] pct_decode_id by blast
  moreover have "path_of ([''v1'', ''cloud'', ''api'', ''..''] @ ns) = ''/v1/cloud/api/../'' @ Join ns ''/''"
    using assms(2) by (cases ns) (simp_all add: path_of_def)
  ultimately show d: "pct_decode (climbing ns) = Some (path_of ([''v1'', ''cloud'', ''api'', ''..''] @ ns))"
    by (simp only: climbing_prefix [OF assms(2)] pct_climb option.map)
  have "valid_encoded (climbing ns)"
  proof -
    have "list_all (\<lambda>c. path_char c \<or> c \<in> set ''!()*[]%'' \<or> c = CHR 0x27) (Join ns ''/'')"
      using joined_chars [OF assms(1)] by (simp only: list_all_iff) blast
    moreover have "list_all (\<lambda>c. path_char c \<or> c \<in> set ''!()*[]%'' \<or> c = CHR 0x27) ''/v1/cloud/api/%2e%2e/''"
      by (simp add: path_char_def unreserved_def is_letter_def is_num_def)
    ultimately show ?thesis unfolding climbing_prefix [OF assms(2)] valid_encoded_def list_all_append by blast
  qed
  then show "EscapedPath (climbing ns) d' = climbing ns \<or> d' \<noteq> path_of ([''v1'', ''cloud'', ''api'', ''..''] @ ns)"
    using d by (simp add: EscapedPath_def)
qed

lemma climbing_clean:
  assumes "list_all plain_name ns" "ns \<noteq> []"
  shows "cleanPath (climbing ns) = climbing ns" "segs_of (climbing ns) = [''v1'', ''cloud'', ''api'', ''%2e%2e''] @ ns"
    "segs_of (climbing ns @ ''/'') = [''v1'', ''cloud'', ''api'', ''%2e%2e''] @ ns @ [[]]" "last (climbing ns) \<noteq> CHR ''/''"
proof -
  let ?ns = "[''v1'', ''cloud'', ''api'', ''%2e%2e''] @ ns"
  have p: "list_all plain ?ns" using assms(1) by (auto simp: plain_name_def plain_def list_all_iff)
  have s: "Split (CHR ''/'') (climbing ns) = [] # ?ns" unfolding climbing_def Split_path_of [OF p] by simp
  then have c: "Clean (climbing ns) = climbing ns"
    using p by (subst Clean_abs) (simp_all add: climbing_def list_all_iff filter_plain [unfolded list_all_iff])
  have "last ?ns \<noteq> []" "CHR ''/'' \<notin> set (last ?ns)" using p assms(2) by (auto simp: list_all_iff plain_def)
  obtain as b where nb: "ns = as @ [b]" using assms(2) by (metis rev_exhaust)
  then have "climbing ns = path_of ([''v1'', ''cloud'', ''api'', ''%2e%2e''] @ as) @ ''/'' @ b"
    using Join_append [of "[''v1'', ''cloud'', ''api'', ''%2e%2e''] @ as" b "''/''"] by (simp add: climbing_def path_of_def)
  moreover have "b \<noteq> []" "CHR ''/'' \<notin> set b" using assms(1) nb by (auto simp: plain_name_def plain_def)
  ultimately show l: "last (climbing ns) \<noteq> CHR ''/''" by (metis last_appendR last_in_set append_is_Nil_conv list.distinct(1))
  then show "cleanPath (climbing ns) = climbing ns" using c by (simp add: cleanPath_def climbing_prefix [OF assms(2)] HasPrefix_def Let_def)
  show "segs_of (climbing ns) = ?ns" using s by (simp add: segs_of_def climbing_prefix [OF assms(2)])
  show "segs_of (climbing ns @ ''/'') = [''v1'', ''cloud'', ''api'', ''%2e%2e''] @ ns @ [[]]"
    using s Split_append_seg [of "CHR ''/''" "climbing ns" "[]"] by (simp add: segs_of_def climbing_prefix [OF assms(2)])
qed

lemma climbing_routed:
  assumes "list_all plain_name ns" "ns \<noteq> []" "hq_RawPath r = climbing ns" "allowedMethod (hq_Method r)"
    and "d = path_of ([''v1'', ''cloud'', ''api'', ''..''] @ ns)"
  shows "serve_mux lan_mux r d = Routed LanAPI" "serve_mux api_mux r d = Routed SRelay" "cleanPath (climbing ns) = climbing ns"
proof -
  show "cleanPath (climbing ns) = climbing ns" by (rule climbing_clean(1) [OF assms(1,2)])
  have ep: "EscapedPath (hq_RawPath r) d = climbing ns" using climbing_decoded(2) [OF assms(1,2), of d] assms(3,5) by auto
  have c: "hq_Method r \<noteq> ''CONNECT''" using assms(4) by (auto simp: allowedMethod_def)
  have m: "method_ok [] (hq_Method r)" by (simp add: method_ok_def)
  have u: "unesc ''v1'' = ''v1''" "unesc ''cloud'' = ''cloud''" by (simp_all add: unesc_def)
  note cl = climbing_clean [OF assms(1,2)]
  have "mux_find lan_mux (hq_Method r) (climbing ns) = Some ([Lit ''v1'', Multi], LanAPI)"
    "mux_find lan_mux (hq_Method r) (climbing ns @ ''/'') = Some ([Lit ''v1'', Multi], LanAPI)"
    by (simp_all add: lan_mux_def cl m u)
  then show "serve_mux lan_mux r d = Routed LanAPI"
    by (simp add: serve_mux_def ep c cl exact_match_def Let_def)
  have "mux_find api_mux (hq_Method r) (climbing ns) = Some ([Lit ''v1'', Lit ''cloud'', Multi], SRelay)"
    "mux_find api_mux (hq_Method r) (climbing ns @ ''/'') = Some ([Lit ''v1'', Lit ''cloud'', Multi], SRelay)"
    by (simp_all add: api_mux_rows cl m u)
  then show "serve_mux api_mux r d = Routed SRelay"
    by (simp add: serve_mux_def ep c cl exact_match_def Let_def)
qed


lemma path_of_first:
  assumes "list_all plain ns" "ns \<noteq> []" "HasPrefix (path_of ns) (CHR ''/'' # a @ ''/'') \<or> path_of ns = CHR ''/'' # a" "CHR ''/'' \<notin> set a"
  shows "hd ns = a"
proof -
  obtain t where "path_of ns = CHR ''/'' # a @ CHR ''/'' # t \<or> path_of ns = CHR ''/'' # a"
    using assms(3) HasPrefixE [of "path_of ns"] by fastforce
  then have "Split (CHR ''/'') (path_of ns) = [] # a # Split (CHR ''/'') t \<or> Split (CHR ''/'') (path_of ns) = [[], a]"
    using Split_plain [OF assms(4)] by auto
  then show ?thesis using Split_path_of [OF assms(1)] assms(2) by auto
qed

lemma Clean_climb: "list_all plain ns \<Longrightarrow> ns \<noteq> [] \<Longrightarrow> Clean (path_of (''api'' # ''..'' # ns)) = path_of ns"
proof -
  assume p: "list_all plain ns" "ns \<noteq> []"
  have "Split (CHR ''/'') (path_of (''api'' # ''..'' # ns)) = [] # ''api'' # ''..'' # ns"
    using Split_Join [of "''api'' # ''..'' # ns" "CHR ''/''"] p by (auto simp: path_of_def plain_def list_all_iff)
  moreover have "clean_names True [] ns = ns" using p clean_names_plain [of ns True "[]"] filter_plain by (simp add: list_all_iff)
  ultimately show ?thesis by (simp add: Clean_def path_of_def) (simp add: IsAbs_def HasPrefix_def)
qed

text \<open>
  C25. The allowlist of the relay is on the spelling of the path, and the muxes in front of it do
  not clean encoded dots: a caller with the node key, which is to open only /api/ and /mcp, can have
  a request sent with the node's credential whose path normalizes to any other one of the control
  plane's, such as /oauth/token.
\<close>

theorem relay_escapes_allowlist:
  assumes "list_all plain_name ns" "ns \<noteq> []" "hd ns \<notin> {''api'', ''mcp''}" "hq_RawPath r = climbing ns" "allowedMethod (hq_Method r)"
    and "keyed c e r" "lw_gateway w" "le_token e = Some token"
    and "url_parse (TrimRight (cp_URL (c_ControlPlane (le_cfg e))) (CHR ''/'')) = Some base" "u_Scheme base \<noteq> []" "u_Host base \<noteq> []" "u_Path base = []"
  shows "\<exists>answer u. LAN_request c fo ftext g e r w = (Some answer, w\<lparr>lw_sent := lw_sent w @ [u]\<rparr>) \<and> up_Host u = u_Host base \<and>
    (''Authorization'', ''Bearer '' @ token) \<in> set (up_Header u) \<and> Clean (up_Path u) = path_of ns \<and> \<not> allowedPath (path_of ns)"
proof -
  let ?rest = "path_of (''api'' # ''..'' # ns)" and ?d = "path_of ([''v1'', ''cloud'', ''api'', ''..''] @ ns)"
  let ?u = "relay_upstream e r base ?rest token"
  have p: "list_all plain ns" using assms(1) by (auto simp: plain_name_def list_all_iff)
  have d: "?d = RoutePrefix @ ?rest" by (cases ns) (simp_all add: path_of_def RoutePrefix_def)
  have a: "allowedPath ?rest" using assms(2) by (cases ns) (simp_all add: allowedPath_def path_of_def HasPrefix_def)
  have r: "HasPrefix ?rest ''/''" "?rest \<noteq> []" by (simp_all add: path_of_def HasPrefix_def)
  have "CutPrefix ?d RoutePrefix = Some ?rest" using d by (simp only: CutPrefix_Some_iff)
  then have "relay_inner e r ?d w = forward e (\<lambda>err. writeError 502 (''control plane unreachable: '' @ err)) ?u w"
    using assms(5,7-11) a r by (simp add: relay_inner_def)
  moreover have "LAN_request c fo ftext g e r w = (case relay_inner e r ?d w of (resp, w') \<Rightarrow> (Some resp, w'))"
    using assms(6) climbing_decoded(1) [OF assms(1,2)] climbing_routed [OF assms(1,2,4,5) refl]
    by (simp add: LAN_request_def assms(4) api_handler_def keyed_def RequireNodeKey_def constantTimeEqual_def split_beta)
  ultimately have "\<exists>answer. LAN_request c fo ftext g e r w = (Some answer, w\<lparr>lw_sent := lw_sent w @ [?u]\<rparr>)" by (simp add: forward_def)
  moreover have "up_Path ?u = ?rest" using assms(12) by (simp add: relay_upstream_def unesc_def)
  moreover have "(''Authorization'', ''Bearer '' @ token) \<in> set (up_Header ?u)" "up_Host ?u = u_Host base"
    using relay_headers_ok(1) by (simp_all add: relay_upstream_def)
  moreover have "\<not> allowedPath (path_of ns)"
    using path_of_first [OF p assms(2), of "''api''"] path_of_first [OF p assms(2), of "''mcp''"] assms(3) by (auto simp: allowedPath_def)
  ultimately show ?thesis using Clean_climb [OF p assms(2)] by metis
qed

section \<open>Examples\<close>

definition demo_lan_env :: "int lan_env" where
  "demo_lan_env = \<lparr>le_cfg = Default\<lparr>c_Mode := ModeGateway\<rparr>, le_nodeKey = ''k1'', le_token = Some ''jwt'', le_agent = ''onesilo-node/dev'',
     le_strip = id, le_query = id, le_reply = (\<lambda>u. Inr (text_resp 200 ''ok'')), le_remember = demo_remember, le_recall = demo_recall, le_db_ok = True\<rparr>"

definition demo_lan_world :: lan_world where
  "demo_lan_world = \<lparr>lw_mem = demo_world, lw_keys = demo_keys, lw_gateway = True, lw_openai = False, lw_sent = []\<rparr>"

definition demo_http :: "string \<Rightarrow> string \<Rightarrow> http_req" where
  "demo_http p key = \<lparr>hq_Method = ''GET'', hq_Host = ''node:8765'', hq_RawPath = p, hq_RawQuery = [],
     hq_Header = [(NodeKeyHeader, key), (''Cookie'', ''a=b'')], hq_Body = None\<rparr>"

lemma demo_hdr: "hdr_get NodeKeyHeader (hq_Header (demo_http p key)) = key"
  by (simp add: hdr_get_def demo_http_def)

lemma demo_keyed: "keyed demo_crypto demo_lan_env (demo_http p key) \<longleftrightarrow> key = ''k1''"
  by (auto simp: keyed_def demo_hdr) (simp_all add: demo_lan_env_def demo_crypto_def)

theorem LAN_request_gated_witness:
  "fst (LAN_request demo_crypto int_flops (\<lambda>_. ''1'') demo_gcm demo_lan_env (demo_http ''/v1/memory/silos'' ''guess'') demo_lan_world) =
     fst (LAN_request demo_crypto int_flops (\<lambda>_. ''1'') demo_gcm demo_lan_env (demo_http ''/v1/memory/silos'' ''guess'') (demo_lan_world\<lparr>lw_mem := Restart demo_world\<rparr>))"
proof -
  obtain answer w' where run: "LAN_request demo_crypto int_flops (\<lambda>_. ''1'') demo_gcm demo_lan_env (demo_http ''/v1/memory/silos'' ''guess'') demo_lan_world = (answer, w')"
    by (metis surj_pair)
  have "\<not> keyed demo_crypto demo_lan_env (demo_http ''/v1/memory/silos'' ''guess'')" unfolding demo_keyed by simp
  from LAN_request_gated [OF this run] have "LAN_request demo_crypto int_flops (\<lambda>_. ''1'') demo_gcm demo_lan_env (demo_http ''/v1/memory/silos'' ''guess'')
      (demo_lan_world\<lparr>lw_mem := Restart demo_world\<rparr>) = (answer, w'\<lparr>lw_mem := Restart demo_world\<rparr>)" by blast
  then show ?thesis using run by (simp only: fst_conv)
qed

lemma demo_base: "url_parse (TrimRight (cp_URL (c_ControlPlane (le_cfg demo_lan_env))) (CHR ''/'')) =
    Some \<lparr>u_Scheme = ''https'', u_Opaque = [], u_User = None, u_Host = ''api.onesilo.com'', u_Path = [], u_RawQuery = [], u_Fragment = []\<rparr>"
proof -
  have "url_parse (TrimRight ''https://api.onesilo.com'' (CHR ''/'')) =
    Some \<lparr>u_Scheme = ''https'', u_Opaque = [], u_User = None, u_Host = ''api.onesilo.com'', u_Path = [], u_RawQuery = [], u_Fragment = []\<rparr>" by code_simp
  moreover have "cp_URL (c_ControlPlane (le_cfg demo_lan_env)) = ''https://api.onesilo.com''" by (simp add: demo_lan_env_def Default_def)
  ultimately show ?thesis by (simp only:)
qed


theorem relay_escapes_allowlist_witness:
  "\<exists>answer u. LAN_request demo_crypto int_flops (\<lambda>_. ''1'') demo_gcm demo_lan_env (demo_http ''/v1/cloud/api/%2e%2e/oauth/token'' ''k1'') demo_lan_world =
      (Some answer, demo_lan_world\<lparr>lw_sent := [u]\<rparr>) \<and> Clean (up_Path u) = ''/oauth/token''"
proof -
  let ?r = "demo_http ''/v1/cloud/api/%2e%2e/oauth/token'' ''k1''"
  have ns: "list_all plain_name [''oauth'', ''token'']" "hd [''oauth'', ''token''] \<notin> {''api'', ''mcp''}"
    by (simp_all add: plain_name_def plain_def unreserved_def is_letter_def)
  have r: "hq_RawPath ?r = climbing [''oauth'', ''token'']" "allowedMethod (hq_Method ?r)" "lw_gateway demo_lan_world" "le_token demo_lan_env = Some ''jwt''"
    by (simp_all add: demo_http_def climbing_def path_of_def allowedMethod_def demo_lan_world_def demo_lan_env_def)
  have "keyed demo_crypto demo_lan_env ?r" unfolding demo_keyed by simp
  note x = relay_escapes_allowlist [OF ns(1) _ ns(2) r(1,2) this r(3,4) demo_base, of int_flops "\<lambda>_. ''1''" demo_gcm, simplified]
  then show ?thesis by (simp add: demo_lan_world_def path_of_def) blast
qed

end
