(* ===== verification/Registration.thy ===== *)
theory Registration
  imports KeyStore Url "HOL-Library.List_Lexorder" "HOL-Library.Char_ord"
begin

text \<open>
  The node's registration with the control plane (internal/controlplane/client.go, heartbeat.go):
  the API client with its fallbacks, the device id file, and the Manager's lifecycle. An HTTP
  exchange is the token the source gives and the reply; every operation returns the requests it
  sent. A step of the manager is split at its network call, so that the events of other
  goroutines (a pushed token, a changed URL) may fall between.
\<close>

section \<open>The API client\<close>

datatype cp_err = ErrNoToken | ErrTokenSource | ErrTransport | ErrRequest | APIError nat string | ErrDecode

datatype reply = NoReply | Reply nat bytes "json option"   \<comment> \<open>status, body, the first JSON value of the body\<close>

record call_env =
  ce_token :: "cp_err + string"
  ce_reply :: reply

record http_request =
  hr_method :: string
  hr_url :: string
  hr_token :: string
  hr_body :: "json option"

definition IsStatus :: "cp_err \<Rightarrow> nat \<Rightarrow> bool" where
  "IsStatus e code = (case e of APIError c _ \<Rightarrow> c = code | _ \<Rightarrow> False)"

definition client_do :: "string \<Rightarrow> call_env \<Rightarrow> string \<Rightarrow> string \<Rightarrow> json option \<Rightarrow> (cp_err + json option) \<times> http_request list" where
  "client_do baseURL ce meth path body =
    (case ce_token ce of
       Inl e \<Rightarrow> (Inl e, [])
     | Inr token \<Rightarrow>
        let url = TrimRight baseURL (CHR ''/'') @ path in
        if url_parse url = None then (Inl ErrRequest, [])
        else let req = \<lparr>hr_method = meth, hr_url = url, hr_token = token, hr_body = body\<rparr> in
          (case ce_reply ce of
             NoReply \<Rightarrow> (Inl ErrTransport, [req])
           | Reply status raw v \<Rightarrow>
              if status < 200 \<or> status \<ge> 300 then (Inl (APIError status (TrimSpace (take 512 raw))), [req])
              else (Inr v, [req])))"

record RegisterRequest =
  rq_TunnelURL :: string
  rq_DeviceName :: string
  rq_ModelName :: string
  rq_Capabilities :: "string list"
  rq_DeviceID :: string
  rq_CapabilitiesStatus :: "(string \<times> string) list"
  rq_IdentityPubKey :: string
  rq_InferenceKey :: string

definition omit_str :: "string \<Rightarrow> string \<Rightarrow> (string \<times> json) list" where
  "omit_str k v = (if v = [] then [] else [(k, JStr v)])"

definition status_json :: "(string \<times> string) list \<Rightarrow> json" where
  "status_json m = JObj (map (\<lambda>(k, v). (k, JStr v)) (sort_key fst m))"

definition register_json :: "RegisterRequest \<Rightarrow> json" where
  "register_json r = JObj ([(''tunnel_url'', JStr (rq_TunnelURL r)), (''device_name'', JStr (rq_DeviceName r)),
     (''model_name'', JStr (rq_ModelName r)),
     (''capabilities'', if rq_Capabilities r = [] then JNull else JArr (map JStr (rq_Capabilities r)))] @
     omit_str ''device_id'' (rq_DeviceID r) @
     (if rq_CapabilitiesStatus r = [] then [] else [(''capabilities_status'', status_json (rq_CapabilitiesStatus r))]) @
     omit_str ''device_public_key'' (rq_IdentityPubKey r) @ omit_str ''inference_key'' (rq_InferenceKey r))"

record RegisterResponse =
  rp_DeviceID :: string
  rp_HeartbeatIntervalSeconds :: int
  rp_TTLSeconds :: int
  rp_AccountID :: string

definition response_of_json :: "json option \<Rightarrow> cp_err + RegisterResponse" where
  "response_of_json body =
    (case do { v \<leftarrow> body; kvs \<leftarrow> struct_fields v; d \<leftarrow> get_str ''device_id'' kvs;
               h \<leftarrow> get_int ''heartbeat_interval_seconds'' kvs; t \<leftarrow> get_int ''ttl_seconds'' kvs; a \<leftarrow> get_str ''account_id'' kvs;
               Some \<lparr>rp_DeviceID = d, rp_HeartbeatIntervalSeconds = h, rp_TTLSeconds = t, rp_AccountID = a\<rparr>} of
       None \<Rightarrow> Inl ErrDecode | Some r \<Rightarrow> Inr r)"

definition register_once :: "string \<Rightarrow> call_env \<Rightarrow> RegisterRequest \<Rightarrow> (cp_err + RegisterResponse) \<times> http_request list" where
  "register_once baseURL ce r = (case client_do baseURL ce ''POST'' ''/api/v1/destinations'' (Some (register_json r)) of
     (Inl e, rs) \<Rightarrow> (Inl e, rs) | (Inr body, rs) \<Rightarrow> (response_of_json body, rs))"

definition strip_new_fields :: "RegisterRequest \<Rightarrow> RegisterRequest" where
  "strip_new_fields r = r\<lparr>rq_CapabilitiesStatus := [], rq_InferenceKey := []\<rparr>"

definition Client_Register :: "string \<Rightarrow> call_env \<Rightarrow> call_env \<Rightarrow> RegisterRequest \<Rightarrow> (cp_err + RegisterResponse) \<times> http_request list" where
  "Client_Register baseURL e1 e2 r =
    (case register_once baseURL e1 r of
       (Inr resp, rs) \<Rightarrow> (Inr resp, rs)
     | (Inl e, rs) \<Rightarrow>
        if IsStatus e 422 \<and> (rq_CapabilitiesStatus r \<noteq> [] \<or> rq_InferenceKey r \<noteq> [])
        then (case register_once baseURL e2 (strip_new_fields r) of (x, rs') \<Rightarrow> (x, rs @ rs'))
        else (Inl e, rs))"

definition Client_Heartbeat :: "string \<Rightarrow> call_env \<Rightarrow> call_env \<Rightarrow> string \<Rightarrow> (string \<times> string) list \<Rightarrow> cp_err option \<times> http_request list" where
  "Client_Heartbeat baseURL e1 e2 deviceID status =
    (let path = ''/api/v1/destinations/'' @ deviceID @ ''/heartbeat'';
         bare = (\<lambda>e. case client_do baseURL e ''POST'' path None of (Inl x, rs) \<Rightarrow> (Some x, rs) | (Inr _, rs) \<Rightarrow> (None, rs)) in
     if status = [] then bare e1
     else case client_do baseURL e1 ''POST'' path (Some (JObj [(''capabilities_status'', status_json status)])) of
       (Inr _, rs) \<Rightarrow> (None, rs)
     | (Inl e, rs) \<Rightarrow> if \<not> IsStatus e 422 then (Some e, rs) else (case bare e2 of (x, rs') \<Rightarrow> (x, rs @ rs')))"

definition Client_Delete :: "string \<Rightarrow> call_env \<Rightarrow> string \<Rightarrow> cp_err option \<times> http_request list" where
  "Client_Delete baseURL ce deviceID =
    (case client_do baseURL ce ''DELETE'' (''/api/v1/destinations/'' @ deviceID) None of
       (Inr _, rs) \<Rightarrow> (None, rs)
     | (Inl e, rs) \<Rightarrow> (if IsStatus e 404 then None else Some e, rs))"

definition ProvisionTunnel :: "string \<Rightarrow> call_env \<Rightarrow> string \<Rightarrow> int \<Rightarrow> (cp_err + string \<times> string) \<times> http_request list" where
  "ProvisionTunnel baseURL ce deviceID localPort =
    (case client_do baseURL ce ''POST'' ''/api/v1/nodes/tunnel/provision''
       (Some (JObj [(''device_id'', JStr deviceID), (''local_port'', JNum ((if localPort < 0 then ''-'' else []) @ show_nat (nat \<bar>localPort\<bar>)))])) of
       (Inl e, rs) \<Rightarrow> (Inl e, rs)
     | (Inr body, rs) \<Rightarrow> (case do { v \<leftarrow> body; kvs \<leftarrow> struct_fields v; h \<leftarrow> get_str ''hostname'' kvs; u \<leftarrow> get_str ''tunnel_url'' kvs;
             t \<leftarrow> get_str ''token'' kvs; Some (u, t)} of None \<Rightarrow> (Inl ErrDecode, rs) | Some ut \<Rightarrow> (Inr ut, rs)))"

section \<open>The device id\<close>

definition deviceIDFile :: string where "deviceIDFile = ''device_id''"

record id_env =
  ie_uuid_ok :: "string \<Rightarrow> bool"   \<comment> \<open>uuid.Parse accepts\<close>
  ie_fresh :: string   \<comment> \<open>uuid.NewString\<close>
  ie_mkdir :: bool
  ie_write :: wfa_env

definition SaveDeviceID :: "id_env \<Rightarrow> string \<Rightarrow> string \<Rightarrow> disk \<Rightarrow> disk \<times> fs_err option" where
  "SaveDeviceID ie dataDir i d =
    (if \<not> ie_mkdir ie then (d, Some (ErrPath ''mkdir''))
     else WriteFileAtomic (ie_write ie) (path_join dataDir deviceIDFile) (i @ [CHR 0x0A]) mode_0600 d)"

definition LoadOrCreateDeviceID :: "id_env \<Rightarrow> string \<Rightarrow> disk \<Rightarrow> (fs_err + string) \<times> disk" where
  "LoadOrCreateDeviceID ie dataDir d =
    (let mint = (case SaveDeviceID ie dataDir (ie_fresh ie) d of (d', Some e) \<Rightarrow> (Inl e, d') | (d', None) \<Rightarrow> (Inr (ie_fresh ie), d')) in
     case ReadFile d (path_join dataDir deviceIDFile) of
       Inl _ \<Rightarrow> mint
     | Inr raw \<Rightarrow> if ie_uuid_ok ie (TrimSpace raw) then (Inr (TrimSpace raw), d) else mint)"

section \<open>The manager\<close>

definition defaultHeartbeatInterval :: duration where "defaultHeartbeatInterval = 30 * second"
definition registerRetryInterval :: duration where "registerRetryInterval = minute"
definition idleInterval :: duration where "idleInterval = 60 * minute"
definition subscriptionRetryInterval :: duration where "subscriptionRetryInterval = 10 * minute"

record manager =
  mg_deviceID :: string
  mg_accountID :: string
  mg_tunnelURL :: string
  mg_registered :: bool
  mg_registeredURL :: string
  mg_authBlocked :: bool
  mg_subscriptionBlocked :: bool
  mg_interval :: duration
  mg_kick :: bool   \<comment> \<open>the one-slot kick channel holds a token\<close>

definition NewManager :: manager where
  "NewManager = \<lparr>mg_deviceID = [], mg_accountID = [], mg_tunnelURL = [], mg_registered = False, mg_registeredURL = [],
     mg_authBlocked = False, mg_subscriptionBlocked = False, mg_interval = defaultHeartbeatInterval, mg_kick = False\<rparr>"

definition Kick :: "manager \<Rightarrow> manager" where
  "Kick m = m\<lparr>mg_kick := True\<rparr>"

definition SetTunnelURL :: "string \<Rightarrow> manager \<Rightarrow> manager" where
  "SetTunnelURL url m = (if mg_tunnelURL m \<noteq> url then Kick (m\<lparr>mg_tunnelURL := url\<rparr>) else m\<lparr>mg_tunnelURL := url\<rparr>)"

definition NotifyTokenUpdated :: "manager \<Rightarrow> manager" where
  "NotifyTokenUpdated m = Kick (m\<lparr>mg_authBlocked := False\<rparr>)"

definition setAuthBlocked :: "manager \<Rightarrow> manager" where
  "setAuthBlocked m = m\<lparr>mg_authBlocked := True\<rparr>"

definition setUnregistered :: "manager \<Rightarrow> manager" where
  "setUnregistered m = m\<lparr>mg_registered := False, mg_registeredURL := []\<rparr>"

definition subscription_refused :: "manager \<Rightarrow> manager" where
  "subscription_refused m = m\<lparr>mg_subscriptionBlocked := True, mg_registered := False, mg_registeredURL := []\<rparr>"

text \<open>A capability probe: name, enabled, healthy.\<close>

type_synonym probe = "string \<times> bool \<times> bool"

definition capabilityStatusKeys :: "string \<Rightarrow> string list" where
  "capabilityStatusKeys n = (if n = ''compute'' then [''llm_inference''] else if n = ''memory'' then [''silo_recall'', ''silo_remember'']
     else if n = ''gateway'' then [''relay''] else [])"

definition enabledCapabilityIDs :: "probe list \<Rightarrow> string list" where
  "enabledCapabilityIDs ps = concat (map (\<lambda>(n, en, _). if en then capabilityStatusKeys n else []) ps)"

definition capabilitiesStatus :: "probe list \<Rightarrow> (string \<times> string) list" where
  "capabilitiesStatus ps = fold (\<lambda>(n, en, healthy) m.
     if en then fold (\<lambda>k m. map_put k (if healthy then ''live'' else ''dead'') m) (capabilityStatusKeys n) m else m) ps []"

text \<open>What a step decides from its snapshot of the fields, before any network call.\<close>

datatype plan = PlanIdle | PlanDeregister | PlanRegister string "string list" | PlanHeartbeat duration

definition step_plan :: "probe list \<Rightarrow> manager \<Rightarrow> plan" where
  "step_plan ps m =
    (let capabilities = enabledCapabilityIDs ps; url = mg_tunnelURL m in
     if \<not> (url \<noteq> [] \<and> capabilities \<noteq> []) then (if mg_registered m then PlanDeregister else PlanIdle)
     else if mg_authBlocked m then PlanIdle
     else if \<not> mg_registered m \<or> mg_registeredURL m \<noteq> url then PlanRegister url capabilities
     else PlanHeartbeat (mg_interval m))"

text \<open>What a register round meets besides the manager's fields.\<close>

record reg_env =
  rv_base :: string
  rv_dir :: string
  rv_id :: id_env
  rv_save :: id_env
  rv_name :: string
  rv_model :: string
  rv_pubkey :: string
  rv_probes :: "probe list"
  rv_e1 :: call_env
  rv_e2 :: call_env

definition ensureDeviceID :: "reg_env \<Rightarrow> manager \<Rightarrow> disk \<Rightarrow> (fs_err + string) \<times> manager \<times> disk" where
  "ensureDeviceID v m d =
    (if mg_deviceID m \<noteq> [] then (Inr (mg_deviceID m), m, d)
     else case LoadOrCreateDeviceID (rv_id v) (rv_dir v) d of
       (Inl e, d') \<Rightarrow> (Inl e, m, d')
     | (Inr i, d') \<Rightarrow> (Inr i, m\<lparr>mg_deviceID := i\<rparr>, d'))"

text \<open>The key a mint offers: an empty one publishes nothing and its commit is not taken.\<close>

definition offered_key :: "provided option \<Rightarrow> string \<times> bool" where
  "offered_key p = (case p of Some (Provided k ids) \<Rightarrow> if k \<noteq> [] then (k, True) else ([], False) | _ \<Rightarrow> ([], False))"

definition register_request :: "reg_env \<Rightarrow> string \<Rightarrow> string list \<Rightarrow> string \<Rightarrow> string \<Rightarrow> RegisterRequest" where
  "register_request v url capabilities deviceID key =
    \<lparr>rq_TunnelURL = url, rq_DeviceName = rv_name v, rq_ModelName = rv_model v, rq_Capabilities = capabilities, rq_DeviceID = deviceID,
     rq_CapabilitiesStatus = capabilitiesStatus (rv_probes v), rq_IdentityPubKey = rv_pubkey v, rq_InferenceKey = key\<rparr>"

text \<open>
  The answer's effect on the fields: the fields are those at the time of the answer, the device id
  the one the request carried. The result is the wait before the next step.
\<close>

definition register_answer :: "reg_env \<Rightarrow> string \<Rightarrow> string \<Rightarrow> cp_err + RegisterResponse \<Rightarrow> manager \<Rightarrow> disk \<Rightarrow> manager \<times> duration \<times> disk" where
  "register_answer v url deviceID answer m d =
    (case answer of
       Inl e \<Rightarrow>
        if e = ErrNoToken \<or> IsStatus e 401 then (setAuthBlocked m, idleInterval, d)
        else if IsStatus e 402 then (subscription_refused m, subscriptionRetryInterval, d)
        else (m, registerRetryInterval, d)
     | Inr resp \<Rightarrow>
        let interval = (if rp_HeartbeatIntervalSeconds resp > 0 then wrap64 (rp_HeartbeatIntervalSeconds resp * second) else defaultHeartbeatInterval);
            adopt = rp_DeviceID resp \<noteq> [] \<and> rp_DeviceID resp \<noteq> deviceID;
            d' = (if adopt then fst (SaveDeviceID (rv_save v) (rv_dir v) (rp_DeviceID resp) d) else d);
            i = (if adopt then rp_DeviceID resp else deviceID)
        in (m\<lparr>mg_deviceID := i, mg_accountID := (if rp_AccountID resp \<noteq> [] then rp_AccountID resp else mg_accountID m),
              mg_registered := True, mg_subscriptionBlocked := False, mg_registeredURL := url, mg_interval := interval\<rparr>, interval, d'))"

definition heartbeat_answer :: "duration \<Rightarrow> cp_err option \<Rightarrow> manager \<Rightarrow> manager \<times> duration" where
  "heartbeat_answer interval answer m =
    (case answer of
       None \<Rightarrow> (m, interval)
     | Some e \<Rightarrow>
        if e = ErrNoToken \<or> IsStatus e 401 then (setUnregistered (setAuthBlocked m), idleInterval)
        else if IsStatus e 402 then (subscription_refused m, subscriptionRetryInterval)
        else if IsStatus e 404 then (setUnregistered m, second)
        else (m, interval))"

definition deregister :: "string \<Rightarrow> call_env \<Rightarrow> manager \<Rightarrow> manager \<times> http_request list" where
  "deregister baseURL ce m =
    (let m' = setUnregistered m in
     if \<not> mg_registered m then (m', []) else (m', snd (Client_Delete baseURL ce (mg_deviceID m))))"

text \<open>One register round: the new fields, the wait, the requests, and whether the key's commit ran.\<close>

definition register_round :: "reg_env \<Rightarrow> provided option \<Rightarrow> string \<Rightarrow> string list \<Rightarrow> manager \<Rightarrow> disk
    \<Rightarrow> manager \<times> duration \<times> http_request list \<times> bool \<times> disk" where
  "register_round v p url capabilities m d =
    (case ensureDeviceID v m d of
       (Inl _, m1, d1) \<Rightarrow> (m1, registerRetryInterval, [], False, d1)
     | (Inr deviceID, m1, d1) \<Rightarrow>
        (case Client_Register (rv_base v) (rv_e1 v) (rv_e2 v) (register_request v url capabilities deviceID (fst (offered_key p))) of
           (answer, reqs) \<Rightarrow>
            (case register_answer v url deviceID answer m1 d1 of
               (m2, wait, d2) \<Rightarrow> (m2, wait, reqs, snd (offered_key p) \<and> is_ok answer, d2))))"

text \<open>
  The manager's goroutine and the events around it. A step begins by planning on the fields it
  reads and ends when its network calls are answered; any event may fall in between.
\<close>

record mg_sys =
  ms_m :: manager
  ms_busy :: "plan option"
  ms_wait :: duration
  ms_commits :: nat
  ms_disk :: disk

datatype mg_event = EvURL string | EvToken | EvKick | EvBegin "probe list" | EvFinish reg_env "provided option"

fun mg_exec :: "mg_event \<Rightarrow> mg_sys \<Rightarrow> mg_sys \<times> http_request list" where
  "mg_exec (EvURL u) s = (s\<lparr>ms_m := SetTunnelURL u (ms_m s)\<rparr>, [])"
| "mg_exec EvToken s = (s\<lparr>ms_m := NotifyTokenUpdated (ms_m s)\<rparr>, [])"
| "mg_exec EvKick s = (s\<lparr>ms_m := Kick (ms_m s)\<rparr>, [])"
| "mg_exec (EvBegin ps) s =
     (if ms_busy s \<noteq> None then (s, [])
      else (s\<lparr>ms_busy := Some (step_plan ps (ms_m s)), ms_m := (ms_m s)\<lparr>mg_kick := False\<rparr>\<rparr>, []))"
| "mg_exec (EvFinish v p) s =
     (case ms_busy s of
        None \<Rightarrow> (s, [])
      | Some PlanIdle \<Rightarrow> (s\<lparr>ms_busy := None, ms_wait := idleInterval\<rparr>, [])
      | Some PlanDeregister \<Rightarrow> (case deregister (rv_base v) (rv_e1 v) (ms_m s) of
          (m', rs) \<Rightarrow> (s\<lparr>ms_m := m', ms_busy := None, ms_wait := idleInterval\<rparr>, rs))
      | Some (PlanRegister url caps) \<Rightarrow> (case register_round v p url caps (ms_m s) (ms_disk s) of
          (m', wait, rs, committed, d) \<Rightarrow> (s\<lparr>ms_m := m', ms_busy := None, ms_wait := wait, ms_disk := d,
             ms_commits := ms_commits s + (if committed then 1 else 0)\<rparr>, rs))
      | Some (PlanHeartbeat interval) \<Rightarrow>
          (case Client_Heartbeat (rv_base v) (rv_e1 v) (rv_e2 v) (mg_deviceID (ms_m s)) (capabilitiesStatus (rv_probes v)) of
             (answer, rs) \<Rightarrow> (case heartbeat_answer interval answer (ms_m s) of
                 (m', wait) \<Rightarrow> (s\<lparr>ms_m := m', ms_busy := None, ms_wait := wait\<rparr>, rs))))"

fun mg_run :: "mg_event list \<Rightarrow> mg_sys \<Rightarrow> mg_sys \<times> http_request list" where
  "mg_run [] s = (s, [])"
| "mg_run (e # es) s = (case mg_exec e s of (s', rs) \<Rightarrow> (case mg_run es s' of (s'', rs') \<Rightarrow> (s'', rs @ rs')))"

definition mg_init :: "disk \<Rightarrow> mg_sys" where
  "mg_init d = \<lparr>ms_m = NewManager, ms_busy = None, ms_wait = 0, ms_commits = 0, ms_disk = d\<rparr>"

section \<open>Invariant\<close>

text \<open>uuid's part: what it makes is not empty and the empty string does not parse.\<close>

definition uuid_law :: "mg_event \<Rightarrow> bool" where
  "uuid_law e = (case e of EvFinish v p \<Rightarrow> ie_fresh (rv_id v) \<noteq> [] \<and> \<not> ie_uuid_ok (rv_id v) [] | _ \<Rightarrow> True)"

definition mg_inv :: "manager \<Rightarrow> bool" where
  "mg_inv m \<longleftrightarrow> (mg_registered m \<longrightarrow> mg_registeredURL m \<noteq> [] \<and> mg_deviceID m \<noteq> [] \<and> \<not> mg_subscriptionBlocked m) \<and>
     (\<not> mg_registered m \<longrightarrow> mg_registeredURL m = [])"

definition plan_inv :: "mg_sys \<Rightarrow> bool" where
  "plan_inv s = (case ms_busy s of Some (PlanRegister url caps) \<Rightarrow> url \<noteq> [] \<and> caps \<noteq> [] | _ \<Rightarrow> True)"

lemma ensure_inv:
  assumes "mg_inv m" "ie_fresh (rv_id v) \<noteq> []" "\<not> ie_uuid_ok (rv_id v) []" "ensureDeviceID v m d = (r, m', d')"
  shows "mg_inv m' \<and> (\<forall>i. r = Inr i \<longrightarrow> i \<noteq> [] \<and> mg_deviceID m' = i) \<and> mg_authBlocked m' = mg_authBlocked m \<and>
    mg_registered m' = mg_registered m"
  using assms
  by (auto simp: ensureDeviceID_def LoadOrCreateDeviceID_def Let_def mg_inv_def split: if_splits sum.splits prod.splits option.splits)

lemma answer_inv:
  "mg_inv m \<Longrightarrow> url \<noteq> [] \<Longrightarrow> i \<noteq> [] \<Longrightarrow> register_answer v url i ans m d = (m', wait, d') \<Longrightarrow> mg_inv m'"
  by (auto simp: register_answer_def mg_inv_def setAuthBlocked_def subscription_refused_def Let_def split: sum.splits if_splits)

lemma round_inv:
  assumes "mg_inv m" "url \<noteq> []" "ie_fresh (rv_id v) \<noteq> []" "\<not> ie_uuid_ok (rv_id v) []"
  shows "mg_inv (fst (register_round v p url caps m d))"
proof -
  obtain r m1 d1 where e: "ensureDeviceID v m d = (r, m1, d1)" by (metis surj_pair)
  note en = ensure_inv [OF assms(1,3,4) e]
  show ?thesis
  proof (cases r)
    case (Inl x)
    then show ?thesis using e en by (simp add: register_round_def)
  next
    case (Inr i)
    obtain ans reqs where c: "Client_Register (rv_base v) (rv_e1 v) (rv_e2 v) (register_request v url caps i (fst (offered_key p))) = (ans, reqs)"
      by (metis surj_pair)
    obtain m2 wait d2 where a: "register_answer v url i ans m1 d1 = (m2, wait, d2)" by (metis surj_pair)
    have "mg_inv m2" using answer_inv [OF _ assms(2) _ a] en Inr by simp
    then show ?thesis using e Inr c a by (simp add: register_round_def)
  qed
qed

lemma heartbeat_inv: "mg_inv m \<Longrightarrow> mg_inv (fst (heartbeat_answer i ans m))"
  by (auto simp: heartbeat_answer_def mg_inv_def setUnregistered_def setAuthBlocked_def subscription_refused_def split: option.splits)

lemma deregister_inv: "mg_inv (fst (deregister b ce m))"
  by (simp add: deregister_def Let_def setUnregistered_def mg_inv_def)

lemma exec_inv:
  assumes "mg_inv (ms_m s)" "plan_inv s" "uuid_law e"
  shows "mg_inv (ms_m (fst (mg_exec e s))) \<and> plan_inv (fst (mg_exec e s))"
proof (cases e)
  case (EvFinish v p)
  show ?thesis
  proof (cases "ms_busy s")
    case (Some pl)
    show ?thesis
    proof (cases pl)
      case (PlanRegister url caps)
      then have "mg_inv (fst (register_round v p url caps (ms_m s) (ms_disk s)))"
        using round_inv assms Some EvFinish by (simp add: plan_inv_def uuid_law_def)
      then show ?thesis using PlanRegister Some EvFinish by (auto simp: plan_inv_def split: prod.splits)
    next
      case PlanDeregister
      then show ?thesis using deregister_inv [of "rv_base v" "rv_e1 v" "ms_m s"] Some EvFinish by (auto simp: plan_inv_def split: prod.splits)
    next
      case (PlanHeartbeat i)
      then show ?thesis using heartbeat_inv [OF assms(1), of i] Some EvFinish by (auto simp: plan_inv_def split: prod.splits) (metis fst_conv)
    qed (use assms Some EvFinish in \<open>simp add: plan_inv_def\<close>)
  qed (use assms EvFinish in simp)
qed (use assms in \<open>auto simp: SetTunnelURL_def NotifyTokenUpdated_def Kick_def mg_inv_def plan_inv_def step_plan_def Let_def split: option.splits plan.splits\<close>)

lemma run_inv: "mg_inv (ms_m s) \<Longrightarrow> plan_inv s \<Longrightarrow> list_all uuid_law es \<Longrightarrow> mg_inv (ms_m (fst (mg_run es s))) \<and> plan_inv (fst (mg_run es s))"
proof (induction es arbitrary: s)
  case (Cons e es)
  obtain s' rs where e: "mg_exec e s = (s', rs)" by fastforce
  have "mg_inv (ms_m s') \<and> plan_inv s'" using exec_inv [of s e] Cons.prems e by simp
  then have "mg_inv (ms_m (fst (mg_run es s'))) \<and> plan_inv (fst (mg_run es s'))" using Cons.IH [of s'] Cons.prems by simp
  moreover have "fst (mg_run (e # es) s) = fst (mg_run es s')" using e by (simp split: prod.splits)
  ultimately show ?case by simp
qed simp

lemma init_inv: "mg_inv (ms_m (mg_init d))" "plan_inv (mg_init d)"
  by (simp_all add: mg_inv_def plan_inv_def mg_init_def NewManager_def)


section \<open>A lost token\<close>

lemma blocked_step:
  assumes "mg_authBlocked (ms_m s)" "ms_busy s \<in> {None, Some PlanIdle, Some PlanDeregister}" "e \<noteq> EvToken" "mg_exec e s = (s', rs)"
  shows "mg_authBlocked (ms_m s') \<and> ms_busy s' \<in> {None, Some PlanIdle, Some PlanDeregister} \<and> (\<forall>r \<in> set rs. hr_method r = ''DELETE'')"
proof (cases e)
  case (EvFinish v p)
  have "\<forall>r \<in> set (snd (Client_Delete b ce i)). hr_method r = ''DELETE''" for b ce i
    by (auto simp: Client_Delete_def client_do_def Let_def split: sum.splits if_splits reply.splits)
  then show ?thesis using assms EvFinish
    by (auto simp: deregister_def Let_def setUnregistered_def split: if_splits)
next
  case (EvBegin ps)
  then show ?thesis using assms by (auto simp: step_plan_def Let_def split: if_splits)
qed (use assms in \<open>auto simp: SetTunnelURL_def Kick_def split: if_splits\<close>)

lemma blocked_run:
  "mg_authBlocked (ms_m s) \<Longrightarrow> ms_busy s \<in> {None, Some PlanIdle, Some PlanDeregister} \<Longrightarrow> EvToken \<notin> set es \<Longrightarrow> mg_run es s = (s', rs) \<Longrightarrow>
   mg_authBlocked (ms_m s') \<and> (\<forall>r \<in> set rs. hr_method r = ''DELETE'')"
proof (induction es arbitrary: s rs)
  case (Cons e es)
  obtain s1 r1 where e: "mg_exec e s = (s1, r1)" by fastforce
  obtain r2 where r: "mg_run es s1 = (s', r2)" "rs = r1 @ r2" using Cons.prems(4) e by (auto split: prod.splits)
  have "mg_authBlocked (ms_m s1) \<and> ms_busy s1 \<in> {None, Some PlanIdle, Some PlanDeregister} \<and> (\<forall>r \<in> set r1. hr_method r = ''DELETE'')"
    using blocked_step [OF Cons.prems(1,2) _ e] Cons.prems(3) by auto
  then show ?case using Cons.IH [of s1 r2] Cons.prems(3) r by auto
qed simp

lemma unauthorized_blocks:
  assumes "ms_busy s = Some (PlanRegister url caps)" "ce_token (rv_e1 v) = Inr t" "ce_reply (rv_e1 v) = Reply 401 raw j"
    "url_parse (TrimRight (rv_base v) (CHR ''/'') @ ''/api/v1/destinations'') \<noteq> None" "mg_deviceID (ms_m s) \<noteq> []"
    "mg_exec (EvFinish v p) s = (s', rs)"
  shows "mg_authBlocked (ms_m s') \<and> ms_busy s' = None \<and> ms_wait s' = idleInterval"
  using assms
  by (auto simp: register_round_def ensureDeviceID_def Client_Register_def register_once_def client_do_def Let_def IsStatus_def
      register_answer_def setAuthBlocked_def split: if_splits)

text \<open>
  A token pushed while a registration is in flight can be lost: if the request carried the
  old token and is answered 401 after the push, the answer's block overwrites the push's
  unblock, and from then on, until another token is pushed, no kick, URL change or elapsed wait
  makes the manager send anything but a DELETE.
\<close>

theorem lost_token_update:
  assumes "ms_busy s = Some (PlanRegister url caps)" "ce_token (rv_e1 v) = Inr t" "ce_reply (rv_e1 v) = Reply 401 raw j"
    "url_parse (TrimRight (rv_base v) (CHR ''/'') @ ''/api/v1/destinations'') \<noteq> None" "mg_deviceID (ms_m s) \<noteq> []" "EvToken \<notin> set es"
  shows "case mg_run (EvFinish v p # es) (fst (mg_exec EvToken s)) of (s', rs) \<Rightarrow>
    mg_authBlocked (ms_m s') \<and>
    (case mg_exec (EvFinish v p) (fst (mg_exec EvToken s)) of (s1, rs1) \<Rightarrow>
       \<exists>rs2. rs = rs1 @ rs2 \<and> (\<forall>r \<in> set rs2. hr_method r = ''DELETE''))"
proof -
  let ?s = "fst (mg_exec EvToken s)"
  have busy: "ms_busy ?s = Some (PlanRegister url caps)" "mg_deviceID (ms_m ?s) \<noteq> []"
    using assms(1,5) by (simp_all add: NotifyTokenUpdated_def Kick_def)
  obtain s1 r1 where e: "mg_exec (EvFinish v p) ?s = (s1, r1)" by fastforce
  obtain s' r2 where r: "mg_run es s1 = (s', r2)" by fastforce
  have "mg_authBlocked (ms_m s1) \<and> ms_busy s1 = None" using unauthorized_blocks [OF busy(1) assms(2-4) busy(2) e] by blast
  then have "mg_authBlocked (ms_m s') \<and> (\<forall>r \<in> set r2. hr_method r = ''DELETE'')" using blocked_run [of s1 es s' r2] assms(6) r by blast
  then show ?thesis using e r by simp
qed

section \<open>The stripped key\<close>

lemma register_fallback:
  assumes "ce_token e1 = Inr t1" "ce_reply e1 = Reply 422 raw j" "ce_token e2 = Inr t2" "ce_reply e2 = Reply 200 raw2 j2"
    "url_parse (TrimRight base (CHR ''/'') @ ''/api/v1/destinations'') \<noteq> None" "rq_InferenceKey r \<noteq> []" "response_of_json j2 = Inr resp"
  shows "\<exists>q1 q2. Client_Register base e1 e2 r = (Inr resp, [q1, q2]) \<and> hr_body q2 = Some (register_json (strip_new_fields r))"
  using assms
  by (auto simp: Client_Register_def register_once_def client_do_def Let_def IsStatus_def)

text \<open>
  When a server answers 422 and accepts the retry, the retry's body carries no inference key,
  yet the round commits the rotation: the key the control plane was using is revoked while the
  server was never given its replacement.
\<close>

theorem fallback_retires_live_key:
  assumes mint: "provider_Mint c tf me cfg ks disk = (Provided p ids, ks1, disk1)"
    and stored: "distinct (map ak_ID (kt_keys ks1))" "KeyStore_Verify c ks q"
      "\<forall>k \<in> set (kt_keys ks1). ak_SHA256 k = hex_encode (c_sha256 c q) \<longrightarrow> k \<in> set (kt_keys ks) \<and> ak_Scope k = ControlPlaneKeyScope"
    and net: "ce_token (rv_e1 v) = Inr t1" "ce_reply (rv_e1 v) = Reply 422 raw j" "ce_token (rv_e2 v) = Inr t2" "ce_reply (rv_e2 v) = Reply 200 raw2 j2"
      "url_parse (TrimRight (rv_base v) (CHR ''/'') @ ''/api/v1/destinations'') \<noteq> None" "response_of_json j2 = Inr resp"
    and ready: "mg_deviceID m \<noteq> []" "length envs = length ids" "list_all (\<lambda>e. fst e = NoFault) envs"
  shows "case register_round v (Some (Provided p ids)) url caps m d of (m', wait, reqs, committed, d') \<Rightarrow>
    committed \<and> mg_registered m' \<and> (\<exists>r. rq_InferenceKey r = [] \<and> hr_body (last reqs) = Some (register_json r)) \<and>
    (case provider_commit tf (zip envs ids) ks1 disk1 of (ks2, disk2) \<Rightarrow> \<not> KeyStore_Verify c ks2 q)"
proof -
  obtain k where k: "KeyStore_mint c tf me ControlPlaneKeyName ControlPlaneKeyScope ks disk = (Inr (p, k), ks1, disk1)"
    using provider_Provided [OF mint] by blast
  have "p \<noteq> []" using mint_ok [OF k] by (auto simp: HasPrefix_def keyPrefix_def)
  then have key: "offered_key (Some (Provided p ids)) = (p, True)" by (simp add: offered_key_def)
  let ?r = "register_request v url caps (mg_deviceID m) p"
  have "rq_InferenceKey ?r \<noteq> []" using \<open>p \<noteq> []\<close> by (simp add: register_request_def)
  from register_fallback [OF net(1-5) this net(6)] obtain q1 q2 where
    reg: "Client_Register (rv_base v) (rv_e1 v) (rv_e2 v) ?r = (Inr resp, [q1, q2])" and body: "hr_body q2 = Some (register_json (strip_new_fields ?r))"
    by blast
  obtain m2 wait d2 where a: "register_answer v url (mg_deviceID m) (Inr resp) m d = (m2, wait, d2)" by (metis surj_pair)
  then have "mg_registered m2" by (auto simp: register_answer_def Let_def)
  then have round: "register_round v (Some (Provided p ids)) url caps m d = (m2, wait, [q1, q2], True, d2)"
    using key reg a ready(1) by (simp add: register_round_def ensureDeviceID_def)
  obtain ks2 disk2 where com: "provider_commit tf (zip envs ids) ks1 disk1 = (ks2, disk2)" by fastforce
  from rotation_outcome [OF mint stored(1) ready(2) com] ready(3) obtain k' where
    keys: "kt_keys ks2 = filter (\<lambda>k. ak_Scope k \<noteq> ControlPlaneKeyScope) (kt_keys ks) @ [k']" "k' \<notin> set (kt_keys ks)" by blast
  have sub: "set (kt_keys ks2) \<subseteq> set (kt_keys ks1)" using commit_subset [OF stored(1) com] .
  have "\<not> KeyStore_Verify c ks2 q"
  proof
    assume "KeyStore_Verify c ks2 q"
    then obtain k'' where k'': "k'' \<in> set (kt_keys ks2)" "ak_SHA256 k'' = hex_encode (c_sha256 c q)" by (auto simp: Verify_iff)
    then have "k'' \<in> set (kt_keys ks)" "ak_Scope k'' = ControlPlaneKeyScope" using stored(3) sub by auto
    then show False using k''(1) keys by auto
  qed
  then show ?thesis using round \<open>mg_registered m2\<close> body com by (auto simp: strip_new_fields_def intro!: exI [of _ "strip_new_fields ?r"])
qed

section \<open>Witnesses\<close>

definition demo_answer :: "nat \<Rightarrow> call_env" where
  "demo_answer status = \<lparr>ce_token = Inr ''T'', ce_reply = Reply status [] (Some (JObj [(''account_id'', JStr ''acct'')]))\<rparr>"

definition demo_id :: id_env where
  "demo_id = \<lparr>ie_uuid_ok = (\<lambda>s. s \<noteq> []), ie_fresh = ''dev'', ie_mkdir = True, ie_write = (NoFault, ''t'')\<rparr>"

definition demo_reg :: "nat \<Rightarrow> nat \<Rightarrow> reg_env" where
  "demo_reg a b = \<lparr>rv_base = ''https://cp'', rv_dir = ''d'', rv_id = demo_id, rv_save = demo_id, rv_name = ''n'', rv_model = ''m'', rv_pubkey = [],
     rv_probes = [(''memory'', True, True)], rv_e1 = demo_answer a, rv_e2 = demo_answer b\<rparr>"

lemma demo_url: "url_parse (TrimRight (rv_base (demo_reg a b)) (CHR ''/'') @ ''/api/v1/destinations'') \<noteq> None"
proof -
  have "url_parse (TrimRight ''https://cp'' (CHR ''/'') @ ''/api/v1/destinations'') \<noteq> None" by code_simp
  then show ?thesis by (simp add: demo_reg_def)
qed

lemma demo_response: "response_of_json (Some (JObj [(''account_id'', JStr ''acct'')])) =
    Inr \<lparr>rp_DeviceID = [], rp_HeartbeatIntervalSeconds = 0, rp_TTLSeconds = 0, rp_AccountID = ''acct''\<rparr>"
  by (simp add: response_of_json_def struct_fields_def EqualFold_def ToLower_def lower_char_def dec_str_def)

definition demo_start :: "mg_event list" where
  "demo_start = [EvURL ''https://n'', EvBegin [(''memory'', True, True)], EvFinish (demo_reg 200 200) None]"


theorem lost_token_update_witness:
  "\<exists>s s' rs. ms_busy s = Some (PlanRegister ''https://n'' [''silo_recall'']) \<and>
     mg_run [EvFinish (demo_reg 401 401) None, EvKick, EvBegin [(''memory'', True, True)]] (fst (mg_exec EvToken s)) = (s', rs) \<and>
     mg_authBlocked (ms_m s')"
proof -
  let ?s = "mg_init []\<lparr>ms_m := NewManager\<lparr>mg_deviceID := ''dev''\<rparr>, ms_busy := Some (PlanRegister ''https://n'' [''silo_recall''])\<rparr>"
  obtain s' rs where run: "mg_run [EvFinish (demo_reg 401 401) None, EvKick, EvBegin [(''memory'', True, True)]] (fst (mg_exec EvToken ?s)) = (s', rs)"
    by fastforce
  have net: "ce_token (rv_e1 (demo_reg 401 401)) = Inr ''T''" "ce_reply (rv_e1 (demo_reg 401 401)) = Reply 401 [] (Some (JObj [(''account_id'', JStr ''acct'')]))"
    by (simp_all add: demo_reg_def demo_answer_def)
  have "mg_authBlocked (ms_m s')"
    using lost_token_update [of ?s "''https://n''" "[''silo_recall'']", OF _ net demo_url, of "[EvKick, EvBegin [(''memory'', True, True)]]" None] run by simp
  then show ?thesis using run by (intro exI [of _ ?s] exI [of _ s'] exI [of _ rs]) simp
qed

theorem fallback_retires_live_key_witness:
  "\<exists>ks p ks1 disk1 m' wait reqs d'. provider_Mint demo_crypto unit_tf (demo_mint ''i'' NoFault) demo_publishing ks [] = (Provided p [''b''], ks1, disk1) \<and>
     KeyStore_Verify demo_crypto ks (keyPrefix @ ''old'') \<and>
     register_round (demo_reg 422 200) (Some (Provided p [''b''])) ''u'' [''relay''] (NewManager\<lparr>mg_deviceID := ''dev''\<rparr>) [] = (m', wait, reqs, True, d') \<and>
     \<not> KeyStore_Verify demo_crypto (fst (provider_commit unit_tf [((NoFault, ''t''), ''b'')] ks1 disk1)) (keyPrefix @ ''old'')"
proof -
  let ?q = "keyPrefix @ ''old''"
  let ?ks = "demo_keys\<lparr>kt_keys := [(stored_key ''b'' ControlPlaneKeyScope)\<lparr>ak_SHA256 := hex_encode ?q\<rparr>]\<rparr>"
  let ?p = "keyPrefix @ hex_encode ''s''"
  obtain ks1 d1 where m: "provider_Mint demo_crypto unit_tf (demo_mint ''i'' NoFault) demo_publishing ?ks [] = (Provided ?p [''b''], ks1, d1)"
    and keys: "kt_keys ks1 = kt_keys ?ks @ [new_key demo_crypto ?p ''i'' 1 ControlPlaneKeyName ControlPlaneKeyScope]"
    by (simp add: provider_Mint_def MintForControlPlane_def KeyStore_mint_def Let_def demo_mint_def demo_keys_def persistLocked_def
        key_json_def new_key_def unit_tf_def WriteFileAtomic_def WriteFileAtomic_trace_def demo_publishing_def stored_key_def superseded_ids_def)
  have hash: "c_sha256 demo_crypto = (\<lambda>b. b)" by (simp add: demo_crypto_def)
  have ver: "KeyStore_Verify demo_crypto ?ks ?q" by (simp add: Verify_iff hash HasPrefix_def)
  have dist: "distinct (map ak_ID (kt_keys ks1))" by (simp add: keys demo_keys_def stored_key_def new_key_def)
  have "?p \<noteq> ?q" by (auto dest: arg_cong [where f = length])
  then have "hex_encode ?p \<noteq> hex_encode ?q" by (metis hex_decode_encode option.inject)
  then have only: "\<forall>k \<in> set (kt_keys ks1). ak_SHA256 k = hex_encode (c_sha256 demo_crypto ?q) \<longrightarrow> k \<in> set (kt_keys ?ks) \<and> ak_Scope k = ControlPlaneKeyScope"
    by (simp add: keys new_key_def hash stored_key_def)
  have net: "ce_token (rv_e1 (demo_reg 422 200)) = Inr ''T''" "ce_reply (rv_e1 (demo_reg 422 200)) = Reply 422 [] (Some (JObj [(''account_id'', JStr ''acct'')]))"
    "ce_token (rv_e2 (demo_reg 422 200)) = Inr ''T''" "ce_reply (rv_e2 (demo_reg 422 200)) = Reply 200 [] (Some (JObj [(''account_id'', JStr ''acct'')]))"
    by (simp_all add: demo_reg_def demo_answer_def)
  obtain m' wait reqs committed d' where r: "register_round (demo_reg 422 200) (Some (Provided ?p [''b''])) ''u'' [''relay''] (NewManager\<lparr>mg_deviceID := ''dev''\<rparr>) []
      = (m', wait, reqs, committed, d')" by (metis surj_pair)
  from fallback_retires_live_key [OF m dist ver only net demo_url demo_response, of "NewManager\<lparr>mg_deviceID := ''dev''\<rparr>" "[(NoFault, ''t'')]" "''u''" "[''relay'']" "[]"] r
  have committed: "committed" and refused: "\<not> KeyStore_Verify demo_crypto (fst (provider_commit unit_tf [((NoFault, ''t''), ''b'')] ks1 d1)) ?q"
    by (simp_all split: prod.splits)
  show ?thesis by (intro exI conjI) (rule m, rule ver, use r committed in simp, rule refused)
qed

end
