(* ===== verification/OAuth.thy ===== *)
theory OAuth
  imports Registration
begin

text \<open>
  The node's credentials for the control plane (internal/controlplane/auth.go, oauth.go, and the
  Node methods that store and forget a grant): the pushed JWT, the API key, and the OAuth grant
  kept in oauth.json with its refresh. A refresh holds the token source's mutex over its network
  call, so a call is split there: storing or removing the file needs no mutex and may fall in
  between, while the invalidation that follows waits for it.
\<close>

section \<open>Pushed tokens and API keys\<close>

definition JWTStore_Token :: "string \<Rightarrow> cp_err + string" where
  "JWTStore_Token stored = (if stored = [] then Inl ErrNoToken else Inr stored)"

definition APIKeyEnvVar :: string where "APIKeyEnvVar = ''SILO_API_KEY''"

definition APIKeyStore_Token :: "(string \<Rightarrow> string option) \<Rightarrow> cp_err + string" where
  "APIKeyStore_Token lookup = (case lookup APIKeyEnvVar of
     Some v \<Rightarrow> if v \<noteq> [] then Inr v else Inl ErrNoToken | None \<Rightarrow> Inl ErrNoToken)"

section \<open>The stored grant\<close>

definition OAuthCredentialFile :: string where "OAuthCredentialFile = ''oauth.json''"

datatype oauth_err = ErrNotSignedIn | ErrGrantDir | ErrGrantRead fs_err | ErrGrantParse | ErrGrantEncode | ErrGrantWrite fs_err
  | ErrTokenTransport | ErrTokenParse | ErrTokenRefused string | ErrUserNotFound string

record OAuthCredential =
  oc_TokenEndpoint :: string
  oc_ClientID :: string
  oc_AccessToken :: string
  oc_RefreshToken :: string
  oc_ExpiresAt :: time

definition credential_json :: "timefmt \<Rightarrow> OAuthCredential \<Rightarrow> json option" where
  "credential_json tf cred = do {
     expires \<leftarrow> tf_fmt tf (oc_ExpiresAt cred);
     Some (JObj ([(''token_endpoint'', JStr (oc_TokenEndpoint cred)), (''client_id'', JStr (oc_ClientID cred)),
       (''access_token'', JStr (oc_AccessToken cred))] @ omit_str ''refresh_token'' (oc_RefreshToken cred) @
       [(''expires_at'', JStr expires)]))}"

definition credential_of_json :: "timefmt \<Rightarrow> json \<Rightarrow> OAuthCredential option" where
  "credential_of_json tf v = do {
     kvs \<leftarrow> struct_fields v;
     ep \<leftarrow> get_str ''token_endpoint'' kvs;
     ci \<leftarrow> get_str ''client_id'' kvs;
     at \<leftarrow> get_str ''access_token'' kvs;
     rt \<leftarrow> get_str ''refresh_token'' kvs;
     ex \<leftarrow> get_field (dec_time tf) ''expires_at'' zero_time kvs;
     Some \<lparr>oc_TokenEndpoint = ep, oc_ClientID = ci, oc_AccessToken = at, oc_RefreshToken = rt, oc_ExpiresAt = ex\<rparr>}"

definition LoadOAuthCredential :: "timefmt \<Rightarrow> string \<Rightarrow> disk \<Rightarrow> oauth_err + OAuthCredential" where
  "LoadOAuthCredential tf dataDir d =
    (case ReadFile d (path_join dataDir OAuthCredentialFile) of
       Inl ErrNotExist \<Rightarrow> Inl ErrNotSignedIn
     | Inl e \<Rightarrow> Inl (ErrGrantRead e)
     | Inr raw \<Rightarrow> (case Option.bind (json_parse raw) (credential_of_json tf) of
         None \<Rightarrow> Inl ErrGrantParse
       | Some cred \<Rightarrow> if oc_AccessToken cred = [] \<or> oc_TokenEndpoint cred = [] then Inl ErrNotSignedIn else Inr cred))"

text \<open>
  SaveOAuthCredential makes the directory and then the system calls of WriteFileAtomic: create a
  temporary file, chmod it to 0600, write, close, rename, and remove it when a step fails.
\<close>

record save_env =
  sv_mkdir :: bool
  sv_write :: wfa_env

definition SaveOAuthCredential :: "timefmt \<Rightarrow> save_env \<Rightarrow> string \<Rightarrow> OAuthCredential \<Rightarrow> disk \<Rightarrow> disk \<times> oauth_err option" where
  "SaveOAuthCredential tf e dataDir cred d =
    (if \<not> sv_mkdir e then (d, Some ErrGrantDir)
     else case credential_json tf cred of
       None \<Rightarrow> (d, Some ErrGrantEncode)
     | Some v \<Rightarrow> (case WriteFileAtomic (sv_write e) (path_join dataDir OAuthCredentialFile) (json_indent 0 v) mode_0600 d of
         (d', None) \<Rightarrow> (d', None) | (d', Some err) \<Rightarrow> (d', Some (ErrGrantWrite err))))"

section \<open>The refresh\<close>

datatype token_reply = TokenFail | TokenReply nat string "json option"   \<comment> \<open>status, status line, first JSON value\<close>

record token_response =
  tr_AccessToken :: string
  tr_RefreshToken :: string
  tr_ExpiresIn :: int
  tr_Error :: string
  tr_ErrorDesc :: string

definition token_of_json :: "json option \<Rightarrow> token_response option" where
  "token_of_json body = do {
     v \<leftarrow> body;
     kvs \<leftarrow> struct_fields v;
     a \<leftarrow> get_str ''access_token'' kvs;
     r \<leftarrow> get_str ''refresh_token'' kvs;
     x \<leftarrow> get_int ''expires_in'' kvs;
     e \<leftarrow> get_str ''error'' kvs;
     ed \<leftarrow> get_str ''error_description'' kvs;
     Some \<lparr>tr_AccessToken = a, tr_RefreshToken = r, tr_ExpiresIn = x, tr_Error = e, tr_ErrorDesc = ed\<rparr>}"

text \<open>The text of a refusal: the error, its description, or the status line.\<close>

definition refusal_text :: "token_response \<Rightarrow> string \<Rightarrow> string" where
  "refusal_text tok status =
    (let msg = tr_Error tok @ (if tr_ErrorDesc tok \<noteq> [] then '': '' @ tr_ErrorDesc tok else [])
     in if msg = [] then status else msg)"

definition token_expiry :: "time \<Rightarrow> token_response \<Rightarrow> time" where
  "token_expiry now tok = (if tr_ExpiresIn tok > 0 then time_add now (wrap64 (tr_ExpiresIn tok * second)) else zero_time)"

type_synonym form = "(string \<times> string) list"

definition refresh_form :: "OAuthCredential \<Rightarrow> form" where
  "refresh_form cred = [(''grant_type'', ''refresh_token''), (''refresh_token'', oc_RefreshToken cred), (''client_id'', oc_ClientID cred)]"

definition refreshGrant :: "token_reply \<Rightarrow> time \<Rightarrow> OAuthCredential \<Rightarrow> oauth_err + OAuthCredential" where
  "refreshGrant reply now cred =
    (case reply of
       TokenFail \<Rightarrow> Inl ErrTokenTransport
     | TokenReply code status body \<Rightarrow>
        (case token_of_json body of
           None \<Rightarrow> Inl ErrTokenParse
         | Some tok \<Rightarrow>
            if code \<noteq> 200 \<or> tr_AccessToken tok = [] then Inl (ErrTokenRefused (refusal_text tok status))
            else Inr (cred\<lparr>oc_AccessToken := tr_AccessToken tok,
                   oc_RefreshToken := (if tr_RefreshToken tok \<noteq> [] then tr_RefreshToken tok else oc_RefreshToken cred),
                   oc_ExpiresAt := token_expiry now tok\<rparr>)))"

section \<open>The token source\<close>

definition expirySkew :: duration where "expirySkew = 60 * second"

record token_source =
  ts_loaded :: bool
  ts_cred :: OAuthCredential

definition Invalidate :: "token_source \<Rightarrow> token_source" where
  "Invalidate s = s\<lparr>ts_loaded := False\<rparr>"

definition usable_for :: "time \<Rightarrow> OAuthCredential \<Rightarrow> bool" where
  "usable_for now cred \<longleftrightarrow> oc_ExpiresAt cred = zero_time \<or> time_add now expirySkew < oc_ExpiresAt cred"

text \<open>Token up to its network call: an answer, or the data directory a refresh will be saved in.\<close>

definition Token_begin :: "timefmt \<Rightarrow> string option \<Rightarrow> time \<Rightarrow> token_source \<Rightarrow> disk \<Rightarrow> (oauth_err + string) option \<times> token_source" where
  "Token_begin tf dir now s d =
    (case dir of
       None \<Rightarrow> (Some (Inl ErrGrantDir), s)
     | Some dataDir \<Rightarrow>
        (case (if ts_loaded s then Inr s else case LoadOAuthCredential tf dataDir d of
                 Inl e \<Rightarrow> Inl e | Inr cred \<Rightarrow> Inr \<lparr>ts_loaded = True, ts_cred = cred\<rparr>) of
           Inl e \<Rightarrow> (Some (Inl e), s)
         | Inr s' \<Rightarrow>
            if usable_for now (ts_cred s') then (Some (Inr (oc_AccessToken (ts_cred s'))), s')
            else if oc_RefreshToken (ts_cred s') = [] then (Some (Inl ErrNotSignedIn), s')
            else (None, s')))"

definition Token_end :: "timefmt \<Rightarrow> string \<Rightarrow> token_reply \<Rightarrow> time \<Rightarrow> save_env \<Rightarrow> token_source \<Rightarrow> disk
    \<Rightarrow> (oauth_err + string) \<times> token_source \<times> disk" where
  "Token_end tf dataDir reply now e s d =
    (case refreshGrant reply now (ts_cred s) of
       Inl err \<Rightarrow> (Inl err, s, d)
     | Inr refreshed \<Rightarrow>
        let s' = s\<lparr>ts_cred := refreshed\<rparr> in
        (case SaveOAuthCredential tf e dataDir refreshed d of
           (d', Some err) \<Rightarrow> (Inl err, s', d')
         | (d', None) \<Rightarrow> (Inr (oc_AccessToken refreshed), s', d')))"

text \<open>What one call meets, and the whole call when nothing falls into its refresh, with the requests it sends.\<close>

record token_env =
  te_dir :: "string option"
  te_now :: time
  te_reply :: token_reply
  te_answered :: time
  te_save :: save_env

definition OAuth_Token :: "timefmt \<Rightarrow> token_env \<Rightarrow> token_source \<Rightarrow> disk
    \<Rightarrow> (oauth_err + string) \<times> token_source \<times> disk \<times> (string \<times> form) list" where
  "OAuth_Token tf e s d =
    (case Token_begin tf (te_dir e) (te_now e) s d of
       (Some r, s') \<Rightarrow> (r, s', d, [])
     | (None, s') \<Rightarrow>
        (case Token_end tf (the (te_dir e)) (te_reply e) (te_answered e) (te_save e) s' d of
           (r, s'', d') \<Rightarrow> (r, s'', d', [(oc_TokenEndpoint (ts_cred s'), refresh_form (ts_cred s'))])))"

text \<open>The mode picks the source; an unknown mode is the pushed JWT.\<close>

definition ModalTokenSource_Token :: "string \<Rightarrow> (cp_err + string) \<Rightarrow> (cp_err + string) \<Rightarrow> (oauth_err + string) option \<Rightarrow> cp_err + string" where
  "ModalTokenSource_Token mode jwt apiKey oauth =
    (if mode = ''api_key'' then apiKey
     else if mode = ''oauth'' then (case oauth of None \<Rightarrow> Inl ErrNoToken | Some (Inl _) \<Rightarrow> Inl ErrTokenSource | Some (Inr t) \<Rightarrow> Inr t)
     else jwt)"

section \<open>Storing and forgetting a grant at runtime\<close>

text \<open>
  The Node's two methods up to the invalidation: the file is written or removed. os.Remove of a
  missing file is no error here.
\<close>

definition SaveControlPlaneCredential :: "timefmt \<Rightarrow> string option \<Rightarrow> save_env \<Rightarrow> OAuthCredential \<Rightarrow> disk \<Rightarrow> disk \<times> oauth_err option" where
  "SaveControlPlaneCredential tf dir e cred d =
    (case dir of None \<Rightarrow> (d, Some ErrGrantDir) | Some dataDir \<Rightarrow> SaveOAuthCredential tf e dataDir cred d)"

definition DisconnectControlPlane :: "string option \<Rightarrow> bool \<Rightarrow> disk \<Rightarrow> disk \<times> oauth_err option" where
  "DisconnectControlPlane dir ok d =
    (case dir of None \<Rightarrow> (d, Some ErrGrantDir)
     | Some dataDir \<Rightarrow> let path = path_join dataDir OAuthCredentialFile in
        if map_get d path = None then (d, None)
        else if ok then (map_del path d, None) else (d, Some (ErrGrantWrite (ErrPath ''remove''))))"

text \<open>
  The token source with its mutex: a refresh in flight (its data directory), the callers whose
  Invalidate waits, the disk and the registration manager they then notify.
\<close>

record oauth_sys =
  oy_src :: token_source
  oy_busy :: "string option"
  oy_waiting :: nat
  oy_disk :: disk
  oy_mgr :: manager

datatype oauth_event =
    TokenCall "string option" time
  | RefreshAnswer token_reply time save_env
  | StoreGrant "string option" save_env OAuthCredential
  | ForgetGrant "string option" bool
  | RunInvalidate

fun oauth_exec :: "timefmt \<Rightarrow> oauth_event \<Rightarrow> oauth_sys \<Rightarrow> (oauth_err + string) option \<times> oauth_sys" where
  "oauth_exec tf (TokenCall dir now) s =
     (if oy_busy s \<noteq> None then (None, s)
      else case Token_begin tf dir now (oy_src s) (oy_disk s) of
        (Some r, src) \<Rightarrow> (Some r, s\<lparr>oy_src := src\<rparr>)
      | (None, src) \<Rightarrow> (None, s\<lparr>oy_src := src, oy_busy := dir\<rparr>))"
| "oauth_exec tf (RefreshAnswer reply now e) s =
     (case oy_busy s of None \<Rightarrow> (None, s)
      | Some dataDir \<Rightarrow> (case Token_end tf dataDir reply now e (oy_src s) (oy_disk s) of
          (r, src, d) \<Rightarrow> (Some r, s\<lparr>oy_src := src, oy_busy := None, oy_disk := d\<rparr>)))"
| "oauth_exec tf (StoreGrant dir e cred) s =
     (case SaveControlPlaneCredential tf dir e cred (oy_disk s) of
        (d, None) \<Rightarrow> (None, s\<lparr>oy_disk := d, oy_waiting := oy_waiting s + 1\<rparr>)
      | (d, Some _) \<Rightarrow> (None, s\<lparr>oy_disk := d\<rparr>))"
| "oauth_exec tf (ForgetGrant dir ok) s =
     (case DisconnectControlPlane dir ok (oy_disk s) of
        (d, None) \<Rightarrow> (None, s\<lparr>oy_disk := d, oy_waiting := oy_waiting s + 1\<rparr>)
      | (d, Some _) \<Rightarrow> (None, s\<lparr>oy_disk := d\<rparr>))"
| "oauth_exec tf RunInvalidate s =
     (if oy_busy s \<noteq> None \<or> oy_waiting s = 0 then (None, s)
      else (None, s\<lparr>oy_src := Invalidate (oy_src s), oy_waiting := oy_waiting s - 1, oy_mgr := NotifyTokenUpdated (oy_mgr s)\<rparr>))"

fun oauth_run :: "timefmt \<Rightarrow> oauth_event list \<Rightarrow> oauth_sys \<Rightarrow> (oauth_err + string) list \<times> oauth_sys" where
  "oauth_run tf [] s = ([], s)"
| "oauth_run tf (e # es) s =
     (case oauth_exec tf e s of (r, s') \<Rightarrow> (case oauth_run tf es s' of
        (rs, s'') \<Rightarrow> ((case r of None \<Rightarrow> rs | Some x \<Rightarrow> x # rs), s'')))"

section \<open>The file round trip\<close>

lemma credential_json_roundtrip:
  assumes "tf_laws tf" "credential_json tf cred = Some v"
  shows "credential_of_json tf v = Some cred \<and> wf_json v"
proof -
  obtain ex where ex: "tf_fmt tf (oc_ExpiresAt cred) = Some ex" using assms(2) by (auto simp: credential_json_def split: bind_splits)
  then have "tf_parse tf ex = Some (oc_ExpiresAt cred)" using assms(1) by (simp add: tf_laws_def)
  with ex assms(2) show ?thesis
    by (auto simp: credential_json_def credential_of_json_def struct_fields_def omit_str_def EqualFold_def ToLower_def lower_char_def
        dec_str_def dec_time_def)
qed

abbreviation credential_path :: "string \<Rightarrow> string" where
  "credential_path dataDir \<equiv> path_join dataDir OAuthCredentialFile"

lemma Load_by_read: "LoadOAuthCredential tf dataDir d = (case read_path (credential_path dataDir) d of
    None \<Rightarrow> Inl ErrNotSignedIn
  | Some raw \<Rightarrow> (case Option.bind (json_parse raw) (credential_of_json tf) of
      None \<Rightarrow> Inl ErrGrantParse
    | Some cred \<Rightarrow> if oc_AccessToken cred = [] \<or> oc_TokenEndpoint cred = [] then Inl ErrNotSignedIn else Inr cred))"
  by (cases "map_get d (credential_path dataDir)") (simp_all add: LoadOAuthCredential_def ReadFile_def read_path_def cong: option.case_cong)

lemma Save_ok:
  assumes "tf_laws tf" "snd (sv_write e) \<noteq> credential_path dataDir" "SaveOAuthCredential tf e dataDir cred d = (d', None)"
    and "oc_AccessToken cred \<noteq> []" "oc_TokenEndpoint cred \<noteq> []"
  shows "LoadOAuthCredential tf dataDir d' = Inr cred"
proof -
  obtain v where v: "credential_json tf cred = Some v"
    and w: "WriteFileAtomic (sv_write e) (credential_path dataDir) (json_indent 0 v) mode_0600 d = (d', None)"
    using assms(3) by (auto simp: SaveOAuthCredential_def split: if_splits option.splits prod.splits)
  have "read_path (credential_path dataDir) d' = Some (json_indent 0 v)" using atomic_file.write_ok [OF assms(2) w] by simp
  moreover have "credential_of_json tf v = Some cred" "json_parse (json_indent 0 v) = Some v"
    using credential_json_roundtrip [OF assms(1) v] json_parse_indent by auto
  ultimately show ?thesis using assms(4,5) by (simp add: Load_by_read)
qed

lemma Save_err:
  assumes "snd (sv_write e) \<noteq> credential_path dataDir" "SaveOAuthCredential tf e dataDir cred d = (d', Some err)"
  shows "LoadOAuthCredential tf dataDir d' = LoadOAuthCredential tf dataDir d"
proof -
  have "read_path (credential_path dataDir) d' = read_path (credential_path dataDir) d"
    using assms(2) atomic_file.write_err [OF assms(1)]
    by (auto simp: SaveOAuthCredential_def split: if_splits option.splits prod.splits)
  then show ?thesis by (simp add: Load_by_read)
qed

lemma Load_nonempty: "LoadOAuthCredential tf dataDir d = Inr cred \<Longrightarrow> oc_AccessToken cred \<noteq> [] \<and> oc_TokenEndpoint cred \<noteq> []"
  by (auto simp: Load_by_read split: option.splits if_splits)

lemma Load_not_write: "LoadOAuthCredential tf dataDir d \<noteq> Inl (ErrGrantWrite err)"
  by (auto simp: Load_by_read split: option.splits)

lemma refreshGrant_ok:
  assumes "refreshGrant reply now cred = Inr cred'"
  obtains status body tok where "reply = TokenReply 200 status body" "token_of_json body = Some tok" "tr_AccessToken tok \<noteq> []"
    "cred' = cred\<lparr>oc_AccessToken := tr_AccessToken tok,
       oc_RefreshToken := (if tr_RefreshToken tok \<noteq> [] then tr_RefreshToken tok else oc_RefreshToken cred),
       oc_ExpiresAt := token_expiry now tok\<rparr>"
  using assms by (auto simp: refreshGrant_def split: token_reply.splits option.splits if_splits)

section \<open>What a token call promises\<close>

text \<open>The credential a call works with: the one held, or the one in the file.\<close>

definition call_credential :: "timefmt \<Rightarrow> string \<Rightarrow> token_source \<Rightarrow> disk \<Rightarrow> oauth_err + OAuthCredential" where
  "call_credential tf dataDir s d = (if ts_loaded s then Inr (ts_cred s) else LoadOAuthCredential tf dataDir d)"

lemma Token_begin_cases:
  "Token_begin tf (Some dataDir) now s d =
    (case call_credential tf dataDir s d of
       Inl e \<Rightarrow> (Some (Inl e), s)
     | Inr cred \<Rightarrow>
        (if usable_for now cred then Some (Inr (oc_AccessToken cred)) else if oc_RefreshToken cred = [] then Some (Inl ErrNotSignedIn) else None,
         s\<lparr>ts_loaded := True, ts_cred := cred\<rparr>))"
  by (auto simp: Token_begin_def call_credential_def split: sum.splits)

lemma Token_end_ok:
  assumes "Token_end tf dataDir reply now e s d = (Inr token, s', d')"
  shows "\<exists>cred'. refreshGrant reply now (ts_cred s) = Inr cred' \<and> s' = s\<lparr>ts_cred := cred'\<rparr> \<and> token = oc_AccessToken cred' \<and>
    SaveOAuthCredential tf e dataDir cred' d = (d', None)"
  using assms by (auto simp: Token_end_def Let_def split: sum.splits prod.splits option.splits)

text \<open>
  C21. What Token hands out is current, and a refresh is durable: when it succeeds, the token is
  that of the credential then held, and either the credential was usable for another minute, in
  which case nothing was sent or written, or exactly one refresh went to the credential's own
  token endpoint, the endpoint and client stay as they were, and the file reads back as the
  refreshed credential.
\<close>

theorem Token_current_and_durable:
  assumes "tf_laws tf" "te_dir e = Some dataDir" "snd (sv_write (te_save e)) \<noteq> path_join dataDir OAuthCredentialFile"
    and "ts_loaded s \<Longrightarrow> oc_TokenEndpoint (ts_cred s) \<noteq> []"
    and "OAuth_Token tf e s d = (Inr token, s', d', reqs)"
  shows "\<exists>cred. call_credential tf dataDir s d = Inr cred \<and> ts_loaded s' \<and> token = oc_AccessToken (ts_cred s') \<and>
    (if usable_for (te_now e) cred then reqs = [] \<and> d' = d \<and> ts_cred s' = cred
     else reqs = [(oc_TokenEndpoint cred, refresh_form cred)] \<and> oc_RefreshToken cred \<noteq> [] \<and>
       oc_TokenEndpoint (ts_cred s') = oc_TokenEndpoint cred \<and> oc_ClientID (ts_cred s') = oc_ClientID cred \<and>
       LoadOAuthCredential tf dataDir d' = Inr (ts_cred s'))"
proof (cases "call_credential tf dataDir s d")
  case (Inl err)
  then show ?thesis using assms(5) by (simp add: OAuth_Token_def assms(2) Token_begin_cases)
next
  case (Inr cred)
  have ep: "oc_TokenEndpoint cred \<noteq> []" using Inr assms(4) Load_nonempty by (auto simp: call_credential_def split: if_splits)
  let ?s = "s\<lparr>ts_loaded := True, ts_cred := cred\<rparr>"
  show ?thesis
  proof (cases "usable_for (te_now e) cred")
    case True
    then show ?thesis using assms(5) Inr by (auto simp: OAuth_Token_def assms(2) Token_begin_cases)
  next
    case False
    have rt: "oc_RefreshToken cred \<noteq> []" using assms(5) Inr False by (auto simp: OAuth_Token_def assms(2) Token_begin_cases)
    have "Token_end tf dataDir (te_reply e) (te_answered e) (te_save e) ?s d = (Inr token, s', d')"
      and reqs: "reqs = [(oc_TokenEndpoint cred, refresh_form cred)]"
      using assms(5) Inr False rt by (auto simp: OAuth_Token_def assms(2) Token_begin_cases split: prod.splits)
    from Token_end_ok [OF this(1)] obtain cred' where r: "refreshGrant (te_reply e) (te_answered e) cred = Inr cred'"
      and s': "s' = ?s\<lparr>ts_cred := cred'\<rparr>" "token = oc_AccessToken cred'"
      and sv: "SaveOAuthCredential tf (te_save e) dataDir cred' d = (d', None)" by auto
    from r have c': "oc_AccessToken cred' \<noteq> []" "oc_TokenEndpoint cred' = oc_TokenEndpoint cred" "oc_ClientID cred' = oc_ClientID cred"
      by (auto elim!: refreshGrant_ok)
    show ?thesis using Inr False rt reqs s' c' Save_ok [OF assms(1,3) sv] ep by simp
  qed
qed

text \<open>
  A rotated refresh token that could not be saved is never saved later: the call that
  refreshed reports the write error, but the next one hands out the new token as if nothing had
  happened and writes nothing, so the file still holds the credential whose refresh token the
  server has replaced.
\<close>

theorem unsaved_rotation_forgotten:
  assumes "te_dir e = Some dataDir" "snd (sv_write (te_save e)) \<noteq> path_join dataDir OAuthCredentialFile"
    and "te_reply e = TokenReply 200 status body" "token_of_json body = Some tok" "tr_AccessToken tok \<noteq> []" "tr_RefreshToken tok \<noteq> []"
    and "OAuth_Token tf e s d = (Inl (ErrGrantWrite err), s', d', reqs)"
    and "te_dir e2 = Some dataDir" "usable_for (te_now e2) (ts_cred s')"
  shows "oc_RefreshToken (ts_cred s') = tr_RefreshToken tok \<and> LoadOAuthCredential tf dataDir d' = LoadOAuthCredential tf dataDir d \<and>
    OAuth_Token tf e2 s' d' = (Inr (tr_AccessToken tok), s', d', [])"
proof (intro conjI)
  have "\<exists>cred. call_credential tf dataDir s d = Inr cred"
    using assms(7) Load_not_write by (cases "call_credential tf dataDir s d") (auto simp: OAuth_Token_def assms(1) Token_begin_cases call_credential_def split: if_splits)
  then obtain cred where cred: "call_credential tf dataDir s d = Inr cred" by blast
  let ?s = "s\<lparr>ts_loaded := True, ts_cred := cred\<rparr>"
  have e: "Token_end tf dataDir (te_reply e) (te_answered e) (te_save e) ?s d = (Inl (ErrGrantWrite err), s', d')"
    using assms(7) cred by (auto simp: OAuth_Token_def assms(1) Token_begin_cases split: prod.splits if_splits)
  let ?c = "cred\<lparr>oc_AccessToken := tr_AccessToken tok, oc_RefreshToken := tr_RefreshToken tok, oc_ExpiresAt := token_expiry (te_answered e) tok\<rparr>"
  have r: "refreshGrant (te_reply e) (te_answered e) cred = Inr ?c" using assms(3-6) by (simp add: refreshGrant_def)
  have s': "s' = ?s\<lparr>ts_cred := ?c\<rparr>" and sv: "SaveOAuthCredential tf (te_save e) dataDir ?c d = (d', Some (ErrGrantWrite err))"
    using e r by (auto simp: Token_end_def Let_def split: prod.splits option.splits)
  show "oc_RefreshToken (ts_cred s') = tr_RefreshToken tok" using s' by simp
  show "LoadOAuthCredential tf dataDir d' = LoadOAuthCredential tf dataDir d" by (rule Save_err [OF assms(2) sv])
  show "OAuth_Token tf e2 s' d' = (Inr (tr_AccessToken tok), s', d', [])"
    using assms(9) s' by (simp add: OAuth_Token_def assms(8) Token_begin_cases call_credential_def)
qed

section \<open>Grants stored or forgotten during a refresh\<close>

definition stores_or_forgets :: "oauth_event \<Rightarrow> bool" where
  "stores_or_forgets ev = (case ev of StoreGrant _ _ _ \<Rightarrow> True | ForgetGrant _ _ \<Rightarrow> True | _ \<Rightarrow> False)"

lemma stores_or_forgets_exec:
  assumes "stores_or_forgets ev"
  shows "oy_src (snd (oauth_exec tf ev s)) = oy_src s" "oy_busy (snd (oauth_exec tf ev s)) = oy_busy s"
    "oy_waiting s \<le> oy_waiting (snd (oauth_exec tf ev s))"
  using assms by (cases ev; auto simp: stores_or_forgets_def split: prod.splits option.splits)+

lemma Token_end_saves:
  assumes "refreshGrant reply now (ts_cred s) = Inr cred" "SaveOAuthCredential tf e dataDir cred d = (d', None)"
  shows "Token_end tf dataDir reply now e s d = (Inr (oc_AccessToken cred), s\<lparr>ts_cred := cred\<rparr>, d')"
  using assms by (simp add: Token_end_def)

text \<open>
  Signing out, or signing in to another account, during a refresh does not last: whatever
  grant is stored or removed while a refresh is in flight, a successful answer writes the old
  grant's refreshed credential back, and once the invalidation has run the next call reads it and
  hands out the old account's token.
\<close>

theorem refresh_undoes_disconnect:
  assumes "tf_laws tf" "oy_busy s = Some dataDir" "refreshGrant reply now (ts_cred (oy_src s)) = Inr cred"
    and "oc_TokenEndpoint cred \<noteq> []" "snd (sv_write e) \<noteq> path_join dataDir OAuthCredentialFile"
    and "stores_or_forgets ev" "SaveOAuthCredential tf e dataDir cred (oy_disk (snd (oauth_exec tf ev s))) = (d', None)"
    and "oy_waiting (snd (oauth_exec tf ev s)) = 1" "usable_for later cred"
  shows "\<exists>s'. oauth_run tf [ev, RefreshAnswer reply now e, RunInvalidate, TokenCall (Some dataDir) later] s =
      ([Inr (oc_AccessToken cred), Inr (oc_AccessToken cred)], s') \<and>
    LoadOAuthCredential tf dataDir (oy_disk s') = Inr cred"
proof -
  obtain s1 where s1: "snd (oauth_exec tf ev s) = s1" by blast
  have ev: "oauth_exec tf ev s = (None, s1)" using assms(6) s1
    by (cases ev; auto simp: stores_or_forgets_def split: prod.splits option.splits)
  have src: "oy_src s1 = oy_src s" "oy_busy s1 = Some dataDir" using stores_or_forgets_exec(1,2) [OF assms(6), of tf s] assms(2) s1 by auto
  have access: "oc_AccessToken cred \<noteq> []" using assms(3) by (auto elim!: refreshGrant_ok)
  have load: "LoadOAuthCredential tf dataDir d' = Inr cred"
    using Save_ok [OF assms(1,5) _ access assms(4)] assms(7) s1 by simp
  have fin: "Token_end tf dataDir reply now e (oy_src s1) (oy_disk s1) = (Inr (oc_AccessToken cred), (oy_src s)\<lparr>ts_cred := cred\<rparr>, d')"
    using Token_end_saves assms(3,7) src s1 by simp
  have "oauth_run tf [RefreshAnswer reply now e, RunInvalidate, TokenCall (Some dataDir) later] s1 =
      ([Inr (oc_AccessToken cred), Inr (oc_AccessToken cred)],
       s1\<lparr>oy_src := \<lparr>ts_loaded = True, ts_cred = cred\<rparr>, oy_busy := None, oy_disk := d', oy_waiting := 0, oy_mgr := NotifyTokenUpdated (oy_mgr s1)\<rparr>)"
    using src fin assms(8,9) s1 load by (simp add: Token_begin_cases call_credential_def Invalidate_def)
  then show ?thesis using ev load by (simp add: exI)
qed

section \<open>Concrete grants\<close>

definition demo_grant :: "string \<Rightarrow> string \<Rightarrow> time \<Rightarrow> OAuthCredential" where
  "demo_grant access refresh expires = \<lparr>oc_TokenEndpoint = ''https://cp/token'', oc_ClientID = ''node'', oc_AccessToken = access,
     oc_RefreshToken = refresh, oc_ExpiresAt = expires\<rparr>"

definition demo_reply :: token_reply where
  "demo_reply = TokenReply 200 ''200 OK'' (Some (JObj [(''access_token'', JStr ''new''), (''refresh_token'', JStr ''r2'')]))"

definition demo_call :: "time \<Rightarrow> wfa_fault \<Rightarrow> token_env" where
  "demo_call now fault = \<lparr>te_dir = Some ''d'', te_now = now, te_reply = demo_reply, te_answered = now,
     te_save = \<lparr>sv_mkdir = True, sv_write = (fault, ''t'')\<rparr>\<rparr>"

lemma demo_token: "token_of_json (Some (JObj [(''access_token'', JStr ''new''), (''refresh_token'', JStr ''r2'')])) =
    Some \<lparr>tr_AccessToken = ''new'', tr_RefreshToken = ''r2'', tr_ExpiresIn = 0, tr_Error = [], tr_ErrorDesc = []\<rparr>"
  by (simp add: token_of_json_def struct_fields_def EqualFold_def ToLower_def lower_char_def dec_str_def dec_int_def)

lemma demo_refresh: "refreshGrant demo_reply now (demo_grant a r x) = Inr (demo_grant ''new'' ''r2'' zero_time)"
  by (simp add: refreshGrant_def demo_reply_def demo_token demo_grant_def token_expiry_def)

lemma demo_expired: "\<not> usable_for 100 (demo_grant a r 50)" "usable_for now (demo_grant a r zero_time)"
  by (simp_all add: usable_for_def demo_grant_def zero_time_def time_add_def max_time_def unix_epoch_shift_def second_def expirySkew_def)

lemma demo_temp: "''t'' \<noteq> path_join ''d'' OAuthCredentialFile"
  by (simp add: path_join_def OAuthCredentialFile_def)

definition zero_tf :: timefmt where
  "zero_tf = \<lparr>tf_fmt = (\<lambda>t. if t = zero_time then Some ''Z'' else None), tf_parse = (\<lambda>s. if s = ''Z'' then Some zero_time else None)\<rparr>"

lemma zero_tf_laws: "tf_laws zero_tf"
  by (auto simp: tf_laws_def zero_tf_def)

definition demo_source :: token_source where
  "demo_source = \<lparr>ts_loaded = True, ts_cred = demo_grant ''old'' ''r1'' 50\<rparr>"

lemma demo_json: "credential_json zero_tf (demo_grant ''new'' ''r2'' zero_time) \<noteq> None"
  by (simp add: credential_json_def zero_tf_def demo_grant_def)

lemma demo_save: "fault = NoFault \<Longrightarrow> \<exists>d'. SaveOAuthCredential zero_tf \<lparr>sv_mkdir = True, sv_write = (fault, ''t'')\<rparr> ''d'' (demo_grant ''new'' ''r2'' zero_time) d = (d', None)"
  "fault = FailRename \<Longrightarrow> \<exists>d'. SaveOAuthCredential zero_tf \<lparr>sv_mkdir = True, sv_write = (fault, ''t'')\<rparr> ''d'' (demo_grant ''new'' ''r2'' zero_time) d = (d', Some (ErrGrantWrite (ErrPath ''rename'')))"
  using demo_json by (auto simp: SaveOAuthCredential_def WriteFileAtomic_def WriteFileAtomic_trace_def Let_def)

lemma demo_outcome:
  "\<exists>d'. OAuth_Token zero_tf (demo_call 100 NoFault) demo_source [] =
     (Inr ''new'', \<lparr>ts_loaded = True, ts_cred = demo_grant ''new'' ''r2'' zero_time\<rparr>, d', [(''https://cp/token'', refresh_form (demo_grant ''old'' ''r1'' 50))])"
  "\<exists>d'. OAuth_Token zero_tf (demo_call 100 FailRename) demo_source [] =
     (Inl (ErrGrantWrite (ErrPath ''rename'')), \<lparr>ts_loaded = True, ts_cred = demo_grant ''new'' ''r2'' zero_time\<rparr>, d', [(''https://cp/token'', refresh_form (demo_grant ''old'' ''r1'' 50))])"
  using demo_save [of NoFault "[]"] demo_save [of FailRename "[]"] demo_expired(1)
  by (auto simp: OAuth_Token_def demo_call_def Token_begin_cases call_credential_def demo_source_def Token_end_def demo_refresh Let_def)
    (simp_all add: demo_grant_def)

theorem Token_current_and_durable_witness:
  "case OAuth_Token zero_tf (demo_call 100 NoFault) demo_source [] of
     (r, s', d', reqs) \<Rightarrow> r = Inr ''new'' \<and> length reqs = 1 \<and> LoadOAuthCredential zero_tf ''d'' d' = Inr (demo_grant ''new'' ''r2'' zero_time)"
proof -
  from demo_outcome(1) obtain d' reqs where o: "OAuth_Token zero_tf (demo_call 100 NoFault) demo_source [] =
     (Inr ''new'', \<lparr>ts_loaded = True, ts_cred = demo_grant ''new'' ''r2'' zero_time\<rparr>, d', reqs)" by blast
  have c: "call_credential zero_tf ''d'' demo_source [] = Inr (demo_grant ''old'' ''r1'' 50)" by (simp add: call_credential_def demo_source_def)
  have n: "\<not> usable_for (te_now (demo_call 100 NoFault)) (demo_grant ''old'' ''r1'' 50)" using demo_expired(1) by (simp add: demo_call_def)
  have "te_dir (demo_call 100 NoFault) = Some ''d''" "snd (sv_write (te_save (demo_call 100 NoFault))) \<noteq> path_join ''d'' OAuthCredentialFile"
    "oc_TokenEndpoint (ts_cred demo_source) \<noteq> []" using demo_temp by (simp_all add: demo_call_def demo_source_def demo_grant_def)
  from Token_current_and_durable [OF zero_tf_laws this o] c n
  have "length reqs = 1" "LoadOAuthCredential zero_tf ''d'' d' = Inr (demo_grant ''new'' ''r2'' zero_time)" by auto
  then show ?thesis by (simp only: o prod.case simp_thms)
qed

theorem unsaved_rotation_forgotten_witness:
  "case OAuth_Token zero_tf (demo_call 100 FailRename) demo_source [] of
     (r, s', d', reqs) \<Rightarrow> r = Inl (ErrGrantWrite (ErrPath ''rename'')) \<and> oc_RefreshToken (ts_cred s') = ''r2'' \<and>
       LoadOAuthCredential zero_tf ''d'' d' = LoadOAuthCredential zero_tf ''d'' [] \<and>
       OAuth_Token zero_tf (demo_call 200 NoFault) s' d' = (Inr ''new'', s', d', [])"
proof -
  from demo_outcome(2) obtain d' reqs where o: "OAuth_Token zero_tf (demo_call 100 FailRename) demo_source [] =
     (Inl (ErrGrantWrite (ErrPath ''rename'')), \<lparr>ts_loaded = True, ts_cred = demo_grant ''new'' ''r2'' zero_time\<rparr>, d', reqs)" by blast
  have d: "te_dir (demo_call now f) = Some ''d''" "snd (sv_write (te_save (demo_call now f))) \<noteq> path_join ''d'' OAuthCredentialFile" for now f
    using demo_temp by (simp_all add: demo_call_def)
  have r: "te_reply (demo_call 100 FailRename) = TokenReply 200 ''200 OK'' (Some (JObj [(''access_token'', JStr ''new''), (''refresh_token'', JStr ''r2'')]))"
    by (simp add: demo_call_def demo_reply_def)
  from unsaved_rotation_forgotten [OF d r demo_token _ _ o d(1)] demo_expired(2)
  show ?thesis by (simp add: o)
qed

definition demo_refreshing :: oauth_sys where
  "demo_refreshing = \<lparr>oy_src = demo_source, oy_busy = Some ''d'', oy_waiting = 0,
     oy_disk = [(path_join ''d'' OAuthCredentialFile, \<lparr>f_mode = mode_0600, f_data = ''{}''\<rparr>)], oy_mgr = NewManager\<rparr>"

theorem refresh_undoes_disconnect_witness:
  "fst (oauth_run zero_tf [ForgetGrant (Some ''d'') True, RefreshAnswer demo_reply 100 \<lparr>sv_mkdir = True, sv_write = (NoFault, ''t'')\<rparr>,
      RunInvalidate, TokenCall (Some ''d'') 200] demo_refreshing) = [Inr ''new'', Inr ''new'']"
proof -
  let ?ev = "ForgetGrant (Some ''d'') True"
  have w: "oy_waiting (snd (oauth_exec zero_tf ?ev demo_refreshing)) = 1"
    by (simp add: demo_refreshing_def DisconnectControlPlane_def)
  obtain d' where d': "SaveOAuthCredential zero_tf \<lparr>sv_mkdir = True, sv_write = (NoFault, ''t'')\<rparr> ''d'' (demo_grant ''new'' ''r2'' zero_time)
      (oy_disk (snd (oauth_exec zero_tf ?ev demo_refreshing))) = (d', None)"
    using demo_save(1) by blast
  have r: "refreshGrant demo_reply 100 (ts_cred (oy_src demo_refreshing)) = Inr (demo_grant ''new'' ''r2'' zero_time)"
    by (simp add: demo_refreshing_def demo_source_def demo_refresh)
  have b: "oy_busy demo_refreshing = Some ''d''" by (simp add: demo_refreshing_def)
  have ok: "oc_TokenEndpoint (demo_grant ''new'' ''r2'' zero_time) \<noteq> []" "snd (sv_write \<lparr>sv_mkdir = True, sv_write = (NoFault, ''t'')\<rparr>) \<noteq> path_join ''d'' OAuthCredentialFile"
    "stores_or_forgets ?ev" using demo_temp by (simp_all add: demo_grant_def stores_or_forgets_def)
  have a: "oc_AccessToken (demo_grant ''new'' ''r2'' zero_time) = ''new''" by (simp add: demo_grant_def)
  from refresh_undoes_disconnect [OF zero_tf_laws b r ok d' w demo_expired(2) [of 200]] obtain s' where
    "oauth_run zero_tf [?ev, RefreshAnswer demo_reply 100 \<lparr>sv_mkdir = True, sv_write = (NoFault, ''t'')\<rparr>, RunInvalidate, TokenCall (Some ''d'') 200] demo_refreshing =
      ([Inr ''new'', Inr ''new''], s')" unfolding a by blast
  then show ?thesis by (simp only: fst_conv)
qed

end
