(* ===== verification/Tunnel.thy ===== *)
theory Tunnel
  imports Prelude
begin

text \<open>
  Cloudflare tunnels (internal/tunnel/cloudflared.go, managed.go): finding the binary, scanning its
  output for the URL or the readiness line, and the two supervision loops with their backoff. A
  process and the control plane are what each round of a loop meets; a loop's effect is the list of
  its waits and of the URLs it reports.
\<close>

section \<open>The binary\<close>

datatype tun_err = ErrBinaryNotFound | ErrBinaryMissing string | ErrStarting | ErrURLTimeout | ErrReadyTimeout | ErrTunnelCtx

definition searchPaths :: "string list" where
  "searchPaths = [''/opt/homebrew/bin/cloudflared'', ''/usr/local/bin/cloudflared'']"

text \<open>What the file system holds: which paths are executable files, and what $PATH resolves.\<close>

definition FindBinary :: "(string \<Rightarrow> bool) \<Rightarrow> string option \<Rightarrow> string \<Rightarrow> tun_err + string" where
  "FindBinary isExecutable lookPath configured =
    (if configured \<noteq> [] \<and> isExecutable configured then Inr configured
     else case find isExecutable searchPaths of
       Some c \<Rightarrow> Inr c
     | None \<Rightarrow> (case lookPath of
         Some p \<Rightarrow> Inr p
       | None \<Rightarrow> Inl (if configured \<noteq> [] then ErrBinaryMissing configured else ErrBinaryNotFound)))"

section \<open>Output scanning\<close>

definition label_char :: "char \<Rightarrow> bool" where
  "label_char c \<longleftrightarrow> (let n = of_char c :: nat in 48 \<le> n \<and> n \<le> 57 \<or> 65 \<le> n \<and> n \<le> 90 \<or> 97 \<le> n \<and> n \<le> 122 \<or> c = CHR ''-'')"

text \<open>
  The leftmost match of https://[a-zA-Z0-9-]+.trycloudflare.com: the label is the longest run of
  its characters, because the dot that must follow is not one of them.
\<close>

definition url_here :: "string \<Rightarrow> string option" where
  "url_here s = (case CutPrefix s ''https://'' of
     None \<Rightarrow> None
   | Some r \<Rightarrow> let l = takeWhile label_char r in
      if l \<noteq> [] \<and> HasPrefix (dropWhile label_char r) ''.trycloudflare.com'' then Some (''https://'' @ l @ ''.trycloudflare.com'') else None)"

fun ExtractURL :: "string \<Rightarrow> string option" where
  "ExtractURL [] = None"
| "ExtractURL (c # s) = (case url_here (c # s) of Some u \<Rightarrow> Some u | None \<Rightarrow> ExtractURL s)"

definition readyPattern :: string where "readyPattern = ''Registered tunnel connection''"

definition ready_line :: "string \<Rightarrow> unit option" where
  "ready_line line = (if Contains line readyPattern then Some () else None)"

record scan_writer =
  sw_buf :: string
  sw_found :: bool

lemma cut_byte_shorter: "cut_byte c s = Some (a, b) \<Longrightarrow> length b < length s"
  by (auto dest: cut_byte_Some)

text \<open>The complete lines of the buffer in order, up to the first that matches.\<close>

function scan_lines :: "(string \<Rightarrow> 'a option) \<Rightarrow> string \<Rightarrow> string \<times> 'a option" where
  "scan_lines match buf = (case cut_byte (CHR 0x0A) buf of
     None \<Rightarrow> (buf, None)
   | Some (line, rest) \<Rightarrow> (case match line of Some x \<Rightarrow> ([], Some x) | None \<Rightarrow> scan_lines match rest))"
  by pat_completeness auto
termination by (relation "measure (length \<circ> snd)") (auto dest: cut_byte_shorter)

declare scan_lines.simps [simp del]

definition maxScanBuffer :: nat where "maxScanBuffer = 64 * 1024"

definition scan_write :: "(string \<Rightarrow> 'a option) \<Rightarrow> bytes \<Rightarrow> scan_writer \<Rightarrow> scan_writer \<times> 'a option" where
  "scan_write match p w =
    (if sw_found w then (w, None)
     else case scan_lines match (sw_buf w @ p) of
       (_, Some x) \<Rightarrow> (\<lparr>sw_buf = [], sw_found = True\<rparr>, Some x)
     | (rest, None) \<Rightarrow> (\<lparr>sw_buf = (if length rest > maxScanBuffer then [] else rest), sw_found = False\<rparr>, None))"

definition urlScanWriter_Write :: "bytes \<Rightarrow> scan_writer \<Rightarrow> scan_writer \<times> string option" where
  "urlScanWriter_Write p w = scan_write ExtractURL p w"

definition readyScanWriter_Write :: "bytes \<Rightarrow> scan_writer \<Rightarrow> scan_writer \<times> unit option" where
  "readyScanWriter_Write p w = scan_write ready_line p w"

definition new_writer :: scan_writer where "new_writer = \<lparr>sw_buf = [], sw_found = False\<rparr>"

text \<open>A process writing chunk after chunk: the writer and what it signalled.\<close>

fun scan_chunks :: "(string \<Rightarrow> 'a option) \<Rightarrow> bytes list \<Rightarrow> scan_writer \<Rightarrow> scan_writer \<times> 'a list" where
  "scan_chunks match [] w = (w, [])"
| "scan_chunks match (p # ps) w =
     (case scan_write match p w of (w', r) \<Rightarrow> (case scan_chunks match ps w' of
        (w'', rs) \<Rightarrow> (w'', (case r of None \<Rightarrow> rs | Some x \<Rightarrow> x # rs))))"

section \<open>One start of cloudflared\<close>

datatype spawn_end = SpawnReady string | SpawnTimeout | SpawnCtx

record cf_command =
  cf_binary :: string
  cf_args :: "string list"
  cf_env :: "string list"

record spawn_env =
  sp_exec :: "string \<Rightarrow> bool"
  sp_path :: "string option"
  sp_starts :: bool
  sp_end :: spawn_end
  sp_yields :: bool   \<comment> \<open>a process that is reaped exits within two seconds of the SIGTERM\<close>

text \<open>
  What the loops do: wait, report a URL, start a process, and see one gone, with the signals that
  were sent to it.
\<close>

datatype proc_signal = SigTerm | SigKill

datatype tun_act = Wait duration | Report string | Run cf_command | Gone "proc_signal list"

definition reap :: "bool \<Rightarrow> tun_act" where
  "reap exits = Gone (SigTerm # (if exits then [] else [SigKill]))"

text \<open>A start: its result, and what it did; on an error after the start the process is reaped.\<close>

definition spawn_with :: "(string \<Rightarrow> cf_command) \<Rightarrow> tun_err \<Rightarrow> spawn_env \<Rightarrow> string \<Rightarrow> (tun_err + string) \<times> tun_act list" where
  "spawn_with cmd timeout e configured =
    (case FindBinary (sp_exec e) (sp_path e) configured of
       Inl err \<Rightarrow> (Inl err, [])
     | Inr binary \<Rightarrow>
        if \<not> sp_starts e then (Inl ErrStarting, [])
        else (case sp_end e of
            SpawnReady x \<Rightarrow> (Inr x, [Run (cmd binary)])
          | SpawnTimeout \<Rightarrow> (Inl timeout, [Run (cmd binary), reap (sp_yields e)])
          | SpawnCtx \<Rightarrow> (Inl ErrTunnelCtx, [Run (cmd binary), reap (sp_yields e)])))"

definition quick_spawn :: "nat \<Rightarrow> spawn_env \<Rightarrow> string \<Rightarrow> (tun_err + string) \<times> tun_act list" where
  "quick_spawn port e configured = spawn_with
     (\<lambda>binary. \<lparr>cf_binary = binary, cf_args = [''tunnel'', ''--url'', ''http://localhost:'' @ show_nat port], cf_env = []\<rparr>) ErrURLTimeout e configured"

definition managed_spawn :: "string \<Rightarrow> spawn_env \<Rightarrow> string \<Rightarrow> (tun_err + string) \<times> tun_act list" where
  "managed_spawn token e configured = spawn_with
     (\<lambda>binary. \<lparr>cf_binary = binary, cf_args = [''tunnel'', ''run''], cf_env = [''TUNNEL_TOKEN='' @ token]\<rparr>) ErrReadyTimeout e configured"

section \<open>The loops\<close>

definition initialBackoff :: duration where "initialBackoff = second"
definition maxBackoff :: duration where "maxBackoff = minute"
definition subscriptionBackoff :: duration where "subscriptionBackoff = 10 * minute"
definition unavailableBackoff :: duration where "unavailableBackoff = 5 * minute"

definition next_backoff :: "duration \<Rightarrow> duration" where
  "next_backoff b = min (b * 2) maxBackoff"

datatype prov_err = ErrSubscriptionRequired | ErrManagedUnavailable | ErrProvision

definition backoffFor :: "prov_err \<Rightarrow> duration \<Rightarrow> duration" where
  "backoffFor err transient = (case err of ErrSubscriptionRequired \<Rightarrow> subscriptionBackoff
     | ErrManagedUnavailable \<Rightarrow> unavailableBackoff | ErrProvision \<Rightarrow> transient)"

record Provisioned =
  pv_URL :: string
  pv_Token :: string

record tunnel =
  tu_url :: string
  tu_backoff :: duration
  tu_blocked :: bool

definition new_tunnel :: tunnel where
  "new_tunnel = \<lparr>tu_url = [], tu_backoff = initialBackoff, tu_blocked = False\<rparr>"

definition setURL :: "string \<Rightarrow> tunnel \<Rightarrow> tun_act list \<times> tunnel" where
  "setURL url t = (if tu_url t \<noteq> url then [Report url] else [], t\<lparr>tu_url := url\<rparr>)"

text \<open>
  What one round meets: whether the context is found cancelled at its top, after a failed call or
  during a wait, the outcomes of provisioning and starting, whether a running process exits
  before the context is cancelled, and if not, whether it exits when it is told to.
\<close>

record round_env =
  re_done :: bool
  re_prov :: "prov_err + Provisioned"
  re_spawn :: spawn_env
  re_done_err :: bool
  re_slept :: bool
  re_exits :: bool
  re_yields :: bool

text \<open>A round's actions, the manager after it, and whether the loop goes on.\<close>

definition wait_round :: "duration \<Rightarrow> round_env \<Rightarrow> tun_act list \<Rightarrow> tunnel \<Rightarrow> tunnel \<Rightarrow> tun_act list \<times> tunnel \<times> bool" where
  "wait_round d e acts t t' = (acts @ [Wait d], (if re_slept e then t' else t), re_slept e)"

definition after_ready :: "string \<Rightarrow> round_env \<Rightarrow> tun_act list \<Rightarrow> tunnel \<Rightarrow> tun_act list \<times> tunnel \<times> bool" where
  "after_ready url e acts t0 =
    (case setURL url (t0\<lparr>tu_backoff := initialBackoff\<rparr>) of (r, t) \<Rightarrow>
       if \<not> re_exits e then (acts @ r @ [reap (re_yields e)], t, False)
       else (case setURL [] t of (r', t') \<Rightarrow>
         wait_round (tu_backoff t') e (acts @ r @ Gone [] # r') t' (t'\<lparr>tu_backoff := next_backoff (tu_backoff t')\<rparr>)))"

definition quick_round :: "nat \<Rightarrow> string \<Rightarrow> round_env \<Rightarrow> tunnel \<Rightarrow> tun_act list \<times> tunnel \<times> bool" where
  "quick_round port configured e t =
    (if re_done e then ([], t, False)
     else case quick_spawn port (re_spawn e) configured of
       (Inl _, acts) \<Rightarrow> if re_done_err e then (acts, t, False)
         else wait_round (tu_backoff t) e acts t (t\<lparr>tu_backoff := next_backoff (tu_backoff t)\<rparr>)
     | (Inr url, acts) \<Rightarrow> after_ready url e acts t)"

definition managed_round :: "string \<Rightarrow> round_env \<Rightarrow> tunnel \<Rightarrow> tun_act list \<times> tunnel \<times> bool" where
  "managed_round configured e t =
    (if re_done e then ([], t, False)
     else case re_prov e of
       Inl err \<Rightarrow> if re_done_err e then ([], t, False)
         else let t1 = t\<lparr>tu_blocked := (err = ErrSubscriptionRequired)\<rparr>;
                  t2 = (if err = ErrProvision then t1\<lparr>tu_backoff := next_backoff (tu_backoff t1)\<rparr> else t1)
              in wait_round (backoffFor err (tu_backoff t)) e [] t2 t2
     | Inr prov \<Rightarrow>
        let t1 = t\<lparr>tu_blocked := False\<rparr> in
        (case managed_spawn (pv_Token prov) (re_spawn e) configured of
           (Inl _, acts) \<Rightarrow> if re_done_err e then (acts, t1, False)
             else wait_round (tu_backoff t1) e acts t1 (t1\<lparr>tu_backoff := next_backoff (tu_backoff t1)\<rparr>)
         | (Inr _, acts) \<Rightarrow> after_ready (pv_URL prov) e acts t1))"

text \<open>runLoop over what its rounds meet; a loop that returns reports that the tunnel is down.\<close>

fun runLoop :: "(round_env \<Rightarrow> tunnel \<Rightarrow> tun_act list \<times> tunnel \<times> bool) \<Rightarrow> round_env list \<Rightarrow> tunnel \<Rightarrow> tun_act list \<times> tunnel \<times> bool" where
  "runLoop round [] t = ([], t, True)"
| "runLoop round (e # es) t =
     (case round e t of
        (acts, t', False) \<Rightarrow> (case setURL [] t' of (r, t'') \<Rightarrow> (acts @ r, t'', False))
      | (acts, t', True) \<Rightarrow> (case runLoop round es t' of (acts', t'', go) \<Rightarrow> (acts @ acts', t'', go)))"

section \<open>Start and Stop\<close>

record tunnel_mgr =
  tm_running :: bool
  tm_binary :: string

definition Tunnel_Start :: "(string \<Rightarrow> bool) \<Rightarrow> string option \<Rightarrow> tunnel_mgr \<Rightarrow> tun_err option \<times> tunnel_mgr" where
  "Tunnel_Start isExecutable lookPath m =
    (if tm_running m then (None, m)
     else case FindBinary isExecutable lookPath (tm_binary m) of
       Inl e \<Rightarrow> (Some e, m) | Inr _ \<Rightarrow> (None, m\<lparr>tm_running := True\<rparr>))"

definition Tunnel_Stop :: "tunnel_mgr \<Rightarrow> tunnel_mgr" where
  "Tunnel_Stop m = (if \<not> tm_running m then m else m\<lparr>tm_running := False\<rparr>)"

text \<open>The managed tunnel's manager has the same life cycle and the same way of reaping a process.\<close>

definition Managed_Start :: "(string \<Rightarrow> bool) \<Rightarrow> string option \<Rightarrow> tunnel_mgr \<Rightarrow> tun_err option \<times> tunnel_mgr" where
  "Managed_Start isExecutable lookPath m =
    (if tm_running m then (None, m)
     else case FindBinary isExecutable lookPath (tm_binary m) of
       Inl e \<Rightarrow> (Some e, m) | Inr _ \<Rightarrow> (None, m\<lparr>tm_running := True\<rparr>))"

definition Managed_Stop :: "tunnel_mgr \<Rightarrow> tunnel_mgr" where
  "Managed_Stop m = (if \<not> tm_running m then m else m\<lparr>tm_running := False\<rparr>)"

lemma tunnel_start_once:
  "Tunnel_Start ex lp m = (None, m') \<Longrightarrow> tm_running m' \<and> Tunnel_Start ex' lp' m' = (None, m') \<and> \<not> tm_running (Tunnel_Stop m')"
  "Managed_Start ex lp m = (None, m') \<Longrightarrow> tm_running m' \<and> Managed_Start ex' lp' m' = (None, m') \<and> \<not> tm_running (Managed_Stop m')"
  by (auto simp: Tunnel_Start_def Tunnel_Stop_def Managed_Start_def Managed_Stop_def split: if_splits sum.splits)

section \<open>Scanning does not depend on the chunks\<close>

abbreviation split_lines :: "string \<Rightarrow> string list" where
  "split_lines \<equiv> Split (CHR 0x0A)"

definition first_hit :: "(string \<Rightarrow> 'a option) \<Rightarrow> string list \<Rightarrow> 'a list" where
  "first_hit match ls = (case List.find (\<lambda>l. match l \<noteq> None) ls of None \<Rightarrow> [] | Some l \<Rightarrow> [the (match l)])"

lemma line_cases [case_names none line]:
  assumes "c \<notin> set s \<Longrightarrow> P" "\<And>a b. s = a @ c # b \<Longrightarrow> c \<notin> set a \<Longrightarrow> P"
  shows P
  using assms split_list_first by metis

lemma Split_append: "Split c (s @ t) = butlast (Split c s) @ Split c (last (Split c s) @ t)"
proof (induction "length s" arbitrary: s rule: less_induct)
  case less
  show ?case
  proof (cases rule: line_cases [of c s])
    case (line a b)
    then show ?thesis using less [of b] by (simp add: Split_plain)
  qed (simp add: Split_plain)
qed

lemma Split_head: "c \<notin> set a \<Longrightarrow> hd (Split c (a @ t)) = a @ hd (Split c t)"
  by (induction a) (auto split: list.splits)

lemma last_Split_free: "c \<notin> set (last (Split c s))"
  using Split_no_sep [of "last (Split c s)" c s] by simp

lemma scan_lines_split:
  "scan_lines match buf = (case first_hit match (butlast (split_lines buf)) of [] \<Rightarrow> (last (split_lines buf), None) | x # _ \<Rightarrow> ([], Some x))"
proof (induction match buf rule: scan_lines.induct)
  case (1 match buf)
  show ?case
  proof (cases rule: line_cases [of "CHR 0x0A" buf])
    case none
    then show ?thesis by (simp add: scan_lines.simps [of match buf] cut_byte_None [THEN iffD2] Split_plain first_hit_def)
  next
    case (line l rest)
    then have cut: "cut_byte (CHR 0x0A) buf = Some (l, rest)" and lines: "split_lines buf = l # split_lines rest"
      by (simp_all add: cut_byte_append Split_plain)
    show ?thesis
    proof (cases "match l")
      case None
      then have "first_hit match (l # ls) = first_hit match ls" for ls by (simp add: first_hit_def)
      moreover have "scan_lines match buf = scan_lines match rest" using cut None by (simp add: scan_lines.simps [of match buf])
      ultimately show ?thesis using 1 [OF cut refl None] by (simp add: lines split: list.splits)
    next
      case (Some x)
      then show ?thesis using cut by (simp add: scan_lines.simps [of match buf] lines first_hit_def)
    qed
  qed
qed

lemma first_hit_append: "first_hit match (as @ bs) = (case first_hit match as of [] \<Rightarrow> first_hit match bs | x # _ \<Rightarrow> [x])"
  by (induction as) (auto simp: first_hit_def)

lemma first_hit_single: "first_hit match ls = x # xs \<Longrightarrow> xs = []"
  by (auto simp: first_hit_def split: option.splits)

lemma scan_found: "scan_chunks match ps \<lparr>sw_buf = b, sw_found = True\<rparr> = (\<lparr>sw_buf = b, sw_found = True\<rparr>, [])"
  by (induction ps) (auto simp: scan_write_def)

lemma scan_chunks_split:
  assumes "\<forall>seg \<in> set (split_lines (b @ concat ps)). length seg \<le> maxScanBuffer" "CHR 0x0A \<notin> set b"
  shows "snd (scan_chunks match ps \<lparr>sw_buf = b, sw_found = False\<rparr>) = first_hit match (butlast (split_lines (b @ concat ps)))"
  using assms
proof (induction ps arbitrary: b)
  case Nil
  then have "split_lines b = [b]" by (simp add: Split_plain)
  then show ?case by (simp add: first_hit_def)
next
  case (Cons p ps)
  let ?bp = "b @ p"
  let ?r = "last (split_lines ?bp)"
  have whole: "split_lines (b @ p @ concat ps) = butlast (split_lines ?bp) @ split_lines (?r @ concat ps)"
    using Split_append [of "CHR 0x0A" ?bp "concat ps"] by simp
  then have hits: "first_hit match (butlast (split_lines (b @ concat (p # ps)))) =
      (case first_hit match (butlast (split_lines ?bp)) of [] \<Rightarrow> first_hit match (butlast (split_lines (?r @ concat ps))) | x # _ \<Rightarrow> [x])"
    by (simp add: butlast_append first_hit_append)
  show ?case
  proof (cases "first_hit match (butlast (split_lines ?bp))")
    case Nil
    have "length ?r \<le> length (hd (split_lines (?r @ concat ps)))" by (simp add: Split_head last_Split_free)
    also have "hd (split_lines (?r @ concat ps)) \<in> set (split_lines (b @ concat (p # ps)))" by (simp add: whole)
    ultimately have short: "length ?r \<le> maxScanBuffer" using Cons.prems(1) by fastforce
    have "scan_write match p \<lparr>sw_buf = b, sw_found = False\<rparr> = (\<lparr>sw_buf = ?r, sw_found = False\<rparr>, None)"
      using Nil short by (simp add: scan_write_def scan_lines_split)
    moreover have "snd (scan_chunks match ps \<lparr>sw_buf = ?r, sw_found = False\<rparr>) = first_hit match (butlast (split_lines (?r @ concat ps)))"
      by (rule Cons.IH) (use Cons.prems(1) whole last_Split_free in auto)
    ultimately show ?thesis using hits Nil by (simp split: prod.splits)
  next
    case (Cons x xs)
    then have "scan_write match p \<lparr>sw_buf = b, sw_found = False\<rparr> = (\<lparr>sw_buf = [], sw_found = True\<rparr>, Some x)"
      by (simp add: scan_write_def scan_lines_split)
    then show ?thesis using hits Cons by (simp add: scan_found)
  qed
qed

text \<open>
  C33. However the kernel cuts cloudflared's output into writes, the scanner signals at most once,
  and exactly the first URL (or readiness line) of the first complete line that has one, as long
  as no line is longer than 64 KiB.
\<close>

theorem scan_independent_of_chunks:
  assumes "\<forall>line \<in> set (Split (CHR 0x0A) (concat ps)). length line \<le> maxScanBuffer"
  shows "snd (scan_chunks ExtractURL ps new_writer) = first_hit ExtractURL (butlast (Split (CHR 0x0A) (concat ps))) \<and>
    snd (scan_chunks ready_line ps new_writer) = first_hit ready_line (butlast (Split (CHR 0x0A) (concat ps)))"
  using scan_chunks_split [of "[]" ps ExtractURL] scan_chunks_split [of "[]" ps ready_line] assms by (simp add: new_writer_def)

theorem scan_independent_of_chunks_witness:
  "snd (scan_chunks ExtractURL [''INF https://a-1.trycl'', ''oudflare.com |'' @ [CHR 0x0A], ''https://b.trycloudflare.com'' @ [CHR 0x0A]] new_writer) =
    [''https://a-1.trycloudflare.com'']"
proof -
  let ?ps = "[''INF https://a-1.trycl'', ''oudflare.com |'' @ [CHR 0x0A], ''https://b.trycloudflare.com'' @ [CHR 0x0A]]"
  have lines: "Split (CHR 0x0A) (concat ?ps) = [''INF https://a-1.trycloudflare.com |'', ''https://b.trycloudflare.com'', []]" by code_simp
  have hit: "first_hit ExtractURL [''INF https://a-1.trycloudflare.com |'', ''https://b.trycloudflare.com''] = [''https://a-1.trycloudflare.com'']"
    by code_simp
  show ?thesis using scan_independent_of_chunks [of ?ps] unfolding lines by (simp add: hit maxScanBuffer_def)
qed

section \<open>The loops' schedule\<close>

definition backoff_ok :: "tunnel \<Rightarrow> bool" where
  "backoff_ok t \<longleftrightarrow> initialBackoff \<le> tu_backoff t \<and> tu_backoff t \<le> maxBackoff"

definition wait_ok :: "tun_act \<Rightarrow> bool" where
  "wait_ok a = (case a of Wait d \<Rightarrow> initialBackoff \<le> d \<and> d \<le> maxBackoff \<or> d = subscriptionBackoff \<or> d = unavailableBackoff | _ \<Rightarrow> True)"

definition reported :: "tun_act list \<Rightarrow> string list" where
  "reported acts = concat (map (\<lambda>a. case a of Report u \<Rightarrow> [u] | _ \<Rightarrow> []) acts)"

text \<open>Each report differs from the one before it, from url on, and the last is url'.\<close>

definition url_log :: "string \<Rightarrow> tun_act list \<Rightarrow> string \<Rightarrow> bool" where
  "url_log url acts url' \<longleftrightarrow> distinct_adj (url # reported acts) \<and> last (url # reported acts) = url'"

text \<open>A wait that follows the report of a lost tunnel is the initial one.\<close>

fun exit_waits :: "tun_act list \<Rightarrow> bool" where
  "exit_waits (Report u # Wait d # as) \<longleftrightarrow> (u = [] \<longrightarrow> d = initialBackoff) \<and> exit_waits (Wait d # as)"
| "exit_waits (a # as) \<longleftrightarrow> exit_waits as"
| "exit_waits [] \<longleftrightarrow> True"

lemma reported_simps [simp]: "reported [] = []" "reported (Report u # as) = u # reported as" "reported (Wait d # as) = reported as"
  "reported (Run c # as) = reported as" "reported (Gone s # as) = reported as" "reported (as @ bs) = reported as @ reported bs"
  by (simp_all add: reported_def)

lemma wait_ok_simps [simp]: "wait_ok (Report u)" "wait_ok (Run c)" "wait_ok (Gone s)"
  by (simp_all add: wait_ok_def)

text \<open>
  The process of a loop, alive or not, over its actions: nothing when a second one is started or one
  that does not run is seen gone.
\<close>

fun procs :: "bool \<Rightarrow> tun_act list \<Rightarrow> bool option" where
  "procs alive [] = Some alive"
| "procs alive (Run c # as) = (if alive then None else procs True as)"
| "procs alive (Gone s # as) = (if alive then procs False as else None)"
| "procs alive (a # as) = procs alive as"

lemma procs_append: "procs a (xs @ ys) = Option.bind (procs a xs) (\<lambda>b. procs b ys)"
  by (induction a xs rule: procs.induct) auto

lemma url_log_append: "url_log u as v \<Longrightarrow> url_log v bs w \<Longrightarrow> url_log u (as @ bs) w"
proof -
  have "distinct_adj (u # xs) \<Longrightarrow> distinct_adj (last (u # xs) # ys) \<Longrightarrow>
      distinct_adj (u # xs @ ys) \<and> last (u # xs @ ys) = last (last (u # xs) # ys)" for xs ys :: "string list"
    by (induction xs arbitrary: u) auto
  then show "url_log u as v \<Longrightarrow> url_log v bs w \<Longrightarrow> url_log u (as @ bs) w" unfolding url_log_def reported_simps by blast
qed

lemma exit_waits_append: "exit_waits as \<Longrightarrow> exit_waits bs \<Longrightarrow> as = [] \<or> (\<exists>d. last as = Wait d) \<Longrightarrow> exit_waits (as @ bs)"
  by (induction as rule: exit_waits.induct) (auto split: if_splits)

lemma exit_waits_report: "exit_waits as \<Longrightarrow> exit_waits (as @ [Report u])"
  by (induction as rule: exit_waits.induct) auto

lemma next_backoff_ok: "initialBackoff \<le> b \<Longrightarrow> b \<le> maxBackoff \<Longrightarrow> initialBackoff \<le> next_backoff b \<and> next_backoff b \<le> maxBackoff"
  by (auto simp: next_backoff_def initialBackoff_def maxBackoff_def second_def minute_def)

text \<open>What a supervision loop needs of its rounds.\<close>

locale supervised =
  fixes round :: "round_env \<Rightarrow> tunnel \<Rightarrow> tun_act list \<times> tunnel \<times> bool"
  assumes round_ok: "backoff_ok t \<Longrightarrow> round e t = (acts, t', go) \<Longrightarrow>
      backoff_ok t' \<and> list_all wait_ok acts \<and> url_log (tu_url t) acts (tu_url t') \<and> exit_waits acts \<and> procs False acts = Some False"
    and round_continues: "round e t = (acts, t', True) \<Longrightarrow> \<exists>d. last acts = Wait d"
begin

lemma loop_ok:
  assumes "backoff_ok t" "runLoop round es t = (acts, t', go)"
  shows "backoff_ok t' \<and> list_all wait_ok acts \<and> url_log (tu_url t) acts (tu_url t') \<and> exit_waits acts \<and> procs False acts = Some False \<and> (\<not> go \<longrightarrow> tu_url t' = [])"
  using assms
proof (induction es arbitrary: t acts)
  case Nil
  then show ?case by (simp add: url_log_def)
next
  case (Cons e es)
  obtain a t1 g where r: "round e t = (a, t1, g)" by (metis surj_pair)
  note ok = round_ok [OF Cons.prems(1) r]
  show ?case
  proof (cases g)
    case False
    then have e: "acts = a @ (if tu_url t1 \<noteq> [] then [Report []] else [])" "t' = t1\<lparr>tu_url := []\<rparr>" "go = False"
      using Cons.prems(2) r by (auto simp: setURL_def)
    have "url_log (tu_url t1) (if tu_url t1 \<noteq> [] then [Report []] else []) []" by (simp add: url_log_def)
    then show ?thesis using ok e exit_waits_report [of a] by (auto simp: backoff_ok_def procs_append intro: url_log_append)
  next
    case True
    then obtain a2 t2 g2 where l: "runLoop round es t1 = (a2, t2, g2)" "acts = a @ a2" "t' = t2" "go = g2"
      using Cons.prems(2) r by (auto split: prod.splits)
    have "\<exists>d. last a = Wait d" using round_continues [of e t a t1] r True by simp
    then show ?thesis using Cons.IH [of t1 a2] ok l by (auto simp: procs_append intro: url_log_append exit_waits_append)
  qed
qed

end

lemma wait_ok_backoff: "backoff_ok t \<Longrightarrow> wait_ok (Wait (tu_backoff t))"
  by (simp add: wait_ok_def backoff_ok_def)

text \<open>What a start leaves: a running process when it succeeds, none when it does not.\<close>

lemma spawn_acts:
  assumes "spawn_with cmd timeout e configured = (r, acts)"
  shows "(\<exists>x c. r = Inr x \<and> acts = [Run c]) \<or> (\<exists>err c s. r = Inl err \<and> acts \<in> {[], [Run c, Gone s]})"
proof (cases "FindBinary (sp_exec e) (sp_path e) configured")
  case (Inr binary)
  then show ?thesis using assms by (cases "sp_end e") (auto simp: spawn_with_def reap_def split: if_splits)
next
  case (Inl err)
  then have "r = Inl err" "acts = []" using assms by (simp_all add: spawn_with_def)
  then show ?thesis by blast
qed

lemma failed_acts_ok:
  assumes "acts \<in> {[], [Run c, Gone s]}"
  shows "list_all wait_ok acts" "reported acts = []" "exit_waits (acts @ [Wait d])" "exit_waits acts" "procs False acts = Some False"
    "procs False (acts @ [Wait d]) = Some False"
  using assms by auto

lemma after_ready_ok:
  assumes "backoff_ok t" "after_ready url e [Run c] t = (acts, t', go)"
  shows "backoff_ok t' \<and> list_all wait_ok acts \<and> url_log (tu_url t) acts (tu_url t') \<and> exit_waits acts \<and> procs False acts = Some False"
  using assms
  by (auto simp: after_ready_def setURL_def wait_round_def url_log_def backoff_ok_def wait_ok_def next_backoff_ok reap_def
      initialBackoff_def [symmetric] split: if_splits)

lemma after_ready_continues: "after_ready url e acts t = (as, t', True) \<Longrightarrow> \<exists>d. last as = Wait d"
  by (auto simp: after_ready_def wait_round_def split: prod.splits if_splits)

lemma quick_round_ok:
  assumes "backoff_ok t" "quick_round port configured e t = (acts, t', go)"
  shows "backoff_ok t' \<and> list_all wait_ok acts \<and> url_log (tu_url t) acts (tu_url t') \<and> exit_waits acts \<and> procs False acts = Some False"
proof -
  obtain r a where s: "quick_spawn port (re_spawn e) configured = (r, a)" by (metis surj_pair)
  have nb: "backoff_ok (t\<lparr>tu_backoff := next_backoff (tu_backoff t)\<rparr>)" using assms(1) next_backoff_ok by (simp add: backoff_ok_def)
  consider (idle) "re_done e" | (up) x c where "\<not> re_done e" "r = Inr x" "a = [Run c]"
    | (failed) err c sg where "\<not> re_done e" "r = Inl err" "a \<in> {[], [Run c, Gone sg]}"
    using spawn_acts [OF s [unfolded quick_spawn_def]] by blast
  then show ?thesis
  proof cases
    case failed
    then show ?thesis using assms s nb wait_ok_backoff [OF assms(1)] failed_acts_ok [OF failed(3)] by (auto simp: quick_round_def url_log_def wait_round_def split: if_splits)
  next
    case up
    then show ?thesis using assms s after_ready_ok [OF assms(1)] by (simp add: quick_round_def)
  qed (use assms in \<open>simp add: quick_round_def url_log_def\<close>)
qed

lemma managed_round_ok:
  assumes "backoff_ok t" "managed_round configured e t = (acts, t', go)"
  shows "backoff_ok t' \<and> list_all wait_ok acts \<and> url_log (tu_url t) acts (tu_url t') \<and> exit_waits acts \<and> procs False acts = Some False"
proof (cases "re_done e")
  case False
  show ?thesis
  proof (cases "re_prov e")
    case (Inl err)
    let ?t1 = "t\<lparr>tu_blocked := (err = ErrSubscriptionRequired)\<rparr>"
    have "backoff_ok ?t1" "backoff_ok (?t1\<lparr>tu_backoff := next_backoff (tu_backoff t)\<rparr>)" "wait_ok (Wait (backoffFor err (tu_backoff t)))"
      using assms(1) next_backoff_ok wait_ok_backoff [OF assms(1)]
      by (auto simp: backoff_ok_def wait_ok_def backoffFor_def split: prov_err.splits)
    then show ?thesis using assms False Inl
      by (auto simp: managed_round_def wait_round_def url_log_def Let_def split: if_splits)
  next
    case (Inr prov)
    let ?t1 = "t\<lparr>tu_blocked := False\<rparr>"
    obtain r a where s: "managed_spawn (pv_Token prov) (re_spawn e) configured = (r, a)" by (metis surj_pair)
    have t1: "backoff_ok ?t1" "backoff_ok (?t1\<lparr>tu_backoff := next_backoff (tu_backoff t)\<rparr>)"
      using assms(1) next_backoff_ok by (auto simp: backoff_ok_def)
    consider (up) x c where "r = Inr x" "a = [Run c]" | (failed) er c sg where "r = Inl er" "a \<in> {[], [Run c, Gone sg]}"
      using spawn_acts [OF s [unfolded managed_spawn_def]] by blast
    then show ?thesis
    proof cases
      case failed
      then show ?thesis using assms False Inr s t1 wait_ok_backoff [OF assms(1)] failed_acts_ok [OF failed(2)]
        by (auto simp: managed_round_def url_log_def wait_round_def Let_def split: if_splits)
    next
      case up
      then show ?thesis using assms False Inr s after_ready_ok [OF t1(1)] by (simp add: managed_round_def)
    qed
  qed
qed (use assms in \<open>simp add: managed_round_def url_log_def\<close>)

lemma quick_round_continues: "quick_round port configured e t = (acts, t', True) \<Longrightarrow> \<exists>d. last acts = Wait d"
  by (auto simp: quick_round_def wait_round_def split: if_splits sum.splits prod.splits dest: after_ready_continues)

lemma managed_round_continues: "managed_round configured e t = (acts, t', True) \<Longrightarrow> \<exists>d. last acts = Wait d"
  by (auto simp: managed_round_def wait_round_def Let_def split: if_splits sum.splits prod.splits dest: after_ready_continues)

interpretation quick: supervised "quick_round port configured" for port configured
  by unfold_locales (auto dest: quick_round_ok quick_round_continues)

interpretation managed: supervised "managed_round configured" for configured
  by unfold_locales (auto dest: managed_round_ok managed_round_continues)

lemma new_tunnel_ok: "backoff_ok new_tunnel"
  by (simp add: backoff_ok_def new_tunnel_def initialBackoff_def maxBackoff_def second_def minute_def)


definition demo_round :: "string \<Rightarrow> round_env" where
  "demo_round url = \<lparr>re_done = False, re_prov = Inl ErrProvision, re_spawn = \<lparr>sp_exec = (\<lambda>p. True), sp_path = None, sp_starts = True,
     sp_end = (if url = [] then SpawnTimeout else SpawnReady url), sp_yields = False\<rparr>, re_done_err = False, re_slept = True, re_exits = True, re_yields = True\<rparr>"

definition demo_waits :: "tun_act list \<Rightarrow> duration list" where
  "demo_waits acts = concat (map (\<lambda>a. case a of Wait d \<Rightarrow> [d] | _ \<Rightarrow> []) acts)"


end
