(* ===== verification/Node.thy ===== *)
theory Node
  imports OAuth Tunnel
begin

text \<open>
  The node itself (internal/node/node.go): the reconciler that starts and stops capabilities and
  tunnels to match the configuration and feeds the registration manager the public URL, the live
  configuration patch, the device id it advertises, and managed-tunnel provisioning. A capability
  is whether the configuration enables it and how its Start and Stop end; a tunnel manager is its
  Tunnel state, whose URL changes arrive as events. Reconcile holds its mutex throughout and is one
  step.
\<close>

section \<open>State\<close>

datatype level = Debug | Info | Warn | Error

text \<open>A log line: its level, what it is about, and the error text if it has one.\<close>

type_synonym log_line = "level \<times> string \<times> string"

record node =
  nd_cfg :: Config
  nd_disk :: disk
  nd_capRunning :: "(string \<times> bool) list"
  nd_failures :: "(string \<times> string) list"   \<comment> \<open>startFailures\<close>
  nd_quick :: "tunnel option"
  nd_managed :: "tunnel option"
  nd_reg :: mg_sys   \<comment> \<open>the registration manager with its loop\<close>
  nd_jwt :: string
  nd_deviceID :: string   \<comment> \<open>the cached Bonjour device id\<close>
  nd_warned :: bool
  nd_log :: "log_line list"

text \<open>An operation on the manager's fields, and a step of its loop, which works on the node's disk.\<close>

definition on_manager :: "(manager \<Rightarrow> manager) \<Rightarrow> node \<Rightarrow> node" where
  "on_manager f n = n\<lparr>nd_reg := (nd_reg n)\<lparr>ms_m := f (ms_m (nd_reg n))\<rparr>\<rparr>"

definition manager_step :: "mg_event \<Rightarrow> node \<Rightarrow> node \<times> http_request list" where
  "manager_step ev n = (case mg_exec ev ((nd_reg n)\<lparr>ms_disk := nd_disk n\<rparr>) of (s, rs) \<Rightarrow> (n\<lparr>nd_reg := s, nd_disk := ms_disk s\<rparr>, rs))"

definition log_line :: "level \<Rightarrow> string \<Rightarrow> string \<Rightarrow> node \<Rightarrow> node" where
  "log_line l key txt n = n\<lparr>nd_log := nd_log n @ [(l, key, txt)]\<rparr>"

section \<open>Remembered failures\<close>

definition noteStartFailure :: "string \<Rightarrow> string \<Rightarrow> node \<Rightarrow> node" where
  "noteStartFailure key err n =
    (let repeat = (case map_get (nd_failures n) key of None \<Rightarrow> [] | Some t \<Rightarrow> t) = err;
         n' = n\<lparr>nd_failures := map_put key err (nd_failures n)\<rparr>
     in if repeat then log_line Debug key err n' else log_line Warn key err n')"

definition retryingStart :: "string \<Rightarrow> node \<Rightarrow> bool" where
  "retryingStart key n \<longleftrightarrow> map_get (nd_failures n) key \<noteq> None"

definition clearStartFailure :: "string \<Rightarrow> node \<Rightarrow> node" where
  "clearStartFailure key n = n\<lparr>nd_failures := map_del key (nd_failures n)\<rparr>"

section \<open>Capabilities\<close>

definition capabilities :: "string list" where
  "capabilities = [''compute'', ''memory'', ''gateway'', ''openai'', ''lan'']"

text \<open>The Enabled methods of the five capabilities.\<close>

definition openai_enabled :: "Config \<Rightarrow> bool" where
  "openai_enabled cfg \<longleftrightarrow> oa_Enabled (c_OpenAI cfg) \<and> cap_Compute (c_Capabilities cfg)"

definition gateway_enabled :: "Config \<Rightarrow> bool" where
  "gateway_enabled cfg \<longleftrightarrow> c_Mode cfg = ModeGateway"

definition lan_enabled :: "Config \<Rightarrow> bool" where
  "lan_enabled cfg \<longleftrightarrow> lan_Enabled (c_LAN cfg) \<or> cap_Memory (c_Capabilities cfg) \<or> c_Mode cfg = ModeGateway \<or> Exposed cfg \<or>
     (oa_Enabled (c_OpenAI cfg) \<and> cap_Compute (c_Capabilities cfg))"

definition Enabled :: "Config \<Rightarrow> string \<Rightarrow> bool" where
  "Enabled cfg name =
    (if name = ''compute'' then cap_Compute (c_Capabilities cfg)
     else if name = ''memory'' then cap_Memory (c_Capabilities cfg)
     else if name = ''gateway'' then gateway_enabled cfg
     else if name = ''openai'' then openai_enabled cfg
     else if name = ''lan'' then lan_enabled cfg
     else False)"

definition capRunning :: "node \<Rightarrow> string \<Rightarrow> bool" where
  "capRunning n name = (case map_get (nd_capRunning n) name of None \<Rightarrow> False | Some b \<Rightarrow> b)"

text \<open>How starts and stops end: None, or the error's text.\<close>

record reconcile_env =
  rc_start :: "string \<Rightarrow> string option"
  rc_stop :: "string \<Rightarrow> string option"
  rc_quick :: "string option"
  rc_managed :: "string option"

definition cap_key :: "string \<Rightarrow> string" where "cap_key name = ''capability:'' @ name"

definition reconcile_cap :: "reconcile_env \<Rightarrow> string \<Rightarrow> node \<Rightarrow> node" where
  "reconcile_cap e name n0 =
    (let key = cap_key name; enabled = Enabled (nd_cfg n0) name;
         n = (if \<not> enabled then clearStartFailure key n0 else n0) in
     if enabled \<and> \<not> capRunning n name then
       let n1 = log_line (if retryingStart key n then Debug else Info) key [] n in
       (case rc_start e name of
          Some err \<Rightarrow> noteStartFailure key err n1
        | None \<Rightarrow> (clearStartFailure key n1)\<lparr>nd_capRunning := map_put name True (nd_capRunning n1)\<rparr>)
     else if \<not> enabled \<and> capRunning n name then
       let n1 = log_line Info key [] n;
           n2 = (case rc_stop e name of Some err \<Rightarrow> log_line Warn key err n1 | None \<Rightarrow> n1)
       in n2\<lparr>nd_capRunning := map_put name False (nd_capRunning n2)\<rparr>
     else n)"

definition anyEnabled :: "Config \<Rightarrow> bool" where
  "anyEnabled cfg \<longleftrightarrow> list_ex (Enabled cfg) capabilities"

section \<open>Tunnels and the public URL\<close>

definition onTunnelURLChange :: "string \<Rightarrow> node \<Rightarrow> node" where
  "onTunnelURLChange url n =
    (let n1 = log_line Info ''tunnel'' url n in
     if tn_Mode (c_Tunnel (nd_cfg n)) = TunnelModeQuick then on_manager (SetTunnelURL url) n1 else n1)"

definition onManagedURLChange :: "string \<Rightarrow> node \<Rightarrow> node" where
  "onManagedURLChange url n =
    (let n1 = log_line Info ''managed tunnel'' url n in
     if tn_Mode (c_Tunnel (nd_cfg n)) = TunnelModeManaged then on_manager (SetTunnelURL url) n1 else n1)"

definition tunnelURL :: "node \<Rightarrow> string" where
  "tunnelURL n = (case nd_quick n of None \<Rightarrow> [] | Some t \<Rightarrow> tu_url t)"

definition managedURL :: "node \<Rightarrow> string" where
  "managedURL n = (case nd_managed n of None \<Rightarrow> [] | Some t \<Rightarrow> tu_url t)"

definition wantQuick :: "Config \<Rightarrow> bool" where
  "wantQuick cfg \<longleftrightarrow> Exposed cfg \<and> tn_Mode (c_Tunnel cfg) = TunnelModeQuick \<and> anyEnabled cfg"

definition wantManaged :: "Config \<Rightarrow> bool" where
  "wantManaged cfg \<longleftrightarrow> Exposed cfg \<and> tn_Mode (c_Tunnel cfg) = TunnelModeManaged \<and> anyEnabled cfg"

text \<open>A stopped tunnel's loop reports that it is down before Stop returns, if it had a URL.\<close>

definition reconcile_quick :: "reconcile_env \<Rightarrow> node \<Rightarrow> node" where
  "reconcile_quick e n0 =
    (let want = wantQuick (nd_cfg n0); n = (if \<not> want then clearStartFailure ''tunnel:quick'' n0 else n0) in
     case nd_quick n of
       None \<Rightarrow> if want then
           (case rc_quick e of Some err \<Rightarrow> noteStartFailure ''tunnel:quick'' err n
            | None \<Rightarrow> (clearStartFailure ''tunnel:quick'' n)\<lparr>nd_quick := Some new_tunnel\<rparr>)
         else n
     | Some t \<Rightarrow> if \<not> want then
           let n1 = n\<lparr>nd_quick := None\<rparr> in (if tu_url t \<noteq> [] then onTunnelURLChange [] n1 else n1)
         else n)"

definition reconcile_managed :: "reconcile_env \<Rightarrow> node \<Rightarrow> node" where
  "reconcile_managed e n0 =
    (let want = wantManaged (nd_cfg n0); n = (if \<not> want then clearStartFailure ''tunnel:managed'' n0 else n0) in
     case nd_managed n of
       None \<Rightarrow> if want then
           (case rc_managed e of Some err \<Rightarrow> noteStartFailure ''tunnel:managed'' err n
            | None \<Rightarrow> (clearStartFailure ''tunnel:managed'' n)\<lparr>nd_managed := Some new_tunnel\<rparr>)
         else n
     | Some t \<Rightarrow> if \<not> want then
           let n1 = n\<lparr>nd_managed := None\<rparr> in (if tu_url t \<noteq> [] then onManagedURLChange [] n1 else n1)
         else n)"

definition desired_url :: "node \<Rightarrow> string" where
  "desired_url n =
    (let cfg = nd_cfg n; mode = tn_Mode (c_Tunnel cfg) in
     if \<not> Exposed cfg then []
     else if mode = TunnelModeManaged then managedURL n
     else if mode = TunnelModeQuick then tunnelURL n
     else if mode = TunnelModeExternal then tn_ExternalURL (c_Tunnel cfg)
     else [])"

definition Reconcile :: "reconcile_env \<Rightarrow> node \<Rightarrow> node" where
  "Reconcile e n0 =
    (let n1 = fold (reconcile_cap e) capabilities n0;
         n2 = reconcile_managed e (reconcile_quick e n1)
     in on_manager Kick (on_manager (SetTunnelURL (desired_url n2)) n2))"

section \<open>The admin API's operations\<close>

datatype node_err = ErrConfig cfg_err | ErrPairingKey | ErrHome | ErrNodeFile fs_err | ErrProvisionCall cp_err

text \<open>ApplyConfigPatch: the configuration in memory changes only once the file has been written.\<close>

definition ApplyConfigPatch :: "(Config \<Rightarrow> bytes) \<Rightarrow> save_fault \<Rightarrow> string \<Rightarrow> reconcile_env \<Rightarrow> ConfigPatch \<Rightarrow> node \<Rightarrow> (node_err + Config) \<times> node" where
  "ApplyConfigPatch enc fault configPath e patch n =
    (let next = ApplyTo patch (nd_cfg n) in
     case Validate next of
       Some err \<Rightarrow> (Inl (ErrConfig err), n)
     | None \<Rightarrow> (case Save enc fault next configPath (nd_disk n) of
         (d, Some err) \<Rightarrow> (Inl (ErrConfig err), n\<lparr>nd_disk := d\<rparr>)
       | (d, None) \<Rightarrow> (Inr next, Reconcile e (n\<lparr>nd_disk := d, nd_cfg := next\<rparr>))))"

definition SetJWT :: "string \<Rightarrow> node \<Rightarrow> node" where
  "SetJWT token n = on_manager NotifyTokenUpdated (n\<lparr>nd_jwt := token\<rparr>)"

definition pairingKeyPattern :: "string \<Rightarrow> bool" where
  "pairingKeyPattern s \<longleftrightarrow> length s = 64 \<and> list_all (\<lambda>c. hex_val c \<noteq> None) s"

definition SetPairingKey :: "string option \<Rightarrow> bool \<Rightarrow> wf_fault \<Rightarrow> string \<Rightarrow> node \<Rightarrow> node_err option \<times> node" where
  "SetPairingKey home mkdir fault hexKey n =
    (if \<not> pairingKeyPattern hexKey then (Some ErrPairingKey, n)
     else case ResolvedDataDir home (nd_cfg n) of
       None \<Rightarrow> (Some ErrHome, n)
     | Some dataDir \<Rightarrow>
        if \<not> mkdir then (Some (ErrNodeFile (ErrPath ''mkdir'')), n)
        else (case WriteFile fault (path_join dataDir ''pairing.key'') hexKey mode_0600 (nd_disk n) of
          (d, Some err) \<Rightarrow> (Some (ErrNodeFile err), n\<lparr>nd_disk := d\<rparr>) | (d, None) \<Rightarrow> (None, n\<lparr>nd_disk := d\<rparr>)))"

definition deviceName :: "string option \<Rightarrow> node \<Rightarrow> string" where
  "deviceName hostname n = (if cp_DeviceName (c_ControlPlane (nd_cfg n)) \<noteq> [] then cp_DeviceName (c_ControlPlane (nd_cfg n))
     else case hostname of Some h \<Rightarrow> h | None \<Rightarrow> ''onesilo-node'')"

text \<open>The device id for Bonjour: cached once resolved; a failure is logged once and tried again later.\<close>

definition bonjourDeviceID :: "string option \<Rightarrow> id_env \<Rightarrow> node \<Rightarrow> string \<times> node" where
  "bonjourDeviceID home ie n =
    (let warn = (\<lambda>n. if nd_warned n then n else log_line Warn ''bonjour device id'' [] (n\<lparr>nd_warned := True\<rparr>)) in
     if nd_deviceID n \<noteq> [] then (nd_deviceID n, n)
     else case ResolvedDataDir home (nd_cfg n) of
       None \<Rightarrow> ([], warn n)
     | Some dataDir \<Rightarrow> (case LoadOrCreateDeviceID ie dataDir (nd_disk n) of
         (Inl _, d) \<Rightarrow> ([], warn (n\<lparr>nd_disk := d\<rparr>))
       | (Inr i, d) \<Rightarrow> (i, n\<lparr>nd_disk := d, nd_deviceID := i\<rparr>)))"

text \<open>Provisioning: the refusals of the control plane become the tunnel's sentinels.\<close>

definition provisionManagedTunnel :: "string option \<Rightarrow> id_env \<Rightarrow> call_env \<Rightarrow> node \<Rightarrow> (prov_err + Provisioned) \<times> node \<times> http_request list" where
  "provisionManagedTunnel home ie ce n =
    (case ResolvedDataDir home (nd_cfg n) of
       None \<Rightarrow> (Inl ErrProvision, n, [])
     | Some dataDir \<Rightarrow> (case LoadOrCreateDeviceID ie dataDir (nd_disk n) of
         (Inl _, d) \<Rightarrow> (Inl ErrProvision, n\<lparr>nd_disk := d\<rparr>, [])
       | (Inr i, d) \<Rightarrow>
          (case ProvisionTunnel (cp_URL (c_ControlPlane (nd_cfg n))) ce i (lan_Port (c_LAN (nd_cfg n))) of
             (Inr (url, token), rs) \<Rightarrow> (Inr \<lparr>pv_URL = url, pv_Token = token\<rparr>, n\<lparr>nd_disk := d\<rparr>, rs)
           | (Inl err, rs) \<Rightarrow>
              (Inl (if IsStatus err 402 then ErrSubscriptionRequired
                    else if IsStatus err 404 \<or> IsStatus err 503 then ErrManagedUnavailable else ErrProvision), n\<lparr>nd_disk := d\<rparr>, rs))))"

text \<open>The tunnel part of Status: the URL shown, and whether remote access waits for a subscription.\<close>

definition status_tunnel_url :: "node \<Rightarrow> string" where
  "status_tunnel_url n = (let mode = tn_Mode (c_Tunnel (nd_cfg n)) in
     if mode = TunnelModeExternal then tn_ExternalURL (c_Tunnel (nd_cfg n))
     else if mode = TunnelModeManaged then managedURL n else tunnelURL n)"

definition subscriptionRequired :: "node \<Rightarrow> bool" where
  "subscriptionRequired n \<longleftrightarrow> mg_subscriptionBlocked (ms_m (nd_reg n)) \<or> (case nd_managed n of None \<Rightarrow> False | Some t \<Rightarrow> tu_blocked t)"

text \<open>oauth_signed_in: a grant that is live or can be refreshed.\<close>

definition oauthSignedIn :: "timefmt \<Rightarrow> string option \<Rightarrow> time \<Rightarrow> node \<Rightarrow> bool" where
  "oauthSignedIn tf home now n = (case ResolvedDataDir home (nd_cfg n) of None \<Rightarrow> False
     | Some dataDir \<Rightarrow> (case LoadOAuthCredential tf dataDir (nd_disk n) of Inl _ \<Rightarrow> False
         | Inr cred \<Rightarrow> oc_RefreshToken cred \<noteq> [] \<or> oc_ExpiresAt cred = zero_time \<or> now < oc_ExpiresAt cred))"

section \<open>Steps\<close>

text \<open>
  The ticker's and the admin API's reconciles, the two tunnels' URL changes (by the loop of a running
  manager only), a pushed token, and the registration manager's own steps.
\<close>

datatype node_event =
    NodeReconcile reconcile_env
  | NodePatch save_fault reconcile_env ConfigPatch
  | NodeQuickURL string
  | NodeManagedURL string bool
  | NodeJWT string
  | NodeManager mg_event

definition quick_url_event :: "string \<Rightarrow> node \<Rightarrow> node" where
  "quick_url_event url n = (case nd_quick n of None \<Rightarrow> n
     | Some t \<Rightarrow> let n1 = n\<lparr>nd_quick := Some (t\<lparr>tu_url := url\<rparr>)\<rparr> in if tu_url t \<noteq> url then onTunnelURLChange url n1 else n1)"

definition managed_url_event :: "string \<Rightarrow> bool \<Rightarrow> node \<Rightarrow> node" where
  "managed_url_event url blocked n = (case nd_managed n of None \<Rightarrow> n
     | Some t \<Rightarrow> let n1 = n\<lparr>nd_managed := Some (t\<lparr>tu_url := url, tu_blocked := blocked\<rparr>)\<rparr> in
        if tu_url t \<noteq> url then onManagedURLChange url n1 else n1)"

fun node_exec :: "(Config \<Rightarrow> bytes) \<Rightarrow> string \<Rightarrow> node_event \<Rightarrow> node \<Rightarrow> node \<times> http_request list" where
  "node_exec enc path (NodeReconcile e) n = (Reconcile e n, [])"
| "node_exec enc path (NodePatch fault e p) n = (snd (ApplyConfigPatch enc fault path e p n), [])"
| "node_exec enc path (NodeQuickURL url) n = (quick_url_event url n, [])"
| "node_exec enc path (NodeManagedURL url b) n = (managed_url_event url b n, [])"
| "node_exec enc path (NodeJWT t) n = (SetJWT t n, [])"
| "node_exec enc path (NodeManager ev) n = manager_step ev n"

fun node_run :: "(Config \<Rightarrow> bytes) \<Rightarrow> string \<Rightarrow> node_event list \<Rightarrow> node \<Rightarrow> node \<times> http_request list" where
  "node_run enc path [] n = (n, [])"
| "node_run enc path (ev # es) n = (case node_exec enc path ev n of (n', rs) \<Rightarrow> (case node_run enc path es n' of (n'', rs') \<Rightarrow> (n'', rs @ rs')))"

text \<open>The manager's goroutine takes only its own steps here; the other events come from the node.\<close>

definition own_step :: "node_event \<Rightarrow> bool" where
  "own_step ev = (case ev of NodeManager (EvBegin _) \<Rightarrow> True | NodeManager (EvFinish _ _) \<Rightarrow> True | NodeManager _ \<Rightarrow> False | _ \<Rightarrow> True)"

section \<open>Convergence\<close>

lemma cap_key_inj [simp]: "cap_key a = cap_key b \<longleftrightarrow> a = b"
  by (simp add: cap_key_def)

lemma cap_key_tunnel [simp]: "cap_key a \<noteq> ''tunnel:quick''" "cap_key a \<noteq> ''tunnel:managed''" "cap_key a \<noteq> ''tunnel''" "cap_key a \<noteq> ''managed tunnel''"
  "''tunnel:quick'' \<noteq> cap_key a" "''tunnel:managed'' \<noteq> cap_key a" "''tunnel'' \<noteq> cap_key a" "''managed tunnel'' \<noteq> cap_key a"
  by (simp_all add: cap_key_def)

lemma log_line_fields [simp]: "nd_cfg (log_line l k t n) = nd_cfg n" "nd_failures (log_line l k t n) = nd_failures n"
  "nd_capRunning (log_line l k t n) = nd_capRunning n" "nd_quick (log_line l k t n) = nd_quick n" "nd_managed (log_line l k t n) = nd_managed n"
  "nd_reg (log_line l k t n) = nd_reg n" "nd_disk (log_line l k t n) = nd_disk n" "nd_log (log_line l k t n) = nd_log n @ [(l, k, t)]"
  by (simp_all add: log_line_def)

lemma noteStartFailure_fields [simp]: "nd_cfg (noteStartFailure k t n) = nd_cfg n" "nd_failures (noteStartFailure k t n) = map_put k t (nd_failures n)"
  "nd_capRunning (noteStartFailure k t n) = nd_capRunning n" "nd_quick (noteStartFailure k t n) = nd_quick n" "nd_managed (noteStartFailure k t n) = nd_managed n"
  "nd_reg (noteStartFailure k t n) = nd_reg n" "nd_disk (noteStartFailure k t n) = nd_disk n"
  by (simp_all add: noteStartFailure_def Let_def)

lemma clearStartFailure_fields [simp]: "nd_cfg (clearStartFailure k n) = nd_cfg n" "nd_failures (clearStartFailure k n) = map_del k (nd_failures n)"
  "nd_capRunning (clearStartFailure k n) = nd_capRunning n" "nd_quick (clearStartFailure k n) = nd_quick n" "nd_managed (clearStartFailure k n) = nd_managed n"
  "nd_reg (clearStartFailure k n) = nd_reg n" "nd_disk (clearStartFailure k n) = nd_disk n" "nd_log (clearStartFailure k n) = nd_log n"
  by (simp_all add: clearStartFailure_def)

lemma on_manager_fields [simp]: "nd_cfg (on_manager f n) = nd_cfg n" "nd_failures (on_manager f n) = nd_failures n"
  "nd_capRunning (on_manager f n) = nd_capRunning n" "nd_quick (on_manager f n) = nd_quick n" "nd_managed (on_manager f n) = nd_managed n"
  "nd_log (on_manager f n) = nd_log n" "ms_m (nd_reg (on_manager f n)) = f (ms_m (nd_reg n))" "ms_busy (nd_reg (on_manager f n)) = ms_busy (nd_reg n)"
  by (simp_all add: on_manager_def)

lemma reconcile_cap_frame [simp]: "nd_cfg (reconcile_cap e name n) = nd_cfg n" "nd_quick (reconcile_cap e name n) = nd_quick n"
  "nd_managed (reconcile_cap e name n) = nd_managed n" "nd_reg (reconcile_cap e name n) = nd_reg n"
  by (simp_all add: reconcile_cap_def Let_def split: option.splits)

lemma reconcile_cap_running: "capRunning (reconcile_cap e name n) b =
    (if b = name then Enabled (nd_cfg n) name \<and> (capRunning n name \<or> rc_start e name = None) else capRunning n b)"
  by (auto simp: reconcile_cap_def Let_def capRunning_def map_get_put split: option.splits)

text \<open>What is remembered about a capability after a reconcile.\<close>

definition remembered :: "reconcile_env \<Rightarrow> string \<Rightarrow> node \<Rightarrow> string option" where
  "remembered e name n = (if \<not> Enabled (nd_cfg n) name then None
     else if capRunning n name then map_get (nd_failures n) (cap_key name) else rc_start e name)"

lemma reconcile_cap_failures: "map_get (nd_failures (reconcile_cap e name n)) k =
    (if k = cap_key name then remembered e name n else map_get (nd_failures n) k)"
  by (auto simp: reconcile_cap_def Let_def remembered_def capRunning_def map_get_put map_get_del split: option.splits)

lemma reconcile_caps:
  assumes "distinct cs"
  shows "nd_cfg (fold (reconcile_cap e) cs n) = nd_cfg n \<and> nd_quick (fold (reconcile_cap e) cs n) = nd_quick n \<and>
    nd_managed (fold (reconcile_cap e) cs n) = nd_managed n \<and> nd_reg (fold (reconcile_cap e) cs n) = nd_reg n \<and>
    (\<forall>b. capRunning (fold (reconcile_cap e) cs n) b =
       (if b \<in> set cs then Enabled (nd_cfg n) b \<and> (capRunning n b \<or> rc_start e b = None) else capRunning n b)) \<and>
    (\<forall>b. map_get (nd_failures (fold (reconcile_cap e) cs n)) (cap_key b) =
       (if b \<in> set cs then remembered e b n else map_get (nd_failures n) (cap_key b)))"
  using assms
proof (induction cs arbitrary: n)
  case (Cons c cs)
  have "remembered e b (reconcile_cap e c n) = remembered e b n" if "b \<in> set cs" for b
    using that Cons.prems by (auto simp: remembered_def reconcile_cap_running reconcile_cap_failures)
  then show ?case using Cons.IH [of "reconcile_cap e c n"] Cons.prems
    by (auto simp: reconcile_cap_running reconcile_cap_failures)
qed simp

lemma url_change_frame [simp]:
  "nd_cfg (onTunnelURLChange u n) = nd_cfg n" "nd_cfg (onManagedURLChange u n) = nd_cfg n"
  "nd_quick (onTunnelURLChange u n) = nd_quick n" "nd_quick (onManagedURLChange u n) = nd_quick n"
  "nd_managed (onTunnelURLChange u n) = nd_managed n" "nd_managed (onManagedURLChange u n) = nd_managed n"
  "nd_capRunning (onTunnelURLChange u n) = nd_capRunning n" "nd_capRunning (onManagedURLChange u n) = nd_capRunning n"
  "nd_failures (onTunnelURLChange u n) = nd_failures n" "nd_failures (onManagedURLChange u n) = nd_failures n"
  "ms_busy (nd_reg (onTunnelURLChange u n)) = ms_busy (nd_reg n)" "ms_busy (nd_reg (onManagedURLChange u n)) = ms_busy (nd_reg n)"
  by (simp_all add: onTunnelURLChange_def onManagedURLChange_def Let_def)

lemma reconcile_tunnels_frame [simp]:
  "nd_cfg (reconcile_quick e n) = nd_cfg n" "nd_cfg (reconcile_managed e n) = nd_cfg n"
  "nd_managed (reconcile_quick e n) = nd_managed n" "nd_quick (reconcile_managed e n) = nd_quick n"
  "nd_capRunning (reconcile_quick e n) = nd_capRunning n" "nd_capRunning (reconcile_managed e n) = nd_capRunning n"
  "ms_busy (nd_reg (reconcile_quick e n)) = ms_busy (nd_reg n)" "ms_busy (nd_reg (reconcile_managed e n)) = ms_busy (nd_reg n)"
  "map_get (nd_failures (reconcile_quick e n)) (cap_key b) = map_get (nd_failures n) (cap_key b)"
  "map_get (nd_failures (reconcile_managed e n)) (cap_key b) = map_get (nd_failures n) (cap_key b)"
  by (auto simp: reconcile_quick_def reconcile_managed_def Let_def map_get_put map_get_del split: option.splits)

lemma reconcile_tunnels_running:
  "nd_quick (reconcile_quick e n) \<noteq> None \<longleftrightarrow> wantQuick (nd_cfg n) \<and> (nd_quick n \<noteq> None \<or> rc_quick e = None)"
  "nd_managed (reconcile_managed e n) \<noteq> None \<longleftrightarrow> wantManaged (nd_cfg n) \<and> (nd_managed n \<noteq> None \<or> rc_managed e = None)"
  by (auto simp: reconcile_quick_def reconcile_managed_def Let_def split: option.splits)

lemma desired_url_on_manager [simp]: "desired_url (on_manager f n) = desired_url n"
  by (simp add: desired_url_def managedURL_def tunnelURL_def Let_def)

lemma manager_url [simp]: "mg_tunnelURL (SetTunnelURL u m) = u" "mg_tunnelURL (Kick m) = mg_tunnelURL m" "mg_kick (Kick m)"
  "mg_tunnelURL (NotifyTokenUpdated m) = mg_tunnelURL m"
  by (simp_all add: SetTunnelURL_def Kick_def NotifyTokenUpdated_def)

lemma capRunning_frame: "nd_capRunning n = nd_capRunning n' \<Longrightarrow> capRunning n b = capRunning n' b"
  by (simp add: capRunning_def)

lemma Reconcile_fields:
  "nd_cfg (Reconcile e n) = nd_cfg n"
  "nd_quick (Reconcile e n) \<noteq> None \<longleftrightarrow> wantQuick (nd_cfg n) \<and> (nd_quick n \<noteq> None \<or> rc_quick e = None)"
  "nd_managed (Reconcile e n) \<noteq> None \<longleftrightarrow> wantManaged (nd_cfg n) \<and> (nd_managed n \<noteq> None \<or> rc_managed e = None)"
  "mg_tunnelURL (ms_m (nd_reg (Reconcile e n))) = desired_url (Reconcile e n)" "mg_kick (ms_m (nd_reg (Reconcile e n)))"
  "ms_busy (nd_reg (Reconcile e n)) = ms_busy (nd_reg n)"
  "capRunning (Reconcile e n) b = (if b \<in> set capabilities then Enabled (nd_cfg n) b \<and> (capRunning n b \<or> rc_start e b = None) else capRunning n b)"
  "map_get (nd_failures (Reconcile e n)) (cap_key b) = (if b \<in> set capabilities then remembered e b n else map_get (nd_failures n) (cap_key b))"
proof -
  have d: "distinct capabilities" by (simp add: capabilities_def)
  let ?n1 = "fold (reconcile_cap e) capabilities n"
  let ?n2 = "reconcile_managed e (reconcile_quick e ?n1)"
  have R: "Reconcile e n = on_manager Kick (on_manager (SetTunnelURL (desired_url ?n2)) ?n2)" by (simp add: Reconcile_def Let_def)
  note c = reconcile_caps [OF d, of e n]
  show "nd_cfg (Reconcile e n) = nd_cfg n" using c by (simp add: R)
  show "nd_quick (Reconcile e n) \<noteq> None \<longleftrightarrow> wantQuick (nd_cfg n) \<and> (nd_quick n \<noteq> None \<or> rc_quick e = None)"
    using c reconcile_tunnels_running(1) [of e ?n1] unfolding R by simp
  show "nd_managed (Reconcile e n) \<noteq> None \<longleftrightarrow> wantManaged (nd_cfg n) \<and> (nd_managed n \<noteq> None \<or> rc_managed e = None)"
    using c reconcile_tunnels_running(2) [of e "reconcile_quick e ?n1"] unfolding R by simp
  show "mg_tunnelURL (ms_m (nd_reg (Reconcile e n))) = desired_url (Reconcile e n)"
    unfolding R by simp
  show "mg_kick (ms_m (nd_reg (Reconcile e n)))" unfolding R by simp
  show "ms_busy (nd_reg (Reconcile e n)) = ms_busy (nd_reg n)" using c unfolding R by simp
  show "capRunning (Reconcile e n) b = (if b \<in> set capabilities then Enabled (nd_cfg n) b \<and> (capRunning n b \<or> rc_start e b = None) else capRunning n b)"
    using c capRunning_frame [of "Reconcile e n" ?n1] unfolding R by simp
  show "map_get (nd_failures (Reconcile e n)) (cap_key b) = (if b \<in> set capabilities then remembered e b n else map_get (nd_failures n) (cap_key b))"
    using c unfolding R by simp
qed


section \<open>Warnings\<close>

definition about :: "string \<Rightarrow> node \<Rightarrow> (level \<times> string) list" where
  "about key n = concat (map (\<lambda>(l, k, t). if k = key then [(l, t)] else []) (nd_log n))"

lemma about_log [simp]: "about k (log_line l k' t n) = about k n @ (if k' = k then [(l, t)] else [])"
  "about k (clearStartFailure k' n) = about k n" "about k (on_manager f n) = about k n"
  "about k (n\<lparr>nd_capRunning := r\<rparr>) = about k n" "about k (n\<lparr>nd_quick := q\<rparr>) = about k n" "about k (n\<lparr>nd_managed := q\<rparr>) = about k n"
  by (simp_all add: about_def)

lemma about_note [simp]: "about k (noteStartFailure k' t n) = about k n @
    (if k' = k then [(if (case map_get (nd_failures n) k' of None \<Rightarrow> [] | Some x \<Rightarrow> x) = t then Debug else Warn, t)] else [])"
  by (simp add: noteStartFailure_def Let_def about_def log_line_def)

lemma about_other_cap: "b \<noteq> c \<Longrightarrow> about (cap_key b) (reconcile_cap e c n) = about (cap_key b) n"
  by (simp add: reconcile_cap_def Let_def split: option.splits)

lemma about_url [simp]: "about (cap_key b) (onTunnelURLChange u n) = about (cap_key b) n" "about (cap_key b) (onManagedURLChange u n) = about (cap_key b) n"
  by (auto simp: onTunnelURLChange_def onManagedURLChange_def Let_def)

lemma about_tunnels [simp]: "about (cap_key b) (reconcile_quick e n) = about (cap_key b) n" "about (cap_key b) (reconcile_managed e n) = about (cap_key b) n"
  by (auto simp: reconcile_quick_def reconcile_managed_def Let_def split: option.splits)

lemma about_caps: "distinct cs \<Longrightarrow> b \<notin> set cs \<Longrightarrow> about (cap_key b) (fold (reconcile_cap e) cs n) = about (cap_key b) n"
  by (induction cs arbitrary: n) (auto simp: about_other_cap)

text \<open>One failing reconcile: an announcement, and the error at the level its novelty gives it.\<close>

lemma Reconcile_failing:
  assumes "b \<in> set capabilities" "Enabled (nd_cfg n) b" "\<not> capRunning n b" "rc_start e b = Some err"
  shows "about (cap_key b) (Reconcile e n) = about (cap_key b) n @
    [(if map_get (nd_failures n) (cap_key b) = None then Info else Debug, []),
     (if (case map_get (nd_failures n) (cap_key b) of None \<Rightarrow> [] | Some x \<Rightarrow> x) = err then Debug else Warn, err)]"
proof -
  obtain c1 c2 where cs: "capabilities = c1 @ b # c2" "b \<notin> set c1" using assms(1) by (meson split_list_first)
  have d: "distinct c1" "distinct c2" "b \<notin> set c2" using cs by (auto simp: capabilities_def dest: arg_cong [of _ _ distinct])
  let ?m = "fold (reconcile_cap e) c1 n"
  have m: "nd_cfg ?m = nd_cfg n" "capRunning ?m b = capRunning n b" "map_get (nd_failures ?m) (cap_key b) = map_get (nd_failures n) (cap_key b)"
    "about (cap_key b) ?m = about (cap_key b) n"
    using reconcile_caps [OF d(1), of e n] about_caps [OF d(1) cs(2)] cs(2) by simp_all
  have "about (cap_key b) (Reconcile e n) = about (cap_key b) (reconcile_cap e b ?m)"
    by (simp add: Reconcile_def Let_def cs(1) about_caps [OF d(2,3)])
  then show ?thesis using m assms(2-4) by (simp add: reconcile_cap_def Let_def retryingStart_def)
qed

definition warnings :: "(level \<times> string) list \<Rightarrow> string list" where
  "warnings ls = map snd (filter (\<lambda>(l, t). l = Warn) ls)"

lemma failing_run:
  assumes "b \<in> set capabilities" "Enabled (nd_cfg n) b" "\<not> capRunning n b" "list_all (\<lambda>e. rc_start e b \<noteq> None \<and> rc_start e b \<noteq> Some []) es"
  shows "warnings (about (cap_key b) (fold Reconcile es n)) = warnings (about (cap_key b) n) @
    (case map_get (nd_failures n) (cap_key b) of None \<Rightarrow> remdups_adj (map (\<lambda>e. the (rc_start e b)) es)
     | Some t \<Rightarrow> tl (remdups_adj (t # map (\<lambda>e. the (rc_start e b)) es)))"
  using assms
proof (induction es arbitrary: n)
  case Nil
  then show ?case by (simp split: option.splits)
next
  case (Cons e es)
  obtain err where err: "rc_start e b = Some err" "err \<noteq> []" using Cons.prems(4) by auto
  let ?n = "Reconcile e n"
  have n': "nd_cfg ?n = nd_cfg n" "\<not> capRunning ?n b" "map_get (nd_failures ?n) (cap_key b) = Some err"
    using Cons.prems(1-3) err by (auto simp: Reconcile_fields(1,7,8) remembered_def)
  have "warnings (about (cap_key b) (fold Reconcile es ?n)) = warnings (about (cap_key b) ?n) @ tl (remdups_adj (err # map (\<lambda>e. the (rc_start e b)) es))"
    using Cons.IH [of ?n] Cons.prems(1,2,4) n' by simp
  moreover have "warnings (about (cap_key b) ?n) = warnings (about (cap_key b) n) @
      (if (case map_get (nd_failures n) (cap_key b) of None \<Rightarrow> [] | Some x \<Rightarrow> x) = err then [] else [err])"
    using Reconcile_failing [OF Cons.prems(1-3) err(1)] by (simp add: warnings_def)
  moreover have "err # tl (remdups_adj (err # xs)) = remdups_adj (err # xs)" for xs
    by (metis list.exhaust_sel remdups_adj_Cons_alt remdups_adj_Nil_iff list.sel(1) list.sel(3) list.distinct(1))
  ultimately show ?case using err by (auto split: option.splits)
qed

text \<open>
  A standing failure is warned about once: over any number of reconciles in which an enabled
  capability keeps failing to start, the warnings about it are the sequence of its errors with
  consecutive repeats removed; and once it is disabled the memory is gone, so the next failure is
  warned about again.
\<close>

theorem standing_failure_warned_once:
  assumes "b \<in> set capabilities" "Enabled (nd_cfg n) b" "\<not> capRunning n b" "map_get (nd_failures n) (cap_key b) = None"
    and "list_all (\<lambda>e. rc_start e b \<noteq> None \<and> rc_start e b \<noteq> Some []) es"
  shows "warnings (about (cap_key b) (fold Reconcile es n)) = warnings (about (cap_key b) n) @ remdups_adj (map (\<lambda>e. the (rc_start e b)) es) \<and>
    (\<forall>m e. \<not> Enabled (nd_cfg m) b \<longrightarrow> map_get (nd_failures (Reconcile e m)) (cap_key b) = None)"
  using failing_run [OF assms(1-3,5)] assms(1,4) by (simp add: Reconcile_fields(8) remembered_def)

section \<open>An unexposed node\<close>

definition unexposed :: "node \<Rightarrow> bool" where
  "unexposed n \<longleftrightarrow> nd_quick n = None \<and> nd_managed n = None \<and> mg_tunnelURL (ms_m (nd_reg n)) = [] \<and>
     ms_busy (nd_reg n) \<in> {None, Some PlanIdle, Some PlanDeregister}"

lemma desired_url_unexposed: "\<not> Exposed (nd_cfg n) \<Longrightarrow> desired_url n = []"
  by (simp add: desired_url_def Let_def)

lemma Reconcile_unexposed:
  assumes "\<not> Exposed (nd_cfg n)" "ms_busy (nd_reg n) \<in> {None, Some PlanIdle, Some PlanDeregister}"
  shows "unexposed (Reconcile e n)"
proof -
  have "\<not> wantQuick (nd_cfg n)" "\<not> wantManaged (nd_cfg n)" using assms(1) by (simp_all add: wantQuick_def wantManaged_def)
  then have "nd_quick (Reconcile e n) = None" "nd_managed (Reconcile e n) = None"
    using Reconcile_fields(2,3) [of e n] by blast+
  moreover have "mg_tunnelURL (ms_m (nd_reg (Reconcile e n))) = []"
    using assms(1) by (simp add: Reconcile_fields(1,4) desired_url_unexposed)
  ultimately show ?thesis using assms(2) by (simp only: unexposed_def Reconcile_fields(6) simp_thms)
qed

lemma deregister_quiet:
  "deregister base ce m = (m', rs) \<Longrightarrow> mg_tunnelURL m' = mg_tunnelURL m \<and> list_all (\<lambda>r. hr_method r = ''DELETE'') rs"
  by (auto simp: deregister_def Let_def setUnregistered_def Client_Delete_def client_do_def split: if_splits sum.splits prod.splits reply.splits)

lemma manager_quiet:
  assumes "own_step (NodeManager ev)" "mg_tunnelURL (ms_m s) = []" "ms_busy s \<in> {None, Some PlanIdle, Some PlanDeregister}"
    and "mg_exec ev s = (s', rs)"
  shows "mg_tunnelURL (ms_m s') = [] \<and> ms_busy s' \<in> {None, Some PlanIdle, Some PlanDeregister} \<and> list_all (\<lambda>r. hr_method r = ''DELETE'') rs"
proof (cases ev)
  case (EvBegin ps)
  then show ?thesis using assms(2-4) by (auto simp: step_plan_def split: if_splits)
next
  case (EvFinish v p)
  obtain m' ds where d: "deregister (rv_base v) (rv_e1 v) (ms_m s) = (m', ds)" by (metis surj_pair)
  then show ?thesis using EvFinish assms(2-4) deregister_quiet [OF d] by auto
qed (use assms(1) in \<open>auto simp: own_step_def\<close>)

lemma unexposed_exec:
  assumes "unexposed n" "\<not> Exposed (nd_cfg (fst (node_exec enc path ev n)))" "own_step ev" "node_exec enc path ev n = (n', rs)"
  shows "unexposed n' \<and> list_all (\<lambda>r. hr_method r = ''DELETE'') rs"
proof -
  have busy: "ms_busy (nd_reg n) \<in> {None, Some PlanIdle, Some PlanDeregister}" using assms(1) by (simp add: unexposed_def)
  show ?thesis
  proof (cases ev)
    case (NodeReconcile e)
    then show ?thesis using assms(2,4) Reconcile_unexposed [OF _ busy, of e] by (auto simp: Reconcile_fields(1))
  next
    case (NodePatch fault e p)
    let ?next = "ApplyTo p (nd_cfg n)"
    obtain d x where s: "Save enc fault ?next path (nd_disk n) = (d, x)" by (metis surj_pair)
    have fail: "unexposed (n\<lparr>nd_disk := d\<rparr>)" using assms(1) by (simp add: unexposed_def)
    show ?thesis
    proof (cases "Validate ?next = None \<and> x = None")
      case True
      let ?m = "n\<lparr>nd_disk := d, nd_cfg := ?next\<rparr>"
      have n': "n' = Reconcile e ?m" "rs = []" using True s NodePatch assms(4) by (auto simp: ApplyConfigPatch_def Let_def)
      then have "\<not> Exposed (nd_cfg ?m)" using assms(2,4) by (simp add: Reconcile_fields(1))
      from Reconcile_unexposed [OF this] busy n' show ?thesis by simp
    next
      case False
      then show ?thesis using fail assms(1,4) s NodePatch by (auto simp: ApplyConfigPatch_def Let_def split: option.splits)
    qed
  next
    case (NodeQuickURL u)
    then show ?thesis using assms(1,4) by (auto simp: unexposed_def quick_url_event_def)
  next
    case (NodeManagedURL u b)
    then show ?thesis using assms(1,4) by (auto simp: unexposed_def managed_url_event_def)
  next
    case (NodeJWT t)
    then show ?thesis using assms(1,4) by (auto simp: unexposed_def SetJWT_def)
  next
    case (NodeManager mev)
    obtain s' qs where m: "mg_exec mev ((nd_reg n)\<lparr>ms_disk := nd_disk n\<rparr>) = (s', qs)" by (metis surj_pair)
    have "own_step (NodeManager mev)" using assms(3) NodeManager by simp
    from manager_quiet [OF this _ _ m] show ?thesis using assms(1,4) NodeManager m by (auto simp: unexposed_def manager_step_def)
  qed
qed

lemma unexposed_run:
  "unexposed n \<Longrightarrow> \<forall>k \<le> length es. \<not> Exposed (nd_cfg (fst (node_run enc path (take k es) n))) \<Longrightarrow> list_all own_step es \<Longrightarrow>
    node_run enc path es n = (n', rs) \<Longrightarrow> unexposed n' \<and> list_all (\<lambda>r. hr_method r = ''DELETE'') rs"
proof (induction es arbitrary: n rs)
  case (Cons ev es)
  obtain n1 r1 where e: "node_exec enc path ev n = (n1, r1)" by (metis surj_pair)
  obtain n2 r2 where r: "node_run enc path es n1 = (n2, r2)" by (metis surj_pair)
  have "\<not> Exposed (nd_cfg n1)" using Cons.prems(2) [rule_format, of 1] e by simp
  then have one: "unexposed n1 \<and> list_all (\<lambda>r. hr_method r = ''DELETE'') r1"
    using unexposed_exec [OF Cons.prems(1) _ _ e] Cons.prems(3) e by simp
  have "\<not> Exposed (nd_cfg (fst (node_run enc path (take k es) n1)))" if "k \<le> length es" for k
    using Cons.prems(2) [rule_format, of "Suc k"] e that by (auto split: prod.splits)
  then show ?case using Cons.IH [of n1 r2] one r e Cons.prems(3,4) by auto
qed simp

text \<open>
  C10. An unexposed node keeps to itself: after a reconcile with the tunnel off, while no
  registration call is in flight, and for as long as the configuration stays unexposed, no
  interleaving of reconciles, patches, pushed tokens, tunnel reports and the registration loop
  starts a tunnel or hands out a URL, and no request but the DELETE of an earlier registration
  goes to the destinations API.
\<close>

theorem unexposed_node_stays_private:
  assumes "\<not> Exposed (nd_cfg n)" "ms_busy (nd_reg n) = None"
    and "node_run enc path es (Reconcile e n) = (n', rs)" "list_all own_step es"
    and "\<forall>k \<le> length es. \<not> Exposed (nd_cfg (fst (node_run enc path (take k es) (Reconcile e n))))"
  shows "list_all (\<lambda>r. hr_method r = ''DELETE'') rs \<and> nd_quick n' = None \<and> nd_managed n' = None \<and> mg_tunnelURL (ms_m (nd_reg n')) = []"
  using unexposed_run [OF Reconcile_unexposed [OF assms(1)] assms(5,4,3)] assms(2) by (simp add: unexposed_def)

section \<open>A changed data directory\<close>

text \<open>
  A patch may move data_dir while the node runs. The registration manager keeps the device id it
  has, but provisioning resolves the id in the new directory and so mints a second one: the tunnel
  is provisioned for a device other than the registered one.
\<close>

lemma data_dir_change_splits_identity:
  assumes "ResolvedDataDir home (nd_cfg n) = Some dir" "map_get (nd_disk n) (path_join dir deviceIDFile) = None"
    and "ie_mkdir ie" "fst (ie_write ie) = NoFault" "ce_token ce = Inr token" "ie_fresh ie \<noteq> mg_deviceID (ms_m (nd_reg n))"
    and "url_parse (TrimRight (cp_URL (c_ControlPlane (nd_cfg n))) (CHR ''/'') @ ''/api/v1/nodes/tunnel/provision'') \<noteq> None"
    and "mg_deviceID (ms_m (nd_reg n)) \<noteq> []"
  shows "\<exists>r port. snd (snd (provisionManagedTunnel home ie ce n)) = [r] \<and>
      hr_body r = Some (JObj [(''device_id'', JStr (ie_fresh ie)), (''local_port'', port)])"
    and "fst (ensureDeviceID v (ms_m (nd_reg n)) d) = Inr (mg_deviceID (ms_m (nd_reg n)))"
proof -
  obtain d' where "LoadOrCreateDeviceID ie dir (nd_disk n) = (Inr (ie_fresh ie), d')"
    using assms(2-4) WriteFileAtomic_ok_iff [of "ie_write ie" "path_join dir deviceIDFile" "ie_fresh ie @ [CHR 0x0A]" mode_0600 "nd_disk n"]
    by (cases "WriteFileAtomic (ie_write ie) (path_join dir deviceIDFile) (ie_fresh ie @ [CHR 0x0A]) mode_0600 (nd_disk n)")
      (auto simp: LoadOrCreateDeviceID_def ReadFile_def SaveDeviceID_def Let_def)
  then show "\<exists>r port. snd (snd (provisionManagedTunnel home ie ce n)) = [r] \<and>
      hr_body r = Some (JObj [(''device_id'', JStr (ie_fresh ie)), (''local_port'', port)])"
    using assms(1,5,7) by (auto simp: provisionManagedTunnel_def ProvisionTunnel_def client_do_def Let_def split: sum.splits prod.splits reply.splits option.splits)
  show "fst (ensureDeviceID v (ms_m (nd_reg n)) d) = Inr (mg_deviceID (ms_m (nd_reg n)))"
    using assms(8) by (simp add: ensureDeviceID_def)
qed

section \<open>What a reconcile does to the manager\<close>

definition same_manager :: "manager \<Rightarrow> manager \<Rightarrow> bool" where
  "same_manager m m' \<longleftrightarrow> m'\<lparr>mg_tunnelURL := [], mg_kick := False\<rparr> = m\<lparr>mg_tunnelURL := [], mg_kick := False\<rparr>"

lemma same_manager_fields:
  "same_manager m m' \<Longrightarrow> mg_registered m' = mg_registered m \<and> mg_registeredURL m' = mg_registeredURL m \<and> mg_authBlocked m' = mg_authBlocked m \<and>
     mg_deviceID m' = mg_deviceID m \<and> mg_accountID m' = mg_accountID m"
  by (cases m; cases m') (simp add: same_manager_def)

lemma same_manager_refl [simp]: "same_manager m m"
  by (simp add: same_manager_def)

lemma same_manager_steps: "same_manager m m' \<Longrightarrow> same_manager m (SetTunnelURL u m')" "same_manager m m' \<Longrightarrow> same_manager m (Kick m')"
  by (cases m; cases m'; simp add: same_manager_def SetTunnelURL_def Kick_def)+

abbreviation manager_of :: "node \<Rightarrow> manager" where
  "manager_of n \<equiv> ms_m (nd_reg n)"

lemma url_change_manager:
  "same_manager m (manager_of n) \<Longrightarrow> same_manager m (manager_of (onTunnelURLChange u n))"
  "same_manager m (manager_of n) \<Longrightarrow> same_manager m (manager_of (onManagedURLChange u n))"
  by (simp_all add: onTunnelURLChange_def onManagedURLChange_def on_manager_def log_line_def Let_def same_manager_steps)

lemma cap_reg: "nd_reg (reconcile_cap e b n) = nd_reg n"
  by (simp add: reconcile_cap_def Let_def log_line_def noteStartFailure_def clearStartFailure_def split: option.splits)

lemma caps_reg: "nd_reg (fold (reconcile_cap e) cs n) = nd_reg n"
  by (induction cs arbitrary: n) (simp_all add: cap_reg)

lemma note_reg: "nd_reg (noteStartFailure k err n) = nd_reg n" "nd_reg (clearStartFailure k n) = nd_reg n"
  by (simp_all add: noteStartFailure_def clearStartFailure_def log_line_def Let_def)

lemma tunnels_manager:
  "same_manager m (manager_of n) \<Longrightarrow> same_manager m (manager_of (reconcile_quick e n))"
  "same_manager m (manager_of n) \<Longrightarrow> same_manager m (manager_of (reconcile_managed e n))"
  by (simp_all add: reconcile_quick_def reconcile_managed_def Let_def note_reg url_change_manager split: option.split)

lemma Reconcile_manager: "same_manager (manager_of n) (manager_of (Reconcile e n))"
  unfolding Reconcile_def Let_def on_manager_def by (simp add: same_manager_steps tunnels_manager caps_reg)

section \<open>A concrete node\<close>

definition demo_cfg :: "string \<Rightarrow> bool \<Rightarrow> Config" where
  "demo_cfg mode compute = Default\<lparr>c_Tunnel := (c_Tunnel Default)\<lparr>tn_Mode := mode\<rparr>, c_Capabilities := \<lparr>cap_Memory = False, cap_Compute = compute\<rparr>\<rparr>"

definition demo_node :: "Config \<Rightarrow> node" where
  "demo_node cfg = \<lparr>nd_cfg = cfg, nd_disk = [], nd_capRunning = [], nd_failures = [], nd_quick = None, nd_managed = None,
     nd_reg = mg_init [], nd_jwt = [], nd_deviceID = [], nd_warned = False, nd_log = []\<rparr>"

definition demo_env :: "string option \<Rightarrow> reconcile_env" where
  "demo_env compute = \<lparr>rc_start = (\<lambda>b. if b = ''compute'' then compute else None), rc_stop = (\<lambda>b. None), rc_quick = None, rc_managed = None\<rparr>"

lemma demo_modes: "\<not> Exposed (demo_cfg TunnelModeOff c)" "wantQuick (demo_cfg TunnelModeQuick True)" "cap_Compute (c_Capabilities (demo_cfg m True))"
  by (simp_all add: demo_cfg_def Exposed_def wantQuick_def anyEnabled_def capabilities_def Enabled_def TunnelModeOff_def TunnelModeQuick_def)


theorem standing_failure_warned_once_witness:
  "warnings (about (cap_key ''compute'') (fold Reconcile [demo_env (Some ''x''), demo_env (Some ''x''), demo_env (Some ''y''), demo_env (Some ''y'')]
     (demo_node (demo_cfg TunnelModeOff True)))) = [''x'', ''y'']"
proof -
  let ?n = "demo_node (demo_cfg TunnelModeOff True)"
  have "''compute'' \<in> set capabilities" "Enabled (nd_cfg ?n) ''compute''" "\<not> capRunning ?n ''compute''" "map_get (nd_failures ?n) (cap_key ''compute'') = None"
    using demo_modes(3) by (simp_all add: capabilities_def Enabled_def demo_node_def capRunning_def)
  from standing_failure_warned_once [OF this, of "[demo_env (Some ''x''), demo_env (Some ''x''), demo_env (Some ''y''), demo_env (Some ''y'')]"]
  show ?thesis by (simp add: demo_env_def) (simp add: demo_node_def about_def warnings_def)
qed

theorem unexposed_node_stays_private_witness:
  "case node_run (\<lambda>c. []) ''p'' [NodeManager (EvBegin [(''compute'', True, True)]), NodeQuickURL ''https://x'', NodeJWT ''t'']
     (Reconcile (demo_env None) (demo_node (demo_cfg TunnelModeOff True))) of (n', rs) \<Rightarrow> rs = [] \<and> mg_tunnelURL (ms_m (nd_reg n')) = []"
proof -
  let ?n = "demo_node (demo_cfg TunnelModeOff True)" and ?es = "[NodeManager (EvBegin [(''compute'', True, True)]), NodeQuickURL ''https://x'', NodeJWT ''t'']"
  obtain n' rs where r: "node_run (\<lambda>c. []) ''p'' ?es (Reconcile (demo_env None) ?n) = (n', rs)" by (metis surj_pair)
  have x: "\<not> Exposed (nd_cfg ?n)" "ms_busy (nd_reg ?n) = None" using demo_modes(1) by (simp_all add: demo_node_def mg_init_def)
  have c: "nd_cfg (Reconcile (demo_env None) ?n) = nd_cfg ?n" by (rule Reconcile_fields(1))
  have frame: "nd_cfg (fst (manager_step ev m)) = nd_cfg m" "nd_cfg (quick_url_event u m) = nd_cfg m" "nd_cfg (SetJWT t m) = nd_cfg m" for ev u t m
    by (auto simp: manager_step_def quick_url_event_def SetJWT_def Let_def split: prod.splits option.splits)
  have cfg: "nd_cfg (fst (node_run enc path es m)) = nd_cfg m" if "list_all (\<lambda>e. case e of NodeManager _ \<Rightarrow> True | NodeQuickURL _ \<Rightarrow> True | NodeJWT _ \<Rightarrow> True | _ \<Rightarrow> False) es" for enc path es m
    using that frame by (induction es arbitrary: m) (auto split: node_event.splits prod.splits, (metis fst_conv)+)
  have "\<forall>k \<le> length ?es. \<not> Exposed (nd_cfg (fst (node_run (\<lambda>c. []) ''p'' (take k ?es) (Reconcile (demo_env None) ?n))))"
  proof (intro allI impI)
    fix k
    have "nd_cfg (fst (node_run (\<lambda>c. []) ''p'' (take k ?es) (Reconcile (demo_env None) ?n))) = nd_cfg ?n"
      using set_take_subset [of k ?es] by (subst cfg) (fastforce simp: c list_all_iff)+
    then show "\<not> Exposed (nd_cfg (fst (node_run (\<lambda>c. []) ''p'' (take k ?es) (Reconcile (demo_env None) ?n))))" using x(1) by simp
  qed
  moreover have "list_all own_step ?es" by (simp add: own_step_def)
  ultimately have "mg_tunnelURL (ms_m (nd_reg n')) = []" using unexposed_node_stays_private [OF x r] by blast
  moreover have "rs = []" using r by (auto simp: manager_step_def split: prod.splits if_splits)
  ultimately show ?thesis by (simp only: r prod.case simp_thms)
qed

end
