(* ===== verification/SignIn.thy ===== *)
theory SignIn
  imports OAuth Base64
begin

text \<open>
  Signing the node in to the control plane (internal/controlplane/oauthflow.go and the admin
  console's routes in internal/adminapi/controlplane_auth.go): discovery with its origin pinning,
  client registration, PKCE, the code exchange, the single pending flow, and the callback that the
  state parameter alone authenticates. Replies of the control plane and random bytes are arguments;
  every operation returns the requests it sends.
\<close>

section \<open>Origins\<close>

definition effectivePort :: "url \<Rightarrow> string" where
  "effectivePort u = (if Port u \<noteq> [] then Port u
     else if u_Scheme u = ''https'' then ''443'' else if u_Scheme u = ''http'' then ''80'' else [])"

definition isLoopbackHost :: "string \<Rightarrow> bool" where
  "isLoopbackHost host \<longleftrightarrow> host = ''localhost'' \<or> host = ''127.0.0.1'' \<or> host = ''::1''"

datatype origin_err = ErrIssuerURL | ErrEndpointURL | ErrOtherOrigin | ErrNotHTTPS

definition SameSecureOrigin :: "string \<Rightarrow> string \<Rightarrow> origin_err option" where
  "SameSecureOrigin issuer endpoint =
    (case url_parse issuer of
       None \<Rightarrow> Some ErrIssuerURL
     | Some iu \<Rightarrow>
        (case url_parse endpoint of
           None \<Rightarrow> Some ErrEndpointURL
         | Some eu \<Rightarrow>
            if u_Scheme eu \<noteq> u_Scheme iu \<or> \<not> EqualFold (Hostname eu) (Hostname iu) \<or> effectivePort eu \<noteq> effectivePort iu
            then Some ErrOtherOrigin
            else if u_Scheme eu \<noteq> ''https'' \<and> \<not> isLoopbackHost (Hostname eu) then Some ErrNotHTTPS
            else None))"

section \<open>Discovery and registration\<close>

definition FlowTimeout :: duration where "FlowTimeout = 10 * minute"

record OAuthMetadata =
  om_Issuer :: string
  om_AuthorizationEndpoint :: string
  om_TokenEndpoint :: string
  om_RegistrationEndpoint :: string

datatype flow_err = ErrFlowRequest | ErrFlowTransport | ErrDiscoveryStatus nat | ErrDiscoveryParse | ErrDiscoveryMissing
  | ErrDiscoveryUntrusted | ErrRegistrationStatus nat bytes | ErrNoClientID | ErrFlowRandom | ErrNoOAuth flow_err | ErrRegistering flow_err

text \<open>A reply: none, or the status, the body and its first JSON value.\<close>

datatype sent = SentGet string | SentJSON string json | SentForm string form

fun sent_url :: "sent \<Rightarrow> string" where
  "sent_url (SentGet u) = u"
| "sent_url (SentJSON u _) = u"
| "sent_url (SentForm u _) = u"

definition metadata_of_json :: "json option \<Rightarrow> OAuthMetadata option" where
  "metadata_of_json body = do {
     v \<leftarrow> body;
     kvs \<leftarrow> struct_fields v;
     i \<leftarrow> get_str ''issuer'' kvs;
     a \<leftarrow> get_str ''authorization_endpoint'' kvs;
     t \<leftarrow> get_str ''token_endpoint'' kvs;
     r \<leftarrow> get_str ''registration_endpoint'' kvs;
     Some \<lparr>om_Issuer = i, om_AuthorizationEndpoint = a, om_TokenEndpoint = t, om_RegistrationEndpoint = r\<rparr>}"

text \<open>Which of several untrusted endpoints the error names is left open, as the code ranges over a map.\<close>

definition DiscoverOAuth :: "reply \<Rightarrow> string \<Rightarrow> (flow_err + OAuthMetadata) \<times> sent list" where
  "DiscoverOAuth r base =
    (let url = base @ ''/.well-known/oauth-authorization-server'' in
     if url_parse url = None then (Inl ErrFlowRequest, [])
     else case r of
       NoReply \<Rightarrow> (Inl ErrFlowTransport, [SentGet url])
     | Reply status _ body \<Rightarrow>
        (if status \<noteq> 200 then Inl (ErrDiscoveryStatus status)
         else case metadata_of_json body of
           None \<Rightarrow> Inl ErrDiscoveryParse
         | Some meta \<Rightarrow>
            if om_AuthorizationEndpoint meta = [] \<or> om_TokenEndpoint meta = [] \<or> om_RegistrationEndpoint meta = [] then Inl ErrDiscoveryMissing
            else if list_ex (\<lambda>ep. SameSecureOrigin base ep \<noteq> None)
                [om_AuthorizationEndpoint meta, om_TokenEndpoint meta, om_RegistrationEndpoint meta] then Inl ErrDiscoveryUntrusted
            else Inr meta, [SentGet url]))"

definition registration_json :: "string \<Rightarrow> string \<Rightarrow> json" where
  "registration_json deviceName redirectURI = JObj
    [(''client_name'', JStr (''Silo Node ('' @ deviceName @ '')'')), (''client_uri'', JStr ''https://github.com/onesilo/onesilo-node''),
     (''grant_types'', JArr [JStr ''authorization_code'', JStr ''refresh_token'']), (''redirect_uris'', JArr [JStr redirectURI]),
     (''response_types'', JArr [JStr ''code'']), (''token_endpoint_auth_method'', JStr ''none'')]"

definition registerClient :: "reply \<Rightarrow> string \<Rightarrow> string \<Rightarrow> string \<Rightarrow> (flow_err + string) \<times> sent list" where
  "registerClient r endpoint deviceName redirectURI =
    (if url_parse endpoint = None then (Inl ErrFlowRequest, [])
     else let req = SentJSON endpoint (registration_json deviceName redirectURI) in
       case r of
         NoReply \<Rightarrow> (Inl ErrFlowTransport, [req])
       | Reply status raw body \<Rightarrow>
          (if status \<noteq> 200 \<and> status \<noteq> 201 then Inl (ErrRegistrationStatus status (TrimSpace (take 256 raw)))
           else case do { v \<leftarrow> body; kvs \<leftarrow> struct_fields v; get_str ''client_id'' kvs } of
             None \<Rightarrow> Inl ErrNoClientID
           | Some i \<Rightarrow> if i = [] then Inl ErrNoClientID else Inr i, [req]))"

section \<open>A flow\<close>

record Flow =
  fl_Meta :: OAuthMetadata
  fl_ClientID :: string
  fl_RedirectURI :: string
  fl_State :: string
  fl_Verifier :: string
  fl_Challenge :: string
  fl_StartedAt :: time

text \<open>A random token: the base64url text of the bytes, unless the random source fails.\<close>

definition randomToken :: "bytes option \<Rightarrow> flow_err + string" where
  "randomToken buf = (case buf of None \<Rightarrow> Inl ErrFlowRandom | Some bs \<Rightarrow> Inr (RawURLEncode bs))"

definition pkcePair :: "crypto \<Rightarrow> bytes option \<Rightarrow> flow_err + string \<times> string" where
  "pkcePair c buf = (case randomToken buf of
     Inl e \<Rightarrow> Inl e | Inr verifier \<Rightarrow> Inr (verifier, RawURLEncode (c_sha256 c verifier)))"

record begin_env =
  bg_discovery :: reply
  bg_registration :: reply
  bg_verifier :: "bytes option"   \<comment> \<open>32 bytes\<close>
  bg_state :: "bytes option"   \<comment> \<open>16 bytes\<close>
  bg_now :: time

definition BeginFlow :: "crypto \<Rightarrow> begin_env \<Rightarrow> string \<Rightarrow> string \<Rightarrow> string \<Rightarrow> (flow_err + Flow) \<times> sent list" where
  "BeginFlow c e controlPlaneURL deviceName redirectURI =
    (let base = TrimRight controlPlaneURL (CHR ''/'') in
     case DiscoverOAuth (bg_discovery e) base of
       (Inl err, rs) \<Rightarrow> (Inl (ErrNoOAuth err), rs)
     | (Inr meta, rs) \<Rightarrow>
        (case registerClient (bg_registration e) (om_RegistrationEndpoint meta) deviceName redirectURI of
           (Inl err, rs') \<Rightarrow> (Inl (ErrRegistering err), rs @ rs')
         | (Inr clientID, rs') \<Rightarrow>
            (case pkcePair c (bg_verifier e) of
               Inl err \<Rightarrow> Inl err
             | Inr (verifier, challenge) \<Rightarrow>
                (case randomToken (bg_state e) of
                   Inl err \<Rightarrow> Inl err
                 | Inr state \<Rightarrow> Inr \<lparr>fl_Meta = meta, fl_ClientID = clientID, fl_RedirectURI = redirectURI, fl_State = state,
                      fl_Verifier = verifier, fl_Challenge = challenge, fl_StartedAt = bg_now e\<rparr>), rs @ rs')))"

definition Flow_Expired :: "Flow \<Rightarrow> time \<Rightarrow> bool" where
  "Flow_Expired f now \<longleftrightarrow> now - fl_StartedAt f > FlowTimeout"

text \<open>url.Values.Encode: the keys sorted, both sides escaped.\<close>

definition query_unreserved :: "char \<Rightarrow> bool" where
  "query_unreserved c \<longleftrightarrow> is_letter c \<or> is_num c \<or> c \<in> set ''-_.~''"

definition QueryEscape :: "string \<Rightarrow> string" where
  "QueryEscape s = concat (map (\<lambda>c. if query_unreserved c then [c] else if c = CHR '' '' then ''+''
     else let n = of_char c :: nat; up = (\<lambda>d. if d < 10 then char_of (d + 48) else char_of (d + 55)) in [CHR ''%'', up (n div 16), up (n mod 16)]) s)"

definition Values_Encode :: "form \<Rightarrow> string" where
  "Values_Encode kvs = Join (map (\<lambda>(k, v). QueryEscape k @ ''='' @ QueryEscape v) (sort_key fst kvs)) ''&''"

definition AuthorizationURL :: "Flow \<Rightarrow> string" where
  "AuthorizationURL f = om_AuthorizationEndpoint (fl_Meta f) @ ''?'' @ Values_Encode
    [(''response_type'', ''code''), (''client_id'', fl_ClientID f), (''redirect_uri'', fl_RedirectURI f), (''state'', fl_State f),
     (''code_challenge'', fl_Challenge f), (''code_challenge_method'', ''S256'')]"

section \<open>The exchange\<close>

text \<open>Rejections that read as a missing account.\<close>

definition ClassifySignInError :: "string \<Rightarrow> oauth_err" where
  "ClassifySignInError msg =
    (if list_ex (Contains (ToLower msg))
       [''user not found'', ''no such user'', ''unknown user'', ''account not found'', ''access_denied'', ''invalid_grant'']
     then ErrUserNotFound msg else ErrTokenRefused msg)"

definition exchange_form :: "string \<Rightarrow> string \<Rightarrow> string \<Rightarrow> string \<Rightarrow> form" where
  "exchange_form clientID code verifier redirectURI = [(''grant_type'', ''authorization_code''), (''code'', code),
     (''code_verifier'', verifier), (''redirect_uri'', redirectURI), (''client_id'', clientID)]"

definition exchangeCode :: "token_reply \<Rightarrow> time \<Rightarrow> string \<Rightarrow> string \<Rightarrow> string \<Rightarrow> string \<Rightarrow> string \<Rightarrow> (oauth_err + OAuthCredential) \<times> sent list" where
  "exchangeCode r now tokenEndpoint clientID code verifier redirectURI =
    (if url_parse tokenEndpoint = None then (Inl ErrTokenTransport, [])
     else (case r of
         TokenFail \<Rightarrow> Inl ErrTokenTransport
       | TokenReply status line body \<Rightarrow>
          (case token_of_json body of
             None \<Rightarrow> Inl ErrTokenParse
           | Some tok \<Rightarrow>
              if status \<noteq> 200 \<or> tr_AccessToken tok = [] then Inl (ClassifySignInError (refusal_text tok line))
              else Inr \<lparr>oc_TokenEndpoint = tokenEndpoint, oc_ClientID = clientID, oc_AccessToken = tr_AccessToken tok,
                     oc_RefreshToken = tr_RefreshToken tok, oc_ExpiresAt = token_expiry now tok\<rparr>),
       [SentForm tokenEndpoint (exchange_form clientID code verifier redirectURI)]))"

definition Flow_Exchange :: "token_reply \<Rightarrow> time \<Rightarrow> Flow \<Rightarrow> string \<Rightarrow> (oauth_err + OAuthCredential) \<times> sent list" where
  "Flow_Exchange r now f code = exchangeCode r now (om_TokenEndpoint (fl_Meta f)) (fl_ClientID f) code (fl_Verifier f) (fl_RedirectURI f)"

section \<open>The console's routes\<close>

definition callbackPath :: string where "callbackPath = ''/v1/controlplane/auth/callback''"

datatype flows_err = ErrNoSignIn | ErrSignInExpired | ErrStateMismatch

text \<open>take: the slot is emptied whatever the outcome. The comparison in constant time is equality.\<close>

definition pending_take :: "string \<Rightarrow> time \<Rightarrow> Flow option \<Rightarrow> (flows_err + Flow) \<times> Flow option" where
  "pending_take state now pending =
    (case pending of
       None \<Rightarrow> Inl ErrNoSignIn
     | Some f \<Rightarrow> if Flow_Expired f now then Inl ErrSignInExpired
         else if fl_State f \<noteq> state then Inl ErrStateMismatch else Inr f, None)"

datatype page_detail = DetailNone | DetailRefused string | DetailFlow flows_err | DetailNoCode | DetailExchange oauth_err
  | DetailNoAccount | DetailStore oauth_err

datatype console_answer = Page nat bool page_detail | Started string int | StartFailed flow_err | Forgotten | ForgetFailed oauth_err

record console =
  cs_pending :: "Flow option"
  cs_exchanging :: "(Flow \<times> string) list"
  cs_oauth :: oauth_sys

definition show_int :: "int \<Rightarrow> string" where
  "show_int i = (if i < 0 then CHR ''-'' # show_nat (nat (- i)) else show_nat (nat i))"

definition redirect_uri :: "Config \<Rightarrow> string" where
  "redirect_uri cfg = ''http://127.0.0.1:'' @ show_int (c_AdminPort cfg) @ callbackPath"

definition auth_start :: "crypto \<Rightarrow> begin_env \<Rightarrow> Config \<Rightarrow> string \<Rightarrow> console \<Rightarrow> console_answer \<times> console \<times> sent list" where
  "auth_start c e cfg deviceName s =
    (case BeginFlow c e (cp_URL (c_ControlPlane cfg)) deviceName (redirect_uri cfg) of
       (Inl err, rs) \<Rightarrow> (StartFailed err, s, rs)
     | (Inr f, rs) \<Rightarrow> (Started (AuthorizationURL f) (FlowTimeout div second), s\<lparr>cs_pending := Some f\<rparr>, rs))"

definition auth_forget :: "timefmt \<Rightarrow> string option \<Rightarrow> bool \<Rightarrow> console \<Rightarrow> console_answer \<times> console" where
  "auth_forget tf dir ok s =
    ((case DisconnectControlPlane dir ok (oy_disk (cs_oauth s)) of (_, None) \<Rightarrow> Forgotten | (_, Some e) \<Rightarrow> ForgetFailed e),
     s\<lparr>cs_pending := None, cs_oauth := snd (oauth_exec tf (ForgetGrant dir ok) (cs_oauth s))\<rparr>)"

definition query_get :: "form \<Rightarrow> string \<Rightarrow> string" where
  "query_get q k = (case map_get q k of None \<Rightarrow> [] | Some v \<Rightarrow> v)"

text \<open>The callback up to its exchange, and from the exchange's answer.\<close>

definition callback_begin :: "form \<Rightarrow> time \<Rightarrow> console \<Rightarrow> console_answer option \<times> console" where
  "callback_begin q now s =
    (if query_get q ''error'' \<noteq> [] then
       (Some (Page 200 False (DetailRefused (if query_get q ''error_description'' = [] then query_get q ''error'' else query_get q ''error_description''))),
        s\<lparr>cs_pending := None\<rparr>)
     else case pending_take (query_get q ''state'') now (cs_pending s) of
       (Inl e, p) \<Rightarrow> (Some (Page 400 False (DetailFlow e)), s\<lparr>cs_pending := p\<rparr>)
     | (Inr f, p) \<Rightarrow>
        if query_get q ''code'' = [] then (Some (Page 400 False DetailNoCode), s\<lparr>cs_pending := p\<rparr>)
        else (None, s\<lparr>cs_pending := p, cs_exchanging := (f, query_get q ''code'') # cs_exchanging s\<rparr>))"

definition callback_end :: "timefmt \<Rightarrow> token_reply \<Rightarrow> time \<Rightarrow> string option \<Rightarrow> save_env \<Rightarrow> Flow \<Rightarrow> string \<Rightarrow> console
    \<Rightarrow> console_answer \<times> console \<times> sent list" where
  "callback_end tf r now dir e f code s =
    (case Flow_Exchange r now f code of
       (Inl err, rs) \<Rightarrow> (Page 502 False (case err of ErrUserNotFound _ \<Rightarrow> DetailNoAccount | _ \<Rightarrow> DetailExchange err), s, rs)
     | (Inr cred, rs) \<Rightarrow>
        ((case SaveControlPlaneCredential tf dir e cred (oy_disk (cs_oauth s)) of
            (_, Some err) \<Rightarrow> Page 500 False (DetailStore err) | (_, None) \<Rightarrow> Page 200 True DetailNone),
         s\<lparr>cs_oauth := snd (oauth_exec tf (StoreGrant dir e cred) (cs_oauth s))\<rparr>, rs))"

record auth_status =
  au_Connected :: bool
  au_ControlPlaneURL :: string
  au_ExpiresAt :: "time option"
  au_CanRefresh :: bool
  au_SignInInProgress :: bool

definition ControlPlaneCredential :: "timefmt \<Rightarrow> string option \<Rightarrow> console \<Rightarrow> oauth_err + OAuthCredential" where
  "ControlPlaneCredential tf dir s = (case dir of None \<Rightarrow> Inl ErrGrantDir | Some d \<Rightarrow> LoadOAuthCredential tf d (oy_disk (cs_oauth s)))"

definition auth_status_of :: "timefmt \<Rightarrow> Config \<Rightarrow> string option \<Rightarrow> time \<Rightarrow> console \<Rightarrow> auth_status" where
  "auth_status_of tf cfg dir now s =
    (let st = \<lparr>au_Connected = False, au_ControlPlaneURL = cp_URL (c_ControlPlane cfg), au_ExpiresAt = None, au_CanRefresh = False,
           au_SignInInProgress = (case cs_pending s of None \<Rightarrow> False | Some f \<Rightarrow> \<not> Flow_Expired f now)\<rparr> in
     case ControlPlaneCredential tf dir s of
       Inl _ \<Rightarrow> st
     | Inr cred \<Rightarrow> if oc_AccessToken cred = [] then st
         else st\<lparr>au_Connected := True, au_CanRefresh := oc_RefreshToken cred \<noteq> [],
                 au_ExpiresAt := (if oc_ExpiresAt cred = zero_time then None else Some (oc_ExpiresAt cred))\<rparr>)"

text \<open>
  The console's requests, the answers to exchanges in flight (named by their position), and the
  token source's own steps, in any order.
\<close>

datatype console_event =
    ConsoleStart begin_env Config string
  | ConsoleForget "string option" bool
  | ConsoleCallback form time
  | ConsoleExchanged nat token_reply time "string option" save_env
  | ConsoleOAuth oauth_event

fun console_exec :: "crypto \<Rightarrow> timefmt \<Rightarrow> console_event \<Rightarrow> console \<Rightarrow> console" where
  "console_exec c tf (ConsoleStart e cfg name) s = fst (snd (auth_start c e cfg name s))"
| "console_exec c tf (ConsoleForget dir ok) s = snd (auth_forget tf dir ok s)"
| "console_exec c tf (ConsoleCallback q now) s = snd (callback_begin q now s)"
| "console_exec c tf (ConsoleExchanged n r now dir e) s =
     (if n < length (cs_exchanging s) then
        (case cs_exchanging s ! n of (f, code) \<Rightarrow>
          fst (snd (callback_end tf r now dir e f code (s\<lparr>cs_exchanging := take n (cs_exchanging s) @ drop (Suc n) (cs_exchanging s)\<rparr>))))
      else s)"
| "console_exec c tf (ConsoleOAuth ev) s = s\<lparr>cs_oauth := snd (oauth_exec tf ev (cs_oauth s))\<rparr>"

definition console_run :: "crypto \<Rightarrow> timefmt \<Rightarrow> console_event list \<Rightarrow> console \<Rightarrow> console" where
  "console_run c tf es s = fold (console_exec c tf) es s"

section \<open>Secrets stay with the control plane\<close>

definition on_origin :: "string \<Rightarrow> string \<Rightarrow> bool" where
  "on_origin issuer ep \<longleftrightarrow> (\<exists>iu eu. url_parse issuer = Some iu \<and> url_parse ep = Some eu \<and> u_Scheme eu = u_Scheme iu \<and>
     EqualFold (Hostname eu) (Hostname iu) \<and> effectivePort eu = effectivePort iu \<and>
     (u_Scheme eu = ''https'' \<or> isLoopbackHost (Hostname eu)))"

lemma SameSecureOrigin_iff: "SameSecureOrigin issuer ep = None \<longleftrightarrow> on_origin issuer ep"
  by (auto simp: SameSecureOrigin_def on_origin_def split: option.splits if_splits)

lemma DiscoverOAuth_ok:
  assumes "DiscoverOAuth r base = (Inr meta, rs)"
  shows "on_origin base (om_AuthorizationEndpoint meta)" "on_origin base (om_TokenEndpoint meta)" "on_origin base (om_RegistrationEndpoint meta)"
    and "rs = [SentGet (base @ ''/.well-known/oauth-authorization-server'')]"
  using assms by (auto simp: DiscoverOAuth_def Let_def SameSecureOrigin_iff split: if_splits reply.splits option.splits)

lemma registerClient_sent: "rq \<in> set (snd (registerClient r ep name uri)) \<Longrightarrow> sent_url rq = ep"
  by (auto simp: registerClient_def Let_def split: if_splits reply.splits)

lemma BeginFlow_ok:
  assumes "BeginFlow c e url name uri = (Inr f, rs)"
  obtains rs1 rs2 i where "DiscoverOAuth (bg_discovery e) (TrimRight url (CHR ''/'')) = (Inr (fl_Meta f), rs1)"
    "registerClient (bg_registration e) (om_RegistrationEndpoint (fl_Meta f)) name uri = (Inr i, rs2)" "rs = rs1 @ rs2"
    "fl_ClientID f = i" "fl_RedirectURI f = uri" "bg_state e \<noteq> None" "fl_StartedAt f = bg_now e"
    "fl_Challenge f = RawURLEncode (c_sha256 c (fl_Verifier f))"
  using assms by (auto simp: BeginFlow_def Let_def pkcePair_def randomToken_def split: sum.splits prod.splits option.splits)

lemma exchange_endpoint:
  "rq \<in> set (snd (Flow_Exchange r now f code)) \<Longrightarrow> sent_url rq = om_TokenEndpoint (fl_Meta f)"
  "fst (Flow_Exchange r now f code) = Inr cred \<Longrightarrow> oc_TokenEndpoint cred = om_TokenEndpoint (fl_Meta f)"
  by (auto simp: Flow_Exchange_def exchangeCode_def split: if_splits token_reply.splits option.splits)


section \<open>The callback\<close>

text \<open>Events that end a pending flow: any callback, a sign-out, and the start of another flow.\<close>

definition ends_flow :: "crypto \<Rightarrow> console_event \<Rightarrow> bool" where
  "ends_flow c ev = (case ev of ConsoleForget _ _ \<Rightarrow> True | ConsoleCallback _ _ \<Rightarrow> True
     | ConsoleStart e cfg name \<Rightarrow> is_ok (fst (BeginFlow c e (cp_URL (c_ControlPlane cfg)) name (redirect_uri cfg))) | _ \<Rightarrow> False)"

lemma pending_step:
  "cs_pending (console_exec c tf ev s) =
    (case ev of ConsoleStart e cfg name \<Rightarrow> (case fst (BeginFlow c e (cp_URL (c_ControlPlane cfg)) name (redirect_uri cfg)) of Inr f \<Rightarrow> Some f | Inl _ \<Rightarrow> cs_pending s)
     | ConsoleForget _ _ \<Rightarrow> None | ConsoleCallback _ _ \<Rightarrow> None | _ \<Rightarrow> cs_pending s)"
  by (cases ev)
    (auto simp: auth_start_def auth_forget_def callback_begin_def pending_take_def callback_end_def
      split: sum.splits prod.splits option.splits)

lemma pending_origin:
  assumes "cs_pending s0 = None" "cs_pending (console_run c tf es s0) = Some f"
  shows "\<exists>j < length es. (\<exists>e cfg name. es ! j = ConsoleStart e cfg name \<and>
      fst (BeginFlow c e (cp_URL (c_ControlPlane cfg)) name (redirect_uri cfg)) = Inr f) \<and>
    (\<forall>k. j < k \<and> k < length es \<longrightarrow> \<not> ends_flow c (es ! k))"
  using assms(2)
proof (induction es arbitrary: f rule: rev_induct)
  case Nil
  then show ?case using assms(1) by (simp add: console_run_def)
next
  case (snoc ev es)
  let ?s = "console_run c tf es s0"
  have p: "cs_pending (console_exec c tf ev ?s) = Some f" using snoc.prems by (simp add: console_run_def)
  show ?case
  proof (cases "ends_flow c ev")
    case True
    then obtain e cfg name where "ev = ConsoleStart e cfg name" "fst (BeginFlow c e (cp_URL (c_ControlPlane cfg)) name (redirect_uri cfg)) = Inr f"
      using p unfolding pending_step by (auto simp: ends_flow_def is_ok_def split: console_event.splits sum.splits)
    then show ?thesis by (intro exI [of _ "length es"]) auto
  next
    case False
    then have "cs_pending ?s = Some f" using p unfolding pending_step by (auto simp: ends_flow_def is_ok_def split: console_event.splits sum.splits)
    from snoc.IH [OF this] obtain j where j: "j < length es" "\<exists>e cfg name. es ! j = ConsoleStart e cfg name \<and>
        fst (BeginFlow c e (cp_URL (c_ControlPlane cfg)) name (redirect_uri cfg)) = Inr f"
      "\<forall>k. j < k \<and> k < length es \<longrightarrow> \<not> ends_flow c (es ! k)" by blast
    then show ?thesis using False by (intro exI [of _ j]) (auto simp: nth_append less_Suc_eq)
  qed
qed

lemma exchange_begins:
  assumes "(f, code) \<in> set (cs_exchanging (console_exec c tf ev s))" "(f, code) \<notin> set (cs_exchanging s)"
  shows "\<exists>q now. ev = ConsoleCallback q now \<and> query_get q ''error'' = [] \<and> cs_pending s = Some f \<and> \<not> Flow_Expired f now \<and>
    query_get q ''state'' = fl_State f \<and> query_get q ''code'' = code \<and> code \<noteq> []"
proof (cases ev)
  case (ConsoleCallback q now)
  then show ?thesis using assms
    by (auto simp: callback_begin_def pending_take_def split: if_splits option.splits)
next
  case (ConsoleExchanged n r now dir e)
  then show ?thesis using assms
    by (auto simp: callback_end_def split: if_splits sum.splits prod.splits dest: in_set_takeD in_set_dropD)
qed (use assms in \<open>auto simp: auth_start_def auth_forget_def split: sum.splits prod.splits\<close>)

text \<open>
  C11. The unauthenticated callback only completes a sign-in this node started: in every history of
  the console, when an event makes a code exchange begin, it is a callback whose state equals the
  flow's secret state within ten minutes of its start, the flow is the one an earlier
  authenticated start returned, and no other callback, sign-out or start came between, so each
  started flow is exchanged at most once.
\<close>

theorem callback_completes_own_flow:
  assumes "cs_pending s0 = None" "i < length es"
    and "(f, code) \<in> set (cs_exchanging (console_run c tf (take (Suc i) es) s0))" "(f, code) \<notin> set (cs_exchanging (console_run c tf (take i es) s0))"
  shows "(\<exists>q now. es ! i = ConsoleCallback q now \<and> query_get q ''error'' = [] \<and> query_get q ''state'' = fl_State f \<and>
      query_get q ''code'' = code \<and> code \<noteq> [] \<and> \<not> Flow_Expired f now) \<and>
    (\<exists>j < i. (\<exists>e cfg name. es ! j = ConsoleStart e cfg name \<and>
        fst (BeginFlow c e (cp_URL (c_ControlPlane cfg)) name (redirect_uri cfg)) = Inr f) \<and>
      (\<forall>k. j < k \<and> k < i \<longrightarrow> \<not> ends_flow c (es ! k)))"
proof (intro conjI)
  have "console_run c tf (take (Suc i) es) s0 = console_exec c tf (es ! i) (console_run c tf (take i es) s0)"
    using assms(2) by (simp add: console_run_def take_Suc_conv_app_nth)
  with assms(3,4) obtain q now where q: "es ! i = ConsoleCallback q now" "query_get q ''error'' = []"
      "cs_pending (console_run c tf (take i es) s0) = Some f" "\<not> Flow_Expired f now"
      "query_get q ''state'' = fl_State f" "query_get q ''code'' = code" "code \<noteq> []"
    using exchange_begins by metis
  then show "\<exists>q now. es ! i = ConsoleCallback q now \<and> query_get q ''error'' = [] \<and> query_get q ''state'' = fl_State f \<and>
      query_get q ''code'' = code \<and> code \<noteq> [] \<and> \<not> Flow_Expired f now" by blast
  from pending_origin [OF assms(1) q(3)] obtain j where "j < i" "\<exists>e cfg name. take i es ! j = ConsoleStart e cfg name \<and>
        fst (BeginFlow c e (cp_URL (c_ControlPlane cfg)) name (redirect_uri cfg)) = Inr f"
      "\<forall>k. j < k \<and> k < i \<longrightarrow> \<not> ends_flow c (take i es ! k)" using assms(2) by auto
  then show "\<exists>j < i. (\<exists>e cfg name. es ! j = ConsoleStart e cfg name \<and>
        fst (BeginFlow c e (cp_URL (c_ControlPlane cfg)) name (redirect_uri cfg)) = Inr f) \<and>
      (\<forall>k. j < k \<and> k < i \<longrightarrow> \<not> ends_flow c (es ! k))" by (intro exI [of _ j]) auto
qed

section \<open>A concrete sign-in\<close>

definition demo_meta :: OAuthMetadata where
  "demo_meta = \<lparr>om_Issuer = ''https://cp'', om_AuthorizationEndpoint = ''https://cp/a'', om_TokenEndpoint = ''https://CP:443/t'',
     om_RegistrationEndpoint = ''https://cp/r''\<rparr>"

definition demo_begin_env :: begin_env where
  "demo_begin_env = \<lparr>bg_discovery = Reply 200 [] (Some (JObj [(''issuer'', JStr ''https://cp''), (''authorization_endpoint'', JStr ''https://cp/a''),
        (''token_endpoint'', JStr ''https://CP:443/t''), (''registration_endpoint'', JStr ''https://cp/r'')])),
     bg_registration = Reply 201 [] (Some (JObj [(''client_id'', JStr ''c1'')])),
     bg_verifier = Some ''abc'', bg_state = Some ''xyz'', bg_now = 0\<rparr>"

definition demo_flow :: "crypto \<Rightarrow> string \<Rightarrow> Flow" where
  "demo_flow c uri = \<lparr>fl_Meta = demo_meta, fl_ClientID = ''c1'', fl_RedirectURI = uri, fl_State = RawURLEncode ''xyz'',
     fl_Verifier = RawURLEncode ''abc'', fl_Challenge = RawURLEncode (c_sha256 c (RawURLEncode ''abc'')), fl_StartedAt = 0\<rparr>"

lemma demo_origins: "SameSecureOrigin ''https://cp'' ''https://cp/a'' = None" "SameSecureOrigin ''https://cp'' ''https://CP:443/t'' = None"
  "SameSecureOrigin ''https://cp'' ''https://cp/r'' = None" "url_parse ''https://cp/.well-known/oauth-authorization-server'' \<noteq> None"
  "url_parse ''https://cp/r'' \<noteq> None" "url_parse ''https://CP:443/t'' \<noteq> None" "TrimRight ''https://cp/'' (CHR ''/'') = ''https://cp''"
  by code_simp+

lemma demo_discovery: "DiscoverOAuth (bg_discovery demo_begin_env) ''https://cp'' = (Inr demo_meta, [SentGet ''https://cp/.well-known/oauth-authorization-server''])"
  using demo_origins by (simp add: DiscoverOAuth_def Let_def demo_begin_env_def metadata_of_json_def struct_fields_def EqualFold_def ToLower_def lower_char_def
      dec_str_def demo_meta_def)

lemma demo_begin: "BeginFlow c demo_begin_env ''https://cp/'' name uri =
    (Inr (demo_flow c uri), [SentGet ''https://cp/.well-known/oauth-authorization-server'', SentJSON ''https://cp/r'' (registration_json name uri)])"
  using demo_discovery demo_origins(5)
  by (simp add: BeginFlow_def Let_def demo_origins(7) registerClient_def demo_meta_def struct_fields_def EqualFold_def ToLower_def
      lower_char_def dec_str_def pkcePair_def randomToken_def demo_flow_def)
    (simp add: demo_begin_env_def struct_fields_def EqualFold_def ToLower_def lower_char_def dec_str_def pkcePair_def randomToken_def demo_meta_def)

definition demo_tokens :: token_reply where
  "demo_tokens = TokenReply 200 ''200 OK'' (Some (JObj [(''access_token'', JStr ''at''), (''refresh_token'', JStr ''rt''), (''expires_in'', JNum ''3600'')]))"

lemma demo_exchange: "\<exists>cred. Flow_Exchange demo_tokens 5 (demo_flow c uri) ''code'' =
    (Inr cred, [SentForm ''https://CP:443/t'' (exchange_form ''c1'' ''code'' (RawURLEncode ''abc'') uri)]) \<and> oc_TokenEndpoint cred = ''https://CP:443/t''"
  using demo_origins(6)
  by (simp add: Flow_Exchange_def exchangeCode_def demo_flow_def demo_meta_def demo_tokens_def token_of_json_def struct_fields_def EqualFold_def
      ToLower_def lower_char_def dec_str_def dec_int_def parse_int64_def digit_val_def in_int64_def)


definition demo_console :: console where
  "demo_console = \<lparr>cs_pending = None, cs_exchanging = [], cs_oauth = demo_refreshing\<rparr>"

definition demo_cp :: Config where
  "demo_cp = Default\<lparr>c_ControlPlane := (c_ControlPlane Default)\<lparr>cp_URL := ''https://cp/''\<rparr>\<rparr>"

definition demo_query :: form where
  "demo_query = [(''state'', RawURLEncode ''xyz''), (''code'', ''code'')]"

abbreviation demo_history :: "console_event list" where
  "demo_history \<equiv> [ConsoleStart demo_begin_env demo_cp ''n'', ConsoleOAuth RunInvalidate, ConsoleCallback demo_query 100]"

lemma demo_started: "cs_pending (console_run demo_crypto zero_tf (take 2 demo_history) demo_console) = Some (demo_flow demo_crypto (redirect_uri demo_cp))"
  "cs_exchanging (console_run demo_crypto zero_tf (take 2 demo_history) demo_console) = []"
  by (simp_all add: console_run_def demo_console_def auth_start_def demo_cp_def demo_begin)

theorem callback_completes_own_flow_witness:
  "\<exists>f. cs_exchanging (console_run demo_crypto zero_tf demo_history demo_console) = [(f, ''code'')] \<and> fl_State f = RawURLEncode ''xyz'' \<and>
    (\<exists>j < 2. \<exists>e cfg name. demo_history ! j = ConsoleStart e cfg name \<and>
      fst (BeginFlow demo_crypto e (cp_URL (c_ControlPlane cfg)) name (redirect_uri cfg)) = Inr f)"
proof -
  let ?f = "demo_flow demo_crypto (redirect_uri demo_cp)"
  have run: "console_run demo_crypto zero_tf (take 3 demo_history) demo_console =
      console_exec demo_crypto zero_tf (ConsoleCallback demo_query 100) (console_run demo_crypto zero_tf (take 2 demo_history) demo_console)"
    by (simp add: console_run_def)
  have st: "query_get demo_query ''state'' = fl_State ?f" "query_get demo_query ''error'' = []" "query_get demo_query ''code'' = ''code''"
    by (simp_all add: query_get_def demo_query_def demo_flow_def)
  have fresh: "\<not> Flow_Expired ?f 100" by (simp add: Flow_Expired_def demo_flow_def FlowTimeout_def minute_def second_def)
  have x: "cs_exchanging (console_run demo_crypto zero_tf (take 3 demo_history) demo_console) = [(?f, ''code'')]"
    unfolding run using demo_started st fresh by (simp add: callback_begin_def pending_take_def)
  have n: "cs_pending demo_console = None" by (simp add: demo_console_def)
  have "\<exists>j < 2. \<exists>e cfg name. demo_history ! j = ConsoleStart e cfg name \<and>
      fst (BeginFlow demo_crypto e (cp_URL (c_ControlPlane cfg)) name (redirect_uri cfg)) = Inr ?f"
    using callback_completes_own_flow [OF n, of 2 demo_history ?f "''code''" demo_crypto zero_tf] x demo_started(2)
    by (simp only: list.size eval_nat_numeral(2)) fastforce
  then show ?thesis using x by (intro exI [of _ ?f]) (simp add: demo_flow_def)
qed

end
