(* ===== verification/Compute.thy ===== *)
theory Compute
  imports Node Router
begin

text \<open>
  Local inference (internal/compute, internal/compute/ollama, and the node methods over them): the
  Ollama client with its two line streams, the manager that connects to a server or spawns one, the
  compute capability, one-shot generation and the background model pull. An HTTP exchange is its
  reply, a stream its body and whether reading it ended well, a probe its answer. The processes
  the manager has started are part of its state, so that what it forgets can be seen.
\<close>

section \<open>The client\<close>

datatype ol_err = OlRequest | OlTransport | OlStatus string string nat string | OlDecode | OlUnreachable string
  | OlNoBinary | OlNotExecutable string | OlBadHost string | OlSpawn string | OlNotReady string | OlCtx | OlChunk
  | OlPull string string | OlScan | ErrNoModels | OlListing ol_err | OlNotRunning

definition NewClient :: "string \<Rightarrow> string" where
  "NewClient baseURL = TrimRight baseURL (CHR ''/'')"

text \<open>
  getJSON and postJSON with doJSON: the reply's JSON value is the first one of its first 32 MiB, if it
  has one.
\<close>

definition ol_json :: "string \<Rightarrow> string \<Rightarrow> string \<Rightarrow> reply \<Rightarrow> ol_err + json" where
  "ol_json meth host path r =
    (if url_parse (NewClient host @ path) = None then Inl OlRequest
     else case r of NoReply \<Rightarrow> Inl OlTransport
       | Reply status raw body \<Rightarrow>
          if status \<noteq> 200 then Inl (OlStatus meth path status (TrimSpace (take 512 raw)))
          else (case body of None \<Rightarrow> Inl OlDecode | Some v \<Rightarrow> Inr v))"

record ol_model =
  om_Name :: string
  om_ModifiedAt :: string
  om_Size :: int

definition model_of_json :: "json \<Rightarrow> ol_model option" where
  "model_of_json v = do {
     kvs \<leftarrow> struct_fields v; n \<leftarrow> get_str ''name'' kvs; m \<leftarrow> get_str ''modified_at'' kvs; s \<leftarrow> get_int ''size'' kvs;
     Some \<lparr>om_Name = n, om_ModifiedAt = m, om_Size = s\<rparr>}"

definition decoded :: "'a option \<Rightarrow> ol_err + 'a" where
  "decoded x = (case x of None \<Rightarrow> Inl OlDecode | Some a \<Rightarrow> Inr a)"

definition Tags :: "string \<Rightarrow> reply \<Rightarrow> ol_err + ol_model list" where
  "Tags host r = (case ol_json ''GET'' host ''/api/tags'' r of
     Inl e \<Rightarrow> Inl e
   | Inr v \<Rightarrow> decoded (do { kvs \<leftarrow> struct_fields v; get_field (dec_slice model_of_json) ''models'' [] kvs }))"

definition Version :: "string \<Rightarrow> reply \<Rightarrow> ol_err + string" where
  "Version host r = (case ol_json ''GET'' host ''/api/version'' r of
     Inl e \<Rightarrow> Inl e
   | Inr v \<Rightarrow> decoded (do { kvs \<leftarrow> struct_fields v; get_str ''version'' kvs }))"

text \<open>Embeddings; a float64 is what the given conversion makes of its literal.\<close>

definition embed_json :: "string \<Rightarrow> string list \<Rightarrow> json" where
  "embed_json model texts = JObj [(''model'', JStr model), (''input'', JArr (map JStr texts))]"

definition dec_float :: "(string \<Rightarrow> 'f option) \<Rightarrow> 'f \<Rightarrow> json \<Rightarrow> 'f option" where
  "dec_float conv zero v = (case v of JNum n \<Rightarrow> conv n | JNull \<Rightarrow> Some zero | _ \<Rightarrow> None)"

definition Client_Embed :: "(string \<Rightarrow> 'f option) \<Rightarrow> 'f \<Rightarrow> string \<Rightarrow> reply \<Rightarrow> ol_err + 'f list list" where
  "Client_Embed conv zero host r = (case ol_json ''POST'' host ''/api/embed'' r of
     Inl e \<Rightarrow> Inl e
   | Inr v \<Rightarrow> decoded (do { kvs \<leftarrow> struct_fields v;
        get_field (dec_slice (\<lambda>w. dec_slice (dec_float conv zero) w [])) ''embeddings'' [] kvs }))"

section \<open>Line streams\<close>

text \<open>
  bufio.Scanner over a body: its lines, and whether it ended without an error. A line that fills the
  buffer is one; when reading fails the bytes already there still make a last line.
\<close>

definition max_token :: nat where "max_token = 1024 * 1024"

function body_lines :: "bytes \<Rightarrow> bool \<Rightarrow> string list \<times> bool" where
  "body_lines body ok = (case cut_byte (CHR 0x0A) body of
     None \<Rightarrow> if body = [] then ([], ok) else if max_token \<le> length body then ([], False) else ([body], ok)
   | Some (line, rest) \<Rightarrow>
      if max_token \<le> length line then ([], False)
      else (case body_lines rest ok of (ls, x) \<Rightarrow> (line # ls, x)))"
  by pat_completeness auto
termination by (relation "measure (length \<circ> fst)") (auto dest: cut_byte_shorter)

declare body_lines.simps [simp del]

text \<open>GenerateDelta and PullProgress, one JSON object to a line.\<close>

record delta =
  gd_Response :: string
  gd_Done :: bool
  gd_PromptEvalCount :: int
  gd_EvalCount :: int

definition delta_of_line :: "string \<Rightarrow> delta option" where
  "delta_of_line line = do {
     v \<leftarrow> json_parse line; kvs \<leftarrow> struct_fields v; r \<leftarrow> get_str ''response'' kvs; d \<leftarrow> get_bool ''done'' kvs;
     p \<leftarrow> get_int ''prompt_eval_count'' kvs; e \<leftarrow> get_int ''eval_count'' kvs;
     Some \<lparr>gd_Response = r, gd_Done = d, gd_PromptEvalCount = p, gd_EvalCount = e\<rparr>}"

record progress =
  pp_Status :: string
  pp_Digest :: string
  pp_Total :: int
  pp_Completed :: int
  pp_Error :: string

definition progress_of_line :: "string \<Rightarrow> progress option" where
  "progress_of_line line = do {
     v \<leftarrow> json_parse line; kvs \<leftarrow> struct_fields v; s \<leftarrow> get_str ''status'' kvs; d \<leftarrow> get_str ''digest'' kvs;
     t \<leftarrow> get_int ''total'' kvs; c \<leftarrow> get_int ''completed'' kvs; e \<leftarrow> get_str ''error'' kvs;
     Some \<lparr>pp_Status = s, pp_Digest = d, pp_Total = t, pp_Completed = c, pp_Error = e\<rparr>}"

text \<open>The goroutine behind StreamGenerate: the items it sends when nobody cancels.\<close>

fun stream_items :: "string list \<Rightarrow> bool \<Rightarrow> gen_item list" where
  "stream_items [] ok = (if ok then [] else [GenErr ''scan''])"
| "stream_items (l # ls) ok =
     (let line = TrimSpace l in
      if line = [] then stream_items ls ok
      else case delta_of_line line of
        None \<Rightarrow> [GenErr ''parsing stream chunk'']
      | Some d \<Rightarrow> GenChunk (gd_Response d) (gd_PromptEvalCount d) (gd_Done d) # (if gd_Done d then [] else stream_items ls ok))"

text \<open>A reply to a streaming request: none, a refusal, or a body that may end badly.\<close>

datatype stream_reply = NoStream | StreamRefused nat bytes | StreamBody bytes bool

definition generate_json :: "string \<Rightarrow> string \<Rightarrow> string \<Rightarrow> json" where
  "generate_json model prompt temperature = JObj [(''model'', JStr model), (''prompt'', JStr prompt), (''stream'', JBool True),
     (''options'', JObj [(''temperature'', JNum temperature)])]"

text \<open>A cancelled context ends the channel after the items already taken, without an error.\<close>

definition StreamGenerate :: "string \<Rightarrow> stream_reply \<Rightarrow> nat option \<Rightarrow> ol_err + gen_item list" where
  "StreamGenerate host r cancel =
    (if url_parse (NewClient host @ ''/api/generate'') = None then Inl OlRequest
     else case r of
       NoStream \<Rightarrow> Inl OlTransport
     | StreamRefused status raw \<Rightarrow> Inl (OlStatus ''POST'' ''/api/generate'' status (TrimSpace (take 512 raw)))
     | StreamBody body ok \<Rightarrow>
        (case body_lines body ok of (ls, ok') \<Rightarrow>
           let items = stream_items ls ok' in Inr (case cancel of None \<Rightarrow> items | Some n \<Rightarrow> take n items)))"

fun pull_lines :: "string \<Rightarrow> string list \<Rightarrow> bool \<Rightarrow> bool \<Rightarrow> progress list \<times> ol_err option" where
  "pull_lines model [] ok cancelled = ([], if \<not> ok then Some OlScan else if cancelled then Some OlCtx else None)"
| "pull_lines model (l # ls) ok cancelled =
     (let line = TrimSpace l in
      if line = [] then pull_lines model ls ok cancelled
      else case progress_of_line line of
        None \<Rightarrow> ([], Some OlChunk)
      | Some p \<Rightarrow>
          if pp_Error p \<noteq> [] then ([], Some (OlPull model (pp_Error p)))
          else (case pull_lines model ls ok cancelled of (ps, e) \<Rightarrow> (p # ps, e)))"

definition pull_json :: "string \<Rightarrow> json" where
  "pull_json model = JObj [(''model'', JStr model), (''stream'', JBool True)]"

definition Client_Pull :: "string \<Rightarrow> string \<Rightarrow> stream_reply \<Rightarrow> bool \<Rightarrow> progress list \<times> ol_err option" where
  "Client_Pull host model r cancelled =
    (if url_parse (NewClient host @ ''/api/pull'') = None then ([], Some OlRequest)
     else case r of
       NoStream \<Rightarrow> ([], Some OlTransport)
     | StreamRefused status raw \<Rightarrow> ([], Some (OlStatus ''POST'' ''/api/pull'' status (TrimSpace (take 512 raw))))
     | StreamBody body ok \<Rightarrow> (case body_lines body ok of (ls, ok') \<Rightarrow> pull_lines model ls ok' cancelled))"

section \<open>The manager\<close>

definition binaryCandidates :: "string list" where
  "binaryCandidates = [''/opt/homebrew/bin/ollama'', ''/usr/local/bin/ollama'']"

definition ollama_FindBinary :: "(string \<Rightarrow> bool) \<Rightarrow> string option \<Rightarrow> string \<Rightarrow> ol_err + string" where
  "ollama_FindBinary isExecutable lookPath configured =
    (if configured \<noteq> [] then (if isExecutable configured then Inr configured else Inl (OlNotExecutable configured))
     else case lookPath of
       Some p \<Rightarrow> Inr p
     | None \<Rightarrow> (case find isExecutable binaryCandidates of Some c \<Rightarrow> Inr c | None \<Rightarrow> Inl OlNoBinary))"

definition hostPortFromURL :: "string \<Rightarrow> ol_err + string" where
  "hostPortFromURL raw = (case url_parse raw of
     None \<Rightarrow> Inl (OlBadHost raw) | Some u \<Rightarrow> if u_Host u = [] then Inl (OlBadHost raw) else Inr (u_Host u))"

text \<open>
  The manager and the processes it has started that still run, each with whether it was told to
  stop. A process is a number here.
\<close>

record ol_manager =
  mo_cmd :: "nat option"
  mo_procs :: "(nat \<times> bool) list"
  mo_next :: nat

definition NewOllamaManager :: ol_manager where
  "NewOllamaManager = \<lparr>mo_cmd = None, mo_procs = [], mo_next = 0\<rparr>"

text \<open>What EnsureRunning meets: the answers to its probes, files and $PATH, the spawn, a cancelled wait.\<close>

record ensure_env =
  en_first :: reply
  en_exec :: "string \<Rightarrow> bool"
  en_path :: "string option"
  en_spawns :: bool
  en_probe :: "nat \<Rightarrow> reply"
  en_cancelled :: "nat \<Rightarrow> bool"

definition Reachable :: "string \<Rightarrow> reply \<Rightarrow> bool" where
  "Reachable host r = (case Version host r of Inl _ \<Rightarrow> False | Inr _ \<Rightarrow> True)"

definition mgr_spawn :: "OllamaCfg \<Rightarrow> ensure_env \<Rightarrow> ol_manager \<Rightarrow> (ol_err + unit) \<times> ol_manager" where
  "mgr_spawn s e m = (case mo_cmd m of
     Some p \<Rightarrow> (Inr (), m)
   | None \<Rightarrow> (case ollama_FindBinary (en_exec e) (en_path e) (ol_BinaryPath s) of
        Inl err \<Rightarrow> (Inl err, m)
      | Inr bin \<Rightarrow> (case hostPortFromURL (ol_Host s) of
           Inl err \<Rightarrow> (Inl err, m)
         | Inr hp \<Rightarrow> if \<not> en_spawns e then (Inl (OlSpawn bin), m)
             else (Inr (), \<lparr>mo_cmd = Some (mo_next m), mo_procs = (mo_next m, False) # mo_procs m, mo_next = Suc (mo_next m)\<rparr>))))"

text \<open>The wait for readiness: probes left, waits of 250 ms done; the result and the waits in all.\<close>

fun wait_ready :: "string \<Rightarrow> ensure_env \<Rightarrow> nat \<Rightarrow> nat \<Rightarrow> ol_err option \<times> nat" where
  "wait_ready host e 0 i = (Some (OlNotReady host), i)"
| "wait_ready host e (Suc n) i =
     (if Reachable host (en_probe e i) then (None, i)
      else if en_cancelled e i then (Some OlCtx, i)
      else wait_ready host e n (Suc i))"

definition ready_attempts :: nat where "ready_attempts = 20"

definition EnsureRunning :: "OllamaCfg \<Rightarrow> ensure_env \<Rightarrow> ol_manager \<Rightarrow> ol_err option \<times> ol_manager \<times> nat" where
  "EnsureRunning s e m =
    (if Reachable (ol_Host s) (en_first e) then (None, m, 0)
     else if \<not> ol_Manage s then (Some (OlUnreachable (ol_Host s)), m, 0)
     else case mgr_spawn s e m of
       (Inl err, m') \<Rightarrow> (Some err, m', 0)
     | (Inr _, m') \<Rightarrow> (case wait_ready (ol_Host s) e ready_attempts 0 of (r, waits) \<Rightarrow> (r, m', waits)))"

definition Manager_Stop :: "ol_manager \<Rightarrow> ol_manager" where
  "Manager_Stop m = (case mo_cmd m of None \<Rightarrow> m
     | Some p \<Rightarrow> m\<lparr>mo_cmd := None, mo_procs := map (\<lambda>(q, b). (q, b \<or> q = p)) (mo_procs m)\<rparr>)"

text \<open>A process ends: the goroutine that waited for it forgets it, unless another took its place.\<close>

definition process_exit :: "nat \<Rightarrow> ol_manager \<Rightarrow> ol_manager" where
  "process_exit p m = m\<lparr>mo_cmd := (if mo_cmd m = Some p then None else mo_cmd m), mo_procs := filter (\<lambda>(q, b). q \<noteq> p) (mo_procs m)\<rparr>"

section \<open>The capability\<close>

definition ResolveRunnableModel :: "string \<Rightarrow> reply \<Rightarrow> string \<Rightarrow> ol_err + string" where
  "ResolveRunnableModel host r preferred = (case Tags host r of
     Inl e \<Rightarrow> Inl (OlListing e)
   | Inr models \<Rightarrow>
      if list_ex (\<lambda>m. om_Name m = preferred) models then Inr preferred
      else (case models of m # ms \<Rightarrow> Inr (om_Name m) | [] \<Rightarrow> Inl ErrNoModels))"

record compute_cap =
  cc_started :: bool
  cc_currentModel :: string
  cc_manager :: ol_manager

definition NewCompute :: compute_cap where
  "NewCompute = \<lparr>cc_started = False, cc_currentModel = [], cc_manager = NewOllamaManager\<rparr>"

definition Compute_Start :: "OllamaCfg \<Rightarrow> ensure_env \<Rightarrow> reply \<Rightarrow> compute_cap \<Rightarrow> ol_err option \<times> compute_cap" where
  "Compute_Start s e tags c = (case EnsureRunning s e (cc_manager c) of
     (Some err, m, _) \<Rightarrow> (Some err, c\<lparr>cc_manager := m\<rparr>)
   | (None, m, _) \<Rightarrow>
      (None, \<lparr>cc_started = True,
         cc_currentModel = (case ResolveRunnableModel (ol_Host s) tags (ol_DefaultModel s) of Inl _ \<Rightarrow> [] | Inr n \<Rightarrow> n), cc_manager = m\<rparr>))"

definition Compute_Stop :: "compute_cap \<Rightarrow> compute_cap" where
  "Compute_Stop c = \<lparr>cc_started = False, cc_currentModel = [], cc_manager = Manager_Stop (cc_manager c)\<rparr>"

definition Compute_Healthy :: "OllamaCfg \<Rightarrow> reply \<Rightarrow> reply \<Rightarrow> compute_cap \<Rightarrow> (bool \<times> string) \<times> compute_cap" where
  "Compute_Healthy s probe tags c =
    (if \<not> cc_started c then ((False, ''not started''), c)
     else if \<not> Reachable (ol_Host s) probe then ((False, ''ollama server not reachable at '' @ ol_Host s), c)
     else case ResolveRunnableModel (ol_Host s) tags (ol_DefaultModel s) of
       Inl e \<Rightarrow> ((False, ''no runnable model''), c)
     | Inr n \<Rightarrow> ((True, ''serving '' @ n), c\<lparr>cc_currentModel := n\<rparr>))"

definition StreamGenerateModel :: "OllamaCfg \<Rightarrow> reply \<Rightarrow> (string \<Rightarrow> stream_reply) \<Rightarrow> nat option \<Rightarrow> compute_cap \<Rightarrow> (ol_err + gen_item list \<times> string) \<times> compute_cap" where
  "StreamGenerateModel s tags serve cancel c =
    (if \<not> cc_started c then (Inl OlNotRunning, c)
     else let run = (\<lambda>n c'. (case StreamGenerate (ol_Host s) (serve n) cancel of Inl e \<Rightarrow> (Inl e, c') | Inr items \<Rightarrow> (Inr (items, n), c'))) in
       if cc_currentModel c \<noteq> [] then run (cc_currentModel c) c
       else (case ResolveRunnableModel (ol_Host s) tags (ol_DefaultModel s) of
          Inl e \<Rightarrow> (Inl e, c)
        | Inr n \<Rightarrow> run n (c\<lparr>cc_currentModel := n\<rparr>)))"

definition PullModel :: "OllamaCfg \<Rightarrow> ensure_env \<Rightarrow> string \<Rightarrow> stream_reply \<Rightarrow> bool \<Rightarrow> ol_manager \<Rightarrow> (progress list \<times> ol_err option) \<times> ol_manager" where
  "PullModel s e model r cancelled m = (case EnsureRunning s e m of
     (Some err, m', _) \<Rightarrow> (([], Some err), m')
   | (None, m', _) \<Rightarrow> (Client_Pull (ol_Host s) model r cancelled, m'))"

section \<open>One-shot generation\<close>

fun collect :: "string \<Rightarrow> gen_item list \<Rightarrow> string + string" where
  "collect acc [] = Inr acc"
| "collect acc (GenErr e # items) = Inl e"
| "collect acc (GenChunk r n d # items) = collect (acc @ r) items"

datatype generate_err = ErrStream ol_err | ErrItem string

definition Node_Generate :: "OllamaCfg \<Rightarrow> reply \<Rightarrow> (string \<Rightarrow> stream_reply) \<Rightarrow> nat option \<Rightarrow> compute_cap \<Rightarrow> (generate_err + string \<times> string) \<times> compute_cap" where
  "Node_Generate s tags serve cancel c = (case StreamGenerateModel s tags serve cancel c of
     (Inl e, c') \<Rightarrow> (Inl (ErrStream e), c')
   | (Inr (items, n), c') \<Rightarrow> (case collect [] items of Inl e \<Rightarrow> (Inl (ErrItem e), c') | Inr txt \<Rightarrow> (Inr (txt, n), c')))"

section \<open>The background pull\<close>

datatype pull_status = Pulling | PullDone | PullFailed

record pull_state =
  pl_Model :: string
  pl_Status :: pull_status
  pl_Detail :: string
  pl_Completed :: int
  pl_Total :: int

text \<open>The node's pull state, and the models of the goroutines that are pulling.\<close>

record pulls =
  pu_state :: "pull_state option"
  pu_running :: "string list"

datatype pull_err = ErrComputeDisabled | ErrPullInProgress string

definition StartPull :: "Config \<Rightarrow> string \<Rightarrow> pulls \<Rightarrow> pull_err option \<times> pulls" where
  "StartPull cfg model p =
    (if \<not> cap_Compute (c_Capabilities cfg) then (Some ErrComputeDisabled, p)
     else case pu_state p of
       Some st \<Rightarrow> if pl_Status st = Pulling then (Some (ErrPullInProgress (pl_Model st)), p)
         else (None, \<lparr>pu_state = Some \<lparr>pl_Model = model, pl_Status = Pulling, pl_Detail = [], pl_Completed = 0, pl_Total = 0\<rparr>, pu_running = model # pu_running p\<rparr>)
     | None \<Rightarrow> (None, \<lparr>pu_state = Some \<lparr>pl_Model = model, pl_Status = Pulling, pl_Detail = [], pl_Completed = 0, pl_Total = 0\<rparr>, pu_running = model # pu_running p\<rparr>))"

text \<open>The goroutine's callback and its end; both write whatever state the node has then.\<close>

definition pull_progress :: "progress \<Rightarrow> pulls \<Rightarrow> pulls" where
  "pull_progress pr p = (case pu_state p of None \<Rightarrow> p
     | Some st \<Rightarrow> let st1 = st\<lparr>pl_Detail := pp_Status pr\<rparr> in
         p\<lparr>pu_state := Some (if pp_Total pr > 0 then st1\<lparr>pl_Completed := pp_Completed pr, pl_Total := pp_Total pr\<rparr> else st1)\<rparr>)"

definition pull_end :: "string \<Rightarrow> string option \<Rightarrow> pulls \<Rightarrow> pulls" where
  "pull_end model err p = (case pu_state p of None \<Rightarrow> p
     | Some st \<Rightarrow> \<lparr>pu_state = Some (case err of Some e \<Rightarrow> st\<lparr>pl_Status := PullFailed, pl_Detail := e\<rparr> | None \<Rightarrow> st\<lparr>pl_Status := PullDone, pl_Detail := []\<rparr>),
         pu_running = remove1 model (pu_running p)\<rparr>)"

inductive pull_step :: "pulls \<Rightarrow> pulls \<Rightarrow> bool" where
  PullStart: "StartPull cfg model p = (r, p') \<Longrightarrow> pull_step p p'"
| PullProgress: "m \<in> set (pu_running p) \<Longrightarrow> pull_step p (pull_progress pr p)"
| PullEnd: "m \<in> set (pu_running p) \<Longrightarrow> pull_step p (pull_end m err p)"

text \<open>Models(): the installed models with the active and the default one marked, and a copy of the pull state.\<close>

record model_info =
  mi_Name :: string
  mi_SizeBytes :: int
  mi_ModifiedAt :: string
  mi_Active :: bool
  mi_Default :: bool

record models_info =
  mf_Active :: string
  mf_Default :: string
  mf_Models :: "model_info list"
  mf_Pull :: "pull_state option"
  mf_Error :: "ol_err option"

definition Models :: "OllamaCfg \<Rightarrow> reply \<Rightarrow> compute_cap \<Rightarrow> pulls \<Rightarrow> models_info" where
  "Models s tags c p =
    (let listing = Tags (ol_Host s) tags; active = cc_currentModel c; def = ol_DefaultModel s in
     \<lparr>mf_Active = active, mf_Default = def,
      mf_Models = map (\<lambda>m. \<lparr>mi_Name = om_Name m, mi_SizeBytes = om_Size m, mi_ModifiedAt = om_ModifiedAt m,
          mi_Active = (om_Name m = active), mi_Default = (om_Name m = def)\<rparr>) (case listing of Inl _ \<Rightarrow> [] | Inr ms \<Rightarrow> ms),
      mf_Pull = pu_state p, mf_Error = (case listing of Inl e \<Rightarrow> Some e | Inr _ \<Rightarrow> None)\<rparr>)"

section \<open>Compute under the reconciler\<close>

text \<open>
  The reconciler's branch for a capability and the stops of shutdown, on the compute capability
  itself: Stop is called only for a capability whose Start has succeeded.
\<close>

definition reconcile_compute :: "bool \<Rightarrow> OllamaCfg \<Rightarrow> ensure_env \<Rightarrow> reply \<Rightarrow> bool \<times> compute_cap \<Rightarrow> bool \<times> compute_cap" where
  "reconcile_compute enabled s e tags rc = (case rc of (running, c) \<Rightarrow>
     if enabled \<and> \<not> running then (case Compute_Start s e tags c of (Some err, c') \<Rightarrow> (False, c') | (None, c') \<Rightarrow> (True, c'))
     else if \<not> enabled \<and> running then (False, Compute_Stop c)
     else (running, c))"

definition shutdown_compute :: "bool \<times> compute_cap \<Rightarrow> bool \<times> compute_cap" where
  "shutdown_compute rc = (case rc of (running, c) \<Rightarrow> if running then (False, Compute_Stop c) else (running, c))"

section \<open>Waiting for the server\<close>

lemma wait_ready_waits: "wait_ready host e n i = (r, w) \<Longrightarrow> i \<le> w \<and> w \<le> i + n"
  by (induction host e n i rule: wait_ready.induct) (fastforce split: if_splits)+

lemma wait_ready_ok:
  "fst (wait_ready host e n i) = None \<longleftrightarrow>
   (\<exists>k < n. Reachable host (en_probe e (i + k)) \<and> (\<forall>j < k. \<not> Reachable host (en_probe e (i + j)) \<and> \<not> en_cancelled e (i + j)))"
proof (induction host e n i rule: wait_ready.induct)
  case (2 host e n i)
  consider "Reachable host (en_probe e i)" | "\<not> Reachable host (en_probe e i)" "en_cancelled e i"
    | "\<not> Reachable host (en_probe e i)" "\<not> en_cancelled e i" by blast
  then show ?case
  proof cases
    case 1
    then show ?thesis by (auto intro!: exI [of _ 0])
  next
    case 2
    then show ?thesis by (auto simp: less_Suc_eq_0_disj)
  next
    case 3
    then have "fst (wait_ready host e (Suc n) i) = None \<longleftrightarrow> fst (wait_ready host e n (Suc i)) = None" by simp
    also have "\<dots> \<longleftrightarrow> (\<exists>k < n. Reachable host (en_probe e (Suc i + k)) \<and> (\<forall>j < k. \<not> Reachable host (en_probe e (Suc i + j)) \<and> \<not> en_cancelled e (Suc i + j)))"
      using 2 3 by simp
    also have "\<dots> \<longleftrightarrow> (\<exists>k < Suc n. Reachable host (en_probe e (i + k)) \<and> (\<forall>j < k. \<not> Reachable host (en_probe e (i + j)) \<and> \<not> en_cancelled e (i + j)))"
      using 3 by (simp add: Ex_less_Suc2 All_less_Suc2)
    finally show ?thesis .
  qed
qed simp

lemma EnsureRunning_cases:
  assumes "EnsureRunning s e m = (r, m', waits)"
  obtains "Reachable (ol_Host s) (en_first e)" "r = None" "m' = m" "waits = 0"
  | "\<not> Reachable (ol_Host s) (en_first e)" "\<not> ol_Manage s" "r = Some (OlUnreachable (ol_Host s))" "m' = m" "waits = 0"
  | err where "\<not> Reachable (ol_Host s) (en_first e)" "ol_Manage s" "mgr_spawn s e m = (Inl err, m')" "r = Some err" "waits = 0"
  | "\<not> Reachable (ol_Host s) (en_first e)" "ol_Manage s" "mgr_spawn s e m = (Inr (), m')" "wait_ready (ol_Host s) e ready_attempts 0 = (r, waits)"
  using assms by (auto simp: EnsureRunning_def split: if_splits prod.splits sum.splits)

text \<open>
  EnsureRunning settles after at most twenty waits, and succeeds exactly when the server answers
  at once or, being managed and started or already ours, answers one of the twenty probes before
  the context is cancelled.
\<close>

theorem EnsureRunning_settles:
  assumes "EnsureRunning s e m = (r, m', waits)"
  shows "waits \<le> ready_attempts \<and>
    (r = None \<longleftrightarrow> Reachable (ol_Host s) (en_first e) \<or>
       (ol_Manage s \<and> fst (mgr_spawn s e m) = Inr () \<and>
        (\<exists>k < ready_attempts. Reachable (ol_Host s) (en_probe e k) \<and> (\<forall>j < k. \<not> Reachable (ol_Host s) (en_probe e j) \<and> \<not> en_cancelled e j))))"
  using assms
proof (cases rule: EnsureRunning_cases)
  case 4
  then show ?thesis using wait_ready_waits [OF 4(4)] wait_ready_ok [of "ol_Host s" e ready_attempts 0] by auto
qed auto

theorem EnsureRunning_settles_witness:
  "case EnsureRunning (c_Ollama Default\<lparr>ol_Manage := True\<rparr>)
       \<lparr>en_first = NoReply, en_exec = (\<lambda>p. p = ''/usr/local/bin/ollama''), en_path = None, en_spawns = True,
        en_probe = (\<lambda>i. if i = 2 then Reply 200 [] (Some (JObj [(''version'', JStr ''0.6'')])) else NoReply), en_cancelled = (\<lambda>i. False)\<rparr> NewOllamaManager
     of (r, m', waits) \<Rightarrow> r = None \<and> waits \<le> 20 \<and> mo_cmd m' = Some 0"
proof -
  let ?s = "c_Ollama Default\<lparr>ol_Manage := True\<rparr>"
  let ?e = "\<lparr>en_first = NoReply, en_exec = (\<lambda>p. p = ''/usr/local/bin/ollama''), en_path = None, en_spawns = True,
        en_probe = (\<lambda>i. if i = 2 then Reply 200 [] (Some (JObj [(''version'', JStr ''0.6'')])) else NoReply), en_cancelled = (\<lambda>i. False)\<rparr>"
  obtain r m' waits where e: "EnsureRunning ?s ?e NewOllamaManager = (r, m', waits)" by (metis surj_pair)
  have spawn: "mgr_spawn ?s ?e NewOllamaManager = (Inr (), \<lparr>mo_cmd = Some 0, mo_procs = [(0, False)], mo_next = 1\<rparr>)" by code_simp
  have probe: "Reachable (ol_Host ?s) (Reply 200 [] (Some (JObj [(''version'', JStr ''0.6'')])))" "\<not> Reachable (ol_Host ?s) NoReply" by code_simp+
  have "\<exists>k < ready_attempts. Reachable (ol_Host ?s) (en_probe ?e k) \<and> (\<forall>j < k. \<not> Reachable (ol_Host ?s) (en_probe ?e j) \<and> \<not> en_cancelled ?e j)"
    using probe by (intro exI [of _ 2]) (auto simp: ready_attempts_def)
  then have "r = None \<and> waits \<le> 20" using EnsureRunning_settles [OF e] spawn by (simp add: ready_attempts_def)
  moreover have "mo_cmd m' = Some 0" using e spawn probe(2) by (cases rule: EnsureRunning_cases) auto
  ultimately show ?thesis using e by simp
qed

section \<open>Who stops the server\<close>

text \<open>Every process still running that was not told to stop is the one the manager holds.\<close>

definition owned :: "ol_manager \<Rightarrow> bool" where
  "owned m \<longleftrightarrow> (\<forall>p b. (p, b) \<in> set (mo_procs m) \<longrightarrow> p < mo_next m \<and> (b \<or> mo_cmd m = Some p))"

lemma owned_ops [inv_intros]:
  "owned NewOllamaManager" "owned m \<Longrightarrow> owned (Manager_Stop m)" "owned m \<Longrightarrow> owned (process_exit p m)"
  by (fastforce simp: owned_def NewOllamaManager_def Manager_Stop_def process_exit_def split: option.splits)+

lemma owned_spawn [inv_intros]: "owned m \<Longrightarrow> mgr_spawn s e m = (r, m') \<Longrightarrow> owned m'"
  by (fastforce simp: mgr_spawn_def owned_def less_Suc_eq split: option.splits sum.splits if_splits)

lemma owned_EnsureRunning [inv_intros]:
  assumes "owned m" "EnsureRunning s e m = (r, m', w)"
  shows "owned m'"
  using assms(2) by (cases rule: EnsureRunning_cases) (use assms(1) owned_spawn in auto)

datatype mgr_event = MgrEnsure OllamaCfg ensure_env | MgrStop | MgrExit nat

fun mgr_exec :: "mgr_event \<Rightarrow> ol_manager \<Rightarrow> ol_manager" where
  "mgr_exec (MgrEnsure s e) m = fst (snd (EnsureRunning s e m))"
| "mgr_exec MgrStop m = Manager_Stop m"
| "mgr_exec (MgrExit p) m = process_exit p m"

lemma owned_run: "owned m \<Longrightarrow> owned (fold mgr_exec evs m)"
proof (induction evs arbitrary: m)
  case (Cons ev evs)
  have "owned (mgr_exec ev m)"
    using Cons.prems owned_ops owned_EnsureRunning by (cases ev) (auto, metis prod.collapse)
  then show ?case using Cons.IH by simp
qed simp

text \<open>
  C37. The manager never loses track of a server it started: whatever starts, exits and stops come
  before, after Stop every one of its processes that still runs has been told to terminate.
\<close>

theorem Stop_reaches_every_server:
  "list_all snd (mo_procs (Manager_Stop (fold mgr_exec evs NewOllamaManager)))"
proof -
  let ?m = "Manager_Stop (fold mgr_exec evs NewOllamaManager)"
  have o: "owned ?m" using owned_run owned_ops by blast
  have none: "mo_cmd ?m \<noteq> Some p" for p by (simp add: Manager_Stop_def split: option.splits)
  have "snd x" if "x \<in> set (mo_procs ?m)" for x
    using o none that unfolding owned_def by (cases x) (metis snd_conv)
  then show ?thesis by (simp add: list_all_iff)
qed

text \<open>
  But Stop is not always called: when a managed server is started and does not answer within
  the wait, the capability counts as not running, so neither disabling compute nor the shutdown of
  the node stops it, and the process outlives the node.
\<close>

theorem failed_start_leaks_server:
  assumes "ol_Manage s" "mgr_spawn s e NewOllamaManager = (Inr (), m)" "mo_procs m \<noteq> []"
    and "\<not> Reachable (ol_Host s) (en_first e)" "\<forall>i. \<not> Reachable (ol_Host s) (en_probe e i)"
  shows "case reconcile_compute True s e tags (False, NewCompute) of rc \<Rightarrow>
     \<not> fst rc \<and> shutdown_compute rc = rc \<and> reconcile_compute False s e tags rc = rc \<and>
     (\<exists>p. (p, False) \<in> set (mo_procs (cc_manager (snd rc))))"
proof -
  have p: "mo_procs m = [(0, False)]" using assms(2,3)
    by (auto simp: mgr_spawn_def NewOllamaManager_def split: option.splits sum.splits if_splits)
  have "fst (wait_ready (ol_Host s) e ready_attempts 0) \<noteq> None" using assms(5) by (simp add: wait_ready_ok)
  then obtain err w where "EnsureRunning s e NewOllamaManager = (Some err, m, w)"
    using assms by (cases "wait_ready (ol_Host s) e ready_attempts 0") (auto simp: EnsureRunning_def)
  then have "reconcile_compute True s e tags (False, NewCompute) = (False, NewCompute\<lparr>cc_manager := m\<rparr>)"
    by (simp add: reconcile_compute_def Compute_Start_def NewCompute_def)
  then show ?thesis using p by (simp add: shutdown_compute_def reconcile_compute_def)
qed

theorem failed_start_leaks_server_witness:
  "let s = c_Ollama Default\<lparr>ol_Manage := True\<rparr>;
       e = \<lparr>en_first = NoReply, en_exec = (\<lambda>p. True), en_path = None, en_spawns = True, en_probe = (\<lambda>i. NoReply), en_cancelled = (\<lambda>i. False)\<rparr>;
       rc = reconcile_compute True s e NoReply (False, NewCompute)
   in shutdown_compute rc = rc \<and> (\<exists>p. (p, False) \<in> set (mo_procs (cc_manager (snd rc))))"
proof -
  let ?s = "c_Ollama Default\<lparr>ol_Manage := True\<rparr>"
  let ?e = "\<lparr>en_first = NoReply, en_exec = (\<lambda>p. True), en_path = None, en_spawns = True, en_probe = (\<lambda>i. NoReply), en_cancelled = (\<lambda>i. False)\<rparr>"
  have spawn: "mgr_spawn ?s ?e NewOllamaManager = (Inr (), \<lparr>mo_cmd = Some 0, mo_procs = [(0, False)], mo_next = 1\<rparr>)" by code_simp
  have probe: "\<not> Reachable (ol_Host ?s) NoReply" by code_simp
  have "ol_Manage ?s" by simp
  from failed_start_leaks_server [OF this spawn, of NoReply] probe show ?thesis by (simp add: Let_def)
qed

section \<open>One pull at a time\<close>

definition pull_inv :: "pulls \<Rightarrow> bool" where
  "pull_inv p \<longleftrightarrow> (case pu_state p of None \<Rightarrow> pu_running p = []
     | Some st \<Rightarrow> pu_running p = (if pl_Status st = Pulling then [pl_Model st] else []))"

lemma pull_inv_step: "pull_step p p' \<Longrightarrow> pull_inv p \<Longrightarrow> pull_inv p'"
  by (induction rule: pull_step.induct)
    (auto simp: pull_inv_def StartPull_def pull_progress_def pull_end_def Let_def split: option.splits if_splits)

lemma pull_inv_reach: "pull_step\<^sup>*\<^sup>* p p' \<Longrightarrow> pull_inv p \<Longrightarrow> pull_inv p'"
  by (induction rule: rtranclp_induct) (auto intro: pull_inv_step)

text \<open>
  One pull at a time: however starts, progress and ends interleave, at most one download runs;
  it runs exactly while the state says so and is the model the state names, so progress is never
  shown for another model, and a start while it runs is refused with its name.
\<close>

theorem one_pull_at_a_time:
  assumes "pull_step\<^sup>*\<^sup>* \<lparr>pu_state = None, pu_running = []\<rparr> p"
  shows "(case pu_state p of None \<Rightarrow> pu_running p = []
      | Some st \<Rightarrow> pu_running p = (if pl_Status st = Pulling then [pl_Model st] else [])) \<and>
    (\<forall>cfg model m. pu_running p = [m] \<and> cap_Compute (c_Capabilities cfg) \<longrightarrow> StartPull cfg model p = (Some (ErrPullInProgress m), p))"
proof -
  have "pull_inv p" using pull_inv_reach [OF assms] by (simp add: pull_inv_def)
  then show ?thesis by (auto simp: pull_inv_def StartPull_def split: option.splits if_splits)
qed

theorem one_pull_at_a_time_witness:
  "\<exists>p st. pull_step\<^sup>*\<^sup>* \<lparr>pu_state = None, pu_running = []\<rparr> p \<and> pu_state p = Some st \<and> pl_Detail st = ''downloading'' \<and>
     pu_running p = [''llama3.2:3b''] \<and>
     StartPull (Default\<lparr>c_Capabilities := \<lparr>cap_Memory = False, cap_Compute = True\<rparr>\<rparr>) ''x'' p = (Some (ErrPullInProgress ''llama3.2:3b''), p)"
proof -
  let ?i = "\<lparr>pu_state = None, pu_running = []\<rparr>" and ?cfg = "Default\<lparr>c_Capabilities := \<lparr>cap_Memory = False, cap_Compute = True\<rparr>\<rparr>"
  let ?st = "\<lparr>pl_Model = ''llama3.2:3b'', pl_Status = Pulling, pl_Detail = [], pl_Completed = 0, pl_Total = 0\<rparr>"
  let ?p = "\<lparr>pu_state = Some (?st\<lparr>pl_Detail := ''downloading'', pl_Completed := 1, pl_Total := 2\<rparr>), pu_running = [''llama3.2:3b'']\<rparr>"
  have "pull_step ?i \<lparr>pu_state = Some ?st, pu_running = [''llama3.2:3b'']\<rparr>"
    by (rule PullStart [of ?cfg "''llama3.2:3b''" _ None]) (simp add: StartPull_def)
  moreover have "pull_step \<lparr>pu_state = Some ?st, pu_running = [''llama3.2:3b'']\<rparr> ?p"
    using PullProgress [of "''llama3.2:3b''" "\<lparr>pu_state = Some ?st, pu_running = [''llama3.2:3b'']\<rparr>"
        "\<lparr>pp_Status = ''downloading'', pp_Digest = [], pp_Total = 2, pp_Completed = 1, pp_Error = []\<rparr>"]
    by (simp add: pull_progress_def)
  ultimately have r: "pull_step\<^sup>*\<^sup>* ?i ?p" by simp
  then have "StartPull ?cfg ''x'' ?p = (Some (ErrPullInProgress ''llama3.2:3b''), ?p)"
    using one_pull_at_a_time [OF r] by simp
  then show ?thesis using r by (intro exI [of _ ?p] exI) auto
qed

section \<open>A stream that reports an error\<close>

lemma hex_digit_no_lf: "n < 16 \<Longrightarrow> hex_digit n \<noteq> CHR 0x0A"
proof
  assume "n < 16" "hex_digit n = CHR 0x0A"
  then have "of_char (hex_digit n) = (10 :: nat)" by simp
  then show False using \<open>n < 16\<close> by (auto simp: hex_digit_def of_char_of split: if_splits)
qed

lemma esc_char_no_lf: "CHR 0x0A \<notin> set (esc_char c)"
proof -
  have "of_char c div 16 < (16 :: nat)" using of_char_less_256 [of c] by (simp add: less_mult_imp_div_less)
  then have "CHR 0x0A \<notin> set (hex2 (of_char c))"
    unfolding hex2_def by (metis hex_digit_no_lf list.set_cases mod_less_divisor set_ConsD set_empty2 empty_iff zero_less_numeral list.set(1))
  then show ?thesis by (simp add: esc_char_def)
qed

lemma quote_str_no_lf: "CHR 0x0A \<notin> set (quote_str s)"
  using esc_char_no_lf by (auto simp: quote_str_def)

text \<open>A line of the stream that carries text, and the line Ollama sends when a generation fails.\<close>

definition chunk_line :: "string \<Rightarrow> string" where
  "chunk_line t = json_text (JObj [(''response'', JStr t), (''done'', JBool False)])"

definition error_line :: "string \<Rightarrow> string" where
  "error_line e = json_text (JObj [(''error'', JStr e)])"

lemma lines_no_lf: "CHR 0x0A \<notin> set (chunk_line t)" "CHR 0x0A \<notin> set (error_line e)"
  using quote_str_no_lf by (auto simp: chunk_line_def error_line_def)

lemma object_TrimSpace: "TrimSpace (json_text (JObj kvs)) = json_text (JObj kvs)"
  by (simp add: TrimSpace_def is_space_def)

lemma delta_of_lines:
  "TrimSpace (chunk_line t) = chunk_line t" "chunk_line t \<noteq> []"
  "TrimSpace (error_line e) = error_line e" "error_line e \<noteq> []"
  "delta_of_line (chunk_line t) = Some \<lparr>gd_Response = t, gd_Done = False, gd_PromptEvalCount = 0, gd_EvalCount = 0\<rparr>"
  "delta_of_line (error_line e) = Some \<lparr>gd_Response = [], gd_Done = False, gd_PromptEvalCount = 0, gd_EvalCount = 0\<rparr>"
proof -
  have "json_parse (chunk_line t) = Some (JObj [(''response'', JStr t), (''done'', JBool False)])"
    "json_parse (error_line e) = Some (JObj [(''error'', JStr e)])"
    unfolding chunk_line_def error_line_def by (rule json_parse_text, simp)+
  then show "delta_of_line (chunk_line t) = Some \<lparr>gd_Response = t, gd_Done = False, gd_PromptEvalCount = 0, gd_EvalCount = 0\<rparr>"
    "delta_of_line (error_line e) = Some \<lparr>gd_Response = [], gd_Done = False, gd_PromptEvalCount = 0, gd_EvalCount = 0\<rparr>"
    by (simp_all add: delta_of_line_def struct_fields_def dec_str_def dec_bool_def dec_int_def go_strings)
qed (simp_all only: object_TrimSpace chunk_line_def error_line_def, simp_all)

lemma body_lines_concat:
  "list_all (\<lambda>l. CHR 0x0A \<notin> set l \<and> length l < max_token) ls \<Longrightarrow> body_lines (concat (map (\<lambda>l. l @ [CHR 0x0A]) ls)) ok = (ls, ok)"
proof (induction ls)
  case (Cons l ls)
  then have "cut_byte (CHR 0x0A) (l @ CHR 0x0A # concat (map (\<lambda>l. l @ [CHR 0x0A]) ls)) = Some (l, concat (map (\<lambda>l. l @ [CHR 0x0A]) ls))"
    by (intro cut_byte_append) simp
  then show ?case using Cons by (subst body_lines.simps) simp
qed (simp add: body_lines.simps)

lemma stream_items_error_line:
  "stream_items (map chunk_line ts @ [error_line e]) ok = map (\<lambda>t. GenChunk t 0 False) ts @ GenChunk [] 0 False # (if ok then [] else [GenErr ''scan''])"
  by (induction ts) (simp_all add: delta_of_lines Let_def)

lemma collect_chunks: "collect acc (map (\<lambda>t. GenChunk t 0 False) ts @ [GenChunk [] 0 False]) = Inr (acc @ concat ts)"
  by (induction ts arbitrary: acc) auto

lemma stream_chunks: "stream_fails (map (\<lambda>t. GenChunk t 0 False) ts @ [GenChunk [] 0 False]) = None"
  by (induction ts) auto

definition framed :: "string list \<Rightarrow> bytes" where
  "framed ls = concat (map (\<lambda>l. l @ [CHR 0x0A]) ls)"

text \<open>
  A generation that fails half way is taken for a finished one. Ollama reports a failure during
  a stream as a line with an error member, which GenerateDelta does not have: whatever was
  generated before is returned by the admin API as the full text, and an app on the LAN is told
  that its generation completed.
\<close>

theorem error_line_taken_as_end:
  assumes "cc_started c" "cc_currentModel c \<noteq> []" "url_parse (NewClient (ol_Host s) @ ''/api/generate'') \<noteq> None"
    and "serve (cc_currentModel c) = StreamBody (framed (map chunk_line ts @ [error_line err])) True"
    and "list_all (\<lambda>t. length (chunk_line t) < max_token) ts" "length (error_line err) < max_token"
  shows "fst (Node_Generate s tags serve None c) = Inr (concat ts, cc_currentModel c) \<and>
    (\<exists>items. fst (StreamGenerateModel s tags serve None c) = Inr (items, cc_currentModel c) \<and>
      (\<forall>e. ge_backend e = Streams items \<and> (\<forall>n. ge_sendOK e n) \<longrightarrow> last (Router_generate e) = OCompleted ''stop''))"
proof -
  let ?items = "map (\<lambda>t. GenChunk t 0 False) ts @ [GenChunk [] 0 False]"
  have "body_lines (framed (map chunk_line ts @ [error_line err])) True = (map chunk_line ts @ [error_line err], True)"
    unfolding framed_def using assms(5,6) lines_no_lf by (intro body_lines_concat) (auto simp: list_all_iff)
  then have "StreamGenerate (ol_Host s) (serve (cc_currentModel c)) None = Inr ?items"
    using assms(3,4) by (simp add: StreamGenerate_def stream_items_error_line)
  then have g: "StreamGenerateModel s tags serve None c = (Inr (?items, cc_currentModel c), c)"
    using assms(1,2) by (simp add: StreamGenerateModel_def)
  have "last (Router_generate e) = OCompleted ''stop''" if "ge_backend e = Streams ?items" "\<forall>n. ge_sendOK e n" for e
  proof -
    have ok: "ge_sendOK e = (\<lambda>_. True)" using that(2) by auto
    obtain inp where "gen_loop (\<lambda>_. True) 2 0 0 ?items = (deltas 0 (stream_texts ?items), Some (0 + length (stream_texts ?items), inp))"
      using gen_loop_spec [where ok = "\<lambda>_. True" and items = ?items and n = 2 and i = 0 and inp = 0] stream_chunks [of ts] by auto
    then show ?thesis using that(1) by (simp add: Router_generate_def ok Let_def)
  qed
  then show ?thesis using g collect_chunks [of "[]"] by (auto simp: Node_Generate_def)
qed

theorem error_line_taken_as_end_witness:
  "fst (Node_Generate (c_Ollama Default) NoReply (\<lambda>m. StreamBody (framed [chunk_line ''The answer is '', error_line ''out of memory'']) True) None
     (NewCompute\<lparr>cc_started := True, cc_currentModel := ''llama3.2:3b''\<rparr>)) = Inr (''The answer is '', ''llama3.2:3b'')"
proof -
  let ?c = "NewCompute\<lparr>cc_started := True, cc_currentModel := ''llama3.2:3b''\<rparr>"
  let ?serve = "\<lambda>m :: string. StreamBody (framed (map chunk_line [''The answer is ''] @ [error_line ''out of memory''])) True"
  have c: "cc_started ?c" "cc_currentModel ?c \<noteq> []" "cc_currentModel ?c = ''llama3.2:3b''" by simp_all
  have u: "url_parse (NewClient (ol_Host (c_Ollama Default)) @ ''/api/generate'') \<noteq> None" by code_simp
  have l: "length (chunk_line ''The answer is '') < max_token" "length (error_line ''out of memory'') < max_token"
    by (simp_all add: chunk_line_def error_line_def quote_str_def esc_char_def max_token_def)
  have lt: "list_all (\<lambda>t. length (chunk_line t) < max_token) [''The answer is '']" using l by simp
  from error_line_taken_as_end [OF c(1,2) u, of ?serve, OF refl lt l(2), of NoReply]
  have "fst (Node_Generate (c_Ollama Default) NoReply ?serve None ?c) = Inr (''The answer is '', ''llama3.2:3b'')"
    unfolding c(3) by simp
  then show ?thesis by simp
qed

end
