(* ===== verification/Setup.thy ===== *)
theory Setup
  imports Compute SignIn Install
begin

text \<open>
  The command line around the node (cmd/onesilo-node): the shapes of reach and their picker, the
  admin token file, `setup` up to the panel, the parent watch, the health check and the choice of
  the configuration path; and the level and format a log handler is built with
  (internal/logging/logging.go). Standard input is the list of complete lines still to be read;
  downloads, probes and failing writes are outcomes; what is only printed is left out, except the
  lines whose words are a claim.
\<close>

section \<open>Shapes\<close>

datatype Shape = ShapeAgents | ShapeNetwork | ShapeAnywhere

definition shape_name :: "Shape \<Rightarrow> string" where
  "shape_name s = (case s of ShapeAgents \<Rightarrow> ''agents'' | ShapeNetwork \<Rightarrow> ''network'' | ShapeAnywhere \<Rightarrow> ''anywhere'')"

definition shapeOrder :: "Shape list" where
  "shapeOrder = [ShapeAgents, ShapeNetwork, ShapeAnywhere]"

record shapeInfo =
  si_label :: string
  si_goodFor :: string
  si_detail :: "string list"
  si_followUp :: string

definition shapeInfos :: "Shape \<Rightarrow> shapeInfo" where
  "shapeInfos s = (case s of
     ShapeAgents \<Rightarrow> \<lparr>si_label = ''Serve agents on this machine'', si_goodFor = ''local agents using this node'',
       si_detail = [''onesilo-buzz, an editor plugin, anything running here.'', ''Nothing listens beyond loopback and nothing is advertised.''],
       si_followUp = []\<rparr>
   | ShapeNetwork \<Rightarrow> \<lparr>si_label = ''Serve people on this network'', si_goodFor = ''humans using this node on this network'',
       si_detail = [''The Silo app on your phone or laptop finds it automatically,'',
         ''at home or in the office. Approved devices only, end-to-end encrypted.''], si_followUp = []\<rparr>
   | ShapeAnywhere \<Rightarrow> \<lparr>si_label = ''Serve people anywhere'', si_goodFor = ''humans using this node anywhere'',
       si_detail = [''The same devices, off your network, over an encrypted tunnel'', ''registered with One Silo.''],
       si_followUp = ''LAN is set up; remote access is not on yet '' @ [CHR 0xE2, CHR 0x80, CHR 0x94] @
         '' turn it on from the panel to sign in and open the tunnel.''\<rparr>)"

definition parseShape :: "string \<Rightarrow> Shape option" where
  "parseShape s = (let t = ToLower (TrimSpace s) in find (\<lambda>sh. shape_name sh = t) shapeOrder)"

definition applyShape :: "Shape \<Rightarrow> Config \<Rightarrow> Config" where
  "applyShape shape cfg0 = (let cfg = cfg0\<lparr>c_Mode := ModeLocal\<rparr> in case shape of
     ShapeAgents \<Rightarrow> cfg\<lparr>c_LAN := c_LAN cfg\<lparr>lan_Enabled := False\<rparr>, c_Tunnel := c_Tunnel cfg\<lparr>tn_Mode := TunnelModeOff\<rparr>\<rparr>
   | ShapeNetwork \<Rightarrow> cfg\<lparr>c_LAN := c_LAN cfg\<lparr>lan_Enabled := True\<rparr>, c_Tunnel := c_Tunnel cfg\<lparr>tn_Mode := TunnelModeOff\<rparr>\<rparr>
   | ShapeAnywhere \<Rightarrow> cfg\<lparr>c_LAN := c_LAN cfg\<lparr>lan_Enabled := True\<rparr>\<rparr>)"

definition describeShape :: "Config \<Rightarrow> bool \<Rightarrow> Shape" where
  "describeShape cfg remote = (if remote then ShapeAnywhere else if lan_Enabled (c_LAN cfg) then ShapeNetwork else ShapeAgents)"

text \<open>The picker's loop: the number, the name, an empty line or the end of input for the default.\<close>

fun askShape_loop :: "Shape \<Rightarrow> string list \<Rightarrow> Shape \<times> string list" where
  "askShape_loop def [] = (def, [])"
| "askShape_loop def (l # ls) =
     (let answer = ToLower (TrimSpace l) in
      if answer = [] then (def, ls)
      else case find (\<lambda>(i, s). answer = show_nat (i + 1) \<or> answer = shape_name s) (List.enumerate 0 shapeOrder) of
        Some (i, s) \<Rightarrow> (s, ls) | None \<Rightarrow> askShape_loop def ls)"

definition askShape :: "bool \<Rightarrow> Shape \<Rightarrow> string list \<Rightarrow> Shape \<times> string list" where
  "askShape assumeYes def ls = (if assumeYes then (def, ls) else askShape_loop def ls)"

text \<open>What is announced: the shape the configuration adds up to, and the step left to do.\<close>

definition announceShape :: "Config \<Rightarrow> Shape \<Rightarrow> Shape \<times> string" where
  "announceShape cfg shape = (let actual = describeShape cfg (Exposed cfg) in
     (actual, if shape \<noteq> actual then si_followUp (shapeInfos shape) else []))"

section \<open>The admin token\<close>

definition adminTokenFile :: string where "adminTokenFile = ''admin.token''"

record token_env =
  te_random :: "bytes option"   \<comment> \<open>32 bytes, unless the random source fails\<close>
  te_mkdir :: bool
  te_write :: wf_fault

datatype token_err = ErrTokenDir | ErrTokenRandom | ErrTokenWrite fs_err

definition token_of_file :: "string \<Rightarrow> disk \<Rightarrow> string" where
  "token_of_file dataDir d = (case ReadFile d (path_join dataDir adminTokenFile) of Inl _ \<Rightarrow> [] | Inr b \<Rightarrow> TrimSpace b)"

definition ensureAdminToken :: "token_env \<Rightarrow> string \<Rightarrow> disk \<Rightarrow> (token_err + string \<times> bool) \<times> disk" where
  "ensureAdminToken e dataDir d =
    (if token_of_file dataDir d \<noteq> [] then (Inr (token_of_file dataDir d, False), d)
     else if \<not> te_mkdir e then (Inl ErrTokenDir, d)
     else case te_random e of
       None \<Rightarrow> (Inl ErrTokenRandom, d)
     | Some buf \<Rightarrow> (case WriteFile (te_write e) (path_join dataDir adminTokenFile) (hex_encode buf @ [CHR 0x0A]) mode_0600 d of
          (d', Some err) \<Rightarrow> (Inl (ErrTokenWrite err), d')
        | (d', None) \<Rightarrow> (Inr (hex_encode buf, True), d')))"

datatype token_source_kind = FromEnv | FromFile | NoToken

definition resolveAdminToken :: "string \<Rightarrow> string option \<Rightarrow> disk \<Rightarrow> string \<times> token_source_kind" where
  "resolveAdminToken dataDir env d =
    (case env of
       Some v \<Rightarrow> if v \<noteq> [] then (v, FromEnv)
         else if dataDir = [] then ([], NoToken)
         else if token_of_file dataDir d \<noteq> [] then (token_of_file dataDir d, FromFile) else ([], NoToken)
     | None \<Rightarrow> if dataDir = [] then ([], NoToken)
         else if token_of_file dataDir d \<noteq> [] then (token_of_file dataDir d, FromFile) else ([], NoToken))"

section \<open>Prompts and the compute bootstrap\<close>

fun confirm_loop :: "bool \<Rightarrow> string list \<Rightarrow> bool \<times> string list" where
  "confirm_loop def [] = (def, [])"
| "confirm_loop def (l # ls) =
     (let a = ToLower (TrimSpace l) in
      if a = [] then (def, ls)
      else if a = ''y'' \<or> a = ''yes'' then (True, ls)
      else if a = ''n'' \<or> a = ''no'' then (False, ls)
      else confirm_loop def ls)"

definition confirm :: "bool \<Rightarrow> bool \<Rightarrow> string list \<Rightarrow> bool \<times> string list" where
  "confirm assumeYes def ls = (if assumeYes then (def, ls) else confirm_loop def ls)"

definition norm_model :: "string \<Rightarrow> string" where
  "norm_model nm = (if \<not> Contains nm '':'' then nm @ '':latest'' else nm)"

definition hasModel :: "ol_model list \<Rightarrow> string \<Rightarrow> bool" where
  "hasModel models want \<longleftrightarrow> list_ex (\<lambda>m. norm_model (om_Name m) = norm_model want) models"

text \<open>ensureModel on a manager of its own: the server is stopped again only if it was not running before.\<close>

definition ensureModel :: "OllamaCfg \<Rightarrow> ensure_env \<Rightarrow> reply \<Rightarrow> reply \<Rightarrow> stream_reply \<Rightarrow> string \<Rightarrow> ol_err option \<times> ol_manager" where
  "ensureModel s e first tags r model =
    (let wasRunning = Reachable (ol_Host s) first in
     case EnsureRunning s e NewOllamaManager of
       (Some err, m, _) \<Rightarrow> (Some err, m)
     | (None, m, _) \<Rightarrow>
        let m' = (if wasRunning then m else Manager_Stop m) in
        (case Tags (ol_Host s) tags of
           Inr models \<Rightarrow> if hasModel models model then (None, m') else (snd (Client_Pull (ol_Host s) model r False), m')
         | Inl _ \<Rightarrow> (snd (Client_Pull (ol_Host s) model r False), m')))"

record setup_env =
  su_statfails :: bool
  su_home :: "string option"
  su_serve :: string
  su_yes :: bool
  su_token :: token_env
  su_probe :: reply
  su_exec :: "string \<Rightarrow> bool"
  su_path :: "string option"
  su_os :: "string \<times> string"
  su_install :: "install_err + string"   \<comment> \<open>installFromArchive\<close>
  su_save :: save_fault

datatype setup_err = ErrOllamaDeclined | ErrOllamaInstall install_err

definition ensureOllamaAvailable :: "setup_env \<Rightarrow> Config \<Rightarrow> string list \<Rightarrow> (setup_err option \<times> Config) \<times> string list" where
  "ensureOllamaAvailable e cfg ls =
    (let s = c_Ollama cfg in
     if Reachable (ol_Host s) (su_probe e) then ((None, cfg), ls)
     else case ollama_FindBinary (su_exec e) (su_path e) (ol_BinaryPath s) of
       Inr bin \<Rightarrow> ((None, cfg\<lparr>c_Ollama := s\<lparr>ol_Manage := True\<rparr>\<rparr>), ls)
     | Inl _ \<Rightarrow>
        (case ollamaAssetURL (fst (su_os e)) (snd (su_os e)) of
           Inl err \<Rightarrow> ((Some (ErrOllamaInstall err), cfg), ls)
         | Inr url \<Rightarrow>
            (case confirm (su_yes e) True ls of
               (False, ls') \<Rightarrow> ((Some ErrOllamaDeclined, cfg), ls')
             | (True, ls') \<Rightarrow>
                (case su_install e of
                   Inl err \<Rightarrow> ((Some (ErrOllamaInstall err), cfg), ls')
                 | Inr bin \<Rightarrow> ((None, cfg\<lparr>c_Ollama := s\<lparr>ol_BinaryPath := bin, ol_Manage := True\<rparr>\<rparr>), ls')))))"

section \<open>setup\<close>

definition applyProductDefaults :: "Config \<Rightarrow> Config" where
  "applyProductDefaults cfg = cfg\<lparr>c_Mode := ModeLocal, c_Capabilities := \<lparr>cap_Memory = True, cap_Compute = True\<rparr>\<rparr>"

text \<open>The path: the flag, then SILO_NODE_CONFIG, then the default.\<close>

definition config_path :: "string \<Rightarrow> string \<Rightarrow> string \<Rightarrow> string" where
  "config_path flag env dflt = (if flag \<noteq> [] then flag else if env \<noteq> [] then env else dflt)"

definition stat_path :: "bool \<Rightarrow> string \<Rightarrow> disk \<Rightarrow> stat_result" where
  "stat_path fails path d = (if fails then StatFails else case map_get d path of Some f \<Rightarrow> StatOk (f_data f) | None \<Rightarrow> StatMissing)"

text \<open>The reach question: the flag, else the picker on a first run, else what the file says.\<close>

definition setup_shape :: "setup_env \<Rightarrow> bool \<Rightarrow> Config \<Rightarrow> string list \<Rightarrow> (Config \<times> string list) option" where
  "setup_shape e firstRun cfg ls =
    (if TrimSpace (su_serve e) \<noteq> [] then
       (case parseShape (TrimSpace (su_serve e)) of None \<Rightarrow> None | Some sh \<Rightarrow> Some (applyShape sh cfg, ls))
     else if firstRun then (case askShape (su_yes e) ShapeAgents ls of (sh, ls') \<Rightarrow> Some (applyShape sh cfg, ls'))
     else Some (cfg, ls))"

text \<open>The bootstrap; the pulls change nothing here, but their questions are asked.\<close>

definition setup_compute :: "setup_env \<Rightarrow> bool \<Rightarrow> Config \<Rightarrow> string list \<Rightarrow> Config \<times> string list" where
  "setup_compute e firstRun cfg ls =
    (if \<not> cap_Compute (c_Capabilities cfg) then (cfg, ls)
     else case ensureOllamaAvailable e cfg ls of
       ((Some err, cfg'), ls') \<Rightarrow> (cfg'\<lparr>c_Capabilities := c_Capabilities cfg'\<lparr>cap_Compute := False\<rparr>\<rparr>, ls')
     | ((None, cfg'), ls') \<Rightarrow>
        if \<not> firstRun then (cfg', ls')
        else let ls1 = snd (confirm (su_yes e) True ls') in
          (cfg', if cap_Memory (c_Capabilities cfg') then snd (confirm (su_yes e) True ls1) else ls1))"

text \<open>How setup ends: with an exit code, or by handing over to the panel.\<close>

datatype setup_end = ExitCode nat | RunPanel Config string "string list"

definition runSetup :: "(Config \<Rightarrow> bytes \<Rightarrow> toml_result) \<Rightarrow> (Config \<Rightarrow> bytes) \<Rightarrow> setup_env \<Rightarrow> string \<Rightarrow> string list \<Rightarrow> disk \<Rightarrow> setup_end \<times> disk" where
  "runSetup toml enc e path ls d =
    (let st = stat_path (su_statfails e) path d; firstRun = (st = StatMissing) in
     case Load toml (Some st) (\<lambda>_. None) (\<lambda>_. None) of
       Inl _ \<Rightarrow> (ExitCode 1, d)
     | Inr cfg0 \<Rightarrow>
        let cfg1 = (if firstRun then applyProductDefaults cfg0 else cfg0) in
        (case ResolvedDataDir (su_home e) cfg1 of
           None \<Rightarrow> (ExitCode 1, d)
         | Some dataDir \<Rightarrow>
            (case setup_shape e firstRun cfg1 ls of
               None \<Rightarrow> (ExitCode 2, d)
             | Some (cfg2, ls2) \<Rightarrow>
                (case ensureAdminToken (su_token e) dataDir d of
                   (Inl _, d1) \<Rightarrow> (ExitCode 1, d1)
                 | (Inr (token, created), d1) \<Rightarrow>
                    (case setup_compute e firstRun cfg2 ls2 of
                       (cfg3, ls3) \<Rightarrow>
                         if Validate cfg3 \<noteq> None then (ExitCode 1, d1)
                         else (case Save enc (su_save e) cfg3 path d1 of
                            (d2, Some _) \<Rightarrow> (ExitCode 1, d2)
                          | (d2, None) \<Rightarrow> if su_yes e then (ExitCode 0, d2) else (RunPanel cfg3 token ls3, d2)))))))"

section \<open>The parent watch\<close>

definition parentPIDFromEnv :: "string option \<Rightarrow> int option" where
  "parentPIDFromEnv raw = (case raw of None \<Rightarrow> None
     | Some s \<Rightarrow> (case parse_int64 (TrimSpace s) of None \<Rightarrow> None | Some pid \<Rightarrow> if pid \<le> 1 then None else Some pid))"

datatype signal_outcome = SigOK | SigEPERM | SigESRCH

definition processAlive :: "signal_outcome \<Rightarrow> bool" where
  "processAlive s \<longleftrightarrow> s = SigOK \<or> s = SigEPERM"

definition parentGone :: "bool \<Rightarrow> bool \<Rightarrow> bool \<Rightarrow> bool" where
  "parentGone alive trackPPID reparented = (if trackPPID \<and> reparented then True else \<not> alive)"

text \<open>The ticks of the watch, each a probe and the parent pid read then; the number of ticks until it cancels.\<close>

fun watchParent :: "int \<Rightarrow> bool \<Rightarrow> (signal_outcome \<times> int) list \<Rightarrow> nat option" where
  "watchParent pid trackPPID [] = None"
| "watchParent pid trackPPID ((s, ppid) # ticks) =
     (if parentGone (processAlive s) trackPPID (ppid \<noteq> pid) then Some 1
      else map_option Suc (watchParent pid trackPPID ticks))"

section \<open>Health check and logging\<close>

definition runHealthcheck :: "cfg_err + Config \<Rightarrow> nat option \<Rightarrow> nat \<times> string" where
  "runHealthcheck cfg status =
    (case cfg of
       Inl _ \<Rightarrow> (1, [])
     | Inr c \<Rightarrow> (if status = Some 200 then 0 else 1, ''http://127.0.0.1:'' @ show_int (c_AdminPort c) @ ''/healthz''))"

definition handlerOptions :: "LogCfg \<Rightarrow> level" where
  "handlerOptions c = (let l = ToLower (log_Level c) in
     if l = ''debug'' then Debug else if l = ''info'' then Info else if l = ''warn'' then Warn else if l = ''error'' then Error else Info)"

datatype handler_kind = JSONHandler | TextHandler

definition handlerFor :: "LogCfg \<Rightarrow> handler_kind" where
  "handlerFor c = (if log_Format c = ''json'' then JSONHandler else TextHandler)"

section \<open>Reach\<close>

lemma applyShape_reach:
  "c_Capabilities (applyShape sh cfg) = c_Capabilities cfg" "c_OpenAI (applyShape sh cfg) = c_OpenAI cfg"
  "c_Mode (applyShape sh cfg) = ModeLocal" "lan_Enabled (c_LAN (applyShape sh cfg)) \<longleftrightarrow> sh \<noteq> ShapeAgents"
  "Exposed (applyShape sh cfg) \<longleftrightarrow> sh = ShapeAnywhere \<and> Exposed cfg"
  by (cases sh; simp add: applyShape_def Exposed_def Let_def)+

lemma parseShape_name: "parseShape (shape_name s) = Some s"
  by (cases s) (simp_all add: parseShape_def shape_name_def shapeOrder_def Let_def go_strings)

lemma no_settings: "apply_settings ss nm (\<lambda>_. None) c = Inr c"
  by (induction ss) auto

lemma Load_fresh: "Load toml (Some StatMissing) (\<lambda>_. None) (\<lambda>_. None) = Inr c \<Longrightarrow> c = Default"
  by (auto simp: Load_def no_settings split: option.splits)

lemma Load_file:
  "Load toml (Some (StatOk raw)) (\<lambda>_. None) (\<lambda>_. None) = Inr c \<Longrightarrow> toml Default raw = TomlOk c"
  by (auto simp: Load_def no_settings split: option.splits toml_result.splits)

text \<open>The bootstrap touches Ollama's settings, and may switch compute off.\<close>

definition with_ollama :: "bool \<Rightarrow> string \<Rightarrow> Config \<Rightarrow> Config" where
  "with_ollama m b cfg = cfg\<lparr>c_Ollama := c_Ollama cfg\<lparr>ol_Manage := m, ol_BinaryPath := b\<rparr>\<rparr>"

lemma with_ollama_intros:
  "\<exists>m b. cfg = with_ollama m b cfg" "\<exists>m b. cfg\<lparr>c_Ollama := c_Ollama cfg\<lparr>ol_Manage := True\<rparr>\<rparr> = with_ollama m b cfg"
  "\<exists>m b. cfg\<lparr>c_Ollama := c_Ollama cfg\<lparr>ol_BinaryPath := p, ol_Manage := True\<rparr>\<rparr> = with_ollama m b cfg"
proof -
  show "\<exists>m b. cfg = with_ollama m b cfg"
    by (rule exI [of _ "ol_Manage (c_Ollama cfg)"], rule exI [of _ "ol_BinaryPath (c_Ollama cfg)"]) (simp add: with_ollama_def)
  show "\<exists>m b. cfg\<lparr>c_Ollama := c_Ollama cfg\<lparr>ol_Manage := True\<rparr>\<rparr> = with_ollama m b cfg"
    by (rule exI [of _ True], rule exI [of _ "ol_BinaryPath (c_Ollama cfg)"]) (simp add: with_ollama_def)
  show "\<exists>m b. cfg\<lparr>c_Ollama := c_Ollama cfg\<lparr>ol_BinaryPath := p, ol_Manage := True\<rparr>\<rparr> = with_ollama m b cfg"
    by (rule exI [of _ True], rule exI [of _ p]) (simp add: with_ollama_def)
qed

lemma ensureOllama_frame:
  "ensureOllamaAvailable e cfg ls = ((r, cfg'), ls') \<Longrightarrow> \<exists>m b. cfg' = with_ollama m b cfg"
  by (auto simp: ensureOllamaAvailable_def Let_def split: if_splits sum.splits prod.splits bool.splits intro!: with_ollama_intros)

lemma setup_compute_frame:
  assumes "setup_compute e firstRun cfg ls = (cfg', ls')"
  shows "\<exists>m b k. cfg' = cfg\<lparr>c_Ollama := c_Ollama cfg\<lparr>ol_Manage := m, ol_BinaryPath := b\<rparr>, c_Capabilities := \<lparr>cap_Memory = cap_Memory (c_Capabilities cfg), cap_Compute = k\<rparr>\<rparr>
     \<and> (k \<longrightarrow> cap_Compute (c_Capabilities cfg))"
proof (cases "cap_Compute (c_Capabilities cfg)")
  case True
  obtain r cfg1 ls1 where o: "ensureOllamaAvailable e cfg ls = ((r, cfg1), ls1)" by (metis surj_pair)
  obtain m b where c1: "cfg1 = cfg\<lparr>c_Ollama := c_Ollama cfg\<lparr>ol_Manage := m, ol_BinaryPath := b\<rparr>\<rparr>"
    using ensureOllama_frame [OF o] by (auto simp: with_ollama_def)
  have "cfg' = cfg1\<lparr>c_Capabilities := (c_Capabilities cfg)\<lparr>cap_Compute := r = None\<rparr>\<rparr>"
    using assms True o c1 by (cases r) (auto simp: setup_compute_def Let_def split: if_splits)
  then show ?thesis using c1 True by (intro exI [of _ m] exI [of _ b] exI [of _ "r = None"]) simp
next
  case False
  then show ?thesis using assms
    by (intro exI [of _ "ol_Manage (c_Ollama cfg)"] exI [of _ "ol_BinaryPath (c_Ollama cfg)"] exI [of _ False]) (auto simp: setup_compute_def)
qed

text \<open>A run of setup that gets to the end, step by step.\<close>

lemma runSetup_ends:
  assumes "runSetup toml enc e path ls d = (r, d')" "r \<noteq> ExitCode 1" "r \<noteq> ExitCode 2"
  obtains cfg0 dataDir cfg2 ls2 token created d1 cfg3 ls3 where
    "Load toml (Some (stat_path (su_statfails e) path d)) (\<lambda>_. None) (\<lambda>_. None) = Inr cfg0"
    "setup_shape e (stat_path (su_statfails e) path d = StatMissing)
       (if stat_path (su_statfails e) path d = StatMissing then applyProductDefaults cfg0 else cfg0) ls = Some (cfg2, ls2)"
    "ensureAdminToken (su_token e) dataDir d = (Inr (token, created), d1)"
    "setup_compute e (stat_path (su_statfails e) path d = StatMissing) cfg2 ls2 = (cfg3, ls3)"
    "Validate cfg3 = None" "Save enc (su_save e) cfg3 path d1 = (d', None)"
    "ResolvedDataDir (su_home e) (if stat_path (su_statfails e) path d = StatMissing then applyProductDefaults cfg0 else cfg0) = Some dataDir"
  using assms by (simp add: runSetup_def Let_def split: sum.splits option.splits prod.splits if_splits)

lemma Save_data: "Save enc f cfg path d = (d', None) \<Longrightarrow> map_option f_data (map_get d' path) = Some (enc cfg)"
  by (auto simp: Save_def Let_def map_get_put split: save_fault.splits)

text \<open>The address the LAN server binds: no host, so every interface.\<close>

definition listen_addr :: "Config \<Rightarrow> string" where
  "listen_addr cfg = '':'' @ show_int (lan_Port (c_LAN cfg))"

text \<open>
  The narrowest shape still serves the network. A first non-interactive setup announces
  ``Serve agents on this machine'' and promises that nothing listens beyond loopback; but the
  configuration it writes has memory on, which makes the LAN capability run, and the server of that
  capability binds every interface.
\<close>

theorem agents_shape_still_listens:
  assumes "map_get d path = None" "TrimSpace (su_serve e) = []" "su_yes e" "runSetup toml enc e path ls d = (ExitCode 0, d')"
  shows "\<exists>cfg. map_option f_data (map_get d' path) = Some (enc cfg) \<and>
    announceShape cfg ShapeAgents = (ShapeAgents, []) \<and> \<not> lan_Enabled (c_LAN cfg) \<and> \<not> Exposed cfg \<and>
    ''Nothing listens beyond loopback and nothing is advertised.'' \<in> set (si_detail (shapeInfos ShapeAgents)) \<and>
    (\<forall>n r. nd_cfg n = cfg \<and> rc_start r ''lan'' = None \<longrightarrow> capRunning (Reconcile r n) ''lan'') \<and>
    fst (splitHostPort (listen_addr cfg)) = []"
proof -
  have st: "stat_path False path d = StatMissing" using assms(1) by (simp add: stat_path_def)
  show ?thesis
  proof (cases "su_statfails e")
    case True
    then show ?thesis using assms(4) by (simp add: runSetup_def stat_path_def Load_def)
  next
    case False
    have st': "stat_path (su_statfails e) path d = StatMissing" using False st by simp
    have codes: "ExitCode 0 \<noteq> ExitCode 1" "ExitCode 0 \<noteq> ExitCode 2" by simp_all
    obtain cfg0 dataDir cfg2 ls2 token created d1 cfg3 ls3 where run:
      "Load toml (Some StatMissing) (\<lambda>_. None) (\<lambda>_. None) = Inr cfg0"
      "setup_shape e True (applyProductDefaults cfg0) ls = Some (cfg2, ls2)"
      "setup_compute e True cfg2 ls2 = (cfg3, ls3)" "Save enc (su_save e) cfg3 path d1 = (d', None)"
      by (rule runSetup_ends [OF assms(4) codes, unfolded st', unfolded simp_thms if_True]) (rule that)
    have c2: "cfg2 = applyShape ShapeAgents (applyProductDefaults Default)"
      using run(2) Load_fresh [OF run(1)] assms(2,3) by (simp add: setup_shape_def askShape_def)
    obtain m b k where c3: "cfg3 = cfg2\<lparr>c_Ollama := c_Ollama cfg2\<lparr>ol_Manage := m, ol_BinaryPath := b\<rparr>, c_Capabilities := \<lparr>cap_Memory = cap_Memory (c_Capabilities cfg2), cap_Compute = k\<rparr>\<rparr>"
      using setup_compute_frame [OF run(3)] by blast
    have f: "\<not> lan_Enabled (c_LAN cfg3)" "\<not> Exposed cfg3" "cap_Memory (c_Capabilities cfg3)" "c_LAN cfg3 = c_LAN Default\<lparr>lan_Enabled := False\<rparr>"
      by (simp_all add: c3 c2 applyShape_def applyProductDefaults_def Exposed_def Let_def Default_def)
    have "Enabled cfg3 ''lan''" using f(3) by (simp add: Enabled_def lan_enabled_def)
    then have "capRunning (Reconcile r n) ''lan''" if "nd_cfg n = cfg3" "rc_start r ''lan'' = None" for n r
      using that Reconcile_fields(7) by (simp add: capabilities_def)
    moreover have "fst (splitHostPort (listen_addr cfg3)) = []"
    proof -
      have "listen_addr cfg3 = '':8765''"
        by (simp add: listen_addr_def f(4) Default_def show_int_def show_nat.simps) code_simp
      then show ?thesis by (simp only:) code_simp
    qed
    ultimately show ?thesis using Save_data [OF run(4)] f(1,2)
      by (intro exI [of _ cfg3]) (simp add: announceShape_def describeShape_def shapeInfos_def Let_def)
  qed
qed

definition demo_setup :: setup_env where
  "demo_setup = \<lparr>su_statfails = False, su_home = Some ''/h'', su_serve = [], su_yes = True,
     su_token = \<lparr>te_random = Some [CHR 0x2A, CHR 0xFF], te_mkdir = True, te_write = WfOK\<rparr>,
     su_probe = Reply 200 [] (Some (JObj [(''version'', JStr ''0.6'')])), su_exec = (\<lambda>p. False), su_path = None,
     su_os = (''linux'', ''amd64''), su_install = Inl ErrArchive, su_save = SaveOK\<rparr>"

lemma demo_setup_runs: "fst (runSetup (\<lambda>c raw. TomlErr) (\<lambda>c. c_Mode c) demo_setup ''/h/c.toml'' [] []) = ExitCode 0"
  by code_simp

theorem agents_shape_still_listens_witness:
  "\<exists>cfg. \<not> lan_Enabled (c_LAN cfg) \<and> announceShape cfg ShapeAgents = (ShapeAgents, []) \<and> fst (splitHostPort (listen_addr cfg)) = []"
proof -
  obtain d' where r: "runSetup (\<lambda>c raw. TomlErr) (\<lambda>c. c_Mode c) demo_setup ''/h/c.toml'' [] [] = (ExitCode 0, d')"
    using demo_setup_runs by (metis fst_conv surj_pair)
  have "TrimSpace (su_serve demo_setup) = []" "su_yes demo_setup" by (simp_all add: demo_setup_def TrimSpace_def)
  from agents_shape_still_listens [OF _ this r] show ?thesis by auto
qed

section \<open>The admin token file\<close>

lemma hex_no_space: "list_all (\<lambda>c. \<not> is_space c) (hex_encode bs)"
proof -
  have "\<not> is_space (hex_digit n)" if "n < 16" for n
    using that by (auto simp: is_space_def hex_digit_def of_char_of)
  moreover have "of_char c div 16 < (16 :: nat)" "of_char c mod 16 < (16 :: nat)" for c using of_char_less_256 [of c] by (simp_all add: less_mult_imp_div_less)
  ultimately show ?thesis by (induction bs) (simp_all add: hex_encode_def)
qed

lemma TrimSpace_line:
  assumes "list_all (\<lambda>c. \<not> is_space c) s"
  shows "TrimSpace (s @ [CHR 0x0A]) = s"
proof (cases s)
  case (Cons a l)
  have "dropWhile is_space (rev s) = rev s" using assms by (cases "rev s") (auto simp: list_all_iff set_rev [of s, symmetric] simp del: set_rev)
  then show ?thesis using assms Cons by (simp add: TrimSpace_def is_space_def)
qed (simp add: TrimSpace_def is_space_def)

lemmas TrimSpace_hex_line = TrimSpace_line [OF hex_no_space]

text \<open>
  The admin token is stable: once ensureAdminToken has answered, the node that starts later
  finds the same token in the file, and so does every later setup, which creates no other.
\<close>

theorem admin_token_stable:
  assumes "ensureAdminToken e dataDir d = (Inr (token, created), d')" "dataDir \<noteq> []" "te_random e \<noteq> Some []"
  shows "resolveAdminToken dataDir None d' = (token, FromFile) \<and> (\<forall>e'. ensureAdminToken e' dataDir d' = (Inr (token, False), d')) \<and>
    (created \<longrightarrow> map_get d (path_join dataDir adminTokenFile) = None \<longrightarrow>
      map_option f_mode (map_get d' (path_join dataDir adminTokenFile)) = Some mode_0600)"
proof -
  have t: "token_of_file dataDir d' = token \<and> token \<noteq> []"
  proof (cases "token_of_file dataDir d = []")
    case False
    then show ?thesis using assms(1) by (auto simp: ensureAdminToken_def)
  next
    case True
    then obtain buf where buf: "te_random e = Some buf" "token = hex_encode buf"
      "WriteFile (te_write e) (path_join dataDir adminTokenFile) (hex_encode buf @ [CHR 0x0A]) mode_0600 d = (d', None)"
      using assms(1) by (auto simp: ensureAdminToken_def split: if_splits option.splits prod.splits)
    then have "token_of_file dataDir d' = TrimSpace (hex_encode buf @ [CHR 0x0A])"
      by (auto simp: WriteFile_def Let_def token_of_file_def ReadFile_def map_get_put split: wf_fault.splits)
    moreover have "hex_encode buf \<noteq> []" using buf(1) assms(3) by (cases buf) (auto simp: hex_encode_def)
    ultimately show ?thesis using buf(2) by (simp only: TrimSpace_hex_line) simp
  qed
  moreover have "map_option f_mode (map_get d' (path_join dataDir adminTokenFile)) = Some mode_0600"
    if "created" "map_get d (path_join dataDir adminTokenFile) = None"
    using assms(1) that by (auto simp: ensureAdminToken_def WriteFile_def Let_def map_get_put split: if_splits option.splits wf_fault.splits)
  ultimately show ?thesis using assms(2) by (simp add: resolveAdminToken_def ensureAdminToken_def)
qed

theorem admin_token_stable_witness:
  "\<exists>d'. ensureAdminToken (su_token demo_setup) ''/h'' [] = (Inr (''2aff'', True), d') \<and> resolveAdminToken ''/h'' None d' = (''2aff'', FromFile)"
proof -
  obtain d' where e: "ensureAdminToken (su_token demo_setup) ''/h'' [] = (Inr (''2aff'', True), d')"
  proof -
    have "fst (ensureAdminToken (su_token demo_setup) ''/h'' []) = Inr (''2aff'', True)" by code_simp
    then show thesis using that by (metis prod.collapse)
  qed
  have "te_random (su_token demo_setup) \<noteq> Some []" by (simp add: demo_setup_def)
  from admin_token_stable [OF e _ this] show ?thesis using e by auto
qed

text \<open>
  A first write that fails part way leaves a prefix of the token, and the next setup takes it: the
  admin API is then guarded by as few characters as reached the disk.
\<close>

lemma partial_token_accepted:
  assumes "token_of_file dataDir d = []" "te_mkdir e" "te_random e = Some (b # bs)" "te_write e = WfPartial 1"
  shows "\<exists>err d'. ensureAdminToken e dataDir d = (Inl err, d') \<and>
    ensureAdminToken e' dataDir d' = (Inr ([hex_digit (of_char b div 16)], False), d')"
proof -
  have "\<not> is_space (hex_digit (of_char b div 16))" using hex_no_space [of "[b]"] by (simp add: hex_encode_def)
  then show ?thesis using assms
    by (simp add: ensureAdminToken_def WriteFile_def Let_def token_of_file_def ReadFile_def map_get_put hex_encode_def TrimSpace_def)
qed

section \<open>Setting up again\<close>

lemma fst_eqE: "fst p = a \<Longrightarrow> (\<And>b. p = (a, b) \<Longrightarrow> thesis) \<Longrightarrow> thesis"
  by (cases p) simp

lemma setup_keeps: "TrimSpace (su_serve e) = [] \<Longrightarrow> setup_shape e False cfg ls = Some (cfg, ls)"
  by (simp add: setup_shape_def)

text \<open>
  Running setup again keeps what the operator configured: without -serve, all that may differ
  in the file it writes is where Ollama is and whether the node manages it, and compute may have
  been switched off, never on; reach, mode, memory and every other setting are the old file's.
\<close>

theorem setup_keeps_configuration:
  assumes "toml Default (enc cfg) = TomlOk cfg" "map_option f_data (map_get d path) = Some (enc cfg)" "TrimSpace (su_serve e) = []"
    and "runSetup toml enc e path ls d = (r, d')" "r \<noteq> ExitCode 1" "r \<noteq> ExitCode 2"
  shows "\<exists>m b k. map_option f_data (map_get d' path) = Some (enc (cfg\<lparr>c_Ollama := c_Ollama cfg\<lparr>ol_Manage := m, ol_BinaryPath := b\<rparr>,
      c_Capabilities := \<lparr>cap_Memory = cap_Memory (c_Capabilities cfg), cap_Compute = k\<rparr>\<rparr>)) \<and> (k \<longrightarrow> cap_Compute (c_Capabilities cfg))"
proof -
  obtain cfg0 dataDir cfg2 ls2 token created d1 cfg3 ls3 where run0:
    "Load toml (Some (stat_path (su_statfails e) path d)) (\<lambda>_. None) (\<lambda>_. None) = Inr cfg0"
    "setup_shape e (stat_path (su_statfails e) path d = StatMissing)
       (if stat_path (su_statfails e) path d = StatMissing then applyProductDefaults cfg0 else cfg0) ls = Some (cfg2, ls2)"
    "setup_compute e (stat_path (su_statfails e) path d = StatMissing) cfg2 ls2 = (cfg3, ls3)" "Save enc (su_save e) cfg3 path d1 = (d', None)"
    by (rule runSetup_ends [OF assms(4-6)]) (rule that)
  have "su_statfails e = False" using run0(1) by (auto simp: stat_path_def Load_def)
  then have st: "stat_path (su_statfails e) path d = StatOk (enc cfg)" using assms(2) by (auto simp: stat_path_def)
  have "cfg0 = cfg" using Load_file [OF run0(1) [unfolded st]] assms(1) by simp
  then have "cfg2 = cfg" using run0(2) setup_keeps [OF assms(3)] by (simp add: st)
  then show ?thesis using setup_compute_frame [OF run0(3)] Save_data [OF run0(4)] by auto
qed

theorem setup_keeps_configuration_witness:
  "\<exists>d' m b k. runSetup (\<lambda>c raw. TomlOk Default) (\<lambda>c. (if cap_Compute (c_Capabilities c) then ''compute '' else ''-'') @ c_Mode c) demo_setup
      ''/h/c.toml'' [] [(''/h/c.toml'', \<lparr>f_mode = mode_0600, f_data = ''-local''\<rparr>)] = (ExitCode 0, d') \<and>
    map_option f_data (map_get d' ''/h/c.toml'') = Some ((if k then ''compute '' else ''-'') @ ''local'') \<and> \<not> k"
proof -
  let ?enc = "\<lambda>c. (if cap_Compute (c_Capabilities c) then ''compute '' else ''-'') @ c_Mode c"
  let ?d = "[(''/h/c.toml'', \<lparr>f_mode = mode_0600, f_data = ''-local''\<rparr>)]"
  have "fst (runSetup (\<lambda>c raw. TomlOk Default) ?enc demo_setup ''/h/c.toml'' [] ?d) = ExitCode 0" by code_simp
  then obtain d' where r: "runSetup (\<lambda>c raw. TomlOk Default) ?enc demo_setup ''/h/c.toml'' [] ?d = (ExitCode 0, d')"
    by (rule fst_eqE)
  have "TrimSpace (su_serve demo_setup) = []" by (simp add: demo_setup_def TrimSpace_def)
  moreover have "map_option f_data (map_get ?d ''/h/c.toml'') = Some (?enc Default)" by (simp add: Default_def ModeLocal_def)
  ultimately show ?thesis using setup_keeps_configuration [of "\<lambda>c raw. TomlOk Default" ?enc Default ?d, OF refl _ _ r] r
    by (auto simp: Default_def ModeLocal_def)
qed

text \<open>
  A node with the OpenAI surface on cannot be set up any more once Ollama is gone: setup says that
  compute is disabled and goes on, but the configuration it arrived at is invalid.
\<close>

lemma openai_blocks_setup:
  assumes "toml Default (enc cfg) = TomlOk cfg" "map_option f_data (map_get d path) = Some (enc cfg)" "TrimSpace (su_serve e) = []"
    and "oa_Enabled (c_OpenAI cfg)" "ensureOllamaAvailable e cfg ls = ((Some err, cfg'), ls')"
    and "runSetup toml enc e path ls d = (r, d')"
  shows "r = ExitCode 1 \<or> r = ExitCode 2"
proof (rule ccontr)
  assume "\<not> (r = ExitCode 1 \<or> r = ExitCode 2)"
  then have ok: "r \<noteq> ExitCode 1" "r \<noteq> ExitCode 2" by simp_all
  obtain cfg0 dataDir cfg2 ls2 token created d1 cfg3 ls3 where run0:
    "Load toml (Some (stat_path (su_statfails e) path d)) (\<lambda>_. None) (\<lambda>_. None) = Inr cfg0"
    "setup_shape e (stat_path (su_statfails e) path d = StatMissing)
       (if stat_path (su_statfails e) path d = StatMissing then applyProductDefaults cfg0 else cfg0) ls = Some (cfg2, ls2)"
    "setup_compute e (stat_path (su_statfails e) path d = StatMissing) cfg2 ls2 = (cfg3, ls3)" "Validate cfg3 = None"
    by (rule runSetup_ends [OF assms(6) ok]) (rule that)
  have "su_statfails e = False" using run0(1) by (auto simp: stat_path_def Load_def)
  then have st: "stat_path (su_statfails e) path d = StatOk (enc cfg)" using assms(2) by (auto simp: stat_path_def)
  have "cfg0 = cfg" using Load_file [OF run0(1) [unfolded st]] assms(1) by simp
  then have "cfg2 = cfg" "ls2 = ls" using run0(2) setup_keeps [OF assms(3)] by (simp_all add: st)
  moreover obtain m b where "cfg' = with_ollama m b cfg" using ensureOllama_frame [OF assms(5)] by blast
  ultimately have "oa_Enabled (c_OpenAI cfg3) \<and> \<not> cap_Compute (c_Capabilities cfg3)"
    using run0(3) assms(4,5) by (auto simp: setup_compute_def st with_ollama_def split: if_splits)
  then show False using run0(4) by (simp add: Validate_def check_that_def split: option.splits)
qed

section \<open>Model names\<close>

text \<open>
  The two readings of a model name disagree. Setup takes a name without a tag for :latest and
  is satisfied when that model is installed; the node compares names as they are, so it serves the
  first model of the list instead, whatever it is.
\<close>

theorem untagged_default_not_served:
  assumes "Tags host r = Inr (m # ms)" "list_all (\<lambda>m. om_Name m \<noteq> want) (m # ms)" "\<not> Contains want '':''"
    and "\<exists>x \<in> set ms. om_Name x = want @ '':latest''" "om_Name m \<noteq> want @ '':latest''"
  shows "hasModel (m # ms) want \<and> ResolveRunnableModel host r want = Inr (om_Name m) \<and> norm_model (om_Name m) \<noteq> want @ '':latest''"
proof -
  have "Contains (x @ '':latest'') '':''" for x
    by (induction x) (simp_all add: Contains.simps HasPrefix_def)
  then have n: "norm_model (want @ '':latest'') = norm_model want" "norm_model want = want @ '':latest''" using assms(3) by (simp_all add: norm_model_def)
  obtain x where x: "x \<in> set ms" "om_Name x = want @ '':latest''" using assms(4) by blast
  have same: "norm_model (om_Name x) = norm_model want" unfolding x(2) by (rule n(1))
  have "hasModel (m # ms) want" unfolding hasModel_def list_ex_iff
    by (rule bexI [of _ x], rule same) (simp add: x(1))
  moreover have "ResolveRunnableModel host r want = Inr (om_Name m)"
    using assms(1,2) by (auto simp: ResolveRunnableModel_def list_all_iff list_ex_iff)
  moreover have "norm_model (om_Name m) \<noteq> want @ '':latest''" using assms(2,5) by (auto simp: norm_model_def)
  ultimately show ?thesis by blast
qed

theorem untagged_default_not_served_witness:
  "ResolveRunnableModel ''http://127.0.0.1:11434''
     (Reply 200 [] (Some (JObj [(''models'', JArr [JObj [(''name'', JStr ''qwen2.5:7b'')], JObj [(''name'', JStr ''llama3.2:latest'')]])])))
     ''llama3.2'' = Inr ''qwen2.5:7b''"
proof -
  let ?r = "Reply 200 [] (Some (JObj [(''models'', JArr [JObj [(''name'', JStr ''qwen2.5:7b'')], JObj [(''name'', JStr ''llama3.2:latest'')]])]))"
  let ?m = "\<lparr>om_Name = ''qwen2.5:7b'', om_ModifiedAt = [], om_Size = 0\<rparr>" and ?ms = "[\<lparr>om_Name = ''llama3.2:latest'', om_ModifiedAt = [], om_Size = 0\<rparr>]"
  have t: "Tags ''http://127.0.0.1:11434'' ?r = Inr (?m # ?ms)" by code_simp
  have c: "\<not> Contains ''llama3.2'' '':''" by code_simp
  from untagged_default_not_served [OF t _ c] show ?thesis by simp
qed

end
