(* ===== verification/Recorder.thy ===== *)
theory Recorder
  imports Json
begin

text \<open>
  The log recorder (internal/logging/recorder.go) and the admin console's stream over it
  (internal/adminapi/logs.go): a ring of the latest lines, subscribers with bounded queues that
  never block the logger, and the handler that joins the backlog and the live records. Sequence
  numbers are counted without the wrap of uint64, which 2^64 lines would reach.
\<close>

section \<open>The recorder\<close>

definition DefaultRecorderCapacity :: nat where "DefaultRecorderCapacity = 1000"

record log_record =
  lr_Seq :: nat
  lr_Line :: string

record subscriber =
  sb_ch :: "log_record list"   \<comment> \<open>the channel's buffer, oldest first\<close>
  sb_cap :: nat
  sb_dropped :: nat

record recorder =
  re_ring :: "log_record list"
  re_next :: nat
  re_filled :: nat
  re_seq :: nat
  re_subs :: "(nat \<times> subscriber) list"
  re_nextSub :: nat

definition NewRecorder :: "int \<Rightarrow> recorder" where
  "NewRecorder capacity = \<lparr>re_ring = replicate (if capacity \<le> 0 then DefaultRecorderCapacity else nat capacity) \<lparr>lr_Seq = 0, lr_Line = []\<rparr>,
     re_next = 0, re_filled = 0, re_seq = 0, re_subs = [], re_nextSub = 0\<rparr>"

text \<open>The confession of a gap: a JSON line that carries the number of the record it precedes.\<close>

definition drop_notice :: "nat \<Rightarrow> nat \<Rightarrow> log_record" where
  "drop_notice seq dropped = \<lparr>lr_Seq = seq, lr_Line = json_text (JObj [(''dropped'', JNum (show_nat dropped)), (''level'', JStr ''WARN''),
     (''msg'', JStr ''log console fell behind; some lines were dropped'')])\<rparr>"

definition sub_send :: "log_record \<Rightarrow> subscriber \<Rightarrow> subscriber" where
  "sub_send rec s =
    (let s1 = (if sb_dropped s > 0 \<and> length (sb_ch s) < sb_cap s
               then s\<lparr>sb_ch := sb_ch s @ [drop_notice (lr_Seq rec) (sb_dropped s)], sb_dropped := 0\<rparr> else s)
     in if sb_dropped s1 > 0 then s1\<lparr>sb_dropped := sb_dropped s1 + 1\<rparr>
        else if length (sb_ch s1) < sb_cap s1 then s1\<lparr>sb_ch := sb_ch s1 @ [rec]\<rparr>
        else s1\<lparr>sb_dropped := sb_dropped s1 + 1\<rparr>)"

definition Recorder_Write :: "bytes \<Rightarrow> recorder \<Rightarrow> recorder" where
  "Recorder_Write p r =
    (let line = TrimRight p (CHR 0x0A) in
     if line = [] then r
     else let rec = \<lparr>lr_Seq = re_seq r + 1, lr_Line = line\<rparr>; n = length (re_ring r) in
       r\<lparr>re_seq := re_seq r + 1, re_ring := (re_ring r)[re_next r := rec], re_next := (re_next r + 1) mod n,
         re_filled := (if re_filled r < n then re_filled r + 1 else re_filled r),
         re_subs := map (\<lambda>(i, s). (i, sub_send rec s)) (re_subs r)\<rparr>)"

definition Backlog :: "recorder \<Rightarrow> log_record list" where
  "Backlog r =
    (let n = length (re_ring r); start = (if re_filled r = n then re_next r else 0)
     in map (\<lambda>i. re_ring r ! ((start + i) mod n)) [0..<re_filled r])"

definition Subscribe :: "int \<Rightarrow> recorder \<Rightarrow> nat \<times> recorder" where
  "Subscribe buffer r =
    (let i = re_nextSub r; s = \<lparr>sb_ch = [], sb_cap = (if buffer \<le> 0 then 256 else nat buffer), sb_dropped = 0\<rparr>
     in (i, r\<lparr>re_nextSub := i + 1, re_subs := map_put i s (re_subs r)\<rparr>))"

definition Unsubscribe :: "nat \<Rightarrow> recorder \<Rightarrow> recorder" where
  "Unsubscribe i r = r\<lparr>re_subs := map_del i (re_subs r)\<rparr>"

definition Subscribers :: "recorder \<Rightarrow> nat" where
  "Subscribers r = length (re_subs r)"

text \<open>A nil recorder has an empty console.\<close>

definition LogBacklog :: "recorder option \<Rightarrow> log_record list" where
  "LogBacklog r = (case r of None \<Rightarrow> [] | Some x \<Rightarrow> Backlog x)"

section \<open>The stream\<close>

text \<open>
  One connection: the records it has written, the last sequence number it wrote and its
  subscription. It subscribes before it reads the backlog.
\<close>

record log_stream =
  st_sub :: nat
  st_last :: nat
  st_sent :: "log_record list"

definition stream_subscribe :: "recorder \<Rightarrow> log_stream \<times> recorder" where
  "stream_subscribe r = (case Subscribe 0 r of (i, r') \<Rightarrow> (\<lparr>st_sub = i, st_last = 0, st_sent = []\<rparr>, r'))"

definition stream_backlog :: "recorder \<Rightarrow> log_stream \<Rightarrow> log_stream" where
  "stream_backlog r st = fold (\<lambda>rec st. st\<lparr>st_last := lr_Seq rec, st_sent := st_sent st @ [rec]\<rparr>) (Backlog r) st"

definition stream_record :: "log_record \<Rightarrow> log_stream \<Rightarrow> log_stream" where
  "stream_record rec st = (if lr_Seq rec \<le> st_last st then st else st\<lparr>st_last := lr_Seq rec, st_sent := st_sent st @ [rec]\<rparr>)"

text \<open>One turn of the handler's loop: the oldest record of its channel, if there is one.\<close>

definition stream_receive :: "recorder \<Rightarrow> log_stream \<Rightarrow> recorder \<times> log_stream" where
  "stream_receive r st =
    (case map_get (re_subs r) (st_sub st) of
       None \<Rightarrow> (r, st)
     | Some s \<Rightarrow> (case sb_ch s of [] \<Rightarrow> (r, st)
         | rec # ch \<Rightarrow> (r\<lparr>re_subs := map_put (st_sub st) (s\<lparr>sb_ch := ch\<rparr>) (re_subs r)\<rparr>, stream_record rec st)))"

definition writeSSE :: "log_record \<Rightarrow> string" where
  "writeSSE rec = ''id: '' @ show_nat (lr_Seq rec) @ [CHR 0x0A] @
     concat (map (\<lambda>line. ''data: '' @ line @ [CHR 0x0A]) (Split (CHR 0x0A) (lr_Line rec))) @ [CHR 0x0A]"

section \<open>The ring holds the latest lines\<close>

text \<open>The log: every non-empty line written, numbered from one.\<close>

definition log_of :: "bytes list \<Rightarrow> log_record list" where
  "log_of ps = (let ls = filter (\<lambda>l. l \<noteq> []) (map (\<lambda>p. TrimRight p (CHR 0x0A)) ps)
     in map (\<lambda>i. \<lparr>lr_Seq = Suc i, lr_Line = ls ! i\<rparr>) [0..<length ls])"

definition ring_ok :: "recorder \<Rightarrow> log_record list \<Rightarrow> bool" where
  "ring_ok r log \<longleftrightarrow> (let n = length (re_ring r) in n > 0 \<and> re_seq r = length log \<and> re_next r = length log mod n \<and> re_filled r = min (length log) n \<and>
     (\<forall>k < length log. length log - k \<le> n \<longrightarrow> re_ring r ! (k mod n) = log ! k))"

lemma ring_new: "ring_ok (NewRecorder capacity) []"
  by (simp add: ring_ok_def NewRecorder_def DefaultRecorderCapacity_def)

lemma ring_write:
  assumes "ring_ok r log" "TrimRight p (CHR 0x0A) \<noteq> []"
  shows "ring_ok (Recorder_Write p r) (log @ [\<lparr>lr_Seq = length log + 1, lr_Line = TrimRight p (CHR 0x0A)\<rparr>])"
proof -
  define n where "n = length (re_ring r)"
  have n: "n > 0" using assms(1) by (simp add: ring_ok_def Let_def n_def)
  have apart: "k mod n \<noteq> length log mod n" if "k < length log" "Suc (length log) - k \<le> n" for k
  proof
    assume "k mod n = length log mod n"
    then have "n dvd length log - k" using that(1) by (metis mod_eq_dvd_iff_nat less_imp_le)
    then show False using that by (auto dest: dvd_imp_le)
  qed
  let ?rec = "\<lparr>lr_Seq = length log + 1, lr_Line = TrimRight p (CHR 0x0A)\<rparr>"
  have ring: "re_ring (Recorder_Write p r) = (re_ring r)[length log mod n := ?rec]"
    using assms by (simp add: ring_ok_def Let_def Recorder_Write_def n_def)
  have slots: "(re_ring r)[length log mod n := ?rec] ! (k mod n) = (log @ [?rec]) ! k" if "k < Suc (length log)" "Suc (length log) - k \<le> n" for k
  proof (cases "k = length log")
    case True
    then show ?thesis using n by (simp add: n_def)
  next
    case False
    then have k: "k < length log" "length log mod n \<noteq> k mod n" "length log - k \<le> n" using that apart [of k] by auto
    then show ?thesis using assms(1) by (simp add: ring_ok_def Let_def n_def nth_append)
  qed
  have "(length log mod n + 1) mod n = Suc (length log) mod n" by (simp add: mod_Suc_eq)
  then show ?thesis using assms n slots ring
    by (simp add: ring_ok_def Let_def n_def [symmetric]) (simp add: Recorder_Write_def Let_def n_def [symmetric])
qed

lemma Backlog_ring:
  assumes "ring_ok r log"
  shows "Backlog r = drop (length log - length (re_ring r)) log"
proof -
  define n where "n = length (re_ring r)"
  have r: "n > 0" "re_next r = length log mod n" "re_filled r = min (length log) n"
    "\<And>k. k < length log \<Longrightarrow> length log - k \<le> n \<Longrightarrow> re_ring r ! (k mod n) = log ! k"
    using assms by (auto simp: ring_ok_def Let_def n_def)
  show ?thesis unfolding n_def [symmetric]
  proof (rule nth_equalityI)
    show "length (Backlog r) = length (drop (length log - n) log)" by (simp add: Backlog_def Let_def r(3))
    fix i assume "i < length (Backlog r)"
    then have i: "i < min (length log) n" by (simp add: Backlog_def Let_def r(3))
    show "Backlog r ! i = drop (length log - n) log ! i"
    proof (cases "length log < n")
      case True
      then show ?thesis using i r(4) [of i] r(1) by (auto simp: Backlog_def Let_def r(3) n_def [symmetric])
    next
      case False
      have "(length log mod n + i) mod n = (length log - n + i) mod n"
        using False by (metis mod_add_left_eq mod_add_self2 le_add_diff_inverse2 not_less)
      then show ?thesis using i False r(4) [of "length log - n + i"] by (auto simp: Backlog_def Let_def r(2,3) n_def [symmetric])
    qed
  qed
qed

section \<open>Histories\<close>

datatype log_event = LWrite bytes | LSubscribe int | LUnsubscribe nat | LReceive

fun log_exec :: "log_event \<Rightarrow> recorder \<times> log_stream \<Rightarrow> recorder \<times> log_stream" where
  "log_exec (LWrite p) (r, st) = (Recorder_Write p r, st)"
| "log_exec (LSubscribe b) (r, st) = (snd (Subscribe b r), st)"
| "log_exec (LUnsubscribe i) (r, st) = (Unsubscribe i r, st)"
| "log_exec LReceive (r, st) = stream_receive r st"

definition log_run :: "log_event list \<Rightarrow> recorder \<times> log_stream \<Rightarrow> recorder \<times> log_stream" where
  "log_run es s = fold log_exec es s"

definition writes :: "log_event list \<Rightarrow> bytes list" where
  "writes es = concat (map (\<lambda>e. case e of LWrite p \<Rightarrow> [p] | _ \<Rightarrow> []) es)"

text \<open>A write finds room in the queue of subscription i.\<close>

definition has_room :: "nat \<Rightarrow> recorder \<Rightarrow> bool" where
  "has_room i r \<longleftrightarrow> (case map_get (re_subs r) i of None \<Rightarrow> True | Some s \<Rightarrow> length (sb_ch s) < sb_cap s)"

fun never_full :: "nat \<Rightarrow> log_event list \<Rightarrow> recorder \<times> log_stream \<Rightarrow> bool" where
  "never_full i [] s = True"
| "never_full i (e # es) s = ((case e of LWrite _ \<Rightarrow> has_room i (fst s) | _ \<Rightarrow> True) \<and> never_full i es (log_exec e s))"

lemma log_of_snoc: "log_of (ps @ [p]) = (if TrimRight p (CHR 0x0A) = [] then log_of ps
    else log_of ps @ [\<lparr>lr_Seq = length (log_of ps) + 1, lr_Line = TrimRight p (CHR 0x0A)\<rparr>])"
  by (auto simp: log_of_def Let_def nth_append intro!: map_cong)

lemma log_of_seq: "k < length (log_of ps) \<Longrightarrow> lr_Seq (log_of ps ! k) = Suc k"
  by (simp add: log_of_def Let_def)

lemma writes_simps [simp]: "writes [] = []" "writes (LWrite p # es) = p # writes es" "writes (LSubscribe b # es) = writes es"
  "writes (LUnsubscribe i # es) = writes es" "writes (LReceive # es) = writes es" "writes (es @ es') = writes es @ writes es'"
  by (simp_all add: writes_def)

lemma ring_same: "re_ring r' = re_ring r \<Longrightarrow> re_next r' = re_next r \<Longrightarrow> re_filled r' = re_filled r \<Longrightarrow> re_seq r' = re_seq r \<Longrightarrow> ring_ok r log \<Longrightarrow> ring_ok r' log"
  by (simp add: ring_ok_def)

definition ids_ok :: "recorder \<Rightarrow> bool" where
  "ids_ok r \<longleftrightarrow> (\<forall>i \<in> fst ` set (re_subs r). i < re_nextSub r)"

lemma keys_put_del: "fst ` set (map_put k v al) = insert k (fst ` set al)" "fst ` set (map_del k al) \<subseteq> fst ` set al"
  by (simp_all add: dom_update dom_delete_subset)

lemma map_get_key: "map_get al k = Some v \<Longrightarrow> k \<in> fst ` set al"
  by (force dest: map_of_SomeD)

lemma receive_same:
  "fst (stream_receive r st) = r \<or> (\<exists>s. fst (stream_receive r st) = r\<lparr>re_subs := map_put (st_sub st) s (re_subs r)\<rparr> \<and> st_sub st \<in> fst ` set (re_subs r))"
  by (auto simp: stream_receive_def split: option.splits list.splits dest!: map_of_SomeD) (force+)

lemma exec_ring:
  assumes "ring_ok r (log_of ps)" "ids_ok r"
  shows "ring_ok (fst (log_exec e (r, st))) (log_of (ps @ writes [e]))" "ids_ok (fst (log_exec e (r, st)))"
    "length (re_ring (fst (log_exec e (r, st)))) = length (re_ring r)"
proof -
  have "ring_ok (fst (log_exec e (r, st))) (log_of (ps @ writes [e])) \<and> ids_ok (fst (log_exec e (r, st))) \<and>
      length (re_ring (fst (log_exec e (r, st)))) = length (re_ring r)"
  proof (cases e)
    case (LWrite p)
    then show ?thesis using assms ring_write [OF assms(1), of p]
      by (auto simp: log_of_snoc ids_ok_def Recorder_Write_def Let_def image_image split: prod.splits if_splits)
  next
    case (LSubscribe b)
    then show ?thesis using assms by (auto simp: Subscribe_def Let_def ids_ok_def keys_put_del(1) less_Suc_eq intro: ring_same)
  next
    case (LUnsubscribe i)
    then show ?thesis using assms keys_put_del(2) by (fastforce simp: Unsubscribe_def ids_ok_def intro: ring_same)
  next
    case LReceive
    from receive_same [of r st] show ?thesis
    proof
      assume "fst (stream_receive r st) = r"
      then show ?thesis using assms LReceive by simp
    next
      assume "\<exists>s. fst (stream_receive r st) = r\<lparr>re_subs := map_put (st_sub st) s (re_subs r)\<rparr> \<and> st_sub st \<in> fst ` set (re_subs r)"
      then obtain s where s: "fst (stream_receive r st) = r\<lparr>re_subs := map_put (st_sub st) s (re_subs r)\<rparr>" "st_sub st \<in> fst ` set (re_subs r)" by blast
      then show ?thesis using assms LReceive by (auto simp: ids_ok_def keys_put_del(1) intro: ring_same)
    qed
  qed
  then show "ring_ok (fst (log_exec e (r, st))) (log_of (ps @ writes [e]))" "ids_ok (fst (log_exec e (r, st)))"
    "length (re_ring (fst (log_exec e (r, st)))) = length (re_ring r)" by auto
qed

lemma run_ring:
  "ring_ok r (log_of ps) \<Longrightarrow> ids_ok r \<Longrightarrow> ring_ok (fst (log_run es (r, st))) (log_of (ps @ writes es)) \<and> ids_ok (fst (log_run es (r, st))) \<and>
    length (re_ring (fst (log_run es (r, st)))) = length (re_ring r)"
proof (induction es arbitrary: r st ps)
  case (Cons e es)
  obtain r1 st1 where e: "log_exec e (r, st) = (r1, st1)" by (metis surj_pair)
  have "ps @ writes (e # es) = (ps @ writes [e]) @ writes es" by (cases e) auto
  with Cons.IH [of r1 "ps @ writes [e]" st1] exec_ring [OF Cons.prems, of e st] e show ?case by (simp add: log_run_def)
qed (simp add: log_run_def)

section \<open>What a console sees\<close>

text \<open>Subscription i has lost nothing and still has the records from position q of the log to deliver.\<close>

definition follows :: "nat \<Rightarrow> recorder \<Rightarrow> log_record list \<Rightarrow> nat \<Rightarrow> bool" where
  "follows i r log q \<longleftrightarrow> (\<exists>s. map_get (re_subs r) i = Some s \<and> sb_dropped s = 0 \<and> q \<le> length log \<and> sb_ch s = drop q log)"

text \<open>The stream has written the log from position b up to its last record, and is not behind its queue.\<close>

definition stream_ok :: "recorder \<Rightarrow> log_stream \<Rightarrow> log_record list \<Rightarrow> nat \<Rightarrow> nat \<Rightarrow> bool" where
  "stream_ok r st log b q \<longleftrightarrow> follows (st_sub st) r log q \<and> q \<le> st_last st \<and> b \<le> st_last st \<and> st_last st \<le> length log \<and>
     st_sent st = drop b (take (st_last st) log)"

lemma map_get_map_val: "map_get (map (\<lambda>(i, s). (i, f s)) al) i = map_option f (map_get al i)"
  by (induction al) auto

lemma follows_write:
  assumes "follows i r (log_of ps) q" "has_room i r" "re_seq r = length (log_of ps)"
  shows "follows i (Recorder_Write p r) (log_of (ps @ [p])) q"
proof -
  obtain s where s: "map_get (re_subs r) i = Some s" "sb_dropped s = 0" "q \<le> length (log_of ps)" "sb_ch s = drop q (log_of ps)"
    using assms(1) by (auto simp: follows_def)
  have "sub_send rec s = s\<lparr>sb_ch := sb_ch s @ [rec]\<rparr>" for rec using s(1,2) assms(2) by (simp add: sub_send_def has_room_def)
  then show ?thesis using s assms(3) by (simp add: follows_def Recorder_Write_def Let_def log_of_snoc map_get_map_val)
qed

lemma follows_other: "map_get (re_subs r') i = map_get (re_subs r) i \<Longrightarrow> follows i r log q \<Longrightarrow> follows i r' log q"
  by (simp add: follows_def)

lemma follows_bookkeeping:
  assumes "ids_ok r" "follows i r log q"
  shows "follows i (snd (Subscribe b r)) log q" "j \<noteq> i \<Longrightarrow> follows i (Unsubscribe j r) log q"
proof -
  have "i \<in> fst ` set (re_subs r)" using assms(2) by (auto simp: follows_def dest: map_get_key)
  then have "i < re_nextSub r" using assms(1) by (auto simp: ids_ok_def)
  then show "follows i (snd (Subscribe b r)) log q" using assms(2) by (auto simp: Subscribe_def Let_def map_get_put intro: follows_other)
  show "j \<noteq> i \<Longrightarrow> follows i (Unsubscribe j r) log q" using assms(2) by (auto simp: Unsubscribe_def map_get_del intro: follows_other)
qed

lemma stream_ok_receive:
  assumes "stream_ok r st (log_of ps) b q"
  shows "\<exists>q'. stream_ok (fst (stream_receive r st)) (snd (stream_receive r st)) (log_of ps) b q'"
proof -
  obtain s where s: "map_get (re_subs r) (st_sub st) = Some s" "sb_dropped s = 0" "q \<le> length (log_of ps)" "sb_ch s = drop q (log_of ps)"
    using assms by (auto simp: stream_ok_def follows_def)
  show ?thesis
  proof (cases "q < length (log_of ps)")
    case False
    then show ?thesis using assms s by (intro exI [of _ q]) (simp add: stream_receive_def)
  next
    case True
    then have ch: "sb_ch s = log_of ps ! q # drop (Suc q) (log_of ps)" using s(4) by (simp add: Cons_nth_drop_Suc)
    have seq: "lr_Seq (log_of ps ! q) = Suc q" by (rule log_of_seq [OF True])
    have rs: "fst (stream_receive r st) = r\<lparr>re_subs := map_put (st_sub st) (s\<lparr>sb_ch := drop (Suc q) (log_of ps)\<rparr>) (re_subs r)\<rparr>"
      "snd (stream_receive r st) = stream_record (log_of ps ! q) st" using s(1) ch by (simp_all add: stream_receive_def)
    have fo: "follows (st_sub st) (fst (stream_receive r st)) (log_of ps) (Suc q)"
      using rs(1) s(2) True by (simp add: follows_def map_get_put)
    show ?thesis
    proof (cases "Suc q \<le> st_last st")
      case True
      then show ?thesis using assms fo rs(2) seq by (intro exI [of _ "Suc q"]) (simp add: stream_ok_def stream_record_def)
    next
      case False
      then have l: "st_last st = q" using assms by (simp add: stream_ok_def)
      have "drop b (take (Suc q) (log_of ps)) = drop b (take q (log_of ps)) @ [log_of ps ! q]"
        using assms True l by (simp add: take_Suc_conv_app_nth stream_ok_def)
      then show ?thesis using assms fo rs(2) seq l True by (intro exI [of _ "Suc q"]) (auto simp: stream_ok_def stream_record_def)
    qed
  qed
qed

lemma stream_ok_exec:
  assumes "stream_ok r st (log_of ps) b q" "ring_ok r (log_of ps)" "ids_ok r" "e \<noteq> LUnsubscribe (st_sub st)"
    and "case e of LWrite _ \<Rightarrow> has_room (st_sub st) r | _ \<Rightarrow> True"
  shows "\<exists>q'. stream_ok (fst (log_exec e (r, st))) (snd (log_exec e (r, st))) (log_of (ps @ writes [e])) b q' \<and> st_sub (snd (log_exec e (r, st))) = st_sub st"
proof (cases e)
  case (LWrite p)
  have seq: "re_seq r = length (log_of ps)" using assms(2) by (simp add: ring_ok_def Let_def)
  have f: "follows (st_sub st) r (log_of ps) q" using assms(1) by (simp add: stream_ok_def)
  have "\<exists>x. log_of (ps @ [p]) = log_of ps @ x" by (simp add: log_of_snoc)
  then obtain x where x: "log_of (ps @ [p]) = log_of ps @ x" by blast
  show ?thesis using assms(1,5) LWrite follows_write [OF f _ seq, of p] x
    by (intro exI [of _ q]) (auto simp: stream_ok_def)
next
  case LReceive
  have "st_sub (snd (stream_receive r st)) = st_sub st"
    by (auto simp: stream_receive_def stream_record_def split: option.splits list.splits)
  then show ?thesis using stream_ok_receive [OF assms(1)] LReceive by auto
qed (use assms follows_bookkeeping [OF assms(3), of "st_sub st" "log_of ps" q] in \<open>auto simp: stream_ok_def intro!: exI [of _ q]\<close>)

lemma stream_ok_run:
  "stream_ok r st (log_of ps) b q \<Longrightarrow> ring_ok r (log_of ps) \<Longrightarrow> ids_ok r \<Longrightarrow> LUnsubscribe (st_sub st) \<notin> set es \<Longrightarrow>
    never_full (st_sub st) es (r, st) \<Longrightarrow>
    \<exists>q'. stream_ok (fst (log_run es (r, st))) (snd (log_run es (r, st))) (log_of (ps @ writes es)) b q'"
proof (induction es arbitrary: r st ps q)
  case Nil
  then show ?case by (auto simp: log_run_def)
next
  case (Cons e es)
  obtain r1 st1 where e: "log_exec e (r, st) = (r1, st1)" by (metis surj_pair)
  have room: "case e of LWrite _ \<Rightarrow> has_room (st_sub st) r | _ \<Rightarrow> True" using Cons.prems(5) by (cases e) auto
  have "\<exists>q'. stream_ok r1 st1 (log_of (ps @ writes [e])) b q' \<and> st_sub st1 = st_sub st"
    using stream_ok_exec [OF Cons.prems(1-3) _ room] Cons.prems(4) e by auto
  then obtain q' where q': "stream_ok r1 st1 (log_of (ps @ writes [e])) b q'" "st_sub st1 = st_sub st" by blast
  have "ps @ writes (e # es) = (ps @ writes [e]) @ writes es" by (cases e) auto
  with Cons.IH [OF q'(1)] exec_ring [OF Cons.prems(2,3), of e st] e q'(2) Cons.prems(4,5) show ?case by (auto simp: log_run_def)
qed

lemma stream_backlog_sent: "stream_backlog r st = (if Backlog r = [] then st
    else st\<lparr>st_last := lr_Seq (last (Backlog r)), st_sent := st_sent st @ Backlog r\<rparr>)"
proof -
  have "fold (\<lambda>rec st. st\<lparr>st_last := lr_Seq rec, st_sent := st_sent st @ [rec]\<rparr>) bs st =
      (if bs = [] then st else st\<lparr>st_last := lr_Seq (last bs), st_sent := st_sent st @ bs\<rparr>)" for bs
    by (induction bs arbitrary: st) auto
  then show ?thesis by (simp add: stream_backlog_def)
qed

lemma run_follows:
  "follows i r (log_of ps) q \<Longrightarrow> ring_ok r (log_of ps) \<Longrightarrow> ids_ok r \<Longrightarrow> LUnsubscribe i \<notin> set es \<Longrightarrow> LReceive \<notin> set es \<Longrightarrow> never_full i es (r, st) \<Longrightarrow>
    follows i (fst (log_run es (r, st))) (log_of (ps @ writes es)) q \<and> snd (log_run es (r, st)) = st"
proof (induction es arbitrary: r ps)
  case Nil
  then show ?case by (simp add: log_run_def)
next
  case (Cons e es)
  have seq: "re_seq r = length (log_of ps)" using Cons.prems(2) by (simp add: ring_ok_def Let_def)
  have "ring_ok (fst (log_exec e (r, st))) (log_of (ps @ writes [e])) \<and> ids_ok (fst (log_exec e (r, st)))"
    using exec_ring [OF Cons.prems(2,3)] by blast
  moreover have "follows i (fst (log_exec e (r, st))) (log_of (ps @ writes [e])) q \<and> snd (log_exec e (r, st)) = st"
    using Cons.prems follows_write [OF Cons.prems(1) _ seq] follows_bookkeeping [OF Cons.prems(3,1)] by (cases e) auto
  moreover have "never_full i es (log_exec e (r, st))" using Cons.prems(6) by simp
  moreover have "ps @ writes (e # es) = (ps @ writes [e]) @ writes es" by (cases e) auto
  ultimately show ?case using Cons.IH [of "fst (log_exec e (r, st))" "ps @ writes [e]"] Cons.prems(4,5)
    by (metis (no_types, lifting) fold_simps(2) list.set_intros(2) log_run_def prod.collapse)
qed

lemma stream_sub_run: "st_sub (snd (log_run es (r, st))) = st_sub st"
proof (induction es arbitrary: r st)
  case (Cons e es)
  have "st_sub (snd (log_exec e (r, st))) = st_sub st"
    by (cases e) (auto simp: stream_receive_def stream_record_def split: option.splits list.splits)
  then show ?case using Cons [of "fst (log_exec e (r, st))" "snd (log_exec e (r, st))"] by (simp add: log_run_def)
qed (simp add: log_run_def)

lemma drop_take_drop: "b \<le> n \<Longrightarrow> n \<le> length xs \<Longrightarrow> drop b (take n xs) @ drop n xs = drop b xs"
  by (metis append_take_drop_id drop_append length_take min.absorb2 diff_is_0_eq drop0)

lemma log_after:
  assumes "q \<le> n" "n \<le> length (log_of ps)"
  shows "filter (\<lambda>rec. lr_Seq rec > n) (drop q (log_of ps)) = drop n (log_of ps)"
proof -
  have "filter (\<lambda>rec. lr_Seq rec > n) (drop q (take n (log_of ps))) = []"
    using assms by (auto simp: filter_empty_conv in_set_conv_nth log_of_seq nth_drop)
  moreover have "filter (\<lambda>rec. lr_Seq rec > n) (drop n (log_of ps)) = drop n (log_of ps)"
    by (auto simp: filter_id_conv in_set_conv_nth log_of_seq)
  ultimately show ?thesis using drop_take_drop [OF assms] by (metis filter_append append_Nil)
qed

text \<open>
  C26. A console that keeps up sees every log line once and in order, from the retained backlog on:
  whatever was logged and subscribed before it connected, between its subscription and its reading
  of the backlog, and afterwards, as long as its queue never fills, what it has written followed by
  what its queue still holds beyond that is exactly the log without the lines the ring had already
  dropped when the backlog was read.
\<close>

theorem stream_exactly_once:
  assumes "r0 = fst (log_run es0 (NewRecorder capacity, st))" "stream_subscribe r0 = (st0, r1)"
    and "r2 = fst (log_run es1 (r1, st0))" "log_run es2 (r2, stream_backlog r2 st0) = (r3, st3)"
    and "LReceive \<notin> set es1" "LUnsubscribe (st_sub st0) \<notin> set (es1 @ es2)"
    and "never_full (st_sub st0) es1 (r1, st0)" "never_full (st_sub st0) es2 (r2, stream_backlog r2 st0)"
  shows "\<exists>s. map_get (re_subs r3) (st_sub st0) = Some s \<and>
    st_sent st3 @ filter (\<lambda>rec. lr_Seq rec > st_last st3) (sb_ch s) =
      drop (length (log_of (writes (es0 @ es1))) - length (re_ring r3)) (log_of (writes (es0 @ es1 @ es2)))"
proof -
  have "log_of [] = []" by (simp add: log_of_def)
  then have new: "ring_ok (NewRecorder capacity) (log_of [])" "ids_ok (NewRecorder capacity)"
    by (simp_all add: ring_new) (simp add: ids_ok_def NewRecorder_def)
  have r0: "ring_ok r0 (log_of (writes es0))" "ids_ok r0"
    using run_ring [OF new, of es0 st] assms(1) by auto
  have i: "st_sub st0 = re_nextSub r0" "st0 = \<lparr>st_sub = re_nextSub r0, st_last = 0, st_sent = []\<rparr>" and r1e: "r1 = snd (Subscribe 0 r0)"
    using assms(2) by (auto simp: stream_subscribe_def Subscribe_def Let_def)
  have r1: "ring_ok r1 (log_of (writes es0))" "ids_ok r1" "re_ring r1 = re_ring r0"
    using exec_ring [OF r0, of "LSubscribe 0" st] r1e by (auto simp: Subscribe_def Let_def)
  have f1: "follows (st_sub st0) r1 (log_of (writes es0)) (length (log_of (writes es0)))"
    using i r1e by (simp add: follows_def Subscribe_def Let_def map_get_put)
  let ?log1 = "log_of (writes (es0 @ es1))"
  have r2: "ring_ok r2 ?log1" "ids_ok r2" "length (re_ring r2) = length (re_ring r1)"
    using run_ring [OF r1(1,2), of es1 st0] assms(3) by auto
  have f2: "follows (st_sub st0) r2 ?log1 (length (log_of (writes es0)))"
    using run_follows [OF f1 r1(1,2) _ assms(5,7)] assms(3,6) by simp
  let ?st1 = "stream_backlog r2 st0"
  let ?b = "length ?log1 - length (re_ring r2)"
  have bl: "Backlog r2 = drop ?b ?log1" by (rule Backlog_ring [OF r2(1)])
  have pos: "length (re_ring r2) > 0" using r2(1) by (simp add: ring_ok_def Let_def)
  have q0: "length (log_of (writes es0)) \<le> length ?log1" using f2 by (auto simp: follows_def)
  have st1: "stream_ok r2 ?st1 ?log1 ?b (length (log_of (writes es0)))" "st_sub ?st1 = st_sub st0"
  proof -
    show "st_sub ?st1 = st_sub st0" by (simp add: stream_backlog_sent)
    show "stream_ok r2 ?st1 ?log1 ?b (length (log_of (writes es0)))"
    proof (cases "?log1 = []")
      case True
      then show ?thesis using f2 i bl q0 by (simp add: stream_ok_def stream_backlog_sent)
    next
      case False
      have "lr_Seq (last (drop ?b ?log1)) = length ?log1" using False pos log_of_seq [of "length ?log1 - 1" "writes (es0 @ es1)"]
        by (simp add: last_conv_nth)
      moreover have "\<not> length ?log1 \<le> ?b" using False pos by (simp add: not_le)
      ultimately show ?thesis using f2 i(2) bl q0 by (simp add: stream_ok_def stream_backlog_sent)
    qed
  qed
  from stream_ok_run [OF st1(1) r2(1,2), of es2] st1(2) assms(4,6,8)
  obtain q' where ok: "stream_ok r3 st3 (log_of (writes (es0 @ es1) @ writes es2)) ?b q'" by auto
  have sub: "st_sub st3 = st_sub st0" using stream_sub_run [of es2 r2 ?st1] assms(4) st1(2) by simp
  have n: "length (re_ring r3) = length (re_ring r2)" using run_ring [OF r2(1,2), of es2 ?st1] assms(4) by simp
  let ?log = "log_of (writes (es0 @ es1 @ es2))"
  obtain s where s: "map_get (re_subs r3) (st_sub st0) = Some s" "sb_ch s = drop q' ?log" "q' \<le> st_last st3" "st_last st3 \<le> length ?log"
    "?b \<le> st_last st3" "st_sent st3 = drop ?b (take (st_last st3) ?log)"
    using ok sub by (auto simp: stream_ok_def follows_def)
  have "drop ?b (take (st_last st3) ?log) @ filter (\<lambda>rec. lr_Seq rec > st_last st3) (drop q' ?log) = drop ?b ?log"
    unfolding log_after [OF s(3,4)] by (rule drop_take_drop [OF s(5,4)])
  then show ?thesis using s n by (intro exI [of _ s]) simp
qed

section \<open>What a console loses\<close>

lemma receive_all:
  "map_get (re_subs r) (st_sub st) = Some s \<Longrightarrow> snd (log_run (replicate (length (sb_ch s)) LReceive) (r, st)) = fold stream_record (sb_ch s) st \<and>
    map_get (re_subs (fst (log_run (replicate (length (sb_ch s)) LReceive) (r, st)))) (st_sub st) = Some (s\<lparr>sb_ch := []\<rparr>)"
proof (induction "sb_ch s" arbitrary: r st s)
  case (Cons rec ch)
  have sub: "st_sub (stream_record rec st) = st_sub st" by (simp add: stream_record_def)
  show ?case using Cons(1) [of "s\<lparr>sb_ch := ch\<rparr>" "r\<lparr>re_subs := map_put (st_sub st) (s\<lparr>sb_ch := ch\<rparr>) (re_subs r)\<rparr>" "stream_record rec st"]
      Cons(2,3) sub by (simp add: Cons(2) [symmetric] log_run_def stream_receive_def map_get_put)
qed (simp add: log_run_def)

lemma fold_record_last: "\<forall>rec \<in> set recs. lr_Seq rec \<le> n \<Longrightarrow> st_last st \<le> n \<Longrightarrow> st_last (fold stream_record recs st) \<le> n"
  by (induction recs arbitrary: st) (auto simp: stream_record_def)

text \<open>
  The confession of a gap costs one more line: when a subscription that dropped records has
  room again, the notice it queues carries the number of the line logged right then, and the
  stream, having written the notice, discards that line as already delivered. Everything queued
  has been received, the line was never written, and the notice does not count it.
\<close>

theorem notice_swallows_line:
  assumes "map_get (re_subs r) (st_sub st) = Some s" "sb_dropped s > 0" "length (sb_ch s) + 2 \<le> sb_cap s"
    and "\<forall>rec \<in> set (sb_ch s). lr_Seq rec \<le> re_seq r" "st_last st \<le> re_seq r" "TrimRight p (CHR 0x0A) \<noteq> []"
    and "log_run (LWrite p # replicate (length (sb_ch s) + 2) LReceive) (r, st) = (r', st')"
  shows "st_sent st' = st_sent (fold stream_record (sb_ch s) st) @ [drop_notice (re_seq r + 1) (sb_dropped s)] \<and>
    st_last st' = re_seq r + 1 \<and> (\<exists>s'. map_get (re_subs r') (st_sub st) = Some s' \<and> sb_ch s' = [] \<and> sb_dropped s' = 0)"
proof -
  let ?rec = "\<lparr>lr_Seq = re_seq r + 1, lr_Line = TrimRight p (CHR 0x0A)\<rparr>" and ?notice = "drop_notice (re_seq r + 1) (sb_dropped s)"
  let ?s = "s\<lparr>sb_ch := sb_ch s @ [?notice, ?rec], sb_dropped := 0\<rparr>"
  have sent: "sub_send ?rec s = ?s" using assms(2,3) by (simp add: sub_send_def Let_def)
  have sub: "map_get (re_subs (Recorder_Write p r)) (st_sub st) = Some ?s"
    using assms(1,6) sent by (simp add: Recorder_Write_def Let_def map_get_map_val)
  have "log_run (LWrite p # replicate (length (sb_ch s) + 2) LReceive) (r, st) = log_run (replicate (length (sb_ch ?s)) LReceive) (Recorder_Write p r, st)"
    by (simp add: log_run_def)
  with receive_all [OF sub] assms(7) have st': "st' = fold stream_record (sb_ch ?s) st" "map_get (re_subs r') (st_sub st) = Some (?s\<lparr>sb_ch := []\<rparr>)"
    by (simp_all only: fst_conv snd_conv)
  have "st_last (fold stream_record (sb_ch s) st) \<le> re_seq r" by (rule fold_record_last [OF assms(4,5)])
  then show ?thesis using st' by (simp add: stream_record_def drop_notice_def)
qed

section \<open>Concrete consoles\<close>

definition demo_stream :: log_stream where
  "demo_stream = \<lparr>st_sub = 0, st_last = 0, st_sent = []\<rparr>"

theorem stream_exactly_once_witness:
  "map lr_Line (st_sent (snd (log_run [LWrite ''c'', LReceive, LReceive]
      (case stream_subscribe (fst (log_run [LWrite ''a''] (NewRecorder 2, demo_stream))) of (st0, r1) \<Rightarrow>
        (fst (log_run [LWrite ''b''] (r1, st0)), stream_backlog (fst (log_run [LWrite ''b''] (r1, st0))) st0))))) = [''a'', ''b'', ''c''] \<and>
   (\<exists>log. map lr_Seq log = [1, 2, 3] \<and> log = log_of [''a'', ''b'', ''c''])"
proof -
  define r0 where "r0 = fst (log_run [LWrite ''a''] (NewRecorder 2, demo_stream))"
  obtain st0 r1 where sub: "stream_subscribe r0 = (st0, r1)" by (metis surj_pair)
  define r2 where "r2 = fst (log_run [LWrite ''b''] (r1, st0))"
  obtain r3 st3 where run: "log_run [LWrite ''c'', LReceive, LReceive] (r2, stream_backlog r2 st0) = (r3, st3)" by (metis surj_pair)
  have t: "TrimRight ''a'' (CHR 0x0A) = ''a''" "TrimRight ''b'' (CHR 0x0A) = ''b''" "TrimRight ''c'' (CHR 0x0A) = ''c''" by code_simp+
  have rooms: "never_full (st_sub st0) [LWrite ''b''] (r1, st0)"
    "never_full (st_sub st0) [LWrite ''c'', LReceive, LReceive] (r2, stream_backlog r2 st0)"
    "map_get (re_subs r3) (st_sub st0) = Some \<lparr>sb_ch = [], sb_cap = 256, sb_dropped = 0\<rparr>" "length (re_ring r3) = 2"
    using sub run by (auto simp: r0_def r2_def log_run_def NewRecorder_def stream_subscribe_def Subscribe_def Let_def has_room_def Recorder_Write_def t
        stream_receive_def stream_record_def stream_backlog_def Backlog_def sub_send_def numeral_2_eq_2 demo_stream_def)
  have log: "log_of [''a'', ''b''] = [\<lparr>lr_Seq = 1, lr_Line = ''a''\<rparr>, \<lparr>lr_Seq = 2, lr_Line = ''b''\<rparr>]"
    "log_of [''a'', ''b'', ''c''] = [\<lparr>lr_Seq = 1, lr_Line = ''a''\<rparr>, \<lparr>lr_Seq = 2, lr_Line = ''b''\<rparr>, \<lparr>lr_Seq = 3, lr_Line = ''c''\<rparr>]"
    by (simp_all add: log_of_def t)
  from stream_exactly_once [OF r0_def sub r2_def run _ _ rooms(1,2)] rooms(3,4)
  have "st_sent st3 = log_of [''a'', ''b'', ''c'']" by (simp add: log)
  then show ?thesis using sub run unfolding r0_def [symmetric] by (simp add: r2_def [symmetric] log)
qed

definition demo_behind :: recorder where
  "demo_behind = \<lparr>re_ring = replicate 4 \<lparr>lr_Seq = 0, lr_Line = []\<rparr>, re_next = 3, re_filled = 3, re_seq = 7,
     re_subs = [(0, \<lparr>sb_ch = [], sb_cap = 256, sb_dropped = 5\<rparr>)], re_nextSub = 1\<rparr>"

theorem notice_swallows_line_witness:
  "st_sent (snd (log_run [LWrite ''x'', LReceive, LReceive] (demo_behind, demo_stream))) = [drop_notice 8 5]"
proof -
  obtain r' st' where run: "log_run (LWrite ''x'' # replicate (length (sb_ch \<lparr>sb_ch = [], sb_cap = 256, sb_dropped = 5\<rparr>) + 2) LReceive) (demo_behind, demo_stream) = (r', st')"
    by (metis surj_pair)
  have "TrimRight ''x'' (CHR 0x0A) = ''x''" by code_simp
  from notice_swallows_line [OF _ _ _ _ _ _ run] this
  have "st_sent st' = [drop_notice 8 5]" by (simp add: demo_behind_def demo_stream_def)
  then show ?thesis using run by (simp add: numeral_2_eq_2)
qed

end
