(* ===== verification/Export.thy ===== *)
theory Export
  imports Memory
begin

text \<open>
  The .silo package of a silo (siloexport/siloexport.go): the two entries of the archive, as the
  texts the JSON encoder writes with an indent of two spaces and a final newline. The zip container
  is the list of its entries; a zip.Writer that fails is an outcome. Numbers in metadata keep their
  literal text. Text order is the order of bytes.
\<close>

definition specVersion :: string where "specVersion = ''0.1.1''"
definition minReader :: string where "minReader = ''0.1.0''"

definition memoryTypes :: "string list" where
  "memoryTypes = [''fact'', ''decision'', ''narrative'', ''insight'', ''open_item'', ''custom'']"

definition kindToType :: "(string \<times> string) list" where
  "kindToType = [(''decision'', ''decision''), (''fact'', ''fact''), (''preference'', ''fact''), (''action_item'', ''open_item''), (''explicit'', ''fact'')]"

text \<open>The type a metadata value names, if it is a string that names one.\<close>

definition type_of_value :: "json option \<Rightarrow> string option" where
  "type_of_value v = (case v of
     Some (JStr s) \<Rightarrow> (case map_get kindToType s of Some t \<Rightarrow> Some t | None \<Rightarrow> if s \<in> set memoryTypes then Some s else None)
   | _ \<Rightarrow> None)"

definition memType :: "(string \<times> json) list option \<Rightarrow> string" where
  "memType meta = (let m = (case meta of None \<Rightarrow> [] | Some kvs \<Rightarrow> kvs) in
     case type_of_value (map_get m ''kind'') of Some t \<Rightarrow> t
     | None \<Rightarrow> (case type_of_value (map_get m ''type'') of Some t \<Rightarrow> t | None \<Rightarrow> ''fact''))"

text \<open>The least created_at and the greatest updated_at of the items, as texts.\<close>

fun bounds_loop :: "mem_item list \<Rightarrow> string \<Rightarrow> string \<Rightarrow> string \<times> string" where
  "bounds_loop [] c u = (c, u)"
| "bounds_loop (it # its) c u =
     bounds_loop its (if it_CreatedAt it \<noteq> [] \<and> (c = [] \<or> it_CreatedAt it < c) then it_CreatedAt it else c)
       (if it_UpdatedAt it \<noteq> [] \<and> u < it_UpdatedAt it then it_UpdatedAt it else u)"

definition timeBounds :: "mem_item list \<Rightarrow> string \<Rightarrow> string \<times> string" where
  "timeBounds items fallback = (case bounds_loop items [] [] of
     (c, u) \<Rightarrow> (if c = [] then fallback else c, if u = [] then fallback else u))"

definition manifest_json :: "string \<Rightarrow> string \<Rightarrow> mem_item list \<Rightarrow> string \<Rightarrow> json" where
  "manifest_json siloID deviceName items now = (case timeBounds items now of (created, updated) \<Rightarrow>
     JObj [(''spec'', JStr specVersion), (''min_reader'', JStr minReader), (''id'', JStr siloID), (''title'', JStr siloID),
       (''created_at'', JStr created), (''updated_at'', JStr updated), (''mode'', JStr ''augmented''),
       (''creator'', JObj [(''name'', JStr deviceName), (''uri'', JStr (''onesilo-node:'' @ siloID))]), (''tags'', JArr []),
       (''stats'', JObj [(''memory_count'', JNum (show_nat (length items))), (''entity_count'', JNum ''0''), (''ref_count'', JNum ''0''),
          (''ref_size_bytes'', JNum ''0'')])])"

definition specMemory :: "mem_item \<Rightarrow> json" where
  "specMemory it = JObj ([(''id'', JStr (it_ID it)), (''type'', JStr (memType (it_Metadata it))), (''content'', JStr (it_Content it)),
     (''created_at'', JStr (it_CreatedAt it)), (''updated_at'', JStr (it_UpdatedAt it))] @
     (case it_Metadata it of None \<Rightarrow> [] | Some m \<Rightarrow> if m = [] then [] else [(''metadata'', JObj (sort_key fst m))]))"

definition siloJSON :: "mem_item list \<Rightarrow> json" where
  "siloJSON items = JObj [(''memories'', JArr (map specMemory items)), (''entities'', JArr []), (''relationships'', JArr []), (''topics'', JArr []),
     (''memory_entity_links'', JArr []), (''memory_ref_links'', JArr []), (''refs'', JArr []), (''config'', JObj [])]"

definition writeJSONEntry :: "bool \<Rightarrow> string \<Rightarrow> json \<Rightarrow> (string \<times> bytes) list \<Rightarrow> (string \<times> bytes) list option" where
  "writeJSONEntry ok nm v zw = (if ok then Some (zw @ [(nm, json_indent 0 v @ [CHR 0x0A])]) else None)"

text \<open>Write: the archive, unless the first or the second entry or the end of the archive cannot be written.\<close>

definition Export_Write :: "bool \<times> bool \<times> bool \<Rightarrow> string \<Rightarrow> string \<Rightarrow> mem_item list \<Rightarrow> string \<Rightarrow> (string \<times> bytes) list option" where
  "Export_Write oks siloID deviceName items now = (case oks of (ok1, ok2, ok3) \<Rightarrow>
     (case writeJSONEntry ok1 ''manifest.json'' (manifest_json siloID deviceName items now) [] of
        None \<Rightarrow> None
      | Some zw \<Rightarrow> (case writeJSONEntry ok2 ''silo.json'' (siloJSON items) zw of
          None \<Rightarrow> None | Some zw' \<Rightarrow> if ok3 then Some zw' else None)))"

text \<open>The node's export of a silo: what List opens, under the node's device name.\<close>

definition ExportSilo :: "gcm \<Rightarrow> bool \<times> bool \<times> bool \<Rightarrow> string \<Rightarrow> string \<Rightarrow> string \<Rightarrow> mem_world \<Rightarrow> mem_err + (string \<times> bytes) list option" where
  "ExportSilo g oks siloID deviceName now w = (case List_op g siloID w of
     Inl e \<Rightarrow> Inl e | Inr items \<Rightarrow> Inr (Export_Write oks siloID deviceName items now))"

section \<open>Reading a package\<close>

text \<open>A reader of the format: the memories of silo.json, with what the format keeps of an item.\<close>

definition memory_of_spec :: "json \<Rightarrow> mem_item option" where
  "memory_of_spec v = do {
     kvs \<leftarrow> struct_fields v;
     i \<leftarrow> get_str ''id'' kvs; c \<leftarrow> get_str ''content'' kvs; ca \<leftarrow> get_str ''created_at'' kvs; ua \<leftarrow> get_str ''updated_at'' kvs;
     m \<leftarrow> get_field (\<lambda>v cur. case v of JObj m \<Rightarrow> Some (Some m) | _ \<Rightarrow> None) ''metadata'' None kvs;
     Some \<lparr>it_ID = i, it_Content = c, it_Metadata = m, it_CreatedAt = ca, it_UpdatedAt = ua\<rparr>}"

definition read_silo :: "bytes \<Rightarrow> mem_item list option" where
  "read_silo b = do { v \<leftarrow> json_parse b; kvs \<leftarrow> struct_fields v; get_field (dec_slice memory_of_spec) ''memories'' [] kvs }"

definition norm_item :: "mem_item \<Rightarrow> mem_item" where
  "norm_item it = it\<lparr>it_Metadata := (case it_Metadata it of None \<Rightarrow> None | Some m \<Rightarrow> if m = [] then None else Some (sort_key fst m))\<rparr>"

lemma json_parse_line: "wf_json v \<Longrightarrow> json_parse (json_indent d v @ [CHR 0x0A]) = Some v"
proof -
  assume "wf_json v"
  then have "lexes (json_indent d v @ [CHR 0x0A]) (toks v @ [])"
    by (rule lexes_to_append [OF json_indent_lexes]) (simp_all add: lexes_ws is_ws_def close_not_num)
  then show ?thesis using lexes_to_parse [OF lexes_lexes_to] by simp
qed

lemma wf_specMemory: "list_all (\<lambda>(k, v). wf_json v) (case it_Metadata it of None \<Rightarrow> [] | Some m \<Rightarrow> m) \<Longrightarrow> wf_json (specMemory it)"
  by (cases "it_Metadata it") (auto simp: specMemory_def list_all_iff)

lemma show_nat_digits: "list_all is_digit (show_nat n) \<and> show_nat n \<noteq> [] \<and> (hd (show_nat n) = CHR ''0'' \<longrightarrow> n = 0) \<and> (n < 10 \<longrightarrow> length (show_nat n) = 1)"
proof (induction n rule: show_nat.induct)
  case (1 n)
  have d: "is_digit (char_of (48 + m))" "char_of (48 + m) = CHR ''0'' \<longleftrightarrow> m = 0" if "m < 10" for m :: nat
    using that by (auto simp: is_digit_def of_char_of char_of_eq_iff take_bit_nat_eq_self)
  show ?case
  proof (cases "n < 10")
    case True
    then show ?thesis using d by (simp add: show_nat.simps [of n])
  next
    case False
    then have "n div 10 \<noteq> 0" by simp
    then show ?thesis using 1 False d [of "n mod 10"] by (simp add: show_nat.simps [of n] hd_append)
  qed
qed

lemma digits_only: "list_all is_digit s \<Longrightarrow> takeWhile is_digit s = s \<and> dropWhile is_digit s = []"
  by (induction s) auto

lemma valid_num_show_nat: "valid_num (show_nat n)"
proof -
  note s = show_nat_digits [of n]
  obtain c t where ct: "show_nat n = c # t" using s by (cases "show_nat n") auto
  have "c \<noteq> CHR ''-''" using s ct by (auto simp: is_digit_def)
  then have "strip_sign {CHR ''-''} (show_nat n) = show_nat n" by (simp add: strip_sign_def ct)
  moreover have "list_all is_num_char (show_nat n)" using s by (auto simp: list_all_iff is_num_char_def)
  moreover have "hd (show_nat n) = CHR ''0'' \<longrightarrow> length (show_nat n) = 1" using s by auto
  moreover have "takeWhile is_digit (show_nat n) = show_nat n" "dropWhile is_digit (show_nat n) = []" using s digits_only by blast+
  ultimately show ?thesis using s by (simp only: valid_num_def valid_frac_exp_def Let_def list.case) blast
qed

lemma dec_all_map_to: "(\<And>x. dec (enc x) = Some (f x)) \<Longrightarrow> dec_all dec (map enc xs) = Some (map f xs)"
  by (induction xs) auto



lemma memory_of_spec: "memory_of_spec (specMemory it) = Some (norm_item it)"
proof -
  have "memory_of_spec (specMemory (it\<lparr>it_Metadata := m\<rparr>)) = Some (norm_item (it\<lparr>it_Metadata := m\<rparr>))" for m
    by (cases "m = None \<or> m = Some []")
      (auto simp: memory_of_spec_def specMemory_def struct_fields_def dec_str_def norm_item_def go_strings split: option.splits)
  from this [of "it_Metadata it"] show ?thesis by simp
qed



definition demo_item :: "string \<Rightarrow> string \<Rightarrow> (string \<times> json) list option \<Rightarrow> mem_item" where
  "demo_item i t m = \<lparr>it_ID = i, it_Content = [CHR 0x22, CHR 0x0A, CHR 0xE2], it_Metadata = m, it_CreatedAt = t, it_UpdatedAt = t\<rparr>"


section \<open>Types and time bounds\<close>

lemma memType_allowed: "memType meta \<in> set memoryTypes"
proof -
  have "t \<in> set memoryTypes" if "type_of_value v = Some t" for v t
    using that by (auto simp: type_of_value_def kindToType_def memoryTypes_def split: option.splits json.splits if_splits)
  moreover have "''fact'' \<in> set memoryTypes" by (simp add: memoryTypes_def)
  ultimately show ?thesis by (auto simp: memType_def Let_def split: option.split)
qed

lemma timeBounds_two:
  assumes "n < m" "n \<noteq> []" "m \<noteq> []"
  shows "timeBounds [demo_item i m a, demo_item j n b] now = (n, m)"
proof -
  have "[] < m" using assms(3) by (cases m) simp_all
  then show ?thesis using assms less_not_sym [OF assms(1)] by (simp add: timeBounds_def demo_item_def)
qed

text \<open>
  The bounds of the manifest are bounds of the texts, not of the times: of two memories stored
  within a second at .12 s and .123 s, created_at is the later one, and updated_at the earlier.
\<close>

lemma timeBounds_are_textual:
  "timeBounds [demo_item ''old'' (RFC3339Nano base 120000000) None, demo_item ''new'' (RFC3339Nano base 123000000) None] now =
     (RFC3339Nano base 123000000, RFC3339Nano base 120000000)"
  by (rule timeBounds_two [OF nano_order])

end
