(* ===== verification/AdminHttp.thy ===== *)
theory AdminHttp
  imports Relay Node SignIn Setup Recorder Router Export
begin

text \<open>
  The admin API (internal/adminapi): the loopback and bearer-token gates, the mux with its routes,
  every handler over the state of the node it reaches, and the header of a silo export; and the
  parts of node.go and ui.go that answer it. The components keep their own files, each on a disk of
  its own here. What a handler asks of the environment is in one record; an error's text is a
  function of the error. The code exchange of a callback is taken with the callback (SignIn has
  them interleaved).
\<close>

section \<open>State and environment\<close>

record admin_world =
  aw_node :: node
  aw_console :: console
  aw_keys :: key_store
  aw_keysDisk :: disk
  aw_mem :: mem_world
  aw_compute :: compute_cap
  aw_pulls :: pulls
  aw_pairer :: "pairer option"
  aw_log :: "recorder option"
  aw_stopping :: bool   \<comment> \<open>the node's context is cancelled\<close>

datatype admin_err = AENode node_err | AEPair pverify_err | AEGenerate generate_err | AEKey key_err | AEMem mem_err | AEPull pull_err
  | AEFlow flow_err | AEGrant oauth_err | AEModels ol_err

record admin_env =
  ae_token :: string
  ae_port :: int   \<comment> \<open>the port the server was built with\<close>
  ae_home :: "string option"
  ae_hostname :: "string option"
  ae_now :: time
  ae_stamp :: string   \<comment> \<open>now as RFC 3339\<close>
  ae_configPath :: string
  ae_enc :: "Config \<Rightarrow> bytes"
  ae_save :: save_fault
  ae_reconcile :: reconcile_env
  ae_mkdir :: bool
  ae_write :: wf_fault
  ae_wfa :: wfa_env
  ae_tags :: reply
  ae_generate :: "string \<Rightarrow> stream_reply"
  ae_mint :: mint_env
  ae_db_ok :: bool
  ae_zip :: "bool \<times> bool \<times> bool"
  ae_begin :: begin_env
  ae_exchange :: token_reply
  ae_grant :: save_env
  ae_removed :: bool
  ae_trailing :: bool   \<comment> \<open>the body has more than white space after its first value\<close>
  ae_float :: "string \<Rightarrow> bool"   \<comment> \<open>the number fits a float64\<close>
  ae_health :: "string \<Rightarrow> bool \<times> string"
  ae_uptime :: int
  ae_lan :: "bool \<times> nat"   \<comment> \<open>published, clients\<close>
  ae_nodeKey :: string
  ae_version :: "string \<times> string"
  ae_text :: "admin_err \<Rightarrow> string"

datatype admin_answer = AJson response | AText nat string | AStatic | APage nat bool page_detail
  | APackage string "(string \<times> bytes) list option" | AStream log_stream | AEmpty nat

definition error_answer :: "nat \<Rightarrow> string \<Rightarrow> admin_answer" where
  "error_answer code msg = AJson (writeError code msg)"

text \<open>writeJSON: a value that cannot be encoded leaves the body empty.\<close>

definition writeJSON :: "nat \<Rightarrow> json option \<Rightarrow> admin_answer" where
  "writeJSON code v = (case v of None \<Rightarrow> AEmpty code | Some j \<Rightarrow> AJson \<lparr>rs_status = code, rs_body = j\<rparr>)"

abbreviation ok_json :: "string \<Rightarrow> json" where
  "ok_json k \<equiv> JObj [(k, JBool True)]"

section \<open>Gates\<close>

text \<open>net.SplitHostPort: the last colon, brackets in their places.\<close>

definition net_SplitHostPort :: "string \<Rightarrow> (string \<times> string) option" where
  "net_SplitHostPort hp = (case last_cut (CHR '':'') hp of
     None \<Rightarrow> None
   | Some (h, port) \<Rightarrow>
      if HasPrefix hp ''['' then
        (case cut_byte (CHR '']'') hp of
           None \<Rightarrow> None
         | Some (a, b) \<Rightarrow> if b \<noteq> CHR '':'' # port then None
             else if CHR ''['' \<in> set (tl a) \<or> CHR ''['' \<in> set b \<or> CHR '']'' \<in> set b then None else Some (tl a, port))
      else if CHR '':'' \<in> set h \<or> CHR ''['' \<in> set hp \<or> CHR '']'' \<in> set hp then None else Some (h, port))"

definition loopback_names :: "string list" where
  "loopback_names = [''127.0.0.1'', ''localhost'', ''::1'', ''[::1]'']"

definition allowed_host :: "int \<Rightarrow> string \<Rightarrow> bool" where
  "allowed_host port host \<longleftrightarrow> list_ex (\<lambda>h. host = h \<or> host = h @ CHR '':'' # show_int port) loopback_names"

definition requireLoopbackHost :: "int \<Rightarrow> (http_req \<Rightarrow> 'w \<Rightarrow> admin_answer \<times> 'w) \<Rightarrow> http_req \<Rightarrow> 'w \<Rightarrow> admin_answer \<times> 'w" where
  "requireLoopbackHost port h r w =
    (if \<not> allowed_host port (hq_Host r) \<and>
        (case net_SplitHostPort (hq_Host r) of None \<Rightarrow> True | Some (host, p) \<Rightarrow> \<not> allowed_host port host)
     then (AText 421 ''misdirected request: unexpected Host'', w)
     else h r w)"

definition requireAdminToken :: "(bytes \<Rightarrow> bytes) \<Rightarrow> string \<Rightarrow> (http_req \<Rightarrow> 'w \<Rightarrow> admin_answer \<times> 'w) \<Rightarrow> http_req \<Rightarrow> 'w \<Rightarrow> admin_answer \<times> 'w" where
  "requireAdminToken sha256 token h r w =
    (if token = [] then (error_answer 401 ''admin API disabled: SILO_NODE_ADMIN_TOKEN is not set'', w)
     else case CutPrefix (hdr_get ''Authorization'' (hq_Header r)) ''Bearer '' of
       None \<Rightarrow> (error_answer 401 ''missing bearer token'', w)
     | Some bearer \<Rightarrow> if sha256 token \<noteq> sha256 bearer then (error_answer 401 ''invalid admin token'', w) else h r w)"

section \<open>Request bodies\<close>

text \<open>DisallowUnknownFields: every member is a field.\<close>

definition known :: "string list \<Rightarrow> (string \<times> json) list \<Rightarrow> unit option" where
  "known fs kvs = (if list_all (\<lambda>(k, v). list_ex (EqualFold k) fs) kvs then Some () else None)"

abbreviation ptr_str :: "string \<Rightarrow> string option \<Rightarrow> (string \<times> json) list \<Rightarrow> string option option" where
  "ptr_str \<equiv> get_field (dec_ptr dec_str [])"

abbreviation ptr_bool :: "string \<Rightarrow> bool option \<Rightarrow> (string \<times> json) list \<Rightarrow> bool option option" where
  "ptr_bool \<equiv> get_field (dec_ptr dec_bool False)"

abbreviation ptr_int :: "string \<Rightarrow> int option \<Rightarrow> (string \<times> json) list \<Rightarrow> int option option" where
  "ptr_int \<equiv> get_field (dec_ptr dec_int 0)"

definition dec_LogPatch :: "json \<Rightarrow> string option \<times> string option \<Rightarrow> (string option \<times> string option) option" where
  "dec_LogPatch v cur = do { kvs \<leftarrow> struct_fields v; _ \<leftarrow> known [''format'', ''level''] kvs;
     f \<leftarrow> ptr_str ''format'' (fst cur) kvs; l \<leftarrow> ptr_str ''level'' (snd cur) kvs; Some (f, l) }"

definition dec_CapabilitiesPatch :: "json \<Rightarrow> bool option \<times> bool option \<Rightarrow> (bool option \<times> bool option) option" where
  "dec_CapabilitiesPatch v cur = do { kvs \<leftarrow> struct_fields v; _ \<leftarrow> known [''memory'', ''compute''] kvs;
     m \<leftarrow> ptr_bool ''memory'' (fst cur) kvs; c \<leftarrow> ptr_bool ''compute'' (snd cur) kvs; Some (m, c) }"

definition dec_ControlPlanePatch :: "json \<Rightarrow> string option \<times> string option \<times> string option \<Rightarrow> (string option \<times> string option \<times> string option) option" where
  "dec_ControlPlanePatch v cur = do { kvs \<leftarrow> struct_fields v; _ \<leftarrow> known [''url'', ''auth_mode'', ''device_name''] kvs;
     u \<leftarrow> ptr_str ''url'' (fst cur) kvs; a \<leftarrow> ptr_str ''auth_mode'' (fst (snd cur)) kvs; d \<leftarrow> ptr_str ''device_name'' (snd (snd cur)) kvs; Some (u, a, d) }"

definition dec_MemoryPatch :: "json \<Rightarrow> string option \<Rightarrow> string option option" where
  "dec_MemoryPatch v cur = do { kvs \<leftarrow> struct_fields v; _ \<leftarrow> known [''embed_model''] kvs; ptr_str ''embed_model'' cur kvs }"

definition dec_OllamaPatch :: "json \<Rightarrow> string option \<times> bool option \<times> string option \<times> string option
    \<Rightarrow> (string option \<times> bool option \<times> string option \<times> string option) option" where
  "dec_OllamaPatch v cur = do { kvs \<leftarrow> struct_fields v; _ \<leftarrow> known [''host'', ''manage'', ''default_model'', ''binary_path''] kvs;
     h \<leftarrow> ptr_str ''host'' (fst cur) kvs; m \<leftarrow> ptr_bool ''manage'' (fst (snd cur)) kvs;
     d \<leftarrow> ptr_str ''default_model'' (fst (snd (snd cur))) kvs; b \<leftarrow> ptr_str ''binary_path'' (snd (snd (snd cur))) kvs; Some (h, m, d, b) }"

definition dec_TunnelPatch :: "json \<Rightarrow> string option \<times> string option \<times> string option \<Rightarrow> (string option \<times> string option \<times> string option) option" where
  "dec_TunnelPatch v cur = do { kvs \<leftarrow> struct_fields v; _ \<leftarrow> known [''mode'', ''cloudflared_path'', ''external_url''] kvs;
     m \<leftarrow> ptr_str ''mode'' (fst cur) kvs; c \<leftarrow> ptr_str ''cloudflared_path'' (fst (snd cur)) kvs; u \<leftarrow> ptr_str ''external_url'' (snd (snd cur)) kvs; Some (m, c, u) }"

definition dec_LANPatch :: "json \<Rightarrow> bool option \<times> int option \<Rightarrow> (bool option \<times> int option) option" where
  "dec_LANPatch v cur = do { kvs \<leftarrow> struct_fields v; _ \<leftarrow> known [''enabled'', ''port''] kvs;
     e \<leftarrow> ptr_bool ''enabled'' (fst cur) kvs; p \<leftarrow> ptr_int ''port'' (snd cur) kvs; Some (e, p) }"

definition dec_OpenAIPatch :: "json \<Rightarrow> bool option \<Rightarrow> bool option option" where
  "dec_OpenAIPatch v cur = do { kvs \<leftarrow> struct_fields v; _ \<leftarrow> known [''enabled''] kvs; ptr_bool ''enabled'' cur kvs }"

definition dec_AdminPatch :: "json \<Rightarrow> int option \<Rightarrow> int option option" where
  "dec_AdminPatch v cur = do { kvs \<leftarrow> struct_fields v; _ \<leftarrow> known [''port''] kvs; ptr_int ''port'' cur kvs }"

definition patch_of_json :: "json \<Rightarrow> ConfigPatch option" where
  "patch_of_json v = do {
     kvs \<leftarrow> struct_fields v;
     _ \<leftarrow> known [''mode'', ''data_dir'', ''log'', ''capabilities'', ''control_plane'', ''memory'', ''ollama'', ''tunnel'', ''lan'', ''openai'', ''admin''] kvs;
     mode \<leftarrow> ptr_str ''mode'' None kvs; dir \<leftarrow> ptr_str ''data_dir'' None kvs;
     lg \<leftarrow> get_field (dec_ptr dec_LogPatch (None, None)) ''log'' None kvs;
     caps \<leftarrow> get_field (dec_ptr dec_CapabilitiesPatch (None, None)) ''capabilities'' None kvs;
     cp \<leftarrow> get_field (dec_ptr dec_ControlPlanePatch (None, None, None)) ''control_plane'' None kvs;
     mem \<leftarrow> get_field (dec_ptr dec_MemoryPatch None) ''memory'' None kvs;
     ol \<leftarrow> get_field (dec_ptr dec_OllamaPatch (None, None, None, None)) ''ollama'' None kvs;
     tn \<leftarrow> get_field (dec_ptr dec_TunnelPatch (None, None, None)) ''tunnel'' None kvs;
     ln \<leftarrow> get_field (dec_ptr dec_LANPatch (None, None)) ''lan'' None kvs;
     oa \<leftarrow> get_field (dec_ptr dec_OpenAIPatch None) ''openai'' None kvs;
     ad \<leftarrow> get_field (dec_ptr dec_AdminPatch None) ''admin'' None kvs;
     Some \<lparr>p_Mode = mode, p_DataDir = dir, p_Log = lg, p_Capabilities = caps, p_ControlPlane = cp, p_Memory = mem, p_Ollama = ol,
       p_Tunnel = tn, p_LAN = ln, p_OpenAI = oa, p_Admin = ad\<rparr> }"


section \<open>Response bodies\<close>

definition config_json :: "Config \<Rightarrow> json" where
  "config_json c = JObj [(''mode'', JStr (c_Mode c)), (''data_dir'', JStr (c_DataDir c)),
     (''log'', JObj [(''format'', JStr (log_Format (c_Log c))), (''level'', JStr (log_Level (c_Log c)))]),
     (''capabilities'', JObj [(''memory'', JBool (cap_Memory (c_Capabilities c))), (''compute'', JBool (cap_Compute (c_Capabilities c)))]),
     (''control_plane'', JObj [(''url'', JStr (cp_URL (c_ControlPlane c))), (''auth_mode'', JStr (cp_AuthMode (c_ControlPlane c))),
        (''device_name'', JStr (cp_DeviceName (c_ControlPlane c)))]),
     (''memory'', JObj [(''embed_model'', JStr (c_EmbedModel c))]),
     (''ollama'', JObj [(''host'', JStr (ol_Host (c_Ollama c))), (''manage'', JBool (ol_Manage (c_Ollama c))),
        (''default_model'', JStr (ol_DefaultModel (c_Ollama c))), (''binary_path'', JStr (ol_BinaryPath (c_Ollama c)))]),
     (''tunnel'', JObj [(''mode'', JStr (tn_Mode (c_Tunnel c))), (''cloudflared_path'', JStr (tn_CloudflaredPath (c_Tunnel c))),
        (''external_url'', JStr (tn_ExternalURL (c_Tunnel c)))]),
     (''lan'', JObj [(''enabled'', JBool (lan_Enabled (c_LAN c))), (''port'', JNum (show_int (lan_Port (c_LAN c)))),
        (''require_pairing_verification'', JBool (lan_RequirePairingVerification (c_LAN c)))]),
     (''openai'', JObj [(''enabled'', JBool (oa_Enabled (c_OpenAI c))), (''publish_key_to_control_plane'', JBool (oa_PublishKeyToControlPlane (c_OpenAI c)))]),
     (''admin'', JObj [(''port'', JNum (show_int (c_AdminPort c)))])]"

definition omit_str_field :: "string \<Rightarrow> string \<Rightarrow> (string \<times> json) list" where
  "omit_str_field k s = (if s = [] then [] else [(k, JStr s)])"

definition capability_status :: "admin_env \<Rightarrow> admin_world \<Rightarrow> string \<Rightarrow> json" where
  "capability_status e w name = JObj [(''name'', JStr name), (''enabled'', JBool (Enabled (nd_cfg (aw_node w)) name)),
     (''running'', JBool (capRunning (aw_node w) name)), (''healthy'', JBool (fst (ae_health e name))), (''detail'', JStr (snd (ae_health e name)))]"

definition Node_Status :: "timefmt \<Rightarrow> admin_env \<Rightarrow> admin_world \<Rightarrow> json" where
  "Node_Status tf e w = (let n = aw_node w; cfg = nd_cfg n; m = ms_m (nd_reg n) in
     JObj ([(''version'', JStr (fst (ae_version e))), (''commit'', JStr (snd (ae_version e))), (''mode'', JStr (c_Mode cfg)),
       (''uptime_seconds'', JNum (show_int (ae_uptime e))), (''capabilities'', JArr (map (capability_status e w) capabilities)),
       (''tunnel'', JObj [(''mode'', JStr (tn_Mode (c_Tunnel cfg))), (''url'', JStr (status_tunnel_url n))]),
       (''registration'', JObj [(''registered'', JBool (mg_registered m)), (''device_id'', JStr (mg_deviceID m)),
          (''auth_mode'', JStr (cp_AuthMode (c_ControlPlane cfg))), (''oauth_signed_in'', JBool (oauthSignedIn tf (ae_home e) (ae_now e) n)),
          (''subscription_required'', JBool (subscriptionRequired n))]),
       (''lan'', JObj [(''published'', JBool (fst (ae_lan e))), (''port'', JNum (show_int (lan_Port (c_LAN cfg)))), (''clients'', JNum (show_nat (snd (ae_lan e))))]),
       (''memory'', JObj [(''enabled'', JBool (cap_Memory (c_Capabilities cfg))), (''healthy'', JBool (fst (ae_health e ''memory''))),
          (''silos'', JNum (show_nat (case Silos (aw_mem w) of Inl _ \<Rightarrow> 0 | Inr l \<Rightarrow> length l)))])] @
       omit_str_field ''node_key'' (ae_nodeKey e)))"

definition PendingPairings :: "admin_world \<Rightarrow> json list" where
  "PendingPairings w = map (\<lambda>pp. JObj [(''account_id'', JStr (pp_AccountID pp)), (''app_id_pub'', JStr (pp_AppIDPubB64 pp)), (''sas'', JStr (pp_SAS pp))])
     (Pairer_Pending (aw_pairer w))"

definition openai_key_fields :: "timefmt \<Rightarrow> api_key \<Rightarrow> (string \<times> json) list option" where
  "openai_key_fields tf k = map_option (\<lambda>t. [(''id'', JStr (ak_ID k)), (''name'', JStr (ak_Name k)), (''last4'', JStr (ak_Last4 k)),
     (''created_at'', JStr t)]) (tf_fmt tf (ak_CreatedAt k))"

definition OpenAIKeys :: "timefmt \<Rightarrow> admin_world \<Rightarrow> json option" where
  "OpenAIKeys tf w = map_option (\<lambda>rows. JObj [(''keys'', JArr (map JObj rows))]) (those (map (openai_key_fields tf) (KeyStore_List (aw_keys w))))"

definition memory_row :: "mem_item \<Rightarrow> json" where
  "memory_row it = JObj ([(''id'', JStr (it_ID it)), (''content'', JStr (it_Content it))] @
     (case it_Metadata it of None \<Rightarrow> [] | Some m \<Rightarrow> if m = [] then [] else [(''metadata'', JObj (sort_key fst m))]) @
     [(''created_at'', JStr (it_CreatedAt it)), (''updated_at'', JStr (it_UpdatedAt it))])"

definition pull_json_of :: "pull_state \<Rightarrow> json" where
  "pull_json_of st = JObj ([(''model'', JStr (pl_Model st)),
     (''status'', JStr (case pl_Status st of Pulling \<Rightarrow> ''pulling'' | PullDone \<Rightarrow> ''done'' | PullFailed \<Rightarrow> ''error''))] @
     omit_str_field ''detail'' (pl_Detail st) @ (if pl_Completed st = 0 then [] else [(''completed'', JNum (show_int (pl_Completed st)))]) @
     (if pl_Total st = 0 then [] else [(''total'', JNum (show_int (pl_Total st)))]))"

definition models_json :: "admin_env \<Rightarrow> models_info \<Rightarrow> json" where
  "models_json e i = JObj ([(''active'', JStr (mf_Active i)), (''default'', JStr (mf_Default i)),
     (''models'', JArr (map (\<lambda>m. JObj ([(''name'', JStr (mi_Name m))] @ (if mi_SizeBytes m = 0 then [] else [(''size_bytes'', JNum (show_int (mi_SizeBytes m)))]) @
        omit_str_field ''modified_at'' (mi_ModifiedAt m) @ [(''active'', JBool (mi_Active m)), (''default'', JBool (mi_Default m))])) (mf_Models i)))] @
     (case mf_Pull i of None \<Rightarrow> [] | Some st \<Rightarrow> [(''pull'', pull_json_of st)]) @
     (case mf_Error i of None \<Rightarrow> [] | Some err \<Rightarrow> omit_str_field ''error'' (ae_text e (AEModels err))))"

section \<open>The header of an export\<close>

text \<open>The width of the first rune of a non-empty string: one for a byte that begins no well-formed sequence.\<close>

definition byte_in :: "nat \<Rightarrow> nat \<Rightarrow> string \<Rightarrow> nat \<Rightarrow> bool" where
  "byte_in lo hi s i \<longleftrightarrow> i < length s \<and> lo \<le> (of_char (s ! i) :: nat) \<and> (of_char (s ! i) :: nat) \<le> hi"

definition rune_width :: "string \<Rightarrow> nat" where
  "rune_width s = (let b = (of_char (hd s) :: nat); c = byte_in 128 191 s in
     if b < 194 \<or> 244 < b then 1
     else if b < 224 then (if c 1 then 2 else 1)
     else if b < 240 then
       (if (if b = 224 then byte_in 160 191 s 1 else if b = 237 then byte_in 128 159 s 1 else c 1) \<and> c 2 then 3 else 1)
     else (if (if b = 240 then byte_in 144 191 s 1 else if b = 244 then byte_in 128 143 s 1 else c 1) \<and> c 2 \<and> c 3 then 4 else 1))"

definition safe_char :: "char \<Rightarrow> bool" where
  "safe_char c \<longleftrightarrow> is_letter c \<or> is_num c \<or> c \<in> {CHR ''-'', CHR ''_'', CHR ''.''}"

function ascii_name :: "string \<Rightarrow> string" where
  "ascii_name [] = []"
| "ascii_name (c # cs) = (if safe_char c then c else CHR ''_'') # ascii_name (drop (rune_width (c # cs) - 1) cs)"
  by pat_completeness auto
termination by (relation "measure length") auto

definition urlEncodePath :: "string \<Rightarrow> string" where
  "urlEncodePath = pct_encode unreserved"

definition contentDisposition :: "string \<Rightarrow> string" where
  "contentDisposition nm = (let a = (if ascii_name nm = [] then ''silo.silo'' else ascii_name nm) in
     ''attachment; filename='' @ a @ ''; '' @ ''filename*=UTF-8'' @ [CHR 0x27, CHR 0x27] @ urlEncodePath nm)"

section \<open>The node behind the controller interfaces\<close>

text \<open>Each method on the part of the world it is about.\<close>

definition VerifyPairing :: "timefmt \<Rightarrow> admin_env \<Rightarrow> string \<Rightarrow> string \<Rightarrow> admin_world \<Rightarrow> admin_err option \<times> admin_world" where
  "VerifyPairing tf e account pub w = (case Pairer_Verify tf (ae_wfa e) (ae_now e) account pub (aw_pairer w) of
     (r, p) \<Rightarrow> (map_option AEPair r, w\<lparr>aw_pairer := p\<rparr>))"

definition MintOpenAIKey :: "crypto \<Rightarrow> timefmt \<Rightarrow> admin_env \<Rightarrow> string \<Rightarrow> admin_world \<Rightarrow> (admin_err + string \<times> api_key) \<times> admin_world" where
  "MintOpenAIKey c tf e nm w = (case KeyStore_Mint c tf (ae_mint e) nm (aw_keys w) (aw_keysDisk w) of
     (r, s, d) \<Rightarrow> (map_sum AEKey id r, w\<lparr>aw_keys := s, aw_keysDisk := d\<rparr>))"

definition RevokeOpenAIKey :: "timefmt \<Rightarrow> admin_env \<Rightarrow> string \<Rightarrow> admin_world \<Rightarrow> admin_err option \<times> admin_world" where
  "RevokeOpenAIKey tf e i w = (case KeyStore_Revoke tf (ae_wfa e) i (aw_keys w) (aw_keysDisk w) of
     (r, s, d) \<Rightarrow> (map_option AEKey r, w\<lparr>aw_keys := s, aw_keysDisk := d\<rparr>))"

definition ListSilos :: "admin_world \<Rightarrow> admin_err + json list" where
  "ListSilos w = map_sum AEMem (map (\<lambda>(s, n). JObj [(''silo_id'', JStr s), (''count'', JNum (show_nat n))])) (Silos (aw_mem w))"

definition ListMemories :: "gcm \<Rightarrow> string \<Rightarrow> admin_world \<Rightarrow> admin_err + json list" where
  "ListMemories g siloID w = map_sum AEMem (map memory_row) (List_op g siloID (aw_mem w))"

definition ForgetMemory :: "admin_env \<Rightarrow> string \<Rightarrow> string \<Rightarrow> admin_world \<Rightarrow> (admin_err + bool) \<times> admin_world" where
  "ForgetMemory e siloID i w = (case Forget (ae_db_ok e) siloID i (aw_mem w) of (r, m) \<Rightarrow> (map_sum AEMem id r, w\<lparr>aw_mem := m\<rparr>))"

section \<open>Handlers\<close>

definition handle_put_config :: "admin_env \<Rightarrow> json option \<Rightarrow> admin_world \<Rightarrow> admin_answer \<times> admin_world" where
  "handle_put_config e body w = (case Option.bind body patch_of_json of
     None \<Rightarrow> (error_answer 400 ''invalid config patch'', w)
   | Some patch \<Rightarrow> (case ApplyConfigPatch (ae_enc e) (ae_save e) (ae_configPath e) (ae_reconcile e) patch (aw_node w) of
       (Inl err, n) \<Rightarrow> (error_answer 422 (ae_text e (AENode err)), w\<lparr>aw_node := n\<rparr>)
     | (Inr cfg, n) \<Rightarrow> (writeJSON 200 (Some (config_json cfg)), w\<lparr>aw_node := n\<rparr>)))"

definition handle_jwt :: "json option \<Rightarrow> admin_world \<Rightarrow> admin_answer \<times> admin_world" where
  "handle_jwt body w = (case do { v \<leftarrow> body; kvs \<leftarrow> struct_fields v; get_str ''token'' kvs } of
     Some t \<Rightarrow> if t = [] then (error_answer 400 ''expected JSON body {\"token\": \"<jwt>\"}'', w)
       else (writeJSON 200 (Some (ok_json ''ok'')), w\<lparr>aw_node := SetJWT t (aw_node w)\<rparr>)
   | None \<Rightarrow> (error_answer 400 ''expected JSON body {\"token\": \"<jwt>\"}'', w))"

definition handle_pairing_key :: "admin_env \<Rightarrow> json option \<Rightarrow> admin_world \<Rightarrow> admin_answer \<times> admin_world" where
  "handle_pairing_key e body w = (case do { v \<leftarrow> body; kvs \<leftarrow> struct_fields v; get_str ''pairing_key'' kvs } of
     None \<Rightarrow> (error_answer 400 ''expected JSON body {\"pairing_key\": \"<64 hex chars>\"}'', w)
   | Some k \<Rightarrow> if \<not> pairingKeyPattern k then (error_answer 400 ''pairing_key must be exactly 64 hex characters'', w)
       else (case SetPairingKey (ae_home e) (ae_mkdir e) (ae_write e) k (aw_node w) of
          (Some err, n) \<Rightarrow> (error_answer 500 (ae_text e (AENode err)), w\<lparr>aw_node := n\<rparr>)
        | (None, n) \<Rightarrow> (writeJSON 200 (Some (ok_json ''ok'')), w\<lparr>aw_node := n\<rparr>)))"

definition handle_verify :: "timefmt \<Rightarrow> admin_env \<Rightarrow> json option \<Rightarrow> admin_world \<Rightarrow> admin_answer \<times> admin_world" where
  "handle_verify tf e body w =
    (let bad = (error_answer 400 ''expected JSON body {\"account_id\": \"...\", \"app_id_pub\": \"...\"}'', w) in
     case do { v \<leftarrow> body; kvs \<leftarrow> struct_fields v; _ \<leftarrow> known [''account_id'', ''app_id_pub''] kvs;
               a \<leftarrow> get_str ''account_id'' kvs; p \<leftarrow> get_str ''app_id_pub'' kvs; Some (a, p) } of
       None \<Rightarrow> bad
     | Some (account, pub) \<Rightarrow>
        if account = [] \<or> pub = [] then bad
        else (case VerifyPairing tf e account pub w of
            (Some err, w') \<Rightarrow> (error_answer 422 (ae_text e err), w')
          | (None, w') \<Rightarrow> (writeJSON 200 (Some (ok_json ''ok'')), w')))"

definition dec_float64 :: "admin_env \<Rightarrow> json \<Rightarrow> string \<Rightarrow> string option" where
  "dec_float64 e v cur = (case v of JNum n \<Rightarrow> if ae_float e n then Some n else None | JNull \<Rightarrow> Some cur | _ \<Rightarrow> None)"

definition handle_generate :: "admin_env \<Rightarrow> json option \<Rightarrow> admin_world \<Rightarrow> admin_answer \<times> admin_world" where
  "handle_generate e body w =
    (let bad = (error_answer 400 ''expected JSON body {\"prompt\": \"...\", \"temperature\": 0.2?}'', w) in
     case do { v \<leftarrow> body; kvs \<leftarrow> struct_fields v; _ \<leftarrow> known [''prompt'', ''temperature''] kvs;
               p \<leftarrow> get_str ''prompt'' kvs; t \<leftarrow> get_field (dec_ptr (dec_float64 e) []) ''temperature'' None kvs; Some p } of
       None \<Rightarrow> bad
     | Some p \<Rightarrow>
        if p = [] then bad
        else if ae_trailing e then (error_answer 400 ''request body must be a single JSON object'', w)
        else (case Node_Generate (c_Ollama (nd_cfg (aw_node w))) (ae_tags e) (ae_generate e) None (aw_compute w) of
            (Inl err, c) \<Rightarrow> (error_answer 503 (ae_text e (AEGenerate err)), w\<lparr>aw_compute := c\<rparr>)
          | (Inr (txt, model), c) \<Rightarrow> (writeJSON 200 (Some (JObj [(''model'', JStr model), (''text'', JStr txt)])), w\<lparr>aw_compute := c\<rparr>)))"

definition handle_mint :: "crypto \<Rightarrow> timefmt \<Rightarrow> admin_env \<Rightarrow> json option \<Rightarrow> admin_world \<Rightarrow> admin_answer \<times> admin_world" where
  "handle_mint c tf e body w = (case do { v \<leftarrow> body; kvs \<leftarrow> struct_fields v; _ \<leftarrow> known [''name''] kvs; get_str ''name'' kvs } of
     None \<Rightarrow> (error_answer 400 ''expected JSON body {\"name\": \"...\"}'', w)
   | Some nm \<Rightarrow>
      if ae_trailing e then (error_answer 400 ''request body must be a single JSON object'', w)
      else (case MintOpenAIKey c tf e nm w of
          (Inl err, w') \<Rightarrow> (error_answer 500 (ae_text e err), w')
        | (Inr (plaintext, k), w') \<Rightarrow>
            (writeJSON 201 (map_option (\<lambda>fs. JObj (fs @ [(''key'', JStr plaintext)])) (openai_key_fields tf k)), w')))"

definition handle_revoke :: "timefmt \<Rightarrow> admin_env \<Rightarrow> string \<Rightarrow> admin_world \<Rightarrow> admin_answer \<times> admin_world" where
  "handle_revoke tf e i w = (case RevokeOpenAIKey tf e i w of
     (Some err, w') \<Rightarrow> (error_answer (if err = AEKey ErrKeyNotFound then 404 else 500) (ae_text e err), w')
   | (None, w') \<Rightarrow> (AEmpty 204, w'))"

definition handle_silos :: "admin_env \<Rightarrow> admin_world \<Rightarrow> admin_answer" where
  "handle_silos e w = (case ListSilos w of
     Inl err \<Rightarrow> error_answer 503 (ae_text e err)
   | Inr l \<Rightarrow> writeJSON 200 (Some (JArr l)))"

definition handle_memories :: "gcm \<Rightarrow> admin_env \<Rightarrow> string \<Rightarrow> admin_world \<Rightarrow> admin_answer" where
  "handle_memories g e siloID w = (case ListMemories g siloID w of
     Inl err \<Rightarrow> error_answer 503 (ae_text e err)
   | Inr rows \<Rightarrow> writeJSON 200 (Some (JObj [(''memories'', JArr rows)])))"

definition handle_forget :: "admin_env \<Rightarrow> string \<Rightarrow> string \<Rightarrow> admin_world \<Rightarrow> admin_answer \<times> admin_world" where
  "handle_forget e siloID i w = (case ForgetMemory e siloID i w of
     (Inl err, w') \<Rightarrow> (error_answer 503 (ae_text e err), w')
   | (Inr False, w') \<Rightarrow> (error_answer 404 ''memory not found'', w')
   | (Inr True, w') \<Rightarrow> (writeJSON 200 (Some (ok_json ''deleted'')), w'))"

text \<open>An export that fails cuts the stream: what follows the header is then no archive.\<close>

definition handle_export :: "gcm \<Rightarrow> admin_env \<Rightarrow> string \<Rightarrow> admin_world \<Rightarrow> admin_answer" where
  "handle_export g e siloID w = APackage (contentDisposition (siloID @ ''.silo''))
     (case ExportSilo g (ae_zip e) siloID (deviceName (ae_hostname e) (aw_node w)) (ae_stamp e) (aw_mem w) of Inl _ \<Rightarrow> None | Inr z \<Rightarrow> z)"

definition handle_pull :: "admin_env \<Rightarrow> json option \<Rightarrow> admin_world \<Rightarrow> admin_answer \<times> admin_world" where
  "handle_pull e body w = (case do { v \<leftarrow> body; kvs \<leftarrow> struct_fields v; get_str ''model'' kvs } of
     Some m \<Rightarrow> if m = [] then (error_answer 400 ''expected JSON body {\"model\": \"...\"}'', w)
       else (case StartPull (nd_cfg (aw_node w)) m (aw_pulls w) of
          (Some err, p) \<Rightarrow> (error_answer (case err of ErrPullInProgress _ \<Rightarrow> 409 | _ \<Rightarrow> 503) (ae_text e (AEPull err)), w\<lparr>aw_pulls := p\<rparr>)
        | (None, p) \<Rightarrow> (writeJSON 202 (Some (JObj [(''model'', JStr m), (''status'', JStr ''pulling'')])), w\<lparr>aw_pulls := p\<rparr>))
   | None \<Rightarrow> (error_answer 400 ''expected JSON body {\"model\": \"...\"}'', w))"

definition handle_logs :: "admin_world \<Rightarrow> admin_answer \<times> admin_world" where
  "handle_logs w = (case aw_log w of
     None \<Rightarrow> (AStream \<lparr>st_sub = 0, st_last = 0, st_sent = []\<rparr>, w)
   | Some rec \<Rightarrow> (case stream_subscribe rec of (st, rec') \<Rightarrow> (AStream (stream_backlog rec' st), w\<lparr>aw_log := Some rec'\<rparr>)))"


definition data_dir :: "admin_env \<Rightarrow> admin_world \<Rightarrow> string option" where
  "data_dir e w = ResolvedDataDir (ae_home e) (nd_cfg (aw_node w))"

definition console_response :: "admin_env \<Rightarrow> console_answer \<Rightarrow> admin_answer" where
  "console_response e a = (case a of
     Page code ok detail \<Rightarrow> APage code ok detail
   | Started url secs \<Rightarrow> writeJSON 200 (Some (JObj [(''authorization_url'', JStr url), (''expires_in'', JNum (show_int secs))]))
   | StartFailed err \<Rightarrow> error_answer 502 (ae_text e (AEFlow err))
   | Forgotten \<Rightarrow> writeJSON 200 (Some (ok_json ''ok''))
   | ForgetFailed err \<Rightarrow> error_answer 500 (ae_text e (AEGrant err)))"

definition handle_auth_status :: "timefmt \<Rightarrow> admin_env \<Rightarrow> admin_world \<Rightarrow> admin_answer" where
  "handle_auth_status tf e w =
    (let s = auth_status_of tf (nd_cfg (aw_node w)) (data_dir e w) (ae_now e) (aw_console w);
         front = [(''connected'', JBool (au_Connected s)), (''control_plane_url'', JStr (au_ControlPlaneURL s))];
         back = [(''can_refresh'', JBool (au_CanRefresh s)), (''sign_in_in_progress'', JBool (au_SignInInProgress s))] in
     writeJSON 200 (case au_ExpiresAt s of None \<Rightarrow> Some (JObj (front @ back))
       | Some t \<Rightarrow> map_option (\<lambda>x. JObj (front @ [(''expires_at'', JStr x)] @ back)) (tf_fmt tf t)))"

definition handle_callback :: "timefmt \<Rightarrow> admin_env \<Rightarrow> http_req \<Rightarrow> admin_world \<Rightarrow> admin_answer \<times> admin_world" where
  "handle_callback tf e r w = (case callback_begin (parse_query (hq_RawQuery r)) (ae_now e) (aw_console w) of
     (Some a, cs) \<Rightarrow> (console_response e a, w\<lparr>aw_console := cs\<rparr>)
   | (None, cs) \<Rightarrow> (case cs_exchanging cs of
        [] \<Rightarrow> (AEmpty 200, w\<lparr>aw_console := cs\<rparr>)
      | (f, code) # rest \<Rightarrow>
         (case callback_end tf (ae_exchange e) (ae_now e) (data_dir e w) (ae_grant e) f code (cs\<lparr>cs_exchanging := rest\<rparr>) of
            (a, cs', rs) \<Rightarrow> (console_response e a, w\<lparr>aw_console := cs'\<rparr>))))"

section \<open>The mux\<close>

datatype admin_route = ARHealthz | ARStatic | ARCallback | ARStatus | ARGetConfig | ARPutConfig | ARJwt | ARPairingKey | ARPending | ARVerify
  | ARGenerate | ARKeys | ARMint | ARRevoke string | ARShutdown | ARSilos | ARMemories string | ARForget string string | ARExport string
  | ARModels | ARPull | ARLogs | ARAuthStatus | ARAuthStart | ARAuthForget

definition admin_mux :: "admin_route routes" where
  "admin_mux = [
     (''GET'', [Lit ''healthz''], \<lambda>_. ARHealthz),
     (''GET'', [Lit ''v1'', Lit ''silos''], \<lambda>_. ARSilos),
     (''GET'', [Lit ''v1'', Lit ''silos'', Wild, Lit ''memories''], \<lambda>vs. ARMemories (vs ! 0)),
     (''DELETE'', [Lit ''v1'', Lit ''silos'', Wild, Lit ''memories'', Wild], \<lambda>vs. ARForget (vs ! 0) (vs ! 1)),
     (''GET'', [Lit ''v1'', Lit ''silos'', Wild, Lit ''export''], \<lambda>vs. ARExport (vs ! 0)),
     (''GET'', [Lit ''v1'', Lit ''models''], \<lambda>_. ARModels),
     (''POST'', [Lit ''v1'', Lit ''models'', Lit ''pull''], \<lambda>_. ARPull),
     (''GET'', [Lit ''v1'', Lit ''logs'', Lit ''stream''], \<lambda>_. ARLogs),
     (''GET'', [Lit ''v1'', Lit ''controlplane'', Lit ''auth''], \<lambda>_. ARAuthStatus),
     (''POST'', [Lit ''v1'', Lit ''controlplane'', Lit ''auth'', Lit ''start''], \<lambda>_. ARAuthStart),
     (''DELETE'', [Lit ''v1'', Lit ''controlplane'', Lit ''auth''], \<lambda>_. ARAuthForget),
     (''GET'', [Lit ''v1'', Lit ''controlplane'', Lit ''auth'', Lit ''callback''], \<lambda>_. ARCallback),
     (''GET'', [Lit ''v1'', Lit ''status''], \<lambda>_. ARStatus),
     (''GET'', [Lit ''v1'', Lit ''config''], \<lambda>_. ARGetConfig),
     (''PUT'', [Lit ''v1'', Lit ''config''], \<lambda>_. ARPutConfig),
     (''POST'', [Lit ''v1'', Lit ''auth'', Lit ''jwt''], \<lambda>_. ARJwt),
     (''POST'', [Lit ''v1'', Lit ''auth'', Lit ''pairing-key''], \<lambda>_. ARPairingKey),
     (''GET'', [Lit ''v1'', Lit ''pairing'', Lit ''pending''], \<lambda>_. ARPending),
     (''POST'', [Lit ''v1'', Lit ''pairing'', Lit ''verify''], \<lambda>_. ARVerify),
     (''POST'', [Lit ''v1'', Lit ''compute'', Lit ''generate''], \<lambda>_. ARGenerate),
     (''GET'', [Lit ''v1'', Lit ''openai'', Lit ''keys''], \<lambda>_. ARKeys),
     (''POST'', [Lit ''v1'', Lit ''openai'', Lit ''keys''], \<lambda>_. ARMint),
     (''DELETE'', [Lit ''v1'', Lit ''openai'', Lit ''keys'', Wild], \<lambda>vs. ARRevoke (vs ! 0)),
     (''POST'', [Lit ''v1'', Lit ''shutdown''], \<lambda>_. ARShutdown),
     (''GET'', [Multi], \<lambda>_. ARStatic)]"

definition authed :: "admin_route \<Rightarrow> bool" where
  "authed rt \<longleftrightarrow> rt \<noteq> ARHealthz \<and> rt \<noteq> ARStatic \<and> rt \<noteq> ARCallback"

fun admin_handle :: "crypto \<Rightarrow> timefmt \<Rightarrow> gcm \<Rightarrow> admin_env \<Rightarrow> admin_route \<Rightarrow> http_req \<Rightarrow> admin_world \<Rightarrow> admin_answer \<times> admin_world" where
  "admin_handle c tf g e ARHealthz r w = (writeJSON 200 (Some (ok_json ''ok'')), w)"
| "admin_handle c tf g e ARStatic r w = (AStatic, w)"
| "admin_handle c tf g e ARCallback r w = handle_callback tf e r w"
| "admin_handle c tf g e ARStatus r w = (writeJSON 200 (Some (Node_Status tf e w)), w)"
| "admin_handle c tf g e ARGetConfig r w = (writeJSON 200 (Some (config_json (nd_cfg (aw_node w)))), w)"
| "admin_handle c tf g e ARPutConfig r w = handle_put_config e (hq_Body r) w"
| "admin_handle c tf g e ARJwt r w = handle_jwt (hq_Body r) w"
| "admin_handle c tf g e ARPairingKey r w = handle_pairing_key e (hq_Body r) w"
| "admin_handle c tf g e ARPending r w = (writeJSON 200 (Some (JObj [(''pending'', JArr (PendingPairings w))])), w)"
| "admin_handle c tf g e ARVerify r w = handle_verify tf e (hq_Body r) w"
| "admin_handle c tf g e ARGenerate r w = handle_generate e (hq_Body r) w"
| "admin_handle c tf g e ARKeys r w = (writeJSON 200 (OpenAIKeys tf w), w)"
| "admin_handle c tf g e ARMint r w = handle_mint c tf e (hq_Body r) w"
| "admin_handle c tf g e (ARRevoke i) r w = handle_revoke tf e i w"
| "admin_handle c tf g e ARShutdown r w = (writeJSON 202 (Some (ok_json ''shutting_down'')), w\<lparr>aw_stopping := True\<rparr>)"
| "admin_handle c tf g e ARSilos r w = (handle_silos e w, w)"
| "admin_handle c tf g e (ARMemories s) r w = (handle_memories g e s w, w)"
| "admin_handle c tf g e (ARForget s i) r w = handle_forget e s i w"
| "admin_handle c tf g e (ARExport s) r w = (handle_export g e s w, w)"
| "admin_handle c tf g e ARModels r w = (writeJSON 200 (Some (models_json e (Models (c_Ollama (nd_cfg (aw_node w))) (ae_tags e) (aw_compute w) (aw_pulls w)))), w)"
| "admin_handle c tf g e ARPull r w = handle_pull e (hq_Body r) w"
| "admin_handle c tf g e ARLogs r w = handle_logs w"
| "admin_handle c tf g e ARAuthStatus r w = (handle_auth_status tf e w, w)"
| "admin_handle c tf g e ARAuthStart r w =
    (case auth_start c (ae_begin e) (nd_cfg (aw_node w)) (deviceName (ae_hostname e) (aw_node w)) (aw_console w) of
       (a, cs, rs) \<Rightarrow> (console_response e a, w\<lparr>aw_console := cs\<rparr>))"
| "admin_handle c tf g e ARAuthForget r w =
    (case auth_forget tf (data_dir e w) (ae_removed e) (aw_console w) of (a, cs) \<Rightarrow> (console_response e a, w\<lparr>aw_console := cs\<rparr>))"

definition admin_dispatch :: "crypto \<Rightarrow> timefmt \<Rightarrow> gcm \<Rightarrow> admin_env \<Rightarrow> string \<Rightarrow> http_req \<Rightarrow> admin_world \<Rightarrow> admin_answer \<times> admin_world" where
  "admin_dispatch c tf g e d r w = (case serve_mux admin_mux r d of
     Routed rt \<Rightarrow> if authed rt then requireAdminToken (c_sha256 c) (ae_token e) (admin_handle c tf g e rt) r w else admin_handle c tf g e rt r w
   | other \<Rightarrow> (AJson (mux_answer other), w))"

text \<open>A request on the admin port.\<close>

definition admin_request :: "crypto \<Rightarrow> timefmt \<Rightarrow> gcm \<Rightarrow> admin_env \<Rightarrow> http_req \<Rightarrow> admin_world \<Rightarrow> admin_answer \<times> admin_world" where
  "admin_request c tf g e r w = (case pct_decode (hq_RawPath r) of
     None \<Rightarrow> (AText 400 ''400 Bad Request'', w)
   | Some d \<Rightarrow> requireLoopbackHost (ae_port e) (admin_dispatch c tf g e d) r w)"

section \<open>The gates hold\<close>

definition loopback_host :: "int \<Rightarrow> string \<Rightarrow> bool" where
  "loopback_host port host \<longleftrightarrow> allowed_host port host \<or> (\<exists>h p. net_SplitHostPort host = Some (h, p) \<and> allowed_host port h)"

definition authorized :: "crypto \<Rightarrow> admin_env \<Rightarrow> http_req \<Rightarrow> bool" where
  "authorized c e r \<longleftrightarrow> loopback_host (ae_port e) (hq_Host r) \<and> ae_token e \<noteq> [] \<and>
     (\<exists>b. hdr_get ''Authorization'' (hq_Header r) = ''Bearer '' @ b \<and> c_sha256 c b = c_sha256 c (ae_token e))"

lemma loopback_gate: "requireLoopbackHost port h r w = (if loopback_host port (hq_Host r) then h r w else (AText 421 ''misdirected request: unexpected Host'', w))"
  by (auto simp: requireLoopbackHost_def loopback_host_def split: option.splits)

lemma token_gate:
  assumes "\<not> authorized c e r" "loopback_host (ae_port e) (hq_Host r)"
  shows "\<exists>m. \<forall>h w. requireAdminToken (c_sha256 c) (ae_token e) h r w = (error_answer 401 m, w)"
proof (cases "CutPrefix (hdr_get ''Authorization'' (hq_Header r)) ''Bearer ''")
  case None
  then show ?thesis by (cases "ae_token e = []") (auto simp: requireAdminToken_def)
next
  case (Some b)
  then have "ae_token e = [] \<or> c_sha256 c (ae_token e) \<noteq> c_sha256 c b" using assms by (auto simp: authorized_def CutPrefix_Some_iff)
  then show ?thesis using Some by (cases "ae_token e = []") (auto simp: requireAdminToken_def)
qed

text \<open>What the callback may do: only to the console, and to the grant only with the pending flow's state.\<close>

lemma callback_frame:
  assumes "handle_callback tf e r w = (answer, w')"
  shows "w' = w\<lparr>aw_console := aw_console w'\<rparr>"
    and "aw_console v = aw_console w \<Longrightarrow> nd_cfg (aw_node v) = nd_cfg (aw_node w) \<Longrightarrow> handle_callback tf e r v = (answer, v\<lparr>aw_console := aw_console w'\<rparr>)"
    and "cs_oauth (aw_console w') \<noteq> cs_oauth (aw_console w) \<Longrightarrow>
      \<exists>f. cs_pending (aw_console w) = Some f \<and> fl_State f = query_get (parse_query (hq_RawQuery r)) ''state'' \<and> \<not> Flow_Expired f (ae_now e)"
proof -
  show "w' = w\<lparr>aw_console := aw_console w'\<rparr>"
    using assms by (auto simp: handle_callback_def split: prod.splits option.splits list.splits)
  show "handle_callback tf e r v = (answer, v\<lparr>aw_console := aw_console w'\<rparr>)" if "aw_console v = aw_console w" "nd_cfg (aw_node v) = nd_cfg (aw_node w)"
    using assms that by (auto simp: handle_callback_def data_dir_def split: prod.splits option.splits list.splits)
  show "\<exists>f. cs_pending (aw_console w) = Some f \<and> fl_State f = query_get (parse_query (hq_RawQuery r)) ''state'' \<and> \<not> Flow_Expired f (ae_now e)"
    if "cs_oauth (aw_console w') \<noteq> cs_oauth (aw_console w)"
  proof (rule ccontr)
    assume n: "\<not> (\<exists>f. cs_pending (aw_console w) = Some f \<and> fl_State f = query_get (parse_query (hq_RawQuery r)) ''state'' \<and> \<not> Flow_Expired f (ae_now e))"
    have "\<exists>a p. callback_begin (parse_query (hq_RawQuery r)) (ae_now e) (aw_console w) = (Some a, (aw_console w)\<lparr>cs_pending := p\<rparr>)"
      using n by (auto simp: callback_begin_def pending_take_def split: option.splits)
    then have "cs_oauth (aw_console w') = cs_oauth (aw_console w)" using assms by (auto simp: handle_callback_def)
    with that show False by simp
  qed
qed



section \<open>Changing the configuration\<close>

lemma cap_disk: "nd_disk (reconcile_cap e b n) = nd_disk n"
  by (simp add: reconcile_cap_def Let_def split: option.splits)

lemma caps_disk: "nd_disk (fold (reconcile_cap e) cs n) = nd_disk n"
  by (induction cs arbitrary: n) (simp_all add: cap_disk)

lemma url_change_disk: "nd_disk (onTunnelURLChange u n) = nd_disk n" "nd_disk (onManagedURLChange u n) = nd_disk n"
  by (simp_all add: onTunnelURLChange_def onManagedURLChange_def on_manager_def Let_def)

lemma Reconcile_disk: "nd_disk (Reconcile e n) = nd_disk n"
  by (simp add: Reconcile_def Let_def on_manager_def reconcile_quick_def reconcile_managed_def caps_disk url_change_disk split: option.splits)

text \<open>
  C23. What PUT /v1/config answers is what holds: on 200 the body is the configuration the node now
  runs with, which is valid, is the old one with the patch applied, and is what the file has; on any
  other answer (the body is no patch, names an unknown field, fails validation, or the file cannot
  be written) the node runs with what it had.
\<close>

theorem put_config_answer:
  assumes "handle_put_config e body w = (answer, w')"
  shows "(\<exists>patch. Option.bind body patch_of_json = Some patch \<and> nd_cfg (aw_node w') = ApplyTo patch (nd_cfg (aw_node w)) \<and> Validate (nd_cfg (aw_node w')) = None \<and>
      answer = AJson \<lparr>rs_status = 200, rs_body = config_json (nd_cfg (aw_node w'))\<rparr> \<and>
      map_option f_data (map_get (nd_disk (aw_node w')) (ae_configPath e)) = Some (ae_enc e (nd_cfg (aw_node w')))) \<or>
    (nd_cfg (aw_node w') = nd_cfg (aw_node w) \<and> nd_capRunning (aw_node w') = nd_capRunning (aw_node w) \<and> (\<exists>code msg. code \<in> {400, 422} \<and> answer = error_answer code msg))"
proof (cases "Option.bind body patch_of_json")
  case None
  then show ?thesis using assms by (auto simp: handle_put_config_def)
next
  case (Some patch)
  show ?thesis
  proof (cases "ApplyConfigPatch (ae_enc e) (ae_save e) (ae_configPath e) (ae_reconcile e) patch (aw_node w)")
    case (Pair res n)
    show ?thesis
    proof (cases res)
      case (Inl err)
      then have "nd_cfg n = nd_cfg (aw_node w) \<and> nd_capRunning n = nd_capRunning (aw_node w)"
        using Pair by (auto simp: ApplyConfigPatch_def Let_def split: option.splits prod.splits)
      then show ?thesis using assms by (auto simp: handle_put_config_def Some Pair Inl)
    next
      case (Inr cfg)
      then obtain d where v: "Validate (ApplyTo patch (nd_cfg (aw_node w))) = None" "cfg = ApplyTo patch (nd_cfg (aw_node w))"
        "Save (ae_enc e) (ae_save e) cfg (ae_configPath e) (nd_disk (aw_node w)) = (d, None)"
        "n = Reconcile (ae_reconcile e) ((aw_node w)\<lparr>nd_disk := d, nd_cfg := cfg\<rparr>)"
        using Pair by (auto simp: ApplyConfigPatch_def Let_def split: option.splits prod.splits)
      have "nd_disk n = d" by (simp add: v(4) Reconcile_disk)
      then show ?thesis using assms v Save_data [OF v(3)] by (auto simp: handle_put_config_def Some Pair Inr writeJSON_def Reconcile_fields(1))
    qed
  qed
qed


text \<open>A capability that runs and stays enabled is not started again: how its start would end plays no part.\<close>

lemma start_unused:
  assumes "capRunning n b" "Enabled (nd_cfg n) b"
  shows "fold (reconcile_cap (e\<lparr>rc_start := (rc_start e)(b := x)\<rparr>)) cs n = fold (reconcile_cap e) cs n"
  using assms
proof (induction cs arbitrary: n)
  case (Cons c cs)
  have step: "reconcile_cap (e\<lparr>rc_start := (rc_start e)(b := x)\<rparr>) c n = reconcile_cap e c n"
    using Cons.prems by (cases "c = b") (simp_all add: reconcile_cap_def Let_def)
  have "capRunning (reconcile_cap e c n) b" "Enabled (nd_cfg (reconcile_cap e c n)) b" using Cons.prems by (auto simp: reconcile_cap_running)
  from Cons.IH [OF this] show ?case unfolding fold_simps step .
qed simp

lemma tunnels_start: "reconcile_quick (e\<lparr>rc_start := s\<rparr>) n = reconcile_quick e n" "reconcile_managed (e\<lparr>rc_start := s\<rparr>) n = reconcile_managed e n"
proof -
  have r: "rc_quick (e\<lparr>rc_start := s\<rparr>) = rc_quick e" "rc_managed (e\<lparr>rc_start := s\<rparr>) = rc_managed e" by simp_all
  show "reconcile_quick (e\<lparr>rc_start := s\<rparr>) n = reconcile_quick e n" "reconcile_managed (e\<lparr>rc_start := s\<rparr>) n = reconcile_managed e n"
    unfolding reconcile_quick_def reconcile_managed_def r by (rule refl)+
qed

lemma Reconcile_start_unused:
  "capRunning n b \<Longrightarrow> Enabled (nd_cfg n) b \<Longrightarrow> Reconcile (e\<lparr>rc_start := (rc_start e)(b := x)\<rparr>) n = Reconcile e n"
  unfolding Reconcile_def by (simp only: start_unused tunnels_start)

definition without_start :: "string \<Rightarrow> string option \<Rightarrow> admin_env \<Rightarrow> admin_env" where
  "without_start b x e = e\<lparr>ae_reconcile := (ae_reconcile e)\<lparr>rc_start := (rc_start (ae_reconcile e))(b := x)\<rparr>\<rparr>"

text \<open>
  A new LAN port is accepted, saved and reported, but not applied: when the LAN server runs, a
  PUT /v1/config that changes its port answers 200, and Status shows the new port from then on, yet
  the capability is not started again (the outcome is the same however a start would end), so the
  server stays on the port it bound before.
\<close>

theorem lan_port_change_not_applied:
  assumes "handle_put_config e body w = (AJson \<lparr>rs_status = 200, rs_body = b\<rparr>, w')"
    and "capRunning (aw_node w) ''lan''" "Enabled (nd_cfg (aw_node w')) ''lan''" "lan_Port (c_LAN (nd_cfg (aw_node w'))) = port"
  shows "handle_put_config (without_start ''lan'' x e) body w = (AJson \<lparr>rs_status = 200, rs_body = b\<rparr>, w') \<and> capRunning (aw_node w') ''lan'' \<and>
    (\<exists>kvs clients. Node_Status tf e' w' = JObj kvs \<and>
       map_get kvs ''lan'' = Some (JObj [(''published'', JBool (fst (ae_lan e'))), (''port'', JNum (show_int port)), (''clients'', clients)]))"
proof -
  obtain patch where p: "Option.bind body patch_of_json = Some patch" using assms(1) by (cases "Option.bind body patch_of_json") (auto simp: handle_put_config_def error_answer_def writeError_def)
  obtain res n where a: "ApplyConfigPatch (ae_enc e) (ae_save e) (ae_configPath e) (ae_reconcile e) patch (aw_node w) = (res, n)" by (metis surj_pair)
  obtain cfg where cfg: "res = Inr cfg" "w' = w\<lparr>aw_node := n\<rparr>"
    using assms(1) by (cases res) (auto simp: handle_put_config_def p a error_answer_def writeError_def)
  obtain d where v: "Validate (ApplyTo patch (nd_cfg (aw_node w))) = None" "cfg = ApplyTo patch (nd_cfg (aw_node w))"
    "Save (ae_enc e) (ae_save e) cfg (ae_configPath e) (nd_disk (aw_node w)) = (d, None)"
    "n = Reconcile (ae_reconcile e) ((aw_node w)\<lparr>nd_disk := d, nd_cfg := cfg\<rparr>)"
    using a cfg(1) by (auto simp: ApplyConfigPatch_def Let_def split: option.splits prod.splits)
  let ?n0 = "(aw_node w)\<lparr>nd_disk := d, nd_cfg := cfg\<rparr>"
  have run: "capRunning ?n0 ''lan''" "Enabled (nd_cfg ?n0) ''lan''"
    using assms(2,3) by (simp_all add: cfg(2) v(4) Reconcile_fields(1) capRunning_def)
  have "ApplyConfigPatch (ae_enc e) (ae_save e) (ae_configPath e) (ae_reconcile (without_start ''lan'' x e)) patch (aw_node w) = (res, n)"
    using v Reconcile_start_unused [OF run] cfg(1) by (simp add: ApplyConfigPatch_def without_start_def Let_def)
  then have "handle_put_config (without_start ''lan'' x e) body w = (AJson \<lparr>rs_status = 200, rs_body = b\<rparr>, w')"
    using assms(1) by (simp add: handle_put_config_def p a without_start_def cfg(1))
  moreover have "capRunning (aw_node w') ''lan''" using run by (simp add: cfg(2) v(4) Reconcile_fields(7) capabilities_def)
  ultimately show ?thesis using assms(4) by (simp add: Node_Status_def Let_def)
qed

text \<open>
  The same for the admin port itself: the server stays where it is, and a sign-in then registers a
  callback on the new port, where nothing listens.
\<close>

lemma sign_in_redirects_to_configured_port:
  assumes "admin_handle c tf g e ARAuthStart r w = (answer, w')" "cs_pending (aw_console w') = Some f" "cs_pending (aw_console w) = None"
  shows "fl_RedirectURI f = ''http://127.0.0.1:'' @ show_int (c_AdminPort (nd_cfg (aw_node w))) @ callbackPath"
proof -
  have "fst (BeginFlow c (ae_begin e) (cp_URL (c_ControlPlane (nd_cfg (aw_node w)))) (deviceName (ae_hostname e) (aw_node w)) (redirect_uri (nd_cfg (aw_node w)))) = Inr f"
    using assms by (auto simp: auth_start_def split: prod.splits sum.splits)
  then obtain rs where "BeginFlow c (ae_begin e) (cp_URL (c_ControlPlane (nd_cfg (aw_node w)))) (deviceName (ae_hostname e) (aw_node w)) (redirect_uri (nd_cfg (aw_node w))) = (Inr f, rs)"
    by (metis prod.collapse)
  then show ?thesis by (rule BeginFlow_ok) (simp add: redirect_uri_def)
qed

section \<open>The header of an export is safe\<close>

lemma pct_byte_chars: "c \<in> set (pct_byte x) \<Longrightarrow> c = CHR ''%'' \<or> (\<exists>n < 16. c = upperhex n)"
proof -
  assume "c \<in> set (pct_byte x)"
  moreover have "of_char x div 16 < (16 :: nat)" using of_char_less_256 [of x] by (simp add: less_mult_imp_div_less)
  moreover have "of_char x mod 16 < (16 :: nat)" by simp
  ultimately show ?thesis unfolding pct_byte_def by (metis empty_iff insert_iff list.set(1) list.set(2))
qed

lemma pct_encode_chars:
  "c \<in> set (pct_encode keep s) \<Longrightarrow> keep c \<or> c = CHR ''%'' \<or> (\<exists>n < 16. c = upperhex n)"
  using pct_byte_chars by (force simp: pct_encode_def split: if_splits)

lemma upperhex_unreserved: "n < 16 \<Longrightarrow> unreserved (upperhex n)"
  by (auto simp: unreserved_def upperhex_def is_num_def is_letter_def of_char_of)

lemma ascii_name_safe: "list_all safe_char (ascii_name s)"
  by (induction s rule: ascii_name.induct) (auto simp: safe_char_def)

text \<open>
  A silo id is any string a memory was written under, and still cannot break the header of an
  export: the header is the fixed text with two values, of letters, digits and -_.~% only, so it has
  no quote, separator or line break of the id's, and the second value decodes to exactly the name.
\<close>

theorem export_header_safe:
  "\<exists>a u. contentDisposition nm = ''attachment; filename='' @ a @ ''; filename*=UTF-8'' @ [CHR 0x27, CHR 0x27] @ u \<and>
    a \<noteq> [] \<and> list_all safe_char a \<and> list_all (\<lambda>c. unreserved c \<or> c = CHR ''%'') u \<and> pct_decode u = Some nm"
proof (intro exI conjI)
  let ?a = "if ascii_name nm = [] then ''silo.silo'' else ascii_name nm"
  show "contentDisposition nm = ''attachment; filename='' @ ?a @ ''; filename*=UTF-8'' @ [CHR 0x27, CHR 0x27] @ urlEncodePath nm"
    by (simp add: contentDisposition_def Let_def)
  show "?a \<noteq> []" by simp
  show "list_all safe_char ?a" using ascii_name_safe by (simp add: safe_char_def is_letter_def)
  show "list_all (\<lambda>c. unreserved c \<or> c = CHR ''%'') (urlEncodePath nm)"
    using pct_encode_chars [of _ unreserved nm] upperhex_unreserved by (auto simp: urlEncodePath_def list_all_iff)
  have "\<not> unreserved (CHR ''%'')" by (simp add: unreserved_def is_letter_def is_num_def)
  then show "pct_decode (urlEncodePath nm) = Some nm" by (simp add: urlEncodePath_def pct_roundtrip)
qed


section \<open>Examples\<close>

definition demo_admin :: admin_env where
  "demo_admin = \<lparr>ae_token = ''s3cret'', ae_port = 8766, ae_home = Some ''/h'', ae_hostname = Some ''mac'', ae_now = 100, ae_stamp = ''now'',
     ae_configPath = ''c.toml'', ae_enc = (\<lambda>c. c_Mode c), ae_save = SaveOK, ae_reconcile = Node.demo_env None, ae_mkdir = True, ae_write = WfOK,
     ae_wfa = (NoFault, ''t''), ae_tags = NoReply, ae_generate = (\<lambda>_. NoStream), ae_mint = demo_mint ''i'' NoFault, ae_db_ok = True, ae_zip = (True, True, True),
     ae_begin = demo_begin_env, ae_exchange = TokenFail, ae_grant = \<lparr>sv_mkdir = True, sv_write = (NoFault, ''t'')\<rparr>, ae_removed = True,
     ae_trailing = False, ae_float = (\<lambda>_. True), ae_health = (\<lambda>_. (True, ''ok'')), ae_uptime = 1, ae_lan = (False, 0), ae_nodeKey = ''k1'',
     ae_version = (''dev'', ''none''), ae_text = (\<lambda>_. ''error'')\<rparr>"

definition demo_aw :: admin_world where
  "demo_aw = \<lparr>aw_node = (demo_node (demo_cfg TunnelModeOff False))\<lparr>nd_cfg := Default\<lparr>c_Capabilities := \<lparr>cap_Memory = True, cap_Compute = False\<rparr>\<rparr>,
       nd_capRunning := [(''lan'', True)]\<rparr>, aw_console = demo_console, aw_keys = demo_keys, aw_keysDisk = [], aw_mem = demo_world,
     aw_compute = NewCompute, aw_pulls = \<lparr>pu_state = None, pu_running = []\<rparr>, aw_pairer = None, aw_log = None, aw_stopping = False\<rparr>"

definition demo_admin_req :: "string \<Rightarrow> string \<Rightarrow> http_req" where
  "demo_admin_req host auth = \<lparr>hq_Method = ''GET'', hq_Host = host, hq_RawPath = ''/v1/silos/s/memories'', hq_RawQuery = [],
     hq_Header = [(''Authorization'', auth)], hq_Body = None\<rparr>"


definition demo_patch_body :: json where
  "demo_patch_body = JObj [(''lan'', JObj [(''port'', JNum ''9000'')])]"

definition demo_patch :: ConfigPatch where
  "demo_patch = \<lparr>p_Mode = None, p_DataDir = None, p_Log = None, p_Capabilities = None, p_ControlPlane = None, p_Memory = None, p_Ollama = None,
     p_Tunnel = None, p_LAN = Some (None, Some 9000), p_OpenAI = None, p_Admin = None\<rparr>"

lemma demo_patch_decoded: "patch_of_json demo_patch_body = Some demo_patch"
  by code_simp

abbreviation demo_patched :: Config where
  "demo_patched \<equiv> ApplyTo demo_patch (nd_cfg (aw_node demo_aw))"

lemma demo_patched_valid: "Validate demo_patched = None" "lan_Port (c_LAN demo_patched) = 9000" "cap_Memory (c_Capabilities demo_patched)"
  by code_simp+

lemma demo_put: "\<exists>w'. handle_put_config demo_admin (Some demo_patch_body) demo_aw = (AJson \<lparr>rs_status = 200, rs_body = config_json demo_patched\<rparr>, w')"
  using demo_patched_valid(1)
  by (simp add: handle_put_config_def demo_patch_decoded ApplyConfigPatch_def Let_def Save_def writeJSON_def demo_admin_def)

theorem put_config_answer_witness:
  "\<exists>w'. handle_put_config demo_admin (Some demo_patch_body) demo_aw = (AJson \<lparr>rs_status = 200, rs_body = config_json demo_patched\<rparr>, w') \<and>
     nd_cfg (aw_node w') = demo_patched \<and> lan_Port (c_LAN (nd_cfg (aw_node w'))) = 9000"
proof -
  obtain w' where r: "handle_put_config demo_admin (Some demo_patch_body) demo_aw = (AJson \<lparr>rs_status = 200, rs_body = config_json demo_patched\<rparr>, w')"
    using demo_put by blast
  from put_config_answer [OF this] have "nd_cfg (aw_node w') = demo_patched" by (auto simp: demo_patch_decoded error_answer_def writeError_def)
  then show ?thesis using r demo_patched_valid(2) by auto
qed

theorem lan_port_change_not_applied_witness:
  "\<exists>w'. handle_put_config (without_start ''lan'' (Some ''address in use'') demo_admin) (Some demo_patch_body) demo_aw =
     (AJson \<lparr>rs_status = 200, rs_body = config_json demo_patched\<rparr>, w') \<and> capRunning (aw_node w') ''lan''"
proof -
  obtain w' where r: "handle_put_config demo_admin (Some demo_patch_body) demo_aw = (AJson \<lparr>rs_status = 200, rs_body = config_json demo_patched\<rparr>, w')"
    using demo_put by blast
  have "nd_cfg (aw_node w') = demo_patched"
    using r demo_patched_valid(1) by (auto simp: handle_put_config_def demo_patch_decoded ApplyConfigPatch_def Let_def Save_def demo_admin_def Reconcile_fields(1))
  moreover have "Enabled demo_patched ''lan''" using demo_patched_valid(3) by (simp add: Enabled_def lan_enabled_def)
  moreover have "capRunning (aw_node demo_aw) ''lan''" by (simp add: demo_aw_def capRunning_def)
  ultimately show ?thesis using lan_port_change_not_applied [OF r, where port = 9000 and x = "Some ''address in use''"] demo_patched_valid(2) by auto
qed

end
