(* ===== verification/Panel.thy ===== *)
theory Panel
  imports Setup Http
begin

text \<open>
  The terminal's control panel (cmd/onesilo-node/panel.go) and its browser sign-in (signin.go): what
  the screen says, the loopback callback, and every menu action on the running node, whose
  configuration changes through the same ApplyConfigPatch as the admin API's. Lines come from
  standard input, to the menu and to the questions an action asks. What an action meets is in one
  record; what the node does on its own between two lines is a list of steps.
\<close>

section \<open>The screen\<close>

definition emdash :: string where "emdash = [CHR 0xE2, CHR 0x80, CHR 0x94]"

abbreviation nl :: string where "nl \<equiv> [CHR 0x0A]"

record cap_status =
  pc_Name :: string
  pc_Enabled :: bool
  pc_Running :: bool
  pc_Healthy :: bool
  pc_Detail :: string

definition modeName :: "Config \<Rightarrow> string" where
  "modeName cfg = (if c_Mode cfg = ModeGateway then ''Local Relay'' else ''Local'')"

definition capabilitiesLine :: "Config \<Rightarrow> string" where
  "capabilitiesLine cfg =
    (let caps = (if cap_Compute (c_Capabilities cfg) then [''Compute''] else []) @ (if cap_Memory (c_Capabilities cfg) then [''Memory''] else [])
     in if caps = [] then ''none'' else Join caps '', '')"

definition servingLine :: "Config \<Rightarrow> string" where
  "servingLine cfg = (let info = shapeInfos (describeShape cfg (Exposed cfg)) in
     si_label info @ '' '' @ emdash @ '' good for '' @ si_goodFor info)"

definition modeMenuLabel :: "Config \<Rightarrow> string" where
  "modeMenuLabel cfg = (if c_Mode cfg = ModeGateway then ''Switch to Local Node'' else ''Switch to Local Relay'')"

definition remoteMenuLabel :: "Config \<Rightarrow> string" where
  "remoteMenuLabel cfg = (if Exposed cfg then ''Disable access from anywhere'' else ''Enable access from anywhere'')"

definition remoteLine :: "Config \<Rightarrow> string \<Rightarrow> string" where
  "remoteLine cfg url =
    (if \<not> Exposed cfg then ''off (LAN/localhost only)''
     else if url \<noteq> [] then url
     else if tn_Mode (c_Tunnel cfg) = TunnelModeExternal then tn_ExternalURL (c_Tunnel cfg) @ '' (external)''
     else ''enabling '' @ emdash @ '' waiting for the tunnel (Enter refreshes; progress in the admin interface)'')"

definition renderPanelScreen :: "Config \<Rightarrow> cap_status list \<Rightarrow> string \<Rightarrow> nat \<Rightarrow> string \<Rightarrow> string \<Rightarrow> string" where
  "renderPanelScreen cfg caps url pendingPairings logPath notice =
     ''Welcome to One Silo Node'' @ nl @ nl @
     ''Current Configuration:'' @ nl @
     ''  Mode:          '' @ modeName cfg @ nl @
     ''  Capabilities:  '' @ capabilitiesLine cfg @ nl @
     ''  Serving:       '' @ servingLine cfg @ nl @
     ''  Admin:         http://127.0.0.1:'' @ show_int (c_AdminPort cfg) @ nl @
     ''  Remote access: '' @ remoteLine cfg url @ nl @
     ''  Logs:          '' @ logPath @ nl @
     concat (map (\<lambda>c. if pc_Enabled c \<and> \<not> pc_Healthy c \<and> pc_Detail c \<noteq> [] then nl @ ''  ! '' @ pc_Name c @ '': '' @ pc_Detail c @ nl else []) caps) @
     (if pendingPairings > 0 then nl @ ''  * '' @ show_nat pendingPairings @ '' device(s) waiting for pairing confirmation '' @ emdash @
        '' approve in the admin interface'' @ nl else []) @
     nl @
     ''  1. Launch Admin Interface (127.0.0.1:'' @ show_int (c_AdminPort cfg) @ '')'' @ nl @
     ''  2. '' @ modeMenuLabel cfg @ nl @
     ''  3. '' @ remoteMenuLabel cfg @ nl @
     ''  q. Quit (stops the node)'' @ nl @ nl @
     (if notice \<noteq> [] then notice @ nl @ nl else []) @
     ''Select an option (Enter refreshes): ''"

text \<open>The wait for the first reconcile: the polls, 100 ms apart, until all that is enabled runs.\<close>

definition startup_polls :: nat where "startup_polls = 30"

fun waitForStartup :: "nat \<Rightarrow> (nat \<Rightarrow> cap_status list) \<Rightarrow> (nat \<Rightarrow> bool) \<Rightarrow> nat \<Rightarrow> nat" where
  "waitForStartup 0 status cancelled i = i"
| "waitForStartup (Suc k) status cancelled i =
     (if cancelled i \<or> list_all (\<lambda>c. pc_Enabled c \<longrightarrow> pc_Running c) (status i) then i else waitForStartup k status cancelled (Suc i))"

section \<open>Sign-in from the terminal\<close>

definition signInTimeout :: duration where "signInTimeout = 10 * minute"

datatype signin_err = SignListen | SignFlow flow_err | SignRefused oauth_err | SignState | SignNoCode | SignTimeout | SignCtx
  | SignExchange oauth_err | SignSave oauth_err

text \<open>A request on the callback listener: the status it gets, and the result it gives if it gives one.\<close>

definition callback_answer :: "string \<Rightarrow> string \<times> string \<Rightarrow> nat \<times> (signin_err + string) option" where
  "callback_answer state rq = (case rq of (path, rawquery) \<Rightarrow>
     let q = parse_query rawquery in
     if path \<noteq> ''/callback'' then (404, None)
     else if query_get q ''error'' \<noteq> [] then
       (400, Some (Inl (SignRefused (ClassifySignInError (query_get q ''error'' @
          (if query_get q ''error_description'' \<noteq> [] then '': '' @ query_get q ''error_description'' else []))))))
     else if query_get q ''state'' \<noteq> state then (400, Some (Inl SignState))
     else if query_get q ''code'' = [] then (400, Some (Inl SignNoCode))
     else (200, Some (Inr (query_get q ''code''))))"

text \<open>The requests that arrive before the wait ends, and whether it would end by time-out or by cancellation.\<close>

fun waitForCallback :: "string \<Rightarrow> bool \<Rightarrow> (string \<times> string) list \<Rightarrow> signin_err + string" where
  "waitForCallback state cancelled [] = Inl (if cancelled then SignCtx else SignTimeout)"
| "waitForCallback state cancelled (rq # rqs) =
     (case snd (callback_answer state rq) of Some r \<Rightarrow> r | None \<Rightarrow> waitForCallback state cancelled rqs)"

record signin_env =
  si_listen :: "string option"   \<comment> \<open>the address bound\<close>
  si_begin :: begin_env
  si_requests :: "(string \<times> string) list"
  si_cancelled :: bool
  si_exchange :: token_reply
  si_now :: time
  si_save :: save_env

definition signIn :: "crypto \<Rightarrow> timefmt \<Rightarrow> signin_env \<Rightarrow> string \<Rightarrow> string \<Rightarrow> string \<Rightarrow> disk \<Rightarrow> signin_err option \<times> disk \<times> sent list" where
  "signIn c tf e controlPlaneURL dataDir device d =
    (case si_listen e of
       None \<Rightarrow> (Some SignListen, d, [])
     | Some addr \<Rightarrow>
        (case BeginFlow c (si_begin e) controlPlaneURL device (''http://'' @ addr @ ''/callback'') of
           (Inl err, rs) \<Rightarrow> (Some (SignFlow err), d, rs)
         | (Inr flow, rs) \<Rightarrow>
            (case waitForCallback (fl_State flow) (si_cancelled e) (si_requests e) of
               Inl err \<Rightarrow> (Some err, d, rs)
             | Inr code \<Rightarrow>
                (case Flow_Exchange (si_exchange e) (si_now e) flow code of
                   (Inl err, rs') \<Rightarrow> (Some (SignExchange err), d, rs @ rs')
                 | (Inr cred, rs') \<Rightarrow>
                    (case SaveOAuthCredential tf (si_save e) dataDir cred d of
                       (d', Some err) \<Rightarrow> (Some (SignSave err), d', rs @ rs')
                     | (d', None) \<Rightarrow> (None, d', rs @ rs'))))))"

text \<open>errors.Is with the missing account.\<close>

definition user_not_found :: "signin_err \<Rightarrow> bool" where
  "user_not_found e = (case e of SignRefused (ErrUserNotFound _) \<Rightarrow> True | SignExchange (ErrUserNotFound _) \<Rightarrow> True | _ \<Rightarrow> False)"


section \<open>Menu actions\<close>

record panel_env =
  pe_home :: "string option"
  pe_hostname :: "string option"
  pe_enc :: "Config \<Rightarrow> bytes"
  pe_configPath :: string
  pe_authPatch :: "save_fault \<times> reconcile_env"   \<comment> \<open>what the patch of the auth mode meets\<close>
  pe_patch :: "save_fault \<times> reconcile_env"   \<comment> \<open>what the action's own patch meets\<close>
  pe_yes :: bool
  pe_signin :: signin_env
  pe_exec :: "string \<Rightarrow> bool"
  pe_path :: "string option"
  pe_os :: "string \<times> string"
  pe_install :: "install_err + string"   \<comment> \<open>installFromArchive or installBinary\<close>

record panel_world =
  pn_node :: node
  pn_data :: disk   \<comment> \<open>the data directory\<close>
  pn_lines :: "string list"
  pn_opened :: "string list"   \<comment> \<open>what the browser was opened with\<close>

datatype panel_err = PENode node_err | PEDataDir | PESignIn signin_err | PEInstall install_err | PECloudflared

datatype notice = NoNotice | AdminOpened string | NowLocal | NowRelay | RemoteOff | RemoteOn | SignInDeclined | NoAccount
  | SignInFailed signin_err | Failed panel_err | RemoteLeftOff panel_err | UnknownOption string

text \<open>The notices as they are shown; error texts and the quoting of an unknown option are parameters.\<close>

definition notice_text :: "(panel_err \<Rightarrow> string) \<Rightarrow> (string \<Rightarrow> string) \<Rightarrow> notice \<Rightarrow> string" where
  "notice_text err quoted x = (case x of
     NoNotice \<Rightarrow> []
   | AdminOpened url \<Rightarrow> ''Admin interface opened in your browser '' @ emdash @ '' '' @ url
   | NowLocal \<Rightarrow> ''Now running as a Local Node.''
   | NowRelay \<Rightarrow> ''Now running as a Local Relay.''
   | RemoteOff \<Rightarrow> ''Access from anywhere disabled '' @ emdash @ '' the node is reachable on this network only.''
   | RemoteOn \<Rightarrow> ''Access from anywhere enabling '' @ emdash @ '' One Silo is provisioning a stable hostname'' @ nl @
       ''for this node. Press Enter to refresh; the URL appears under Remote access.''
   | SignInDeclined \<Rightarrow> ''Sign-in declined '' @ emdash @ '' nothing changed.''
   | NoAccount \<Rightarrow> ''! No One Silo account found '' @ emdash @ '' create one at https://onesilo.com, then try again.''
   | SignInFailed e \<Rightarrow> ''! Sign-in failed: '' @ err (PESignIn e)
   | Failed e \<Rightarrow> ''! '' @ err e
   | RemoteLeftOff e \<Rightarrow> ''! '' @ err e @ '' '' @ emdash @ '' remote access left off; the node still works locally.''
   | UnknownOption l \<Rightarrow> ''Unknown option '' @ quoted l @ ''.'')"

definition panel_patch :: "panel_env \<Rightarrow> save_fault \<times> reconcile_env \<Rightarrow> ConfigPatch \<Rightarrow> panel_world \<Rightarrow> notice option \<times> panel_world" where
  "panel_patch e fr patch w = (case ApplyConfigPatch (pe_enc e) (fst fr) (pe_configPath e) (snd fr) patch (pn_node w) of
     (Inl err, n) \<Rightarrow> (Some (Failed (PENode err)), w\<lparr>pn_node := n\<rparr>)
   | (Inr _, n) \<Rightarrow> (None, w\<lparr>pn_node := n\<rparr>))"

definition no_patch :: ConfigPatch where
  "no_patch = \<lparr>p_Mode = None, p_DataDir = None, p_Log = None, p_Capabilities = None, p_ControlPlane = None, p_Memory = None, p_Ollama = None,
     p_Tunnel = None, p_LAN = None, p_OpenAI = None, p_Admin = None\<rparr>"

abbreviation mode_patch :: "string \<Rightarrow> ConfigPatch" where
  "mode_patch m \<equiv> no_patch\<lparr>p_Mode := Some m\<rparr>"

abbreviation tunnel_patch :: "string \<Rightarrow> string option \<Rightarrow> ConfigPatch" where
  "tunnel_patch m cf \<equiv> no_patch\<lparr>p_Tunnel := Some (Some m, cf, None)\<rparr>"

definition openAdmin :: "string \<Rightarrow> panel_world \<Rightarrow> notice \<times> panel_world" where
  "openAdmin adminToken w = (let url = ''http://127.0.0.1:'' @ show_int (c_AdminPort (nd_cfg (pn_node w))) @ ''/'' in
     (AdminOpened url, w\<lparr>pn_opened := pn_opened w @ [url @ ''#token='' @ adminToken]\<rparr>))"

definition ensureAuthMode :: "panel_env \<Rightarrow> string \<Rightarrow> panel_world \<Rightarrow> notice option \<times> panel_world" where
  "ensureAuthMode e mode w =
    (if cp_AuthMode (c_ControlPlane (nd_cfg (pn_node w))) = mode then (None, w)
     else panel_patch e (pe_authPatch e) (no_patch\<lparr>p_ControlPlane := Some (None, Some mode, None)\<rparr>) w)"

text \<open>deviceNameFor mirrors the node's own name.\<close>

definition deviceNameFor :: "string option \<Rightarrow> Config \<Rightarrow> string" where
  "deviceNameFor hostname cfg =
    (if cp_DeviceName (c_ControlPlane cfg) \<noteq> [] then cp_DeviceName (c_ControlPlane cfg)
     else case hostname of Some h \<Rightarrow> h | None \<Rightarrow> ''onesilo-node'')"

definition ensureSignedIn :: "crypto \<Rightarrow> timefmt \<Rightarrow> panel_env \<Rightarrow> panel_world \<Rightarrow> notice option \<times> panel_world" where
  "ensureSignedIn c tf e w =
    (let cfg = nd_cfg (pn_node w) in
     case ResolvedDataDir (pe_home e) cfg of
       None \<Rightarrow> (Some (Failed PEDataDir), w)
     | Some dataDir \<Rightarrow>
        (case LoadOAuthCredential tf dataDir (pn_data w) of
           Inr _ \<Rightarrow> ensureAuthMode e AuthModeOAuth w
         | Inl _ \<Rightarrow>
            if cp_AuthMode (c_ControlPlane cfg) = AuthModeAPIKey then (None, w)
            else (case confirm (pe_yes e) True (pn_lines w) of
               (False, ls) \<Rightarrow> (Some SignInDeclined, w\<lparr>pn_lines := ls\<rparr>)
             | (True, ls) \<Rightarrow>
                (case signIn c tf (pe_signin e) (cp_URL (c_ControlPlane cfg)) dataDir (deviceNameFor (pe_hostname e) cfg) (pn_data w) of
                   (Some err, d, rs) \<Rightarrow> (Some (if user_not_found err then NoAccount else SignInFailed err), w\<lparr>pn_lines := ls, pn_data := d\<rparr>)
                 | (None, d, rs) \<Rightarrow> ensureAuthMode e AuthModeOAuth (w\<lparr>pn_lines := ls, pn_data := d\<rparr>)))))"

definition toggleMode :: "crypto \<Rightarrow> timefmt \<Rightarrow> panel_env \<Rightarrow> panel_world \<Rightarrow> notice \<times> panel_world" where
  "toggleMode c tf e w =
    (if c_Mode (nd_cfg (pn_node w)) = ModeGateway then
       (case panel_patch e (pe_patch e) (mode_patch ModeLocal) w of (Some msg, w') \<Rightarrow> (msg, w') | (None, w') \<Rightarrow> (NowLocal, w'))
     else (case ensureSignedIn c tf e w of
        (Some msg, w1) \<Rightarrow> (msg, w1)
      | (None, w1) \<Rightarrow>
         (case panel_patch e (pe_patch e) (mode_patch ModeGateway) w1 of (Some msg, w') \<Rightarrow> (msg, w') | (None, w') \<Rightarrow> (NowRelay, w'))))"

definition ensureCloudflared :: "panel_env \<Rightarrow> string \<Rightarrow> string list \<Rightarrow> (panel_err + string) \<times> string list" where
  "ensureCloudflared e configuredPath ls =
    (case FindBinary (pe_exec e) (pe_path e) configuredPath of
       Inr _ \<Rightarrow> (Inr configuredPath, ls)
     | Inl _ \<Rightarrow>
        (case cloudflaredAssetURL (fst (pe_os e)) (snd (pe_os e)) of
           Inl err \<Rightarrow> (Inl (PEInstall err), ls)
         | Inr (url, archive) \<Rightarrow>
            (case confirm (pe_yes e) True ls of
               (False, ls') \<Rightarrow> (Inl PECloudflared, ls')
             | (True, ls') \<Rightarrow> (case pe_install e of Inl err \<Rightarrow> (Inl (PEInstall err), ls') | Inr bin \<Rightarrow> (Inr bin, ls')))))"

definition toggleRemote :: "crypto \<Rightarrow> timefmt \<Rightarrow> panel_env \<Rightarrow> panel_world \<Rightarrow> notice \<times> panel_world" where
  "toggleRemote c tf e w =
    (let cfg = nd_cfg (pn_node w) in
     if Exposed cfg then
       (case panel_patch e (pe_patch e) (tunnel_patch TunnelModeOff None) w of (Some msg, w') \<Rightarrow> (msg, w') | (None, w') \<Rightarrow> (RemoteOff, w'))
     else case ResolvedDataDir (pe_home e) cfg of
       None \<Rightarrow> (Failed PEDataDir, w)
     | Some dataDir \<Rightarrow>
        (case ensureSignedIn c tf e w of
           (Some msg, w1) \<Rightarrow> (msg, w1)
         | (None, w1) \<Rightarrow>
            (case ensureCloudflared e (tn_CloudflaredPath (c_Tunnel cfg)) (pn_lines w1) of
               (Inl err, ls) \<Rightarrow> (RemoteLeftOff err, w1\<lparr>pn_lines := ls\<rparr>)
             | (Inr bin, ls) \<Rightarrow>
                (case panel_patch e (pe_patch e) (tunnel_patch TunnelModeManaged (if bin \<noteq> tn_CloudflaredPath (c_Tunnel cfg) then Some bin else None))
                        (w1\<lparr>pn_lines := ls\<rparr>) of
                   (Some msg, w') \<Rightarrow> (msg, w') | (None, w') \<Rightarrow> (RemoteOn, w')))))"

text \<open>handle: the notice, and whether the panel quits.\<close>

definition panel_handle :: "crypto \<Rightarrow> timefmt \<Rightarrow> string \<Rightarrow> panel_env \<Rightarrow> string \<Rightarrow> panel_world \<Rightarrow> (notice \<times> bool) \<times> panel_world" where
  "panel_handle c tf adminToken e line w =
    (let l = ToLower line in
     if l = [] then ((NoNotice, False), w)
     else if l = ''1'' then (case openAdmin adminToken w of (m, w') \<Rightarrow> ((m, False), w'))
     else if l = ''2'' then (case toggleMode c tf e w of (m, w') \<Rightarrow> ((m, False), w'))
     else if l = ''3'' then (case toggleRemote c tf e w of (m, w') \<Rightarrow> ((m, False), w'))
     else if l \<in> {''q'', ''quit'', ''exit''} then ((NoNotice, True), w)
     else ((UnknownOption line, False), w))"

section \<open>The loop\<close>

text \<open>
  What the loop's select takes: the next line (or the end of input), the node's exit, or the
  signal; and what the node does in between: a reconcile of its own, or a step of its registration
  manager. runPanel's exit code is 1 only when the node has failed.
\<close>

datatype panel_event = PanelLine panel_env | PanelNodeExit bool | PanelSignal | PanelReconcile reconcile_env | PanelManager mg_event

fun run_panel :: "crypto \<Rightarrow> timefmt \<Rightarrow> string \<Rightarrow> panel_event list \<Rightarrow> panel_world \<Rightarrow> nat option \<times> panel_world \<times> http_request list" where
  "run_panel c tf token [] w = (None, w, [])"
| "run_panel c tf token (PanelLine e # es) w =
     (case pn_lines w of
        [] \<Rightarrow> (Some 0, w, [])
      | l # ls \<Rightarrow> (case panel_handle c tf token e (TrimSpace l) (w\<lparr>pn_lines := ls\<rparr>) of
          ((m, quit), w') \<Rightarrow> if quit then (Some 0, w', []) else run_panel c tf token es w'))"
| "run_panel c tf token (PanelNodeExit failed # es) w = (Some (if failed then 1 else 0), w, [])"
| "run_panel c tf token (PanelSignal # es) w = (Some 0, w, [])"
| "run_panel c tf token (PanelReconcile e # es) w = run_panel c tf token es (w\<lparr>pn_node := Reconcile e (pn_node w)\<rparr>)"
| "run_panel c tf token (PanelManager ev # es) w =
     (case manager_step ev (pn_node w) of
        (n, rs) \<Rightarrow> (case run_panel c tf token es (w\<lparr>pn_node := n\<rparr>) of (r, w', rs') \<Rightarrow> (r, w', rs @ rs')))"


section \<open>What an action leaves alone\<close>

lemma Reconcile_blocked: "mg_authBlocked (ms_m (nd_reg (Reconcile e n))) = mg_authBlocked (ms_m (nd_reg n))"
  using same_manager_fields [OF Reconcile_manager] by blast

definition blocked_node :: "node \<Rightarrow> bool" where
  "blocked_node n \<longleftrightarrow> mg_authBlocked (ms_m (nd_reg n)) \<and> ms_busy (nd_reg n) \<in> {None, Some PlanIdle, Some PlanDeregister}"

lemma blocked_Reconcile: "blocked_node (Reconcile e n) \<longleftrightarrow> blocked_node n"
  by (simp add: blocked_node_def Reconcile_blocked Reconcile_fields(6))

lemma ApplyConfigPatch_cases:
  assumes "ApplyConfigPatch enc f path e patch n = (r, n')"
  shows "blocked_node n' \<longleftrightarrow> blocked_node n" "nd_cfg n' = (if is_ok r then ApplyTo patch (nd_cfg n) else nd_cfg n)"
proof -
  have b: "blocked_node (n\<lparr>nd_disk := d\<rparr>) \<longleftrightarrow> blocked_node n" "blocked_node (n\<lparr>nd_disk := d, nd_cfg := c\<rparr>) \<longleftrightarrow> blocked_node n" for d c
    by (simp_all add: blocked_node_def)
  show "blocked_node n' \<longleftrightarrow> blocked_node n" "nd_cfg n' = (if is_ok r then ApplyTo patch (nd_cfg n) else nd_cfg n)"
    using assms by (auto simp: ApplyConfigPatch_def Let_def b blocked_Reconcile Reconcile_fields(1) split: option.splits prod.splits)
qed

lemma panel_patch_cases:
  assumes "panel_patch e fr patch w = (r, w')"
  shows "blocked_node (pn_node w') \<longleftrightarrow> blocked_node (pn_node w)" "pn_data w' = pn_data w" "pn_lines w' = pn_lines w" "pn_opened w' = pn_opened w"
    "nd_cfg (pn_node w') = (if r = None then ApplyTo patch (nd_cfg (pn_node w)) else nd_cfg (pn_node w))"
proof -
  obtain x n where x: "ApplyConfigPatch (pe_enc e) (fst fr) (pe_configPath e) (snd fr) patch (pn_node w) = (x, n)" by (metis surj_pair)
  note c = ApplyConfigPatch_cases [OF x]
  show "blocked_node (pn_node w') \<longleftrightarrow> blocked_node (pn_node w)" "pn_data w' = pn_data w" "pn_lines w' = pn_lines w" "pn_opened w' = pn_opened w"
    "nd_cfg (pn_node w') = (if r = None then ApplyTo patch (nd_cfg (pn_node w)) else nd_cfg (pn_node w))"
    using assms c by (cases x; auto simp: panel_patch_def x)+
qed

lemma patch_fields:
  "c_Mode (ApplyTo (no_patch\<lparr>p_ControlPlane := Some (None, Some m, None)\<rparr>) cfg) = c_Mode cfg"
  "c_Tunnel (ApplyTo (no_patch\<lparr>p_ControlPlane := Some (None, Some m, None)\<rparr>) cfg) = c_Tunnel cfg"
  "c_DataDir (ApplyTo (no_patch\<lparr>p_ControlPlane := Some (None, Some m, None)\<rparr>) cfg) = c_DataDir cfg"
  "cp_AuthMode (c_ControlPlane (ApplyTo (no_patch\<lparr>p_ControlPlane := Some (None, Some m, None)\<rparr>) cfg)) = m"
  "c_Tunnel (ApplyTo (mode_patch m) cfg) = c_Tunnel cfg" "c_ControlPlane (ApplyTo (mode_patch m) cfg) = c_ControlPlane cfg"
  "c_Mode (ApplyTo (mode_patch m) cfg) = m"
  "c_ControlPlane (ApplyTo (tunnel_patch m f) cfg) = c_ControlPlane cfg" "c_Mode (ApplyTo (tunnel_patch m f) cfg) = c_Mode cfg"
  "tn_Mode (c_Tunnel (ApplyTo (tunnel_patch m f) cfg)) = m"
  by (simp_all add: ApplyTo_def no_patch_def patchLog_def patchCapabilities_def patchControlPlane_def patchMemory_def patchOllama_def patchTunnel_def
      patchLAN_def patchOpenAI_def patchAdmin_def setIf_def)


section \<open>Who decides a terminal sign-in\<close>

text \<open>The first request on the callback path decides the sign-in; only the flow's own state completes it.\<close>

lemma waitForCallback_ok:
  "waitForCallback state x rqs = Inr code \<Longrightarrow> \<exists>pre q post. rqs = pre @ (''/callback'', q) # post \<and> list_all (\<lambda>rq. fst rq \<noteq> ''/callback'') pre \<and>
     query_get (parse_query q) ''state'' = state \<and> query_get (parse_query q) ''code'' = code \<and> query_get (parse_query q) ''error'' = [] \<and> code \<noteq> []"
proof (induction state x rqs rule: waitForCallback.induct)
  case (2 state x rq rqs)
  obtain path q where rq: "rq = (path, q)" by force
  show ?case
  proof (cases "path = ''/callback''")
    case True
    then show ?thesis using 2 rq
      by (rule_tac exI [of _ "[]"], rule_tac exI [of _ q], rule_tac exI [of _ rqs]) (auto simp: callback_answer_def Let_def split: if_splits)
  next
    case False
    then have none: "snd (callback_answer state rq) = None" by (simp add: rq callback_answer_def Let_def)
    then obtain pre q' post where "rqs = pre @ (''/callback'', q') # post" "list_all (\<lambda>rq. fst rq \<noteq> ''/callback'') pre"
      "query_get (parse_query q') ''state'' = state" "query_get (parse_query q') ''code'' = code" "query_get (parse_query q') ''error'' = []" "code \<noteq> []"
      using 2 by auto
    then show ?thesis using False rq by (intro exI [of _ "rq # pre"] exI [of _ q'] exI [of _ post]) auto
  qed
qed simp

text \<open>What a completed sign-in rests on.\<close>

definition signed_in_by :: "crypto \<Rightarrow> signin_env \<Rightarrow> string \<Rightarrow> string \<Rightarrow> OAuthCredential \<Rightarrow> bool" where
  "signed_in_by c e url device cred \<longleftrightarrow> (\<exists>addr flow q. si_listen e = Some addr \<and>
     fst (BeginFlow c (si_begin e) url device (''http://'' @ addr @ ''/callback'')) = Inr flow \<and>
     (''/callback'', q) \<in> set (si_requests e) \<and> query_get (parse_query q) ''state'' = fl_State flow \<and>
     fst (Flow_Exchange (si_exchange e) (si_now e) flow (query_get (parse_query q) ''code'')) = Inr cred)"

lemma signIn_ok:
  assumes "signIn c tf e url dir device d = (None, d', rs)" "tf_laws tf" "snd (sv_write (si_save e)) \<noteq> credential_path dir"
  shows "\<exists>cred. LoadOAuthCredential tf dir d' = Inr cred \<and> signed_in_by c e url device cred"
proof -
  obtain addr flow rs0 code cred rs1 where s: "si_listen e = Some addr"
    "BeginFlow c (si_begin e) url device (''http://'' @ addr @ ''/callback'') = (Inr flow, rs0)"
    "waitForCallback (fl_State flow) (si_cancelled e) (si_requests e) = Inr code"
    "Flow_Exchange (si_exchange e) (si_now e) flow code = (Inr cred, rs1)" "SaveOAuthCredential tf (si_save e) dir cred d = (d', None)"
    using assms(1) by (auto simp: signIn_def split: option.splits sum.splits prod.splits)
  obtain rs2 where "DiscoverOAuth (bg_discovery (si_begin e)) (TrimRight url (CHR ''/'')) = (Inr (fl_Meta flow), rs2)"
    by (rule BeginFlow_ok [OF s(2)]) (rule that)
  then have "om_TokenEndpoint (fl_Meta flow) \<noteq> []" by (auto simp: DiscoverOAuth_def Let_def split: if_splits reply.splits option.splits)
  then have "oc_TokenEndpoint cred \<noteq> []" using exchange_endpoint(2) [of "si_exchange e" "si_now e" flow code cred] s(4) by simp
  moreover have "oc_AccessToken cred \<noteq> []"
    using s(4) by (auto simp: Flow_Exchange_def exchangeCode_def split: if_splits token_reply.splits option.splits)
  ultimately have "LoadOAuthCredential tf dir d' = Inr cred" by (intro Save_ok [OF assms(2,3) s(5)])
  moreover obtain pre q post where "si_requests e = pre @ (''/callback'', q) # post"
    "query_get (parse_query q) ''state'' = fl_State flow" "query_get (parse_query q) ''code'' = code"
    using waitForCallback_ok [OF s(3)] by blast
  ultimately show ?thesis using s(1,2,4) by (auto simp: signed_in_by_def)
qed

section \<open>Relay and remote access need a sign-in\<close>

text \<open>How a node counts as signed in after the question: by an API key, a stored grant, or a flow of its own.\<close>

definition counts_as_signed_in :: "crypto \<Rightarrow> timefmt \<Rightarrow> panel_env \<Rightarrow> Config \<Rightarrow> string \<Rightarrow> panel_world \<Rightarrow> panel_world \<Rightarrow> Config \<Rightarrow> bool" where
  "counts_as_signed_in c tf e cfg dir w w' cfg' \<longleftrightarrow>
     (cp_AuthMode (c_ControlPlane cfg') = AuthModeAPIKey \<and> pn_data w' = pn_data w) \<or>
     (cp_AuthMode (c_ControlPlane cfg') = AuthModeOAuth \<and> (\<exists>cred. LoadOAuthCredential tf dir (pn_data w') = Inr cred \<and>
        (pn_data w' = pn_data w \<or> fst (confirm (pe_yes e) True (pn_lines w)) \<and>
           signed_in_by c (pe_signin e) (cp_URL (c_ControlPlane cfg)) (deviceNameFor (pe_hostname e) cfg) cred)))"

lemma ensureAuthMode_cases:
  assumes "ensureAuthMode e mode w = (r, w')"
  shows "blocked_node (pn_node w') \<longleftrightarrow> blocked_node (pn_node w)" "pn_data w' = pn_data w" "pn_lines w' = pn_lines w"
    "c_Mode (nd_cfg (pn_node w')) = c_Mode (nd_cfg (pn_node w))" "c_Tunnel (nd_cfg (pn_node w')) = c_Tunnel (nd_cfg (pn_node w))"
    "r = None \<Longrightarrow> cp_AuthMode (c_ControlPlane (nd_cfg (pn_node w'))) = mode"
  using assms panel_patch_cases [of e "pe_authPatch e" "no_patch\<lparr>p_ControlPlane := Some (None, Some mode, None)\<rparr>" w r w']
  by (auto simp: ensureAuthMode_def patch_fields split: if_splits)

lemma ensureAuthMode_frame:
  "ensureAuthMode e mode w = (r, w') \<Longrightarrow> (blocked_node (pn_node w') \<longleftrightarrow> blocked_node (pn_node w)) \<and>
     c_Mode (nd_cfg (pn_node w')) = c_Mode (nd_cfg (pn_node w)) \<and> c_Tunnel (nd_cfg (pn_node w')) = c_Tunnel (nd_cfg (pn_node w))"
  using ensureAuthMode_cases(1,4,5) by blast

lemma ensureSignedIn_cases:
  assumes "ensureSignedIn c tf e w = (r, w')"
  shows "blocked_node (pn_node w') \<longleftrightarrow> blocked_node (pn_node w)"
    "c_Mode (nd_cfg (pn_node w')) = c_Mode (nd_cfg (pn_node w))" "c_Tunnel (nd_cfg (pn_node w')) = c_Tunnel (nd_cfg (pn_node w))"
proof -
  have "(blocked_node (pn_node w') \<longleftrightarrow> blocked_node (pn_node w)) \<and> c_Mode (nd_cfg (pn_node w')) = c_Mode (nd_cfg (pn_node w)) \<and>
      c_Tunnel (nd_cfg (pn_node w')) = c_Tunnel (nd_cfg (pn_node w))"
    using assms by (auto simp: ensureSignedIn_def Let_def split: option.splits sum.splits prod.splits bool.splits if_splits dest!: ensureAuthMode_frame)
  then show "blocked_node (pn_node w') \<longleftrightarrow> blocked_node (pn_node w)"
    "c_Mode (nd_cfg (pn_node w')) = c_Mode (nd_cfg (pn_node w))" "c_Tunnel (nd_cfg (pn_node w')) = c_Tunnel (nd_cfg (pn_node w))" by blast+
qed

lemma ensureSignedIn_ok:
  assumes "ensureSignedIn c tf e w = (None, w')" "tf_laws tf" "\<And>dir. snd (sv_write (si_save (pe_signin e))) \<noteq> credential_path dir"
  shows "\<exists>dir. ResolvedDataDir (pe_home e) (nd_cfg (pn_node w)) = Some dir \<and>
    counts_as_signed_in c tf e (nd_cfg (pn_node w)) dir w w' (nd_cfg (pn_node w'))"
proof -
  let ?cfg = "nd_cfg (pn_node w)"
  obtain dir where dir: "ResolvedDataDir (pe_home e) ?cfg = Some dir" using assms(1) by (auto simp: ensureSignedIn_def Let_def split: option.splits)
  show ?thesis
  proof (cases "LoadOAuthCredential tf dir (pn_data w)")
    case (Inr cred)
    then have "ensureAuthMode e AuthModeOAuth w = (None, w')" using assms(1) dir by (simp add: ensureSignedIn_def)
    from ensureAuthMode_cases [OF this] show ?thesis using dir Inr by (auto simp: counts_as_signed_in_def)
  next
    case (Inl err)
    show ?thesis
    proof (cases "cp_AuthMode (c_ControlPlane ?cfg) = AuthModeAPIKey")
      case True
      then show ?thesis using assms(1) dir Inl by (auto simp: ensureSignedIn_def Let_def counts_as_signed_in_def)
    next
      case False
      then obtain ls d rs where s: "confirm (pe_yes e) True (pn_lines w) = (True, ls)"
        "signIn c tf (pe_signin e) (cp_URL (c_ControlPlane ?cfg)) dir (deviceNameFor (pe_hostname e) ?cfg) (pn_data w) = (None, d, rs)"
        "ensureAuthMode e AuthModeOAuth (w\<lparr>pn_lines := ls, pn_data := d\<rparr>) = (None, w')"
        using assms(1) dir Inl by (auto simp: ensureSignedIn_def Let_def split: option.splits prod.splits bool.splits if_splits)
      from signIn_ok [OF s(2) assms(2) assms(3)] ensureAuthMode_cases [OF s(3)] show ?thesis
        using dir s(1) by (auto simp: counts_as_signed_in_def)
    qed
  qed
qed


lemma toggleMode_cases:
  assumes "toggleMode c tf e w = (m, w')"
  shows "blocked_node (pn_node w') \<longleftrightarrow> blocked_node (pn_node w)" "c_Tunnel (nd_cfg (pn_node w')) = c_Tunnel (nd_cfg (pn_node w))"
    "c_Mode (nd_cfg (pn_node w')) \<noteq> ModeGateway \<or> c_Mode (nd_cfg (pn_node w)) = ModeGateway \<or>
      (\<exists>w1. ensureSignedIn c tf e w = (None, w1) \<and> pn_data w' = pn_data w1 \<and>
         c_ControlPlane (nd_cfg (pn_node w')) = c_ControlPlane (nd_cfg (pn_node w1)))"
proof -
  obtain r w1 where s: "ensureSignedIn c tf e w = (r, w1)" by (metis surj_pair)
  obtain r1 w2 where p: "panel_patch e (pe_patch e) (mode_patch ModeLocal) w = (r1, w2)" by (metis surj_pair)
  obtain r2 w3 where q: "panel_patch e (pe_patch e) (mode_patch ModeGateway) w1 = (r2, w3)" by (metis surj_pair)
  note f = ensureSignedIn_cases [OF s] panel_patch_cases [OF p] panel_patch_cases [OF q]
  have u: "(c_Mode (nd_cfg (pn_node w)) = ModeGateway \<and> w' = w2) \<or>
      (c_Mode (nd_cfg (pn_node w)) \<noteq> ModeGateway \<and> ((r \<noteq> None \<and> w' = w1) \<or> (r = None \<and> w' = w3)))"
    using assms by (auto simp: toggleMode_def s p q split: if_splits option.splits)
  show "blocked_node (pn_node w') \<longleftrightarrow> blocked_node (pn_node w)" "c_Tunnel (nd_cfg (pn_node w')) = c_Tunnel (nd_cfg (pn_node w))"
    using u f by (auto simp: patch_fields split: if_splits)
  show "c_Mode (nd_cfg (pn_node w')) \<noteq> ModeGateway \<or> c_Mode (nd_cfg (pn_node w)) = ModeGateway \<or>
      (\<exists>w1. ensureSignedIn c tf e w = (None, w1) \<and> pn_data w' = pn_data w1 \<and>
         c_ControlPlane (nd_cfg (pn_node w')) = c_ControlPlane (nd_cfg (pn_node w1)))"
    using u f s by (auto simp: patch_fields split: if_splits)
qed

lemma Exposed_tunnel: "Exposed cfg \<longleftrightarrow> tn_Mode (c_Tunnel cfg) \<noteq> TunnelModeOff"
  by (simp add: Exposed_def)

lemma toggleRemote_cases:
  assumes "toggleRemote c tf e w = (m, w')"
  shows "blocked_node (pn_node w') \<longleftrightarrow> blocked_node (pn_node w)" "c_Mode (nd_cfg (pn_node w')) = c_Mode (nd_cfg (pn_node w))"
    "\<not> Exposed (nd_cfg (pn_node w')) \<or> Exposed (nd_cfg (pn_node w)) \<or>
      (\<exists>w1. ensureSignedIn c tf e w = (None, w1) \<and> pn_data w' = pn_data w1 \<and>
         c_ControlPlane (nd_cfg (pn_node w')) = c_ControlPlane (nd_cfg (pn_node w1)))"
proof -
  let ?cf = "tn_CloudflaredPath (c_Tunnel (nd_cfg (pn_node w)))"
  obtain r w1 where s: "ensureSignedIn c tf e w = (r, w1)" by (metis surj_pair)
  obtain b ls where b: "ensureCloudflared e ?cf (pn_lines w1) = (b, ls)" by (metis surj_pair)
  obtain r1 w2 where p: "panel_patch e (pe_patch e) (tunnel_patch TunnelModeOff None) w = (r1, w2)" by (metis surj_pair)
  have on: "r = None \<and> (\<exists>r2. panel_patch e (pe_patch e) (tunnel_patch TunnelModeManaged x) (w1\<lparr>pn_lines := ls\<rparr>) = (r2, w'))"
    if "(case panel_patch e (pe_patch e) (tunnel_patch TunnelModeManaged x) (w1\<lparr>pn_lines := ls\<rparr>) of
       (Some msg, w') \<Rightarrow> (msg, w') | (None, w') \<Rightarrow> (RemoteOn, w')) = (m, w')" "r = None" for x
    using that by (auto split: prod.splits option.splits)
  have u: "(Exposed (nd_cfg (pn_node w)) \<and> w' = w2) \<or>
      (\<not> Exposed (nd_cfg (pn_node w)) \<and> (w' = w \<or> (r \<noteq> None \<and> w' = w1) \<or> w' = w1\<lparr>pn_lines := ls\<rparr> \<or>
         (r = None \<and> (\<exists>x r2. panel_patch e (pe_patch e) (tunnel_patch TunnelModeManaged x) (w1\<lparr>pn_lines := ls\<rparr>) = (r2, w')))))"
  proof (cases "Exposed (nd_cfg (pn_node w))")
    case True
    then show ?thesis using assms by (auto simp: toggleRemote_def p Let_def split: option.splits)
  next
    case False
    then show ?thesis using assms on by (cases r; cases b; cases "ResolvedDataDir (pe_home e) (nd_cfg (pn_node w))") (auto simp: toggleRemote_def s b Let_def)
  qed
  have g: "(blocked_node (pn_node w') \<longleftrightarrow> blocked_node (pn_node w1)) \<and> c_Mode (nd_cfg (pn_node w')) = c_Mode (nd_cfg (pn_node w1)) \<and> pn_data w' = pn_data w1 \<and>
      c_ControlPlane (nd_cfg (pn_node w')) = c_ControlPlane (nd_cfg (pn_node w1))"
    if "panel_patch e (pe_patch e) (tunnel_patch TunnelModeManaged x) (w1\<lparr>pn_lines := ls\<rparr>) = (r2, w')" for x r2
    using panel_patch_cases [OF that] by (auto simp: patch_fields split: if_splits)
  note f = ensureSignedIn_cases [OF s] panel_patch_cases [OF p]
  show "blocked_node (pn_node w') \<longleftrightarrow> blocked_node (pn_node w)" "c_Mode (nd_cfg (pn_node w')) = c_Mode (nd_cfg (pn_node w))"
    using u f by (auto simp: patch_fields split: if_splits dest!: g)
  show "\<not> Exposed (nd_cfg (pn_node w')) \<or> Exposed (nd_cfg (pn_node w)) \<or>
      (\<exists>w1. ensureSignedIn c tf e w = (None, w1) \<and> pn_data w' = pn_data w1 \<and>
         c_ControlPlane (nd_cfg (pn_node w')) = c_ControlPlane (nd_cfg (pn_node w1)))"
    using u f s by (auto simp: patch_fields Exposed_tunnel split: if_splits dest!: g)
qed

lemma panel_handle_cases:
  assumes "panel_handle c tf token e line w = (r, w')"
  obtains "pn_node w' = pn_node w" | m where "toggleMode c tf e w = (m, w')" | m where "toggleRemote c tf e w = (m, w')"
  using assms by (auto simp: panel_handle_def Let_def openAdmin_def split: if_splits prod.splits)

text \<open>
  C16. No menu choice turns a node into a relay, or opens it to access from anywhere, unless the
  node counts as signed in: it is in API-key mode, or it is now in OAuth mode with a grant on disk
  that loads; and a grant that was not there before is the answer to a code that came back on the
  node's own callback with the state of the flow just begun, after the operator agreed.
\<close>

theorem relay_and_remote_need_sign_in:
  assumes "tf_laws tf" "\<And>dir. snd (sv_write (si_save (pe_signin e))) \<noteq> credential_path dir" "panel_handle c tf token e line w = (r, w')"
    and "(c_Mode (nd_cfg (pn_node w')) = ModeGateway \<and> c_Mode (nd_cfg (pn_node w)) \<noteq> ModeGateway) \<or>
      (Exposed (nd_cfg (pn_node w')) \<and> \<not> Exposed (nd_cfg (pn_node w)))"
  shows "\<exists>dir. ResolvedDataDir (pe_home e) (nd_cfg (pn_node w)) = Some dir \<and>
    counts_as_signed_in c tf e (nd_cfg (pn_node w)) dir w w' (nd_cfg (pn_node w'))"
proof -
  have "\<exists>w1. ensureSignedIn c tf e w = (None, w1) \<and> pn_data w' = pn_data w1 \<and>
      c_ControlPlane (nd_cfg (pn_node w')) = c_ControlPlane (nd_cfg (pn_node w1))"
    using assms(3)
  proof (cases rule: panel_handle_cases)
    case 1
    then show ?thesis using assms(4) by simp
  next
    case (2 m)
    then show ?thesis using toggleMode_cases(2,3) [OF 2] assms(4) by (auto simp: Exposed_tunnel)
  next
    case (3 m)
    then show ?thesis using toggleRemote_cases(2,3) [OF 3] assms(4) by auto
  qed
  then obtain w1 where s: "ensureSignedIn c tf e w = (None, w1)" "pn_data w' = pn_data w1"
    "c_ControlPlane (nd_cfg (pn_node w')) = c_ControlPlane (nd_cfg (pn_node w1))" by blast
  from ensureSignedIn_ok [OF s(1) assms(1,2)] show ?thesis by (auto simp: counts_as_signed_in_def s(2,3))
qed

section \<open>A sign-in the registration never hears of\<close>

lemma blocked_manager_step:
  assumes "blocked_node n" "ev \<noteq> EvToken" "manager_step ev n = (n', rs)"
  shows "blocked_node n' \<and> (\<forall>r \<in> set rs. hr_method r = ''DELETE'')"
proof -
  obtain s' where e: "mg_exec ev ((nd_reg n)\<lparr>ms_disk := nd_disk n\<rparr>) = (s', rs)" "nd_reg n' = s'"
    using assms(3) by (auto simp: manager_step_def split: prod.splits)
  show ?thesis using blocked_step [OF _ _ assms(2) e(1)] assms(1) e(2) by (simp add: blocked_node_def)
qed

definition panel_tokens :: "panel_event \<Rightarrow> bool" where
  "panel_tokens ev \<longleftrightarrow> (case ev of PanelManager EvToken \<Rightarrow> True | _ \<Rightarrow> False)"

lemma panel_handle_blocked: "panel_handle c tf token e line w = (r, w') \<Longrightarrow> blocked_node (pn_node w') \<longleftrightarrow> blocked_node (pn_node w)"
  by (erule panel_handle_cases) (simp_all add: toggleMode_cases(1) toggleRemote_cases(1))

text \<open>
  C38. A sign-in from the terminal does not reach the registration. Once the control plane has
  answered a registration with 401, or there was no grant to register with, nothing that is done in
  the panel makes the node register again: whatever lines are typed and whatever sign-ins succeed,
  the manager stays blocked and sends at most the DELETE of an old registration, since only
  NotifyTokenUpdated unblocks it, which the admin console's sign-in calls and the panel's does not.
\<close>

theorem panel_sign_in_leaves_registration_blocked:
  assumes "blocked_node (pn_node w)" "list_all (\<lambda>ev. \<not> panel_tokens ev) es" "run_panel c tf token es w = (r, w', rs)"
  shows "mg_authBlocked (ms_m (nd_reg (pn_node w'))) \<and> (\<forall>q \<in> set rs. hr_method q = ''DELETE'')"
proof -
  have "blocked_node (pn_node w') \<and> (\<forall>q \<in> set rs. hr_method q = ''DELETE'')"
    using assms
  proof (induction es arbitrary: w rs)
    case (Cons ev es)
    show ?case
    proof (cases ev)
      case (PanelLine e)
      show ?thesis
      proof (cases "pn_lines w")
        case (Cons l ls)
        obtain m quit w1 where h: "panel_handle c tf token e (TrimSpace l) (w\<lparr>pn_lines := ls\<rparr>) = ((m, quit), w1)" by (metis surj_pair)
        have "blocked_node (pn_node w1)" using panel_handle_blocked [OF h] Cons.prems(1) by simp
        then show ?thesis using Cons.IH [of w1 rs] Cons.prems(2,3) h PanelLine Cons by (cases quit) auto
      qed (use Cons.prems PanelLine in auto)
    next
      case (PanelReconcile e)
      then show ?thesis using Cons.IH [of "w\<lparr>pn_node := Reconcile e (pn_node w)\<rparr>" rs] Cons.prems by (simp add: blocked_Reconcile)
    next
      case (PanelManager mev)
      obtain n1 rs1 where m: "manager_step mev (pn_node w) = (n1, rs1)" by (metis surj_pair)
      have "mev \<noteq> EvToken" using Cons.prems(2) PanelManager by (auto simp: panel_tokens_def)
      note b = blocked_manager_step [OF Cons.prems(1) this m]
      obtain rs2 where r: "run_panel c tf token es (w\<lparr>pn_node := n1\<rparr>) = (r, w', rs2)" "rs = rs1 @ rs2"
        using Cons.prems(3) PanelManager m by (auto split: prod.splits)
      have "list_all (\<lambda>ev. \<not> panel_tokens ev) es" using Cons.prems(2) by simp
      then have "blocked_node (pn_node w') \<and> (\<forall>q \<in> set rs2. hr_method q = ''DELETE'')"
        using Cons.IH [OF _ _ r(1)] b by simp
      then show ?thesis using b r(2) by auto
    qed (use Cons.prems in auto)
  qed simp
  then show ?thesis by (simp add: blocked_node_def)
qed


text \<open>
  A grant that loads counts as a sign-in, usable or not: once it has expired and there is no refresh
  token, every token request fails, and the panel still never offers to sign in again.
\<close>

lemma stale_grant_counts_as_signed_in:
  assumes "ResolvedDataDir (pe_home e) (nd_cfg (pn_node w)) = Some dir" "LoadOAuthCredential tf dir (pn_data w) = Inr cred"
    and "cp_AuthMode (c_ControlPlane (nd_cfg (pn_node w))) = AuthModeOAuth" "oc_RefreshToken cred = []" "\<not> usable_for now cred" "\<not> ts_loaded s"
  shows "ensureSignedIn c tf e w = (None, w) \<and> fst (Token_begin tf (Some dir) now s (pn_data w)) = Some (Inl ErrNotSignedIn)"
  using assms by (simp add: ensureSignedIn_def Let_def ensureAuthMode_def Token_begin_def)

text \<open>The menu's labels are true: what they announce is what a completed choice has done.\<close>

lemma menu_labels_true:
  "toggleMode c tf e w = (NowRelay, w') \<Longrightarrow> modeMenuLabel (nd_cfg (pn_node w)) = ''Switch to Local Relay'' \<and> modeMenuLabel (nd_cfg (pn_node w')) = ''Switch to Local Node''"
  "toggleMode c tf e w = (NowLocal, w') \<Longrightarrow> modeMenuLabel (nd_cfg (pn_node w)) = ''Switch to Local Node'' \<and> modeMenuLabel (nd_cfg (pn_node w')) = ''Switch to Local Relay''"
proof -
  have p: "r = None \<and> c_Mode (nd_cfg (pn_node w')) = m \<or> (\<exists>err. r = Some (Failed err))"
    if "panel_patch e (pe_patch e) (mode_patch m) v = (r, w')" for r v m
    using that panel_patch_cases(5) [OF that] by (auto simp: panel_patch_def patch_fields split: prod.splits sum.splits if_splits)
  have q: "r \<noteq> Some NowRelay \<and> r \<noteq> Some NowLocal" if "ensureSignedIn c tf e w = (r, v)" for r v
    using that by (auto simp: ensureSignedIn_def Let_def ensureAuthMode_def panel_patch_def split: option.splits sum.splits prod.splits bool.splits if_splits)
  show "toggleMode c tf e w = (NowRelay, w') \<Longrightarrow> modeMenuLabel (nd_cfg (pn_node w)) = ''Switch to Local Relay'' \<and> modeMenuLabel (nd_cfg (pn_node w')) = ''Switch to Local Node''"
    using q by (fastforce simp: toggleMode_def modeMenuLabel_def split: if_splits prod.splits option.splits dest!: p)
  show "toggleMode c tf e w = (NowLocal, w') \<Longrightarrow> modeMenuLabel (nd_cfg (pn_node w)) = ''Switch to Local Node'' \<and> modeMenuLabel (nd_cfg (pn_node w')) = ''Switch to Local Relay''"
    using q by (fastforce simp: toggleMode_def modeMenuLabel_def ModeLocal_def ModeGateway_def split: if_splits prod.splits option.splits dest!: p)
qed

section \<open>Examples\<close>

definition demo_signin :: signin_env where
  "demo_signin = \<lparr>si_listen = Some ''127.0.0.1:5'', si_begin = demo_begin_env,
     si_requests = [(''/favicon.ico'', []), (''/callback'', ''code=code&state='' @ RawURLEncode ''xyz'')], si_cancelled = False,
     si_exchange = TokenReply 200 ''200 OK'' (Some (JObj [(''access_token'', JStr ''at'')])), si_now = 5,
     si_save = \<lparr>sv_mkdir = True, sv_write = (NoFault, ''t'')\<rparr>\<rparr>"

definition demo_panel_env :: panel_env where
  "demo_panel_env = \<lparr>pe_home = Some ''/h'', pe_hostname = Some ''mac'', pe_enc = (\<lambda>c. c_Mode c), pe_configPath = ''c.toml'',
     pe_authPatch = (SaveOK, Node.demo_env None), pe_patch = (SaveOK, Node.demo_env None), pe_yes = False, pe_signin = demo_signin,
     pe_exec = (\<lambda>p. True), pe_path = None, pe_os = (''linux'', ''amd64''), pe_install = Inl ErrArchive\<rparr>"

definition demo_panel_cfg :: Config where
  "demo_panel_cfg = Default\<lparr>c_ControlPlane := (c_ControlPlane Default)\<lparr>cp_URL := ''https://cp/'', cp_AuthMode := AuthModeOAuth\<rparr>\<rparr>"

definition demo_panel :: panel_world where
  "demo_panel = \<lparr>pn_node = (demo_node demo_panel_cfg)\<lparr>nd_reg := (mg_init [])\<lparr>ms_m := setAuthBlocked NewManager\<rparr>\<rparr>, pn_data = [],
     pn_lines = [''2'', ''y''], pn_opened = []\<rparr>"

lemma demo_callback: "waitForCallback (RawURLEncode ''xyz'') False (si_requests demo_signin) = Inr ''code''"
  by code_simp

lemma demo_panel_exchange: "\<exists>cred rs. Flow_Exchange (si_exchange demo_signin) 5 (demo_flow c uri) ''code'' = (Inr cred, rs) \<and> oc_ExpiresAt cred = zero_time"
  using demo_origins(6)
  by (simp add: Flow_Exchange_def exchangeCode_def demo_flow_def demo_meta_def demo_signin_def token_of_json_def struct_fields_def EqualFold_def
      ToLower_def lower_char_def dec_str_def dec_int_def token_expiry_def)

lemma demo_signs_in: "\<exists>d' rs. signIn c zero_tf demo_signin ''https://cp/'' dir device [] = (None, d', rs)"
proof -
  obtain cred rs where x: "Flow_Exchange (si_exchange demo_signin) 5 (demo_flow c ''http://127.0.0.1:5/callback'') ''code'' = (Inr cred, rs)"
    "oc_ExpiresAt cred = zero_time" using demo_panel_exchange by blast
  then have "credential_json zero_tf cred \<noteq> None" by (simp add: credential_json_def zero_tf_def)
  then obtain v where v: "credential_json zero_tf cred = Some v" by blast
  have "snd (SaveOAuthCredential zero_tf (si_save demo_signin) dir cred []) = None"
    by (simp add: SaveOAuthCredential_def v demo_signin_def WriteFileAtomic_def WriteFileAtomic_trace_def Let_def split: prod.splits)
  then obtain d' where "SaveOAuthCredential zero_tf (si_save demo_signin) dir cred [] = (d', None)" by (metis prod.collapse)
  moreover have "si_listen demo_signin = Some ''127.0.0.1:5''" "si_begin demo_signin = demo_begin_env" "si_now demo_signin = 5" "si_cancelled demo_signin = False"
    by (simp_all add: demo_signin_def)
  moreover have "fl_State (demo_flow c u) = RawURLEncode ''xyz''" for u by (simp add: demo_flow_def)
  ultimately show ?thesis using x(1) demo_callback by (simp add: signIn_def demo_begin)
qed


lemma demo_panel_dir: "ResolvedDataDir (Some ''/h'') demo_panel_cfg = Some ''/h/.onesilo-node''"
  by code_simp

lemma demo_panel_valid: "Validate (ApplyTo (mode_patch ModeGateway) demo_panel_cfg) = None"
  by code_simp

lemma demo_yes: "confirm False True [''y''] = (True, [])"
  by code_simp

abbreviation demo_panel1 :: panel_world where
  "demo_panel1 \<equiv> demo_panel\<lparr>pn_lines := [''y'']\<rparr>"

lemma demo_question: "\<exists>d. ensureSignedIn demo_crypto zero_tf demo_panel_env demo_panel1 = (None, demo_panel1\<lparr>pn_lines := [], pn_data := d\<rparr>)"
proof -
  obtain d rs where s: "signIn demo_crypto zero_tf demo_signin ''https://cp/'' ''/h/.onesilo-node'' (deviceNameFor (Some ''mac'') demo_panel_cfg) [] = (None, d, rs)"
    using demo_signs_in by blast
  have "nd_cfg (pn_node demo_panel1) = demo_panel_cfg" "pn_data demo_panel1 = []" "pn_lines demo_panel1 = [''y'']" by (simp_all add: demo_panel_def demo_node_def)
  moreover have "cp_URL (c_ControlPlane demo_panel_cfg) = ''https://cp/''" "cp_AuthMode (c_ControlPlane demo_panel_cfg) = AuthModeOAuth"
    by (simp_all add: demo_panel_cfg_def)
  moreover have "pe_home demo_panel_env = Some ''/h''" "pe_yes demo_panel_env = False" "pe_signin demo_panel_env = demo_signin" "pe_hostname demo_panel_env = Some ''mac''"
    by (simp_all add: demo_panel_env_def)
  moreover have "LoadOAuthCredential zero_tf ''/h/.onesilo-node'' [] = Inl ErrNotSignedIn" by (simp add: Load_by_read read_path_def)
  moreover have "AuthModeOAuth \<noteq> AuthModeAPIKey" by (simp add: AuthModeOAuth_def AuthModeAPIKey_def)
  ultimately show ?thesis using s demo_yes demo_panel_dir by (auto simp: ensureSignedIn_def Let_def ensureAuthMode_def)
qed

lemma demo_toggle:
  "\<exists>w'. panel_handle demo_crypto zero_tf tok demo_panel_env ''2'' demo_panel1 = ((NowRelay, False), w') \<and> c_Mode (nd_cfg (pn_node w')) = ModeGateway"
proof -
  obtain d where q: "ensureSignedIn demo_crypto zero_tf demo_panel_env demo_panel1 = (None, demo_panel1\<lparr>pn_lines := [], pn_data := d\<rparr>)"
    using demo_question by blast
  have cfg: "nd_cfg (pn_node demo_panel) = demo_panel_cfg" by (simp add: demo_panel_def demo_node_def)
  have m: "c_Mode demo_panel_cfg \<noteq> ModeGateway" by (simp add: demo_panel_cfg_def Default_def ModeLocal_def ModeGateway_def)
  obtain r w' where p: "panel_patch demo_panel_env (pe_patch demo_panel_env) (mode_patch ModeGateway) (demo_panel1\<lparr>pn_lines := [], pn_data := d\<rparr>) = (r, w')"
    by (metis surj_pair)
  have "r = None" using p demo_panel_valid
    by (auto simp: panel_patch_def ApplyConfigPatch_def Let_def cfg Save_def demo_panel_env_def)
  with p show ?thesis using q m panel_patch_cases(5) [OF p]
    by (auto simp: panel_handle_def toggleMode_def cfg ToLower_def lower_char_def patch_fields)
qed

lemma demo_grant_temp: "snd (sv_write (si_save (pe_signin demo_panel_env))) \<noteq> credential_path dir"
  by (auto simp: demo_panel_env_def demo_signin_def path_join_def OAuthCredentialFile_def Let_def split: if_splits)

theorem relay_and_remote_need_sign_in_witness:
  "\<exists>w'. panel_handle demo_crypto zero_tf ''tok'' demo_panel_env ''2'' demo_panel1 = ((NowRelay, False), w') \<and>
     (\<exists>cred. LoadOAuthCredential zero_tf ''/h/.onesilo-node'' (pn_data w') = Inr cred \<and>
        signed_in_by demo_crypto demo_signin ''https://cp/'' (deviceNameFor (Some ''mac'') demo_panel_cfg) cred)"
proof -
  obtain w' where h: "panel_handle demo_crypto zero_tf ''tok'' demo_panel_env ''2'' demo_panel1 = ((NowRelay, False), w')"
    and m: "c_Mode (nd_cfg (pn_node w')) = ModeGateway" using demo_toggle by blast
  have cfg: "nd_cfg (pn_node demo_panel1) = demo_panel_cfg" "pn_data demo_panel1 = []" by (simp_all add: demo_panel_def demo_node_def)
  have old: "c_Mode (nd_cfg (pn_node demo_panel1)) \<noteq> ModeGateway" by (simp only: cfg) (simp add: demo_panel_cfg_def Default_def ModeLocal_def ModeGateway_def)
  have e: "pe_home demo_panel_env = Some ''/h''" "pe_signin demo_panel_env = demo_signin" "pe_hostname demo_panel_env = Some ''mac''"
    "cp_URL (c_ControlPlane demo_panel_cfg) = ''https://cp/''" by (simp_all add: demo_panel_env_def demo_panel_cfg_def)
  have none: "LoadOAuthCredential zero_tf dir [] \<noteq> Inr x" for dir x by (simp add: Load_by_read read_path_def)
  have api: "cp_AuthMode (c_ControlPlane (nd_cfg (pn_node w'))) \<noteq> AuthModeAPIKey"
  proof -
    have "toggleMode demo_crypto zero_tf demo_panel_env demo_panel1 = (NowRelay, w')" using h
      by (auto simp: panel_handle_def ToLower_def lower_char_def split: prod.splits)
    from toggleMode_cases(3) [OF this] m old obtain w1 where w1: "ensureSignedIn demo_crypto zero_tf demo_panel_env demo_panel1 = (None, w1)"
      "c_ControlPlane (nd_cfg (pn_node w')) = c_ControlPlane (nd_cfg (pn_node w1))" by blast
    have "nd_cfg (pn_node demo_panel) = demo_panel_cfg" by (simp add: demo_panel_def demo_node_def)
    then show ?thesis using demo_question w1 by (auto simp: demo_panel_cfg_def AuthModeOAuth_def AuthModeAPIKey_def)
  qed
  from relay_and_remote_need_sign_in [OF zero_tf_laws demo_grant_temp h disjI1, OF conjI, OF m old]
  have "counts_as_signed_in demo_crypto zero_tf demo_panel_env demo_panel_cfg ''/h/.onesilo-node'' demo_panel1 w' (nd_cfg (pn_node w'))"
    by (simp only: cfg e demo_panel_dir) auto
  then show ?thesis using h api none by (auto simp: counts_as_signed_in_def cfg e)
qed

theorem panel_sign_in_leaves_registration_blocked_witness:
  "\<exists>w'. run_panel demo_crypto zero_tf ''tok'' [PanelLine demo_panel_env] demo_panel = (None, w', []) \<and>
     c_Mode (nd_cfg (pn_node w')) = ModeGateway \<and> mg_authBlocked (ms_m (nd_reg (pn_node w')))"
proof -
  obtain w' where h: "panel_handle demo_crypto zero_tf ''tok'' demo_panel_env ''2'' demo_panel1 = ((NowRelay, False), w')"
    and m: "c_Mode (nd_cfg (pn_node w')) = ModeGateway" using demo_toggle by blast
  have "pn_lines demo_panel = [''2'', ''y'']" by (simp add: demo_panel_def)
  moreover have "TrimSpace ''2'' = ''2''" by code_simp
  ultimately have run: "run_panel demo_crypto zero_tf ''tok'' [PanelLine demo_panel_env] demo_panel = (None, w', [])" using h by simp
  have "blocked_node (pn_node demo_panel)" by (simp add: demo_panel_def blocked_node_def mg_init_def setAuthBlocked_def)
  from panel_sign_in_leaves_registration_blocked [OF this _ run] show ?thesis using run m by (simp add: panel_tokens_def)
qed

end
