(* ===== verification/Daemon.thy ===== *)
theory Daemon
  imports AdminHttp
begin

text \<open>
  The process (cmd/onesilo-node/main.go, internal/node/node.go): the choice of command and
  configuration, New with everything it loads or creates in the data directory, and Run as a step
  relation: the reconciling loop, the registration manager and the admin server side by side, and
  the teardown in the order of the code, with the admin server answering to the end. What a request
  to the admin API sends to the control plane itself is in SignIn; the requests of the steps here
  are those of the registration manager.
\<close>

section \<open>The command\<close>

datatype command = CmdHealthcheck "string list" | CmdSetup "string list" | CmdRun "string list"

definition main_command :: "string list \<Rightarrow> command" where
  "main_command args = (case args of
     [] \<Rightarrow> CmdRun []
   | a # rest \<Rightarrow> if a = ''healthcheck'' then CmdHealthcheck rest else if a = ''setup'' then CmdSetup rest else CmdRun args)"

text \<open>The default path, the flags that were set, and the configuration they give with the environment.\<close>

definition DefaultPath :: "string option \<Rightarrow> string" where
  "DefaultPath home = (case home of None \<Rightarrow> ''config.toml'' | Some h \<Rightarrow> path_join (path_join h ''.onesilo-node'') ''config.toml'')"

definition flag_values :: "(string \<times> string) list \<Rightarrow> string \<Rightarrow> string option" where
  "flag_values flags = map_get (map_del ''version'' (map_del ''config'' flags))"

definition loadConfig :: "(Config \<Rightarrow> bytes \<Rightarrow> toml_result) \<Rightarrow> (string \<Rightarrow> stat_result) \<Rightarrow> string option \<Rightarrow> (string \<Rightarrow> string option)
    \<Rightarrow> string \<Rightarrow> (string \<times> string) list \<Rightarrow> (cfg_err + Config) \<times> string" where
  "loadConfig toml stat home env pathFlag flags =
    (let path = config_path pathFlag (case env ''SILO_NODE_CONFIG'' of None \<Rightarrow> [] | Some p \<Rightarrow> p) (DefaultPath home) in
     (Load toml (if path = [] then None else Some (stat path)) env (flag_values flags), path))"

definition registerConfigFlags :: "(string \<Rightarrow> string) \<Rightarrow> (string \<times> string) list" where
  "registerConfigFlags usage = map (\<lambda>s. (st_Flag s, usage (st_Flag s) @ '' [env '' @ st_Env s @ '']'')) Settings"

section \<open>New\<close>

record new_env =
  nw_home :: "string option"
  nw_mkdir :: bool
  nw_chmod :: bool
  nw_random :: "bytes option"   \<comment> \<open>the node key's bytes\<close>
  nw_keyWrite :: wf_fault
  nw_fresh :: "bytes option"   \<comment> \<open>a fresh identity key\<close>
  nw_idWrite :: wfa_env

datatype new_err = NewHome | NewMkdir | NewChmod | NewNodeKey fs_err | NewIdentity identity_err | NewKeys key_err | NewPins pin_err

record built =
  bt_nodeKey :: string
  bt_identity :: bytes
  bt_keys :: key_store
  bt_pins :: pin_store

definition Node_New :: "crypto \<Rightarrow> timefmt \<Rightarrow> new_env \<Rightarrow> Config \<Rightarrow> disk \<Rightarrow> (new_err + built) \<times> disk" where
  "Node_New c tf e cfg d =
    (case ResolvedDataDir (nw_home e) cfg of
       None \<Rightarrow> (Inl NewHome, d)
     | Some dataDir \<Rightarrow>
        if \<not> nw_mkdir e then (Inl NewMkdir, d)
        else if \<not> nw_chmod e then (Inl NewChmod, d)
        else (case LoadOrCreateNodeKey (nw_random e) (nw_keyWrite e) dataDir d of
            (Inl err, d1) \<Rightarrow> (Inl (NewNodeKey err), d1)
          | (Inr nodeKey, d1) \<Rightarrow>
             (case LoadOrCreateIdentity c (nw_fresh e) (nw_idWrite e) dataDir d1 of
                (Inl err, d2) \<Rightarrow> (Inl (NewIdentity err), d2)
              | (Inr identity, d2) \<Rightarrow>
                 (case LoadKeyStore tf dataDir d2 of
                    Inl err \<Rightarrow> (Inl (NewKeys err), d2)
                  | Inr keys \<Rightarrow>
                     (case LoadPinStore tf dataDir d2 of
                        Inl err \<Rightarrow> (Inl (NewPins err), d2)
                      | Inr pins \<Rightarrow> (Inr \<lparr>bt_nodeKey = nodeKey, bt_identity = identity, bt_keys = keys, bt_pins = pins\<rparr>, d2))))))"

text \<open>The node a New returns: nothing runs, nothing failed, the manager has not met the control plane.\<close>

definition new_node :: "Config \<Rightarrow> disk \<Rightarrow> node" where
  "new_node cfg d = \<lparr>nd_cfg = cfg, nd_disk = d, nd_capRunning = [], nd_failures = [], nd_quick = None, nd_managed = None,
     nd_reg = mg_init d, nd_jwt = [], nd_deviceID = [], nd_warned = False, nd_log = []\<rparr>"

text \<open>What a handshake's verifier is bound to: the identity the manager has at that moment.\<close>

definition newVerifier :: "manager \<Rightarrow> AssertionVerifier" where
  "newVerifier m = \<lparr>av_OwnDeviceID = mg_deviceID m, av_OwnAccount = mg_accountID m\<rparr>"

section \<open>Run\<close>

datatype run_phase = Up | Draining | StoppingCaps "string list" | StoppingTunnels | StoppingAPI | Ended

record daemon =
  dm_w :: admin_world
  dm_phase :: run_phase
  dm_api :: bool   \<comment> \<open>the admin server serves\<close>
  dm_late :: bool   \<comment> \<open>history: a request has started or stopped something during the teardown\<close>

definition on_node :: "(node \<Rightarrow> node) \<Rightarrow> daemon \<Rightarrow> daemon" where
  "on_node f s = s\<lparr>dm_w := (dm_w s)\<lparr>aw_node := f (aw_node (dm_w s))\<rparr>\<rparr>"

definition stopping :: "daemon \<Rightarrow> daemon" where
  "stopping s = s\<lparr>dm_w := (dm_w s)\<lparr>aw_stopping := True\<rparr>\<rparr>"

definition torn :: "run_phase \<Rightarrow> bool" where
  "torn p \<longleftrightarrow> p \<noteq> Up \<and> p \<noteq> Draining"

definition moved :: "node \<Rightarrow> node \<Rightarrow> bool" where
  "moved n n' \<longleftrightarrow> nd_capRunning n' \<noteq> nd_capRunning n \<or> nd_quick n' \<noteq> nd_quick n \<or> nd_managed n' \<noteq> nd_managed n"

definition stop_cap :: "(string \<Rightarrow> string option) \<Rightarrow> string \<Rightarrow> node \<Rightarrow> node" where
  "stop_cap ends b n = (if capRunning n b then
     (case ends b of Some err \<Rightarrow> log_line Warn (cap_key b) err n | None \<Rightarrow> n)\<lparr>nd_capRunning := map_put b False (nd_capRunning n)\<rparr>
   else n)"

text \<open>stopTunnel: both managers are taken away, then stopped; each reports that it is down if it had a URL.\<close>

definition stopTunnel :: "node \<Rightarrow> node" where
  "stopTunnel n =
    (let n1 = n\<lparr>nd_quick := None, nd_managed := None\<rparr>;
         n2 = (case nd_quick n of Some t \<Rightarrow> if tu_url t \<noteq> [] then onTunnelURLChange [] n1 else n1 | None \<Rightarrow> n1) in
     case nd_managed n of Some t \<Rightarrow> if tu_url t \<noteq> [] then onManagedURLChange [] n2 else n2 | None \<Rightarrow> n2)"

datatype bind_outcome = BindOK | BindInUse | BindFails

datatype run_err = ErrAdminInUse int | ErrAdminBind int

text \<open>Server.Start: the loopback address on the configured port.\<close>

definition Admin_Start :: "int \<Rightarrow> bind_outcome \<Rightarrow> run_err option" where
  "Admin_Start port b = (case b of BindOK \<Rightarrow> None | BindInUse \<Rightarrow> Some (ErrAdminInUse port) | BindFails \<Rightarrow> Some (ErrAdminBind port))"

text \<open>Run up to its loop: the admin server is bound first, and without it nothing is started.\<close>

definition Run_start :: "bind_outcome \<Rightarrow> reconcile_env \<Rightarrow> admin_world \<Rightarrow> run_err + daemon" where
  "Run_start b e w = (case Admin_Start (c_AdminPort (nd_cfg (aw_node w))) b of
     Some err \<Rightarrow> Inl err
   | None \<Rightarrow> Inr (on_node (Reconcile e) \<lparr>dm_w = w, dm_phase = Up, dm_api = True, dm_late = False\<rparr>))"

inductive daemon_step :: "crypto \<Rightarrow> timefmt \<Rightarrow> gcm \<Rightarrow> daemon \<Rightarrow> http_request list \<Rightarrow> daemon \<Rightarrow> bool" for c tf g where
  DTick: "dm_phase s = Up \<Longrightarrow> daemon_step c tf g s [] (on_node (Reconcile e) s)"
| DManager: "dm_phase s = Up \<or> dm_phase s = Draining \<Longrightarrow> own_step (NodeManager ev) \<Longrightarrow> manager_step ev (aw_node (dm_w s)) = (n, rs) \<Longrightarrow>
    daemon_step c tf g s rs (on_node (\<lambda>_. n) s)"
| DQuickURL: "dm_phase s \<noteq> Ended \<Longrightarrow> daemon_step c tf g s [] (on_node (quick_url_event u) s)"
| DManagedURL: "dm_phase s \<noteq> Ended \<Longrightarrow> daemon_step c tf g s [] (on_node (managed_url_event u b) s)"
| DRequest: "dm_api s \<Longrightarrow> admin_request c tf g e r (dm_w s) = (answer, w') \<Longrightarrow>
    daemon_step c tf g s [] (s\<lparr>dm_w := w', dm_late := dm_late s \<or> (torn (dm_phase s) \<and> moved (aw_node (dm_w s)) (aw_node w'))\<rparr>)"
| DSignal: "daemon_step c tf g s [] (stopping s)"
| DAPIFails: "dm_phase s = Up \<Longrightarrow> dm_api s \<Longrightarrow> daemon_step c tf g s [] ((stopping s)\<lparr>dm_api := False\<rparr>)"
| DLeave: "dm_phase s = Up \<Longrightarrow> aw_stopping (dm_w s) \<Longrightarrow> daemon_step c tf g s [] (s\<lparr>dm_phase := Draining\<rparr>)"
| DDeregister: "dm_phase s = Draining \<Longrightarrow> ms_busy (nd_reg (aw_node (dm_w s))) = None \<Longrightarrow>
    deregister base ce (ms_m (nd_reg (aw_node (dm_w s)))) = (m, rs) \<Longrightarrow>
    daemon_step c tf g s rs ((on_node (on_manager (\<lambda>_. m)) s)\<lparr>dm_phase := StoppingCaps capabilities\<rparr>)"
| DStopCap: "dm_phase s = StoppingCaps (b # bs) \<Longrightarrow> daemon_step c tf g s [] ((on_node (stop_cap ends b) s)\<lparr>dm_phase := StoppingCaps bs\<rparr>)"
| DCapsStopped: "dm_phase s = StoppingCaps [] \<Longrightarrow> daemon_step c tf g s [] (s\<lparr>dm_phase := StoppingTunnels\<rparr>)"
| DStopTunnels: "dm_phase s = StoppingTunnels \<Longrightarrow> daemon_step c tf g s [] ((on_node stopTunnel s)\<lparr>dm_phase := StoppingAPI\<rparr>)"
| DStopAPI: "dm_phase s = StoppingAPI \<Longrightarrow> daemon_step c tf g s [] (s\<lparr>dm_phase := Ended, dm_api := False\<rparr>)"

inductive daemon_reach :: "crypto \<Rightarrow> timefmt \<Rightarrow> gcm \<Rightarrow> daemon \<Rightarrow> http_request list \<Rightarrow> daemon \<Rightarrow> bool" for c tf g s0 where
  DInit: "daemon_reach c tf g s0 [] s0"
| DStep: "daemon_reach c tf g s0 rs s \<Longrightarrow> daemon_step c tf g s rs' s' \<Longrightarrow> daemon_reach c tf g s0 (rs @ rs') s'"

section \<open>The process\<close>

text \<open>
  The world New leaves: the memory database is what is on disk, the registration manager has not
  met the control plane, no sign-in is pending, and the console's recorder is empty.
\<close>

definition no_grant :: OAuthCredential where
  "no_grant = \<lparr>oc_TokenEndpoint = [], oc_ClientID = [], oc_AccessToken = [], oc_RefreshToken = [], oc_ExpiresAt = zero_time\<rparr>"

definition new_world :: "Config \<Rightarrow> built \<Rightarrow> mem_db \<Rightarrow> disk \<Rightarrow> admin_world" where
  "new_world cfg bt db d =
    (let n = new_node cfg d; m = ms_m (nd_reg n) in
     \<lparr>aw_node = n,
      aw_console = \<lparr>cs_pending = None, cs_exchanging = [], cs_oauth = \<lparr>oy_src = \<lparr>ts_loaded = False, ts_cred = no_grant\<rparr>, oy_busy = None,
        oy_waiting = 0, oy_disk = d, oy_mgr = m\<rparr>\<rparr>,
      aw_keys = bt_keys bt, aw_keysDisk = d, aw_mem = \<lparr>mw_cap = NewMemory, mw_db = db, mw_disk = d\<rparr>,
      aw_compute = NewCompute, aw_pulls = \<lparr>pu_state = None, pu_running = []\<rparr>,
      aw_pairer = Some (NewPairer (bt_identity bt) (newVerifier m) NewHTTPKeySource (bt_pins bt) d (lan_RequirePairingVerification (c_LAN cfg))),
      aw_log = Some (NewRecorder (int DefaultRecorderCapacity)), aw_stopping = False\<rparr>)"

record main_env =
  me_flags_ok :: bool
  me_version :: bool
  me_config :: string
  me_flags :: "(string \<times> string) list"
  me_env :: "string \<Rightarrow> string option"
  me_home :: "string option"
  me_stat :: "string \<Rightarrow> stat_result"
  me_toml :: "Config \<Rightarrow> bytes \<Rightarrow> toml_result"
  me_new :: new_env
  me_db :: mem_db
  me_bind :: bind_outcome
  me_reconcile :: reconcile_env

text \<open>An exit code, or the running node with the token its admin API asks for.\<close>

datatype main_result = Exits nat | Runs string daemon

definition main_run :: "crypto \<Rightarrow> timefmt \<Rightarrow> main_env \<Rightarrow> disk \<Rightarrow> main_result \<times> disk" where
  "main_run c tf e d =
    (if \<not> me_flags_ok e then (Exits 2, d)
     else if me_version e then (Exits 0, d)
     else case fst (loadConfig (me_toml e) (me_stat e) (me_home e) (me_env e) (me_config e) (me_flags e)) of
       Inl _ \<Rightarrow> (Exits 1, d)
     | Inr cfg \<Rightarrow>
        let dataDir = (case ResolvedDataDir (me_home e) cfg of None \<Rightarrow> [] | Some x \<Rightarrow> x);
            token = fst (resolveAdminToken dataDir (me_env e ''SILO_NODE_ADMIN_TOKEN'') d) in
        (case Node_New c tf (me_new e) cfg d of
           (Inl _, d') \<Rightarrow> (Exits 1, d')
         | (Inr bt, d') \<Rightarrow>
            (case Run_start (me_bind e) (me_reconcile e) (new_world cfg bt (me_db e) d') of
               Inl _ \<Rightarrow> (Exits 1, d')
             | Inr s \<Rightarrow> (Runs token s, d'))))"

section \<open>What a request does to the node\<close>

text \<open>A request leaves the registration alone, and a configuration it changes is a valid one.\<close>

lemma admin_handle_registered:
  assumes "admin_handle c tf g e rt r w = (answer, w')"
  shows "mg_registered (manager_of (aw_node w')) = mg_registered (manager_of (aw_node w)) \<and>
    ms_busy (nd_reg (aw_node w')) = ms_busy (nd_reg (aw_node w)) \<and>
    (nd_cfg (aw_node w') = nd_cfg (aw_node w) \<or> Validate (nd_cfg (aw_node w')) = None)"
proof -
  have patch: "mg_registered (manager_of n') = mg_registered (manager_of n) \<and> ms_busy (nd_reg n') = ms_busy (nd_reg n) \<and>
      (nd_cfg n' = nd_cfg n \<or> Validate (nd_cfg n') = None)"
    if "ApplyConfigPatch enc f path re p n = (x, n')" for enc f path re p n x n'
    using that same_manager_fields [OF Reconcile_manager]
    by (auto simp: ApplyConfigPatch_def Let_def Reconcile_fields(1,6) split: option.splits prod.splits)
  have key: "nd_reg n' = nd_reg n \<and> nd_cfg n' = nd_cfg n" if "SetPairingKey h a b k n = (x, n')" for h a b k n x n'
    using that by (auto simp: SetPairingKey_def Let_def split: option.splits prod.splits if_splits)
  have jwt: "mg_registered (manager_of (SetJWT t n)) = mg_registered (manager_of n) \<and> ms_busy (nd_reg (SetJWT t n)) = ms_busy (nd_reg n) \<and>
      nd_cfg (SetJWT t n) = nd_cfg n" for t n
    by (simp add: SetJWT_def on_manager_def NotifyTokenUpdated_def Kick_def)
  show ?thesis using assms
  proof (cases rt)
    case ARPutConfig
    then show ?thesis using assms by (auto simp: handle_put_config_def split: option.splits prod.splits sum.splits dest!: patch)
  next
    case ARJwt
    then show ?thesis using assms jwt by (auto simp: handle_jwt_def Let_def split: option.splits if_splits)
  next
    case ARPairingKey
    then show ?thesis using assms by (auto simp: handle_pairing_key_def split: option.splits prod.splits if_splits dest!: key)
  next
    case ARCallback
    have "handle_callback tf e r w = (answer, w')" using assms ARCallback by simp
    then show ?thesis using callback_frame(1) by (metis admin_world.select_convs(1) admin_world.surjective admin_world.update_convs(2))
  next
    case ARVerify
    then show ?thesis using assms by (auto simp: handle_verify_def VerifyPairing_def Let_def split: option.splits prod.splits if_splits)
  next
    case ARGenerate
    then show ?thesis using assms by (auto simp: handle_generate_def Let_def split: option.splits prod.splits if_splits sum.splits)
  next
    case ARMint
    then show ?thesis using assms by (auto simp: handle_mint_def MintOpenAIKey_def split: option.splits prod.splits if_splits sum.splits)
  next
    case (ARRevoke i)
    then show ?thesis using assms by (auto simp: handle_revoke_def RevokeOpenAIKey_def split: option.splits prod.splits if_splits)
  next
    case (ARForget a i)
    then show ?thesis using assms by (auto simp: handle_forget_def ForgetMemory_def split: option.splits prod.splits if_splits sum.splits bool.splits)
  next
    case ARPull
    then show ?thesis using assms by (auto simp: handle_pull_def split: option.splits prod.splits if_splits)
  next
    case ARLogs
    then show ?thesis using assms by (auto simp: handle_logs_def split: option.splits prod.splits if_splits)
  qed (auto split: prod.splits)
qed

lemma admin_request_registered:
  assumes "admin_request c tf g e r w = (answer, w')"
  shows "mg_registered (manager_of (aw_node w')) = mg_registered (manager_of (aw_node w)) \<and>
    ms_busy (nd_reg (aw_node w')) = ms_busy (nd_reg (aw_node w)) \<and>
    (nd_cfg (aw_node w') = nd_cfg (aw_node w) \<or> Validate (nd_cfg (aw_node w')) = None)"
  using assms
  by (auto simp: admin_request_def requireLoopbackHost_def admin_dispatch_def requireAdminToken_def
      split: option.splits prod.splits if_splits muxed.splits dest: admin_handle_registered)


section \<open>The teardown is orderly\<close>

lemma stop_cap_fields:
  "nd_quick (stop_cap ends b n) = nd_quick n" "nd_managed (stop_cap ends b n) = nd_managed n" "nd_reg (stop_cap ends b n) = nd_reg n"
  "capRunning (stop_cap ends b n) a \<longleftrightarrow> a \<noteq> b \<and> capRunning n a"
  by (auto simp: stop_cap_def log_line_def capRunning_def map_get_put split: option.splits)

lemma url_change_fields:
  "nd_quick (onTunnelURLChange u n) = nd_quick n" "nd_managed (onTunnelURLChange u n) = nd_managed n" "nd_capRunning (onTunnelURLChange u n) = nd_capRunning n"
  "nd_quick (onManagedURLChange u n) = nd_quick n" "nd_managed (onManagedURLChange u n) = nd_managed n" "nd_capRunning (onManagedURLChange u n) = nd_capRunning n"
  "ms_busy (nd_reg (onTunnelURLChange u n)) = ms_busy (nd_reg n)" "ms_busy (nd_reg (onManagedURLChange u n)) = ms_busy (nd_reg n)"
  by (simp_all add: onTunnelURLChange_def onManagedURLChange_def on_manager_def log_line_def Let_def)

lemma stopTunnel_fields:
  "nd_quick (stopTunnel n) = None" "nd_managed (stopTunnel n) = None" "nd_capRunning (stopTunnel n) = nd_capRunning n"
  "same_manager (manager_of n) (manager_of (stopTunnel n))"
  by (simp_all add: stopTunnel_def Let_def url_change_fields url_change_manager split: option.splits)

lemma url_event_fields:
  "nd_capRunning (quick_url_event u n) = nd_capRunning n" "nd_capRunning (managed_url_event u b n) = nd_capRunning n"
  "nd_quick (quick_url_event u n) = None \<longleftrightarrow> nd_quick n = None" "nd_managed (quick_url_event u n) = nd_managed n"
  "nd_managed (managed_url_event u b n) = None \<longleftrightarrow> nd_managed n = None" "nd_quick (managed_url_event u b n) = nd_quick n"
  "same_manager (manager_of n) (manager_of (quick_url_event u n))" "same_manager (manager_of n) (manager_of (managed_url_event u b n))"
  by (simp_all add: quick_url_event_def managed_url_event_def Let_def url_change_fields url_change_manager split: option.splits)

lemma deregister_registered: "deregister base ce m = (m', rs) \<Longrightarrow> \<not> mg_registered m'"
  by (auto simp: deregister_def Let_def setUnregistered_def split: if_splits)

text \<open>What each phase has done, unless a late request undid it.\<close>

fun phase_done :: "run_phase \<Rightarrow> node \<Rightarrow> bool" where
  "phase_done Up n \<longleftrightarrow> True"
| "phase_done Draining n \<longleftrightarrow> True"
| "phase_done (StoppingCaps bs) n \<longleftrightarrow> (\<forall>b \<in> set capabilities - set bs. \<not> capRunning n b)"
| "phase_done StoppingTunnels n \<longleftrightarrow> (\<forall>b \<in> set capabilities. \<not> capRunning n b)"
| "phase_done _ n \<longleftrightarrow> (\<forall>b \<in> set capabilities. \<not> capRunning n b) \<and> nd_quick n = None \<and> nd_managed n = None"

definition daemon_inv :: "daemon \<Rightarrow> bool" where
  "daemon_inv s \<longleftrightarrow> (dm_late s \<or> phase_done (dm_phase s) (aw_node (dm_w s))) \<and> (torn (dm_phase s) \<longrightarrow> \<not> mg_registered (manager_of (aw_node (dm_w s)))) \<and>
     (dm_phase s = Ended \<longrightarrow> \<not> dm_api s)"

lemma phase_done_cong:
  "nd_capRunning n' = nd_capRunning n \<Longrightarrow> (nd_quick n' = None \<longleftrightarrow> nd_quick n = None) \<Longrightarrow> (nd_managed n' = None \<longleftrightarrow> nd_managed n = None) \<Longrightarrow>
   phase_done p n' \<longleftrightarrow> phase_done p n"
  by (cases p) (simp_all add: capRunning_def)

lemma phase_done_untorn: "\<not> torn p \<Longrightarrow> phase_done p n"
  by (cases p) (simp_all add: torn_def)

lemma on_node_fields [simp]:
  "aw_node (dm_w (on_node f s)) = f (aw_node (dm_w s))" "dm_phase (on_node f s) = dm_phase s" "dm_api (on_node f s) = dm_api s" "dm_late (on_node f s) = dm_late s"
  "aw_node (dm_w (stopping s)) = aw_node (dm_w s)" "dm_phase (stopping s) = dm_phase s" "dm_api (stopping s) = dm_api s" "dm_late (stopping s) = dm_late s"
  by (simp_all add: on_node_def stopping_def)

lemma daemon_inv_step: "daemon_step c tf g s rs s' \<Longrightarrow> daemon_inv s \<Longrightarrow> daemon_inv s'"
proof (induction rule: daemon_step.induct)
  case (DRequest s e r answer w')
  have reg: "mg_registered (manager_of (aw_node w')) = mg_registered (manager_of (aw_node (dm_w s)))" using admin_request_registered [OF DRequest(2)] by blast
  have "phase_done (dm_phase s) (aw_node w')" if "\<not> (torn (dm_phase s) \<and> moved (aw_node (dm_w s)) (aw_node w'))" "phase_done (dm_phase s) (aw_node (dm_w s))"
    using that phase_done_untorn phase_done_cong [of "aw_node w'" "aw_node (dm_w s)"] by (auto simp: moved_def)
  then show ?case using DRequest reg by (auto simp: daemon_inv_def)
next
  case (DQuickURL s u)
  then show ?case using phase_done_cong [OF url_event_fields(1) url_event_fields(3), of u "aw_node (dm_w s)"] same_manager_fields [OF url_event_fields(7)]
    by (simp add: daemon_inv_def url_event_fields)
next
  case (DManagedURL s u b)
  have q: "nd_quick (managed_url_event u b n) = None \<longleftrightarrow> nd_quick n = None" for n by (simp add: url_event_fields)
  show ?case using DManagedURL phase_done_cong [OF url_event_fields(2) q, of "aw_node (dm_w s)"] same_manager_fields [OF url_event_fields(8)]
    by (simp add: daemon_inv_def url_event_fields)
next
  case (DTick s e)
  then show ?case by (simp add: daemon_inv_def torn_def)
next
  case (DManager s ev n rs)
  then show ?case by (auto simp: daemon_inv_def torn_def)
next
  case (DAPIFails s)
  then show ?case by (simp add: daemon_inv_def torn_def)
next
  case (DLeave s)
  then show ?case by (simp add: daemon_inv_def torn_def)
next
  case (DDeregister s base ce m rs)
  then show ?case using deregister_registered [OF DDeregister(3)] by (simp add: daemon_inv_def torn_def on_manager_def)
next
  case (DStopCap s b bs ends)
  then show ?case by (auto simp: daemon_inv_def torn_def stop_cap_fields)
next
  case (DStopTunnels s)
  then show ?case using same_manager_fields [OF stopTunnel_fields(4)] by (auto simp: daemon_inv_def torn_def stopTunnel_fields capRunning_def)
qed (auto simp: daemon_inv_def torn_def)

lemma daemon_inv_reach: "daemon_reach c tf g s0 rs s \<Longrightarrow> daemon_inv s0 \<Longrightarrow> daemon_inv s"
  by (induction rule: daemon_reach.induct) (auto intro: daemon_inv_step)


lemma ended_step: "daemon_step c tf g s rs s' \<Longrightarrow> dm_phase s = Ended \<Longrightarrow> \<not> dm_api s \<Longrightarrow> rs = [] \<and> s' = stopping s"
  by (induction rule: daemon_step.induct) auto

lemma ended_reach:
  "daemon_reach c tf g s rs s' \<Longrightarrow> dm_phase s = Ended \<Longrightarrow> \<not> dm_api s \<Longrightarrow>
   rs = [] \<and> aw_node (dm_w s') = aw_node (dm_w s) \<and> dm_phase s' = Ended \<and> \<not> dm_api s'"
proof (induction rule: daemon_reach.induct)
  case (DStep rs s1 rs' s2)
  then show ?case using ended_step [OF DStep(2)] by auto
qed simp

lemma Run_start_inv: "Run_start b e w = Inr s0 \<Longrightarrow> daemon_inv s0 \<and> dm_phase s0 = Up \<and> \<not> dm_late s0"
  by (auto simp: Run_start_def daemon_inv_def torn_def split: option.splits)

text \<open>A node started without an admin token, in the environment or on disk, refuses every request that needs one.\<close>

lemma tokenless_node_refuses:
  assumes "main_run c tf e d = (Runs token s, d')" "me_env e ''SILO_NODE_ADMIN_TOKEN'' \<in> {None, Some []}" "\<forall>dir. token_of_file dir d = []"
    and "ae_token a = token" "authed rt"
  shows "requireAdminToken (c_sha256 c) (ae_token a) (admin_handle c tf g a rt) r w = (error_answer 401 ''admin API disabled: SILO_NODE_ADMIN_TOKEN is not set'', w)"
proof -
  have "token = []" using assms(1-3)
    by (auto simp: main_run_def Let_def resolveAdminToken_def split: if_splits sum.splits prod.splits)
  then show ?thesis using assms(4) by (simp add: requireAdminToken_def)
qed

lemma main_run_starts:
  assumes "main_run c tf e d = (Runs token s, d')"
  shows "daemon_inv s \<and> dm_phase s = Up \<and> \<not> mg_registered (manager_of (aw_node (dm_w s)))"
proof -
  obtain w where "Run_start (me_bind e) (me_reconcile e) w = Inr s" "\<not> mg_registered (manager_of (aw_node w))"
    using assms by (auto simp: main_run_def Let_def new_world_def new_node_def mg_init_def NewManager_def split: if_splits sum.splits prod.splits)
  then show ?thesis using Run_start_inv same_manager_fields [OF Reconcile_manager]
    by (fastforce simp: Run_start_def on_node_def split: option.splits)
qed

text \<open>
  C14. A run that has ended has taken everything down: the admin server no longer serves, the node
  is not registered, and unless a request to the admin API started something again while the
  teardown was under way (the server answers until the end), no capability runs and no tunnel is up;
  and from then on nothing of the node changes and no request is sent.
\<close>

theorem orderly_shutdown:
  assumes "Run_start b e w = Inr s0" "daemon_reach c tf g s0 rs s" "dm_phase s = Ended"
  shows "\<not> dm_api s \<and> \<not> mg_registered (manager_of (aw_node (dm_w s))) \<and>
    (dm_late s \<or> (list_all (\<lambda>b. \<not> capRunning (aw_node (dm_w s)) b) capabilities \<and> nd_quick (aw_node (dm_w s)) = None \<and> nd_managed (aw_node (dm_w s)) = None)) \<and>
    (\<forall>rs' s'. daemon_reach c tf g s rs' s' \<longrightarrow> rs' = [] \<and> aw_node (dm_w s') = aw_node (dm_w s))"
proof -
  have "daemon_inv s" using daemon_inv_reach [OF assms(2)] Run_start_inv [OF assms(1)] by blast
  then show ?thesis using assms(3) ended_reach by (auto simp: daemon_inv_def torn_def list_all_iff)
qed

section \<open>What runs is a valid configuration\<close>

lemma Load_valid: "Load toml path env flags = Inr cfg \<Longrightarrow> Validate cfg = None"
  by (auto simp: Load_def Let_def split: option.splits sum.splits stat_result.splits toml_result.splits)

lemma url_event_cfg:
  "nd_cfg (onTunnelURLChange u n) = nd_cfg n" "nd_cfg (onManagedURLChange u n) = nd_cfg n"
  "nd_cfg (quick_url_event u n) = nd_cfg n" "nd_cfg (managed_url_event u b n) = nd_cfg n" "nd_cfg (stopTunnel n) = nd_cfg n" "nd_cfg (stop_cap ends a n) = nd_cfg n"
proof -
  show u: "nd_cfg (onTunnelURLChange u n) = nd_cfg n" "nd_cfg (onManagedURLChange u n) = nd_cfg n" for u n
    by (simp_all add: onTunnelURLChange_def onManagedURLChange_def on_manager_def log_line_def Let_def)
  show "nd_cfg (quick_url_event u n) = nd_cfg n" "nd_cfg (managed_url_event u b n) = nd_cfg n" "nd_cfg (stopTunnel n) = nd_cfg n" "nd_cfg (stop_cap ends a n) = nd_cfg n"
    by (simp_all add: quick_url_event_def managed_url_event_def stopTunnel_def stop_cap_def log_line_def Let_def u split: option.splits)
qed

lemma manager_step_cfg: "manager_step ev n = (n', rs) \<Longrightarrow> nd_cfg n' = nd_cfg n"
  by (auto simp: manager_step_def split: prod.splits)

lemma valid_step:
  "daemon_step c tf g s rs s' \<Longrightarrow> Validate (nd_cfg (aw_node (dm_w s))) = None \<Longrightarrow> Validate (nd_cfg (aw_node (dm_w s'))) = None"
proof (induction rule: daemon_step.induct)
  case (DRequest s e r answer w')
  then show ?case using admin_request_registered [OF DRequest(2)] by auto
qed (simp_all add: Reconcile_fields(1) url_event_cfg manager_step_cfg on_manager_def)

text \<open>
  C15. What the process runs is always a valid configuration: the one it starts with, from file,
  environment and flags, and every one a request to the admin API gives it, through any run of
  ticks, requests, tunnel and registration events and the teardown, is well formed in the sense of
  the specification: known modes and levels, ports in range, and no capability, tunnel or mode
  without what it depends on.
\<close>

theorem running_config_valid:
  assumes "main_run c tf e d = (Runs token s, d')" "daemon_reach c tf g s rs s'"
  shows "valid_config (nd_cfg (aw_node (dm_w s')))"
proof -
  have "Validate (nd_cfg (aw_node (dm_w s))) = None"
    using assms(1) Load_valid
    by (auto simp: main_run_def loadConfig_def Let_def Run_start_def new_world_def new_node_def Reconcile_fields(1) split: if_splits sum.splits prod.splits option.splits)
  with assms(2) have "Validate (nd_cfg (aw_node (dm_w s'))) = None"
    by (induction rule: daemon_reach.induct) (auto intro: valid_step)
  then show ?thesis by (simp add: Validate_iff)
qed

section \<open>The teardown ends\<close>

lemma reach_trans: "daemon_reach c tf g s1 rs2 s2 \<Longrightarrow> daemon_reach c tf g s0 rs1 s1 \<Longrightarrow> daemon_reach c tf g s0 (rs1 @ rs2) s2"
proof (induction rule: daemon_reach.induct)
  case (DStep rs s rs' s')
  from daemon_reach.DStep [OF DStep(3) [OF DStep(4)] DStep(2)] show ?case by simp
qed simp

lemma reach_step: "daemon_step c tf g s rs s' \<Longrightarrow> daemon_reach c tf g s rs s'"
  using daemon_reach.DStep [OF daemon_reach.DInit] by fastforce

text \<open>Going on: a state from which the end is reached without a request.\<close>

definition ends_well :: "crypto \<Rightarrow> timefmt \<Rightarrow> gcm \<Rightarrow> daemon \<Rightarrow> bool" where
  "ends_well c tf g s \<longleftrightarrow> (\<exists>rs s'. daemon_reach c tf g s rs s' \<and> dm_phase s' = Ended \<and> dm_late s' = dm_late s)"

lemma ends_well_step: "daemon_step c tf g s rs s' \<Longrightarrow> dm_late s' = dm_late s \<Longrightarrow> ends_well c tf g s' \<Longrightarrow> ends_well c tf g s"
  unfolding ends_well_def using reach_trans [OF _ reach_step] by metis

lemma ends_ended: "dm_phase s = Ended \<Longrightarrow> ends_well c tf g s"
  unfolding ends_well_def using daemon_reach.DInit by blast

lemma ends_api: "dm_phase s = StoppingAPI \<Longrightarrow> ends_well c tf g s"
  by (erule ends_well_step [OF DStopAPI]) (simp_all add: ends_ended)

lemma ends_tunnels:
  assumes "dm_phase s = StoppingTunnels"
  shows "ends_well c tf g s"
  using ends_well_step [OF DStopTunnels [OF assms] _ ends_api] by simp

lemma ends_caps: "dm_phase s = StoppingCaps bs \<Longrightarrow> ends_well c tf g s"
proof (induction bs arbitrary: s)
  case Nil
  then show ?case using ends_well_step [OF DCapsStopped [OF Nil] _ ends_tunnels] by simp
next
  case (Cons b bs)
  show ?case using ends_well_step [OF DStopCap [OF Cons.prems] _ Cons.IH] by simp
qed

lemma finish_idle: "ms_busy (fst (mg_exec (EvFinish v p) s)) = None"
proof (cases "ms_busy s")
  case (Some pl)
  then show ?thesis by (cases pl) (simp_all split: prod.split)
qed simp

lemma ends_draining: "dm_phase s = Draining \<Longrightarrow> ends_well c tf g s"
proof -
  have idle: "ends_well c tf g s" if "dm_phase s = Draining" "ms_busy (nd_reg (aw_node (dm_w s))) = None" for s
  proof -
    obtain m rs where "deregister [] \<lparr>ce_token = Inl ErrNoToken, ce_reply = NoReply\<rparr> (manager_of (aw_node (dm_w s))) = (m, rs)" by (metis surj_pair)
    from ends_well_step [OF DDeregister [OF that this]] show ?thesis by (simp add: ends_caps)
  qed
  assume d: "dm_phase s = Draining"
  define ev where "ev = EvFinish undefined None"
  obtain n rs where m: "manager_step ev (aw_node (dm_w s)) = (n, rs)" by (metis surj_pair)
  have n: "nd_reg n = fst (mg_exec ev ((nd_reg (aw_node (dm_w s)))\<lparr>ms_disk := nd_disk (aw_node (dm_w s))\<rparr>))"
    using m unfolding manager_step_def by (auto split: prod.splits)
  have "ms_busy (nd_reg n) = None" unfolding n ev_def by (rule finish_idle)
  then have "ends_well c tf g (on_node (\<lambda>_. n) s)" by (intro idle) (simp_all add: d)
  then show ?thesis using ends_well_step [OF DManager [OF disjI2 [OF d] _ m]] by (simp add: own_step_def ev_def)
qed

fun phases_left :: "run_phase \<Rightarrow> nat" where
  "phases_left Up = length capabilities + 5"
| "phases_left Draining = length capabilities + 4"
| "phases_left (StoppingCaps bs) = length bs + 3"
| "phases_left StoppingTunnels = 2"
| "phases_left StoppingAPI = 1"
| "phases_left Ended = 0"

lemma phases_step: "daemon_step c tf g s rs s' \<Longrightarrow> phases_left (dm_phase s') \<le> phases_left (dm_phase s) \<and>
    (dm_phase s' = dm_phase s \<or> phases_left (dm_phase s') < phases_left (dm_phase s))"
  by (induction rule: daemon_step.induct) auto

lemma phases_reach: "daemon_reach c tf g s rs s' \<Longrightarrow> phases_left (dm_phase s') \<le> phases_left (dm_phase s)"
  by (induction rule: daemon_reach.induct) (use phases_step le_trans in blast)+


text \<open>
  A configuration change that the server still answers during the teardown is applied in full: what
  it starts is not stopped again before the process ends.
\<close>

lemma late_patch_restarts:
  assumes "dm_phase s = StoppingTunnels \<or> dm_phase s = StoppingAPI" "dm_api s" "admin_request c tf g e r (dm_w s) = (answer, w')" "capRunning (aw_node w') b"
  shows "\<exists>rs s'. daemon_reach c tf g s rs s' \<and> dm_phase s' = Ended \<and> capRunning (aw_node (dm_w s')) b"
proof -
  let ?s1 = "s\<lparr>dm_w := w', dm_late := dm_late s \<or> (torn (dm_phase s) \<and> moved (aw_node (dm_w s)) (aw_node w'))\<rparr>"
  have r: "daemon_reach c tf g s [] ?s1" using reach_step [OF DRequest [OF assms(2,3)]] by simp
  have last: "\<exists>s'. daemon_reach c tf g x [] s' \<and> dm_phase s' = Ended \<and> capRunning (aw_node (dm_w s')) b"
    if "dm_phase x = StoppingAPI" "capRunning (aw_node (dm_w x)) b" for x
    using reach_step [OF DStopAPI [OF that(1)]] that(2) by fastforce
  show ?thesis
  proof (cases "dm_phase s = StoppingAPI")
    case True
    then show ?thesis using last [of ?s1] reach_trans [OF _ r] assms(4) by fastforce
  next
    case False
    then have "dm_phase ?s1 = StoppingTunnels" using assms(1) by simp
    note t = reach_step [OF DStopTunnels [OF this]]
    let ?s2 = "(on_node stopTunnel ?s1)\<lparr>dm_phase := StoppingAPI\<rparr>"
    have "dm_phase ?s2 = StoppingAPI" "capRunning (aw_node (dm_w ?s2)) b" using assms(4) by (simp_all add: capRunning_def stopTunnel_fields)
    from last [OF this] obtain s' where "daemon_reach c tf g ?s2 [] s'" "dm_phase s' = Ended" "capRunning (aw_node (dm_w s')) b" by blast
    then show ?thesis using reach_trans [OF _ reach_trans [OF t r]] by fastforce
  qed
qed

section \<open>A node keeps its secrets over a restart\<close>

lemma path_join_inj: "path_join dir a = path_join dir b \<longleftrightarrow> a = b"
  by (simp add: path_join_def)

lemma hex_encode_empty: "hex_encode bs = [] \<longleftrightarrow> bs = []"
  by (cases bs) (simp_all add: hex_encode_def)

lemma node_key_stable:
  assumes "LoadOrCreateNodeKey rnd fault dir disk = (Inr key, disk1)" "rnd \<noteq> Some []" "map_get disk2 (path_join dir ''node.key'') = map_get disk1 (path_join dir ''node.key'')"
  shows "LoadOrCreateNodeKey rnd' fault' dir disk2 = (Inr key, disk2)"
proof -
  have "\<exists>f. map_get disk1 (path_join dir ''node.key'') = Some f \<and> TrimSpace (f_data f) = key \<and> key \<noteq> []"
  proof (cases "\<exists>raw. ReadFile disk (path_join dir ''node.key'') = Inr raw \<and> TrimSpace raw \<noteq> []")
    case True
    then show ?thesis using assms(1) by (auto simp: LoadOrCreateNodeKey_def ReadFile_def Let_def split: option.splits)
  next
    case False
    then obtain buf where b: "rnd = Some buf" "key = hex_encode buf" "WriteFile fault (path_join dir ''node.key'') (hex_encode buf) mode_0600 disk = (disk1, None)"
      using assms(1) by (auto simp: LoadOrCreateNodeKey_def Let_def split: option.splits sum.splits prod.splits if_splits)
    have "hex_encode buf \<noteq> []" using b(1) assms(2) by (simp add: hex_encode_empty)
    then show ?thesis using b by (cases fault) (auto simp: WriteFile_def map_get_put Let_def)
  qed
  then show ?thesis using assms(3) by (auto simp: LoadOrCreateNodeKey_def ReadFile_def)
qed

lemma identity_keeps_node_key:
  assumes "LoadOrCreateIdentity c fresh env dir disk = (Inr key, disk')" "snd env \<noteq> path_join dir ''node.key''"
  shows "map_get disk' (path_join dir ''node.key'') = map_get disk (path_join dir ''node.key'')"
proof -
  have "disk' = disk \<or> (\<exists>data. WriteFileAtomic env (path_join dir identityKeyFile) data mode_0600 disk = (disk', None))"
    using assms(1) by (auto simp: LoadOrCreateIdentity_def Let_def split: sum.splits fs_err.splits option.splits prod.splits if_splits)
  then show ?thesis using assms(2) WriteFileAtomic_ok by (auto simp: map_get_put map_get_del path_join_inj identityKeyFile_def dest!: WriteFileAtomic_ok)
qed

lemma Node_New_ok:
  assumes "Node_New c tf e cfg d = (Inr bt, d')"
  obtains dir d1 where "ResolvedDataDir (nw_home e) cfg = Some dir" "LoadOrCreateNodeKey (nw_random e) (nw_keyWrite e) dir d = (Inr (bt_nodeKey bt), d1)"
    "LoadOrCreateIdentity c (nw_fresh e) (nw_idWrite e) dir d1 = (Inr (bt_identity bt), d')"
    "LoadKeyStore tf dir d' = Inr (bt_keys bt)" "LoadPinStore tf dir d' = Inr (bt_pins bt)"
  using assms unfolding Node_New_def by (auto split: option.splits if_splits prod.splits sum.splits)

text \<open>
  C17. A node keeps its secrets over a restart: when New succeeds, every later New on the disk it
  leaves gives the same node key, identity key, API keys and pinned devices and writes nothing,
  whatever the random source then offers. The key package's own keys are valid, and the name
  CreateTemp picks is not the node key's.
\<close>

theorem restart_keeps_secrets:
  assumes "Node_New c tf e cfg d = (Inr bt, d')" "\<forall>k. nw_fresh e = Some k \<longrightarrow> c_priv_ok c k" "nw_random e \<noteq> Some []"
    and "\<forall>dir. ResolvedDataDir (nw_home e) cfg = Some dir \<longrightarrow> snd (nw_idWrite e) \<noteq> path_join dir ''node.key''"
    and "nw_home e' = nw_home e" "nw_mkdir e'" "nw_chmod e'"
  shows "Node_New c tf e' cfg d' = (Inr bt, d')"
proof -
  from Node_New_ok [OF assms(1)] obtain dir d1 where n: "ResolvedDataDir (nw_home e) cfg = Some dir"
    "LoadOrCreateNodeKey (nw_random e) (nw_keyWrite e) dir d = (Inr (bt_nodeKey bt), d1)"
    "LoadOrCreateIdentity c (nw_fresh e) (nw_idWrite e) dir d1 = (Inr (bt_identity bt), d')"
    "LoadKeyStore tf dir d' = Inr (bt_keys bt)" "LoadPinStore tf dir d' = Inr (bt_pins bt)" .
  have "LoadOrCreateNodeKey (nw_random e') (nw_keyWrite e') dir d' = (Inr (bt_nodeKey bt), d')"
    using node_key_stable [OF n(2) assms(3) identity_keeps_node_key [OF n(3)]] assms(4) n(1) by simp
  moreover have "LoadOrCreateIdentity c (nw_fresh e') (nw_idWrite e') dir d' = (Inr (bt_identity bt), d')"
    by (rule identity_stable [OF n(3) assms(2)])
  ultimately show ?thesis using n assms(5-7) by (simp add: Node_New_def)
qed

definition demo_new :: "bytes option \<Rightarrow> new_env" where
  "demo_new rnd = \<lparr>nw_home = None, nw_mkdir = True, nw_chmod = True, nw_random = rnd, nw_keyWrite = WfOK, nw_fresh = rnd, nw_idWrite = (NoFault, ''t'')\<rparr>"

definition demo_new_cfg :: Config where
  "demo_new_cfg = Default\<lparr>c_DataDir := ''d''\<rparr>"

lemma demo_new_dir: "ResolvedDataDir None demo_new_cfg = Some ''d''"
  by (simp add: ResolvedDataDir_def demo_new_cfg_def ExpandTilde_def HasPrefix_def)

lemma demo_new_ok: "\<exists>bt d'. Node_New demo_crypto zero_tf (demo_new (Some ''k'')) demo_new_cfg [] = (Inr bt, d') \<and> bt_nodeKey bt = hex_encode ''k''"
proof -
  have "LoadOrCreateNodeKey (Some ''k'') WfOK ''d'' [] = (Inr (hex_encode ''k''), [(''d/node.key'', \<lparr>f_mode = mode_0600, f_data = hex_encode ''k''\<rparr>)])"
    by (simp add: LoadOrCreateNodeKey_def ReadFile_def WriteFile_def Let_def path_join_def)
  moreover have "LoadOrCreateIdentity demo_crypto (Some ''k'') (NoFault, ''t'') ''d'' [(''d/node.key'', \<lparr>f_mode = mode_0600, f_data = hex_encode ''k''\<rparr>)] =
      (Inr ''k'', [(''d/node.key'', \<lparr>f_mode = mode_0600, f_data = hex_encode ''k''\<rparr>), (''d/device_identity.key'', \<lparr>f_mode = mode_0600, f_data = hex_encode ''k''\<rparr>)])"
    by (simp add: LoadOrCreateIdentity_def ReadFile_def WriteFileAtomic_def WriteFileAtomic_trace_def Let_def path_join_def identityKeyFile_def)
  ultimately show ?thesis
    by (simp add: Node_New_def demo_new_def demo_new_dir LoadKeyStore_def LoadPinStore_def ReadFile_def Let_def path_join_def keysFile_def pinFile_def)
qed

theorem restart_keeps_secrets_witness:
  "\<exists>bt d'. Node_New demo_crypto zero_tf (demo_new (Some ''k'')) demo_new_cfg [] = (Inr bt, d') \<and>
     Node_New demo_crypto zero_tf (demo_new (Some ''other'')) demo_new_cfg d' = (Inr bt, d') \<and> bt_nodeKey bt = hex_encode ''k''"
proof -
  obtain bt d' where n: "Node_New demo_crypto zero_tf (demo_new (Some ''k'')) demo_new_cfg [] = (Inr bt, d')" "bt_nodeKey bt = hex_encode ''k''"
    using demo_new_ok by blast
  have d: "\<forall>dir. ResolvedDataDir (nw_home (demo_new (Some ''k''))) demo_new_cfg = Some dir \<longrightarrow> snd (nw_idWrite (demo_new (Some ''k''))) \<noteq> path_join dir ''node.key''"
  proof (intro allI impI)
    fix dir assume "ResolvedDataDir (nw_home (demo_new (Some ''k''))) demo_new_cfg = Some dir"
    moreover have "nw_home (demo_new (Some ''k'')) = None" by (simp add: demo_new_def)
    ultimately have dir: "dir = ''d''" using demo_new_dir by simp
    have t: "snd (nw_idWrite (demo_new (Some ''k''))) = ''t''" by (simp add: demo_new_def)
    show "snd (nw_idWrite (demo_new (Some ''k''))) \<noteq> path_join dir ''node.key''"
      unfolding t dir by (simp add: path_join_def)
  qed
  have "\<forall>k. nw_fresh (demo_new (Some ''k'')) = Some k \<longrightarrow> c_priv_ok demo_crypto k" "nw_random (demo_new (Some ''k'')) \<noteq> Some []"
    by (simp_all add: demo_new_def demo_crypto_def)
  note again = restart_keeps_secrets [OF n(1) this d, of "demo_new (Some ''other'')"]
  have "Node_New demo_crypto zero_tf (demo_new (Some ''other'')) demo_new_cfg d' = (Inr bt, d')"
    by (rule again) (simp_all add: demo_new_def)
  then show ?thesis using n by blast
qed

text \<open>
  The node key's own write is not atomic: one that fails part way leaves a prefix of the key, which
  every later start accepts as the node key, however short it is.
\<close>

lemma partial_node_key_accepted:
  assumes "map_get disk (path_join dir ''node.key'') = None" "0 < n"
  shows "\<exists>err disk'. LoadOrCreateNodeKey (Some (b # bs)) (WfPartial n) dir disk = (Inl err, disk') \<and>
    LoadOrCreateNodeKey rnd' fault' dir disk' = (Inr (take n (hex_encode (b # bs))), disk')"
proof -
  have t: "TrimSpace (take n (hex_encode (b # bs))) = take n (hex_encode (b # bs))"
    by (intro TrimSpace_id ballI hex_encode_no_space) (rule in_set_takeD)
  have ne: "take n (hex_encode (b # bs)) \<noteq> []" using assms(2) by (simp add: hex_encode_empty)
  obtain disk' where w: "WriteFile (WfPartial n) (path_join dir ''node.key'') (hex_encode (b # bs)) mode_0600 disk = (disk', Some (ErrPath ''write''))"
    "map_get disk' (path_join dir ''node.key'') = Some \<lparr>f_mode = mode_0600, f_data = take n (hex_encode (b # bs))\<rparr>"
    using assms(1) by (simp add: WriteFile_def Let_def map_get_put)
  then show ?thesis using assms(1) t ne by (auto simp: LoadOrCreateNodeKey_def ReadFile_def Let_def)
qed

section \<open>What a handshake is bound to\<close>

text \<open>A registered node accepts only assertions for its own, non-empty device id.\<close>

lemma registered_verifier_binds:
  assumes "mg_inv m" "mg_registered m" "check_claims (newVerifier m) now cl = Inr a"
  shows "as_NodeDeviceID a = mg_deviceID m \<and> mg_deviceID m \<noteq> [] \<and> as_AccountID a = mg_accountID m"
  using assms by (auto simp: check_claims_spec newVerifier_def mg_inv_def)

text \<open>
  A node that has not registered since it started has no identity yet, and its verifier takes a
  signed assertion that names no node and no account at all.
\<close>

lemma unregistered_accepts_unbound:
  assumes "jc_Aud cl = PairingAudience" "jc_Exp cl \<noteq> 0" "now \<le> time_add (unix_time (jc_Exp cl)) clockSkew"
    "jc_Iat cl = 0 \<or> unix_time (jc_Iat cl) \<le> time_add now clockSkew" "jc_NodeDeviceID cl = []" "jc_AccountID cl = []" "jc_AppIDPub cl \<noteq> []"
  shows "\<exists>a. check_claims (newVerifier (ms_m (nd_reg (new_node cfg d)))) now cl = Inr a"
  using assms by (simp add: check_claims_spec claims_bind_def newVerifier_def new_node_def mg_init_def NewManager_def)

section \<open>A concrete run\<close>

lemma demo_run: "\<exists>s. Run_start BindOK (Node.demo_env None) demo_aw = Inr s"
  by (simp add: Run_start_def Admin_Start_def)


theorem orderly_shutdown_witness:
  "\<exists>s rs s'. Run_start BindOK (Node.demo_env None) demo_aw = Inr s \<and> daemon_reach demo_crypto zero_tf demo_gcm s rs s' \<and> \<not> dm_api s' \<and>
     \<not> mg_registered (manager_of (aw_node (dm_w s'))) \<and> \<not> capRunning (aw_node (dm_w s')) ''lan''"
proof -
  obtain s where s: "Run_start BindOK (Node.demo_env None) demo_aw = Inr s" using demo_run by blast
  note i = Run_start_inv [OF s]
  note sig = reach_step [OF DSignal [of demo_crypto zero_tf demo_gcm s]]
  have "aw_stopping (dm_w (stopping s))" by (simp add: stopping_def)
  then have "ends_well demo_crypto zero_tf demo_gcm (stopping s)"
    using ends_well_step [OF DLeave _ ends_draining] i by simp
  then obtain rs s' where r: "daemon_reach demo_crypto zero_tf demo_gcm s rs s'" "dm_phase s' = Ended" "dm_late s' = dm_late s"
    unfolding ends_well_def using reach_trans [OF _ sig] by auto
  have "\<not> dm_api s' \<and> \<not> mg_registered (manager_of (aw_node (dm_w s'))) \<and> list_all (\<lambda>b. \<not> capRunning (aw_node (dm_w s')) b) capabilities"
    using orderly_shutdown [OF s r(1,2)] r(3) i by auto
  then show ?thesis using s r(1) by (auto simp: capabilities_def)
qed

definition demo_main :: main_env where
  "demo_main = \<lparr>me_flags_ok = True, me_version = False, me_config = ''c'', me_flags = [], me_env = (\<lambda>_. None), me_home = None,
     me_stat = (\<lambda>_. StatOk []), me_toml = (\<lambda>_ _. TomlOk demo_new_cfg), me_new = demo_new (Some ''k''), me_db = empty_db,
     me_bind = BindOK, me_reconcile = Node.demo_env None\<rparr>"

lemma apply_settings_none: "apply_settings ss name (\<lambda>_. None) cfg = Inr cfg"
  by (induction ss) simp_all

lemma demo_main_runs: "\<exists>token s d'. main_run demo_crypto zero_tf demo_main [] = (Runs token s, d')"
proof -
  have "Validate demo_new_cfg = None"
    unfolding Validate_iff by (simp add: valid_config_def demo_new_cfg_def Default_def config_consts ToLower_def lower_char_def)
  then have l: "fst (loadConfig (me_toml demo_main) (me_stat demo_main) (me_home demo_main) (me_env demo_main) (me_config demo_main) (me_flags demo_main)) = Inr demo_new_cfg"
    by (simp add: loadConfig_def demo_main_def config_path_def Load_def apply_settings_none flag_values_def Let_def)
  obtain bt d' where n: "Node_New demo_crypto zero_tf (demo_new (Some ''k'')) demo_new_cfg [] = (Inr bt, d')" using demo_new_ok by blast
  show ?thesis using l n by (simp add: main_run_def) (simp add: demo_main_def Run_start_def Admin_Start_def)
qed

theorem running_config_valid_witness:
  "\<exists>token s d'. main_run demo_crypto zero_tf demo_main [] = (Runs token s, d') \<and> valid_config (nd_cfg (aw_node (dm_w (stopping s))))"
proof -
  obtain token s d' where m: "main_run demo_crypto zero_tf demo_main [] = (Runs token s, d')" using demo_main_runs by blast
  from running_config_valid [OF m reach_step [OF DSignal]] m show ?thesis by blast
qed

end
