(* ===== verification/Logging.thy ===== *)
theory Logging
  imports Setup Recorder
begin

text \<open>
  Where the log goes (internal/logging/recorder.go, logging.go): the fan-out of every record to the
  configured handler over the log's writer and to a JSON handler over the recorder. Of log/slog the
  model has what the program relies on: a logger asks its handler whether a level is enabled, a
  handler formats a record with the attributes and groups it was given and makes one write of it.
  How a record is formatted is a parameter.
\<close>

section \<open>Handlers\<close>

fun level_rank :: "level \<Rightarrow> int" where
  "level_rank Debug = -4"
| "level_rank Info = 0"
| "level_rank Warn = 4"
| "level_rank Error = 8"

datatype log_context = CtxAttrs "(string \<times> string) list" | CtxGroup string

datatype log_sink = ToWriter | ToRecorder

record slog_handler =
  sh_kind :: handler_kind
  sh_level :: level
  sh_context :: "log_context list"
  sh_sink :: log_sink

record slog_record =
  rr_level :: level
  rr_msg :: string
  rr_attrs :: "(string \<times> string) list"

type_synonym log_format = "handler_kind \<Rightarrow> log_context list \<Rightarrow> slog_record \<Rightarrow> bytes"

record log_sinks =
  lg_written :: bytes
  lg_recorder :: recorder

definition Handler_Enabled :: "slog_handler \<Rightarrow> level \<Rightarrow> bool" where
  "Handler_Enabled h l \<longleftrightarrow> level_rank (sh_level h) \<le> level_rank l"

text \<open>One write of the line: the writer may fail part way, the recorder takes it.\<close>

definition Handler_Handle :: "log_format \<Rightarrow> nat option \<Rightarrow> slog_handler \<Rightarrow> slog_record \<Rightarrow> log_sinks \<Rightarrow> nat option \<times> log_sinks" where
  "Handler_Handle fmt fault h r s =
    (let line = fmt (sh_kind h) (sh_context h) r in
     case sh_sink h of
       ToRecorder \<Rightarrow> (None, s\<lparr>lg_recorder := Recorder_Write line (lg_recorder s)\<rparr>)
     | ToWriter \<Rightarrow> (case fault of
         None \<Rightarrow> (None, s\<lparr>lg_written := lg_written s @ line\<rparr>)
       | Some n \<Rightarrow> (Some n, s\<lparr>lg_written := lg_written s @ take n line\<rparr>)))"

section \<open>The fan-out\<close>

definition NewRecording :: "LogCfg \<Rightarrow> slog_handler list" where
  "NewRecording cfg = (let opts = handlerOptions cfg in
     [\<lparr>sh_kind = handlerFor cfg, sh_level = opts, sh_context = [], sh_sink = ToWriter\<rparr>,
      \<lparr>sh_kind = JSONHandler, sh_level = opts, sh_context = [], sh_sink = ToRecorder\<rparr>])"

definition fanout_Enabled :: "slog_handler list \<Rightarrow> level \<Rightarrow> bool" where
  "fanout_Enabled f l \<longleftrightarrow> list_ex (\<lambda>h. Handler_Enabled h l) f"

fun fanout_Handle :: "log_format \<Rightarrow> nat option \<Rightarrow> slog_handler list \<Rightarrow> slog_record \<Rightarrow> nat option \<Rightarrow> log_sinks \<Rightarrow> nat option \<times> log_sinks" where
  "fanout_Handle fmt fault [] r firstErr s = (firstErr, s)"
| "fanout_Handle fmt fault (h # f) r firstErr s =
     (if \<not> Handler_Enabled h (rr_level r) then fanout_Handle fmt fault f r firstErr s
      else case Handler_Handle fmt fault h r s of
        (err, s') \<Rightarrow> fanout_Handle fmt fault f r (if err \<noteq> None \<and> firstErr = None then err else firstErr) s')"

definition fanout_WithAttrs :: "(string \<times> string) list \<Rightarrow> slog_handler list \<Rightarrow> slog_handler list" where
  "fanout_WithAttrs attrs f = map (\<lambda>h. h\<lparr>sh_context := sh_context h @ [CtxAttrs attrs]\<rparr>) f"

definition fanout_WithGroup :: "string \<Rightarrow> slog_handler list \<Rightarrow> slog_handler list" where
  "fanout_WithGroup name f = map (\<lambda>h. h\<lparr>sh_context := sh_context h @ [CtxGroup name]\<rparr>) f"

text \<open>A logger derived from the node's, and what it does with one record.\<close>

definition derive :: "log_context list \<Rightarrow> slog_handler list \<Rightarrow> slog_handler list" where
  "derive ctx f = foldl (\<lambda>f x. case x of CtxAttrs a \<Rightarrow> fanout_WithAttrs a f | CtxGroup g \<Rightarrow> fanout_WithGroup g f) f ctx"

definition logger_log :: "log_format \<Rightarrow> slog_handler list \<Rightarrow> slog_record \<times> nat option \<Rightarrow> log_sinks \<Rightarrow> log_sinks" where
  "logger_log fmt f x s = (if fanout_Enabled f (rr_level (fst x)) then snd (fanout_Handle fmt (snd x) f (fst x) None s) else s)"

section \<open>The console shows the log\<close>

lemma derive_recording:
  "derive ctx (NewRecording cfg) =
    [\<lparr>sh_kind = handlerFor cfg, sh_level = handlerOptions cfg, sh_context = ctx, sh_sink = ToWriter\<rparr>,
     \<lparr>sh_kind = JSONHandler, sh_level = handlerOptions cfg, sh_context = ctx, sh_sink = ToRecorder\<rparr>]"
proof (induction ctx rule: rev_induct)
  case (snoc x xs)
  then show ?case by (cases x) (simp_all add: derive_def fanout_WithAttrs_def fanout_WithGroup_def)
qed (simp add: derive_def NewRecording_def Let_def)

definition level_on :: "LogCfg \<Rightarrow> slog_record \<Rightarrow> bool" where
  "level_on cfg r \<longleftrightarrow> level_rank (handlerOptions cfg) \<le> level_rank (rr_level r)"

lemma logger_log_recording:
  "logger_log fmt (derive ctx (NewRecording cfg)) (r, fault) s =
    (if level_on cfg r then
       \<lparr>lg_written = lg_written s @ (case fault of None \<Rightarrow> fmt (handlerFor cfg) ctx r | Some n \<Rightarrow> take n (fmt (handlerFor cfg) ctx r)),
        lg_recorder = Recorder_Write (fmt JSONHandler ctx r) (lg_recorder s)\<rparr>
     else s)"
  by (simp add: logger_log_def derive_recording fanout_Enabled_def Handler_Enabled_def Handler_Handle_def Let_def level_on_def split: option.split)

text \<open>A stretch of logging: each record with the context of the logger that made it.\<close>

definition log_all :: "log_format \<Rightarrow> LogCfg \<Rightarrow> (log_context list \<times> slog_record \<times> nat option) list \<Rightarrow> log_sinks \<Rightarrow> log_sinks" where
  "log_all fmt cfg xs s = fold (\<lambda>(ctx, x). logger_log fmt (derive ctx (NewRecording cfg)) x) xs s"

definition json_lines :: "log_format \<Rightarrow> LogCfg \<Rightarrow> (log_context list \<times> slog_record \<times> nat option) list \<Rightarrow> bytes list" where
  "json_lines fmt cfg xs = map (\<lambda>(ctx, r, _). fmt JSONHandler ctx r) (filter (\<lambda>(_, r, _). level_on cfg r) xs)"

lemma ring_ok_log:
  assumes "ring_ok r (log_of ps)"
  shows "ring_ok (Recorder_Write p r) (log_of (ps @ [p])) \<and> length (re_ring (Recorder_Write p r)) = length (re_ring r)"
proof (cases "TrimRight p (CHR 0x0A) = []")
  case True
  then show ?thesis using assms by (simp add: log_of_snoc Recorder_Write_def)
next
  case False
  then show ?thesis using ring_write [OF assms False] by (simp add: log_of_snoc) (simp add: Recorder_Write_def Let_def)
qed

lemma log_all_ring:
  "ring_ok (lg_recorder (log_all fmt cfg xs \<lparr>lg_written = w, lg_recorder = NewRecorder cap\<rparr>)) (log_of (json_lines fmt cfg xs)) \<and>
   length (re_ring (lg_recorder (log_all fmt cfg xs \<lparr>lg_written = w, lg_recorder = NewRecorder cap\<rparr>))) = length (re_ring (NewRecorder cap))"
proof (induction xs rule: rev_induct)
  case Nil
  then show ?case using ring_new by (simp add: log_all_def json_lines_def log_of_def)
next
  case (snoc x xs)
  obtain ctx r fault where x: "x = (ctx, r, fault)" by (cases x)
  show ?case
  proof (cases "level_on cfg r")
    case True
    then have j: "json_lines fmt cfg (xs @ [x]) = json_lines fmt cfg xs @ [fmt JSONHandler ctx r]" by (simp add: json_lines_def x)
    show ?thesis using ring_ok_log [of _ "json_lines fmt cfg xs" "fmt JSONHandler ctx r"] snoc.IH True
      unfolding j by (simp add: log_all_def x logger_log_recording)
  next
    case False
    then show ?thesis using snoc.IH by (simp add: log_all_def json_lines_def x logger_log_recording)
  qed
qed

text \<open>
  C35. The admin console shows the log: after any stretch of logging through loggers derived from
  the node's, the recorder's backlog is the last of the JSON lines of exactly the records at or above
  the configured level, each with its logger's attributes and groups, numbered in order, whatever the
  configured format and level and however often writing to the log itself failed; and as long as no
  such write fails, the log holds exactly the same records in the configured format.
\<close>

theorem console_shows_log:
  assumes "s = log_all fmt cfg xs \<lparr>lg_written = [], lg_recorder = NewRecorder cap\<rparr>"
  shows "Backlog (lg_recorder s) =
      drop (length (log_of (json_lines fmt cfg xs)) - length (re_ring (NewRecorder cap))) (log_of (json_lines fmt cfg xs)) \<and>
    (list_all (\<lambda>(_, _, fault). fault = None) xs \<longrightarrow>
       lg_written s = concat (map (\<lambda>(ctx, r, _). fmt (handlerFor cfg) ctx r) (filter (\<lambda>(_, r, _). level_on cfg r) xs)))"
proof
  show "Backlog (lg_recorder s) =
      drop (length (log_of (json_lines fmt cfg xs)) - length (re_ring (NewRecorder cap))) (log_of (json_lines fmt cfg xs))"
    using Backlog_ring [of "lg_recorder s" "log_of (json_lines fmt cfg xs)"] log_all_ring [of fmt cfg xs "[]" cap] assms by simp
  have "list_all (\<lambda>(_, _, fault). fault = None) xs \<Longrightarrow> lg_written (log_all fmt cfg xs \<lparr>lg_written = [], lg_recorder = NewRecorder cap\<rparr>) =
      concat (map (\<lambda>(ctx, r, _). fmt (handlerFor cfg) ctx r) (filter (\<lambda>(_, r, _). level_on cfg r) xs))"
    by (induction xs rule: rev_induct) (auto simp: log_all_def logger_log_recording)
  then show "list_all (\<lambda>(_, _, fault). fault = None) xs \<longrightarrow>
       lg_written s = concat (map (\<lambda>(ctx, r, _). fmt (handlerFor cfg) ctx r) (filter (\<lambda>(_, r, _). level_on cfg r) xs))"
    using assms by simp
qed

definition demo_fmt :: log_format where
  "demo_fmt k ctx r = (case k of JSONHandler \<Rightarrow> ''j'' | TextHandler \<Rightarrow> ''t'') @ rr_msg r"

definition demo_log_cfg :: LogCfg where
  "demo_log_cfg = (c_Log Default)\<lparr>log_Level := ''warn'', log_Format := ''text''\<rparr>"

abbreviation demo_rec :: "level \<Rightarrow> string \<Rightarrow> slog_record" where
  "demo_rec l m \<equiv> \<lparr>rr_level = l, rr_msg = m, rr_attrs = []\<rparr>"

theorem console_shows_log_witness:
  "map lr_Line (Backlog (lg_recorder (log_all demo_fmt demo_log_cfg [([], demo_rec Info ''a'', None), ([], demo_rec Warn ''b'', Some 0), ([], demo_rec Error ''c'', None)]
     \<lparr>lg_written = [], lg_recorder = NewRecorder 10\<rparr>))) = [''jb'', ''jc'']"
proof -
  let ?xs = "[([], demo_rec Info ''a'', None), ([], demo_rec Warn ''b'', Some 0), ([], demo_rec Error ''c'', None)]"
  have on: "level_on demo_log_cfg (demo_rec l m) \<longleftrightarrow> level_rank l \<ge> 4" for l m
    by (simp add: level_on_def handlerOptions_def demo_log_cfg_def go_strings Let_def)
  then have j: "json_lines demo_fmt demo_log_cfg ?xs = [''jb'', ''jc'']" by (simp add: json_lines_def demo_fmt_def)
  have t: "TrimRight ''jb'' (CHR 0x0A) = ''jb''" "TrimRight ''jc'' (CHR 0x0A) = ''jc''" by code_simp+
  have l: "map lr_Line (log_of [''jb'', ''jc'']) = [''jb'', ''jc'']" "length (log_of [''jb'', ''jc'']) = 2" by (simp_all add: log_of_def t)
  have "length (re_ring (NewRecorder 10)) = 10" by (simp add: NewRecorder_def)
  then show ?thesis using console_shows_log [OF refl, of demo_fmt demo_log_cfg ?xs 10] unfolding j by (simp add: l)
qed

end
