(* ===== verification/CallbackPage.thy ===== *)
theory CallbackPage
  imports AdminHttp
begin

text \<open>
  The page the browser is left on after a sign-in (writeCallbackPage in
  internal/adminapi/controlplane_auth.go), with html.EscapeString as Go's html package has it.
\<close>

section \<open>Escaping\<close>

definition html_entity :: "char \<Rightarrow> string" where
  "html_entity c = (if c = CHR ''<'' then ''&lt;'' else if c = CHR ''>'' then ''&gt;'' else if c = CHR ''&'' then ''&amp;''
     else if c = CHR 0x27 then ''&#39;'' else if c = CHR 0x22 then ''&#34;'' else [c])"

definition html_escape :: "string \<Rightarrow> string" where
  "html_escape s = concat (map html_entity s)"

section \<open>The page\<close>

definition page_head :: string where
  "page_head = Join [
     ''<style>'',
     '' body{font:16px/1.5 system-ui,sans-serif;margin:0;display:grid;place-items:center;min-height:100vh;background:#0f1115;color:#e6e8ee}'',
     '' .card{max-width:32rem;padding:2rem;border:1px solid #262b36;border-radius:12px;background:#151922}'',
     '' h1{font-size:1.25rem;margin:0 0 .5rem}'',
     '' p{margin:0;color:#aeb4c2}'',
     '' .bad h1{color:#ff8f8f}'',
     ''</style></head>''] [CHR 0x0A]"

definition page_script :: string where
  "page_script = Join [
     ''<script>'',
     ''// Strip the authorization code from the address bar so it does not linger'',
     ''// in history or get shoulder-read. The exchange has already happened.'',
     ''if (window.history && window.history.replaceState) {'',
     ''  window.history.replaceState({}, \"\", window.location.pathname);'',
     ''}'',
     ''</script>'',
     ''</body></html>''] [CHR 0x0A]"

definition page_top :: "string \<Rightarrow> bool \<Rightarrow> string" where
  "page_top title ok =
     ''<!doctype html>'' @ [CHR 0x0A] @ ''<html><head><meta charset=\"utf-8\"><title>'' @ html_escape title @ ''</title>'' @ [CHR 0x0A] @
     page_head @ [CHR 0x0A] @ ''<body><div class=\"card'' @ (if ok then [] else '' bad'') @ ''\"><h1>'' @ html_escape title @ ''</h1><p>''"

definition callback_html :: "string \<Rightarrow> bool \<Rightarrow> string \<Rightarrow> string" where
  "callback_html title ok body = page_top title ok @ html_escape body @ ''</p></div>'' @ [CHR 0x0A] @ page_script"

text \<open>Status, headers and body.\<close>

definition writeCallbackPage :: "nat \<Rightarrow> bool \<Rightarrow> string \<Rightarrow> nat \<times> (string \<times> string) list \<times> string" where
  "writeCallbackPage status ok detail =
    (let title = (if ok then ''Connected to One Silo'' else ''Could not connect'');
         body = (if ok then ''This node is now connected. You can close this tab and return to the admin console.'' else detail) in
     (status, [(''Content-Type'', ''text/html; charset=utf-8''), (''Referrer-Policy'', ''no-referrer'')], callback_html title ok body))"

section \<open>What is written into the page stays text\<close>

definition is_markup :: "char \<Rightarrow> bool" where
  "is_markup c \<longleftrightarrow> c \<in> {CHR ''<'', CHR ''>'', CHR 0x22, CHR 0x27}"

lemma entity_no_markup: "c \<in> set (html_entity d) \<Longrightarrow> \<not> is_markup c"
  by (auto simp: html_entity_def is_markup_def split: if_splits)

lemma html_escape_no_markup: "filter is_markup (html_escape s) = []"
  by (auto simp: html_escape_def filter_empty_conv entity_no_markup)

text \<open>Every ampersand of an escaped text begins one of the five entities.\<close>

fun entities_only :: "string \<Rightarrow> bool" where
  "entities_only [] \<longleftrightarrow> True"
| "entities_only (c # s) \<longleftrightarrow> (c = CHR ''&'' \<longrightarrow> list_ex (HasPrefix s) [''lt;'', ''gt;'', ''amp;'', ''#39;'', ''#34;'']) \<and> entities_only s"

lemma entities_append: "\<forall>c \<in> set e. c \<noteq> CHR ''&'' \<Longrightarrow> entities_only (e @ s) \<longleftrightarrow> entities_only s"
  by (induction e) auto

lemma html_escape_entities: "entities_only (html_escape s)"
proof (induction s)
  case (Cons c s)
  have e: "html_escape (c # s) = html_entity c @ html_escape s" by (simp add: html_escape_def)
  show ?case unfolding e html_entity_def using Cons.IH by (auto simp: HasPrefix_def)
qed (simp add: html_escape_def)

text \<open>
  C40. The text of a refused or failed sign-in, which can come from the control plane or from the
  query of whoever opened the callback, stays text: around it the page is always the same, and what
  the text puts there has no tag and no quote, every ampersand in it beginning one of the five
  entities; and the page, whose address holds the authorization code, sends no referrer.
\<close>

theorem callback_page_safe:
  "\<exists>pre post. \<forall>detail. writeCallbackPage status False detail =
      (status, [(''Content-Type'', ''text/html; charset=utf-8''), (''Referrer-Policy'', ''no-referrer'')], pre @ html_escape detail @ post) \<and>
    filter is_markup (html_escape detail) = [] \<and> entities_only (html_escape detail)"
proof -
  have "\<exists>pre post. \<forall>b. callback_html t False b = pre @ html_escape b @ post" for t
    unfolding callback_html_def by blast
  then obtain pre post where "\<forall>b. callback_html ''Could not connect'' False b = pre @ html_escape b @ post" by blast
  then show ?thesis
    by (intro exI [of _ pre] exI [of _ post]) (simp add: writeCallbackPage_def html_escape_no_markup html_escape_entities)
qed

end
