(* ===== verification/Spec2Isabelle.thy ===== *)
theory Spec2Isabelle
  imports Router_Run LanServer AdminHttp Panel Daemon Logging CallbackPage
begin

text \<open>
  A verification development for onesilo-node, the daemon that lends a machine's memory store and
  local model to its owner's Silo apps.

  \<^bold>\<open>The program.\<close> One process (cmd/onesilo-node, internal/node) holds a configuration and reconciles
  five capabilities with it: compute (a local Ollama server), memory (a SQLite store behind an HTTP
  API), gateway (a relay to the control plane), openai (an OpenAI-shaped inference surface) and lan
  (the server the others are mounted on, with a WebSocket protocol for apps and a Bonjour advert).
  When the node is exposed it runs a Cloudflare tunnel and registers the tunnel's URL with the
  control plane. A loopback admin API changes the configuration, signs the node in and confirms
  pairings. Every secret is a file in one data directory. The setup command writes the first
  configuration and runs the node under a menu in the terminal.

  \<^bold>\<open>How an app reaches inference.\<close> A frame arrives on a WebSocket (LanServer), is routed by Router,
  which runs the pairing handshake (Handshake) over assertions checked by Verify against keys that
  Jwks fetches, remembers app keys in PinStore, seals replies with Crypto, and gates generations by
  what PinStore holds as verified.

  \<^bold>\<open>How a request reaches the node.\<close> On the LAN port a request passes the mux (Http) to the memory API,
  the relay or the OpenAI surface (Relay), each behind its own key; on the admin port it passes the
  host check and the token (AdminHttp) to a handler over the node's state (Node, SignIn, KeyStore,
  Memory, Compute, Export). Daemon starts all of it from the files of the data directory, runs it
  as a step relation and tears it down; Panel is the same node under the terminal's menu.

  \<^bold>\<open>Theories and what they model\<close> (paths under src/internal, or src/cmd/onesilo-node where it says so):
  \<^item> Prelude, Json, Base64, Url: the parts of Go's standard library the sources call: strings,
    wrapping 64-bit integers, byte orders, hex, JSON texts with their parser and both printers and
    the field-filling rules of Unmarshal, base64, URL parsing. Lemmas: printing and parsing are
    inverse for JSON, hex and base64.
  \<^item> Fs (fsutil/atomic.go): files, WriteFileAtomic as the list of disks after each call; the locale
    durable_file of whole-file replacement, interpreted on it.
  \<^item> PinStore (pairing/pinstore.go): the devices map and its file; refinement to one pinned key per
    account, persistence, and that a verified key can never be replaced; locale pin_registry.
  \<^item> Crypto (pairing/crypto.go, identity.go, lanserve/envelope.go): transcript, key schedule, tags,
    SAS, envelopes over a record of primitives; the transcript encoding is injective.
  \<^item> Jwks (pairing/jwks.go and ParseJWKS in verify.go): the key cache, its rate limit and the
    single flight of fetches as a step relation; locale key_source.
  \<^item> Verify (pairing/verify.go): the assertion check, sound and complete for its specification.
  \<^item> Handshake (pairing/handshake.go): hello and confirm, identity binding, agreement of both sides.
  \<^item> Router, Router_Run (lanserve/router.go, pairing.go, messages.go): sessions and frames; no
    inference before verification, no downgrade to the file key, reply streams.
  \<^item> LanServer (lanserve/server.go, capability.go, bonjour.go): the slot counter as a step relation,
    Start and Stop, the Bonjour reconciliation over the locale announcer.
  \<^item> Config (config/config.go, load.go; the patch of adminapi/handlers.go): settings, precedence,
    validation, saving, patches.
  \<^item> KeyStore (openaiapi/keys.go, node/inference_key.go): minted API keys, memory against file.
  \<^item> MemStore, Recall, Memory (memory/*.go): SQL tables, at-rest cipher, hybrid recall, the
    capability and its HTTP handlers; refinement to a map from silo and id to memories.
  \<^item> Registration (controlplane/client.go, heartbeat.go): API client, device id, the manager's loop
    split at its network calls.
  \<^item> OAuth (controlplane/auth.go, oauth.go), SignIn (controlplane/oauthflow.go,
    adminapi/controlplane_auth.go): the grant with its refresh, and the sign-in flow.
  \<^item> Tunnel (tunnel/cloudflared.go, managed.go): output scanning and both supervision loops, over the
    locale supervised: their waits, what they report, and at most one process at any time.
  \<^item> Recorder (logging/recorder.go, adminapi/logs.go), Logging (recorder.go, logging.go): the log
    ring and the console's stream; the fan-out of every record to the log and to the ring.
  \<^item> Node (node/node.go): Reconcile, config patches, provisioning, the Bonjour id, and what of the
    registration manager a reconcile can change.
  \<^item> Compute (compute/*.go, node/ui.go, the Generate of node.go): the Ollama client's line streams, the
    server the node spawns and stops, model resolution, pulls and generations.
  \<^item> Http: paths, queries, headers and the patterns of net/http's ServeMux. Relay (gateway/gateway.go,
    openaiapi/capability.go, memory/api.go, the muxes of node.go and lanserve/server.go): the three
    surfaces of the LAN port with their gates, and the request the relay sends on.
  \<^item> Export (siloexport/siloexport.go): the package a silo is exported as.
  \<^item> AdminHttp (adminapi/server.go, auth.go, handlers.go, ui_api.go, logs.go, controlplane_auth.go and the
    controller methods of node/node.go and node/ui.go): the two gates and every route.
    CallbackPage (writeCallbackPage): the page a sign-in ends on, and that text in it stays text.
  \<^item> Install (install.go of cmd/onesilo-node): downloads and the unpacking of archives, symlinks
    followed, and that it stays below its directory where it does.
  \<^item> Setup (setup.go, shape.go, admintoken.go, parentwatch.go, healthcheck.go of cmd/onesilo-node and
    logging/logging.go): the wizard with its questions, the reach shapes, the admin token.
  \<^item> Panel (panel.go, signin.go of cmd/onesilo-node): the screen, every menu action on the running
    node, the loop, and the sign-in through a loopback callback.
  \<^item> Daemon (main.go of cmd/onesilo-node; New and Run of node/node.go; Server.Start of
    adminapi/server.go): command, configuration, New over the data directory, Run as a step relation
    and its teardown: it is orderly, it can always be completed, the configuration that runs is
    valid throughout, and a restart finds the same secrets.

  \<^bold>\<open>Conventions.\<close> A Go string is a list of bytes; a map is an association list; an error is the left
  side of a sum or a constructor of the component's error type. Whatever the environment decides
  (clock readings, random bytes, replies, which system call fails) is an argument, so every
  theorem holds for all of it. Concurrency is either a step relation whose steps are the critical
  sections, or an operation split at the call that runs without the lock. A wait is recorded, not
  spent. A loop that never ends in the program is a function of the rounds it has met.

  \<^bold>\<open>Bounds.\<close> The JSON parser takes the number of tokens as its fuel, which is enough for any nesting
  (lemma parse_val_toks). URLs, headers and keys have no bound but those of the code. int64
  arithmetic wraps where the code relies on it (Prelude.wrap64). The wait of the panel for its node
  to start is thirty polls of a tenth of a second, which is the deadline of three seconds.

  \<^bold>\<open>Parameters.\<close> Code outside the repository is a parameter with named laws: the primitives of
  crypto (a record, laws in Crypto and Verify), SQLite's FTS5 matching, AES-GCM, time formatting,
  the TOML codec, UUIDs, floats, slog's formatting, HTTP transports and processes (their outcomes
  are arguments).

  \<^bold>\<open>Not modelled.\<close> The embedded web page of the admin UI and its file server (adminui), the version
  variables, the SQL text and the pragmas of the store's connection, the drawing of progress on
  the terminal and opening a browser, keep-alives and the flushing of streams, HTTP server limits
  and timeouts, mutexes as such (their critical sections are the steps), and the constructors and
  getters that only pass a value on.
\<close>

end
